(* ===== verification/Prelude.thy ===== *)
theory Prelude
  imports Main "HOL-Library.Word" "HOL-Library.List_Lexorder"
begin

text \<open>
  Shared vocabulary of the development: the machine integers and byte strings of the Rust
  sources, \<open>Result\<close> and the \<open>?\<close> operator, overflow-checked addition, big-endian conversions,
  text as UTF-8 bytes, and the wire-codec interfaces that the components interpret.
\<close>

unbundle bit_operations_syntax

section \<open>Automation collections\<close>

named_theorems result_simps \<open>rewriting of results, binds and traversals\<close>
named_theorems byte_simps \<open>byte strings, big-endian integers and text\<close>

section \<open>Machine integers and byte strings\<close>

type_synonym u8 = "8 word"
type_synonym u32 = "32 word"
type_synonym u64 = "64 word"
type_synonym bytes = "u8 list"

section \<open>Results\<close>

text \<open>Rust's \<open>Result<T, E>\<close>; \<open>bind\<close> is the \<open>?\<close> operator.\<close>

datatype ('e, 'a) result = Err 'e | Ok 'a

primrec bind :: "('e, 'a) result \<Rightarrow> ('a \<Rightarrow> ('e, 'b) result) \<Rightarrow> ('e, 'b) result" where
  "bind (Err e) f = Err e"
| "bind (Ok x) f = f x"

primrec map_err :: "('e \<Rightarrow> 'f) \<Rightarrow> ('e, 'a) result \<Rightarrow> ('f, 'a) result" where
  "map_err g (Err e) = Err (g e)"
| "map_err g (Ok x) = Ok x"

primrec is_ok :: "('e, 'a) result \<Rightarrow> bool" where
  "is_ok (Err e) = False"
| "is_ok (Ok x) = True"

definition ok_or :: "'a option \<Rightarrow> 'e \<Rightarrow> ('e, 'a) result" where
  "ok_or m e = (case m of None \<Rightarrow> Err e | Some x \<Rightarrow> Ok x)"

text \<open>\<open>guard\<close> is an early return: \<open>if c { return Err(e) }\<close> is \<open>bind (guard (\<not> c) e)\<close>.\<close>

definition guard :: "bool \<Rightarrow> 'e \<Rightarrow> ('e, unit) result" where
  "guard c e = (if c then Ok () else Err e)"

text \<open>\<open>iter().map(f).collect::<Result<Vec<_>>>()\<close>: the first error wins.\<close>

primrec collect :: "('a \<Rightarrow> ('e, 'b) result) \<Rightarrow> 'a list \<Rightarrow> ('e, 'b list) result" where
  "collect f [] = Ok []"
| "collect f (x # xs) = bind (f x) (\<lambda>y. bind (collect f xs) (\<lambda>ys. Ok (y # ys)))"

text \<open>\<open>Option::map(f).transpose()\<close>.\<close>

definition transpose_opt :: "('a \<Rightarrow> ('e, 'b) result) \<Rightarrow> 'a option \<Rightarrow> ('e, 'b option) result" where
  "transpose_opt f m = (case m of None \<Rightarrow> Ok None | Some x \<Rightarrow> bind (f x) (\<lambda>y. Ok (Some y)))"

lemma bind_cong [fundef_cong]:
  "r = r' \<Longrightarrow> (\<And>x. r' = Ok x \<Longrightarrow> f x = g x) \<Longrightarrow> bind r f = bind r' g"
  by (cases r') auto

lemma bind_Ok_iff [result_simps]: "bind r f = Ok y \<longleftrightarrow> (\<exists>x. r = Ok x \<and> f x = Ok y)"
  by (cases r) auto

lemma bind_Err_iff [result_simps]:
  "bind r f = Err e \<longleftrightarrow> r = Err e \<or> (\<exists>x. r = Ok x \<and> f x = Err e)"
  by (cases r) auto

lemma bind_assoc: "bind (bind r f) g = bind r (\<lambda>x. bind (f x) g)"
  by (cases r) auto

lemma bind_Ok_right [simp]: "bind r Ok = r"
  by (cases r) auto

lemma map_err_Ok_iff [result_simps]: "map_err g r = Ok x \<longleftrightarrow> r = Ok x"
  by (cases r) auto

lemma map_err_Err_iff [result_simps]: "map_err g r = Err f \<longleftrightarrow> (\<exists>e. r = Err e \<and> f = g e)"
  by (cases r) auto

lemma is_ok_iff [result_simps]: "is_ok r \<longleftrightarrow> (\<exists>x. r = Ok x)"
  by (cases r) auto

lemma ok_or_simps [simp]: "ok_or None e = Err e" "ok_or (Some x) e = Ok x"
  by (simp_all add: ok_or_def)

lemma ok_or_Ok_iff [result_simps]: "ok_or m e = Ok x \<longleftrightarrow> m = Some x"
  by (cases m) auto

lemma guard_Ok_iff [result_simps]: "guard c e = Ok u \<longleftrightarrow> c"
  by (simp add: guard_def)

lemma guard_Err_iff [result_simps]: "guard c e = Err f \<longleftrightarrow> \<not> c \<and> f = e"
  by (auto simp: guard_def)

lemma guard_simps [simp]: "guard True e = Ok ()" "guard False e = Err e"
  by (simp_all add: guard_def)

lemma transpose_opt_simps [simp]:
  "transpose_opt f None = Ok None"
  "transpose_opt f (Some x) = bind (f x) (\<lambda>y. Ok (Some y))"
  by (simp_all add: transpose_opt_def)

lemma transpose_opt_Ok_iff [result_simps]:
  "transpose_opt f m = Ok y \<longleftrightarrow>
     (m = None \<and> y = None) \<or> (\<exists>x z. m = Some x \<and> f x = Ok z \<and> y = Some z)"
  by (cases m) (auto simp: result_simps)

lemma collect_cong [fundef_cong]:
  "xs = ys \<Longrightarrow> (\<And>x. x \<in> set ys \<Longrightarrow> f x = g x) \<Longrightarrow> collect f xs = collect g ys"
proof (induction ys arbitrary: xs)
  case Nil
  then show ?case by simp
next
  case (Cons y ys)
  then have "f y = g y" and "collect f ys = collect g ys" by auto
  with Cons.prems(1) show ?case by simp
qed

lemma collect_Ok_iff [result_simps]:
  "collect f xs = Ok ys \<longleftrightarrow> list_all2 (\<lambda>x y. f x = Ok y) xs ys"
  by (induction xs arbitrary: ys) (auto simp: bind_Ok_iff list_all2_Cons1)

lemma collect_map_Ok: "(\<And>x. x \<in> set xs \<Longrightarrow> f (g x) = Ok (h x)) \<Longrightarrow> collect f (map g xs) = Ok (map h xs)"
  by (induction xs) auto

section \<open>Arithmetic that may overflow\<close>

text \<open>
  A computation either finishes or panics. \<open>add_u64\<close> is Rust's \<open>+\<close> on \<open>u64\<close>: when the sum
  does not fit, a build with overflow checks (the debug profile) panics and a build without
  them (the release profile) wraps around.
\<close>

datatype 'a outcome = Done 'a | Panic

primrec andthen :: "'a outcome \<Rightarrow> ('a \<Rightarrow> 'b outcome) \<Rightarrow> 'b outcome" where
  "andthen (Done x) f = f x"
| "andthen Panic f = Panic"

definition add_u64 :: "bool \<Rightarrow> u64 \<Rightarrow> u64 \<Rightarrow> u64 outcome" where
  "add_u64 checked a b = (if checked \<and> unat a + unat b \<ge> 2 ^ 64 then Panic else Done (a + b))"

definition checked_add_u64 :: "u64 \<Rightarrow> u64 \<Rightarrow> u64 option" where
  "checked_add_u64 a b = (if unat a + unat b < 2 ^ 64 then Some (a + b) else None)"

definition saturating_add_u64 :: "u64 \<Rightarrow> u64 \<Rightarrow> u64" where
  "saturating_add_u64 a b = (if unat a + unat b < 2 ^ 64 then a + b else - 1)"

lemma andthen_Done_iff: "andthen m f = Done y \<longleftrightarrow> (\<exists>x. m = Done x \<and> f x = Done y)"
  by (cases m) auto

lemma andthen_Panic_iff: "andthen m f = Panic \<longleftrightarrow> m = Panic \<or> (\<exists>x. m = Done x \<and> f x = Panic)"
  by (cases m) auto

lemma unat_add_fits: "unat (a :: u64) + unat b < 2 ^ 64 \<Longrightarrow> unat (a + b) = unat a + unat b"
  by (simp add: unat_word_ariths)

lemma add_u64_fits [simp]: "unat a + unat b < 2 ^ 64 \<Longrightarrow> add_u64 checked a b = Done (a + b)"
  by (simp add: add_u64_def)

lemma checked_add_u64_Some_iff:
  "checked_add_u64 a b = Some c \<longleftrightarrow> unat a + unat b < 2 ^ 64 \<and> c = a + b"
  by (auto simp: checked_add_u64_def)

lemma unat_saturating_add:
  "unat (saturating_add_u64 a b) = min (unat a + unat b) (2 ^ 64 - 1)"
  by (auto simp: saturating_add_u64_def unat_word_ariths min_def
      unsigned_minus_1_eq_mask mask_eq_exp_minus_1)

section \<open>Big-endian integers\<close>

text \<open>
  \<open>to_be_bytes k n\<close> is the big-endian form of the low \<open>k\<close> bytes of \<open>n\<close>: \<open>(n as u16).to_be_bytes()\<close>
  is \<open>to_be_bytes 2 n\<close>, and so on. \<open>from_be_bytes\<close> reads such a form back.
\<close>

primrec nat_to_be :: "nat \<Rightarrow> nat \<Rightarrow> bytes" where
  "nat_to_be 0 n = []"
| "nat_to_be (Suc k) n = nat_to_be k (n div 256) @ [word_of_nat (n mod 256)]"

definition be_to_nat :: "bytes \<Rightarrow> nat" where
  "be_to_nat bs = foldl (\<lambda>acc b. acc * 256 + unat b) 0 bs"

definition to_be_bytes :: "nat \<Rightarrow> 'a::len word \<Rightarrow> bytes" where
  "to_be_bytes k n = nat_to_be k (unat n)"

definition from_be_bytes :: "bytes \<Rightarrow> 'a::len word" where
  "from_be_bytes bs = word_of_nat (be_to_nat bs)"

lemma be_to_nat_snoc: "be_to_nat (bs @ [b]) = be_to_nat bs * 256 + unat b"
  by (simp add: be_to_nat_def)

lemma be_to_nat_Nil [simp]: "be_to_nat [] = 0"
  by (simp add: be_to_nat_def)

lemma length_nat_to_be [simp]: "length (nat_to_be k n) = k"
  by (induction k arbitrary: n) auto

lemma length_to_be_bytes [simp]: "length (to_be_bytes k n) = k"
  by (simp add: to_be_bytes_def)

lemma unat_byte_of_mod: "unat (word_of_nat (n mod 256) :: u8) = n mod 256"
  by (simp add: unat_of_nat)

lemma be_to_nat_leading_zeros: "be_to_nat (replicate n 0 @ bs) = be_to_nat bs"
  by (induction bs rule: rev_induct)
    (auto simp: be_to_nat_snoc simp flip: append_assoc, induction n, auto simp: be_to_nat_def)

lemma be_to_nat_to_be: "be_to_nat (nat_to_be k n) = n mod 256 ^ k"
proof (induction k arbitrary: n)
  case 0
  then show ?case by simp
next
  case (Suc k)
  have "be_to_nat (nat_to_be (Suc k) n) = (n div 256 mod 256 ^ k) * 256 + n mod 256"
    by (simp add: be_to_nat_snoc Suc unat_byte_of_mod)
  also have "\<dots> = n mod 256 ^ Suc k"
    by (metis mod_mult2_eq mult.commute power_Suc)
  finally show ?case .
qed

lemma be_to_nat_less: "be_to_nat bs < 256 ^ length bs"
proof (induction bs rule: rev_induct)
  case Nil
  then show ?case by simp
next
  case (snoc b bs)
  have "unat b < 256" using unsigned_less [of b] by simp
  with snoc show ?case by (simp add: be_to_nat_snoc)
qed

lemma nat_to_be_of_be: "nat_to_be (length bs) (be_to_nat bs) = bs"
proof (induction bs rule: rev_induct)
  case Nil
  then show ?case by simp
next
  case (snoc b bs)
  have "unat b < 256" using unsigned_less [of b] by simp
  then have "(be_to_nat bs * 256 + unat b) div 256 = be_to_nat bs"
    and "(be_to_nat bs * 256 + unat b) mod 256 = unat b" by auto
  with snoc show ?case by (simp add: be_to_nat_snoc)
qed

lemma from_to_be_bytes:
  assumes "unat n < 256 ^ k"
  shows "from_be_bytes (to_be_bytes k n) = n"
  using assms by (simp add: from_be_bytes_def to_be_bytes_def be_to_nat_to_be)

lemma to_from_be_bytes:
  assumes "length bs = k" and "k * 8 \<le> LENGTH('a)"
  shows "to_be_bytes k (from_be_bytes bs :: 'a::len word) = bs"
proof -
  have "(256::nat) ^ k = 2 ^ (8 * k)" by (simp add: power_mult)
  also have "\<dots> \<le> 2 ^ LENGTH('a)" using assms(2) by (intro power_increasing) auto
  finally have "be_to_nat bs < 2 ^ LENGTH('a)"
    using be_to_nat_less [of bs] assms(1) by simp
  then have "unat (from_be_bytes bs :: 'a word) = be_to_nat bs"
    by (simp add: from_be_bytes_def unat_of_nat)
  with assms(1) show ?thesis by (auto simp: to_be_bytes_def nat_to_be_of_be)
qed

lemma unat_from_be_bytes:
  assumes "length bs * 8 \<le> LENGTH('a)"
  shows "unat (from_be_bytes bs :: 'a::len word) = be_to_nat bs"
proof -
  have "(256::nat) ^ length bs = 2 ^ (8 * length bs)" by (simp add: power_mult)
  also have "\<dots> \<le> 2 ^ LENGTH('a)" using assms by (intro power_increasing) auto
  finally show ?thesis
    using be_to_nat_less [of bs] by (simp add: from_be_bytes_def unat_of_nat)
qed

section \<open>Text\<close>

text \<open>
  A Rust \<open>String\<close> is a sequence of UTF-8 bytes. HOL's \<open>char\<close> is a byte, so text is a \<open>string\<close>;
  \<open>str_bytes\<close> is \<open>as_bytes\<close> and \<open>length\<close> is \<open>len\<close>. \<open>utf8_valid\<close> is the well-formedness table
  of the Unicode standard that \<open>std::str::from_utf8\<close> enforces.
\<close>

definition byte_of_char :: "char \<Rightarrow> u8" where
  "byte_of_char c = word_of_nat (of_char c)"

definition char_of_byte :: "u8 \<Rightarrow> char" where
  "char_of_byte b = char_of (unat b)"

definition str_bytes :: "string \<Rightarrow> bytes" where
  "str_bytes s = map byte_of_char s"

definition utf8_cont :: "u8 \<Rightarrow> bool" where
  "utf8_cont b \<longleftrightarrow> 0x80 \<le> b \<and> b \<le> 0xBF"

fun utf8_valid :: "bytes \<Rightarrow> bool" where
  "utf8_valid [] = True"
| "utf8_valid (b0 # bs) =
    (if b0 \<le> 0x7F then utf8_valid bs
     else if 0xC2 \<le> b0 \<and> b0 \<le> 0xDF then
       (case bs of b1 # r \<Rightarrow> utf8_cont b1 \<and> utf8_valid r | _ \<Rightarrow> False)
     else if 0xE0 \<le> b0 \<and> b0 \<le> 0xEF then
       (case bs of b1 # b2 # r \<Rightarrow>
          utf8_cont b1 \<and> utf8_cont b2 \<and> (b0 = 0xE0 \<longrightarrow> 0xA0 \<le> b1) \<and> (b0 = 0xED \<longrightarrow> b1 \<le> 0x9F)
            \<and> utf8_valid r
        | _ \<Rightarrow> False)
     else if 0xF0 \<le> b0 \<and> b0 \<le> 0xF4 then
       (case bs of b1 # b2 # b3 # r \<Rightarrow>
          utf8_cont b1 \<and> utf8_cont b2 \<and> utf8_cont b3 \<and> (b0 = 0xF0 \<longrightarrow> 0x90 \<le> b1)
            \<and> (b0 = 0xF4 \<longrightarrow> b1 \<le> 0x8F) \<and> utf8_valid r
        | _ \<Rightarrow> False)
     else False)"

declare utf8_valid.simps(2) [simp del]

definition from_utf8 :: "bytes \<Rightarrow> string option" where
  "from_utf8 bs = (if utf8_valid bs then Some (map char_of_byte bs) else None)"

definition valid_text :: "string \<Rightarrow> bool" where
  "valid_text s \<longleftrightarrow> utf8_valid (str_bytes s)"

lemma char_of_byte_of_char [simp]: "char_of_byte (byte_of_char c) = c"
proof -
  have "of_char c < (256 :: nat)" by simp
  then show ?thesis
    by (simp add: char_of_byte_def byte_of_char_def unat_of_nat)
qed

lemma byte_of_char_of_byte [simp]: "byte_of_char (char_of_byte b) = b"
proof -
  have "unat b < 256" using unsigned_less [of b] by simp
  then show ?thesis by (simp add: char_of_byte_def byte_of_char_def)
qed

lemma length_str_bytes [simp]: "length (str_bytes s) = length s"
  by (simp add: str_bytes_def)

lemma chars_of_str_bytes [simp]: "map char_of_byte (str_bytes s) = s"
  by (simp add: str_bytes_def comp_def)

lemma str_bytes_of_chars [simp]: "str_bytes (map char_of_byte bs) = bs"
  by (simp add: str_bytes_def comp_def)

lemma inj_str_bytes: "inj str_bytes"
  by (rule inj_on_inverseI [where g = "map char_of_byte"]) simp

lemma str_bytes_eq_iff [simp]: "str_bytes s = str_bytes t \<longleftrightarrow> s = t"
  using inj_str_bytes by (rule inj_eq)

lemma from_utf8_str_bytes [simp]: "valid_text s \<Longrightarrow> from_utf8 (str_bytes s) = Some s"
  by (simp add: from_utf8_def valid_text_def)

lemma from_utf8_Some_iff: "from_utf8 bs = Some s \<longleftrightarrow> valid_text s \<and> str_bytes s = bs"
  by (auto simp: from_utf8_def valid_text_def)

lemma utf8_valid_ascii_Cons [simp]: "b \<le> 0x7F \<Longrightarrow> utf8_valid (b # bs) = utf8_valid bs"
  by (simp add: utf8_valid.simps(2))

lemma byte_of_char_ascii: "byte_of_char c \<le> 0x7F \<longleftrightarrow> \<not> digit7 c"
  by (cases c) (auto simp: byte_of_char_def of_char_Char word_le_nat_alt unat_of_nat)

text \<open>ASCII literals are valid text by rewriting, one character at a time.\<close>

lemma valid_text_Nil [simp]: "valid_text []"
  by (simp add: valid_text_def str_bytes_def)

lemma valid_text_Cons [simp]: "\<not> digit7 c \<Longrightarrow> valid_text (c # s) = valid_text s"
  by (simp add: valid_text_def str_bytes_def byte_of_char_ascii)

section \<open>Wire codecs\<close>

text \<open>
  The contract of the serialisable structures. \<open>dec_enc\<close> is the round trip for values that
  satisfy the type's invariant \<open>wf\<close>. A codec is canonical when, in addition, every accepted
  byte string is the encoding of the value it decodes to.
\<close>

locale wire_codec =
  fixes enc :: "'a \<Rightarrow> bytes"
    and dec :: "bytes \<Rightarrow> ('e, 'a) result"
    and wf :: "'a \<Rightarrow> bool"
  assumes dec_enc: "wf x \<Longrightarrow> dec (enc x) = Ok x"
begin

lemma enc_inj:
  assumes "wf x" and "wf y" and "enc x = enc y"
  shows "x = y"
  by (metis assms dec_enc result.inject(2))

lemma enc_eq_iff: "wf x \<Longrightarrow> wf y \<Longrightarrow> enc x = enc y \<longleftrightarrow> x = y"
  by (metis enc_inj)

end

locale canonical_codec = wire_codec +
  assumes dec_wf: "dec b = Ok x \<Longrightarrow> wf x"
    and enc_dec: "dec b = Ok x \<Longrightarrow> enc x = b"
begin

lemma dec_inj:
  assumes "dec b = Ok x" and "dec b' = Ok x"
  shows "b = b'"
  by (metis assms enc_dec)

lemma dec_Ok_iff: "dec b = Ok x \<longleftrightarrow> wf x \<and> enc x = b"
  by (metis dec_wf enc_dec dec_enc)

end

end
