(* ===== verification/Auth_Cbor.thy ===== *)
theory Auth_Cbor
  imports Prelude
begin

text \<open>
  The canonical CBOR codec of \<open>identikey-auth\<close> (\<open>cbor.rs\<close>) and the crate's error type
  (\<open>error.rs\<close>): the encoder with its key sort, the strict cursor-based decoder, and the typed
  accessors the protocol structures use.
\<close>

section \<open>Errors\<close>

datatype auth_error =
    Cbor string
  | MissingField string
  | Version u64
  | UnknownAlg string
  | InvalidKey string
  | InvalidSig string
  | BadSignature
  | Audience
  | NonceTooShort
  | NonceReplay
  | TimeWindow
  | PqRequiredError
  | PqDangling
  | State string
  | Backend string

section \<open>Values and the encoder\<close>

datatype cbor_value =
    Uint u64
  | Bytes bytes
  | Text string
  | Array "cbor_value list"
  | Map "(string \<times> cbor_value) list"

text \<open>Encode a head: major type in the high three bits, argument in smallest form.\<close>

definition encode_head :: "u8 \<Rightarrow> u64 \<Rightarrow> bytes" where
  "encode_head major n =
    (let mt = push_bit 5 major in
     if n < 24 then [mt OR ucast n]
     else if n \<le> 0xFF then [mt OR 24, ucast n]
     else if n \<le> 0xFFFF then (mt OR 25) # to_be_bytes 2 n
     else if n \<le> 0xFFFFFFFF then (mt OR 26) # to_be_bytes 4 n
     else (mt OR 27) # to_be_bytes 8 n)"

definition encode_key :: "string \<Rightarrow> bytes" where
  "encode_key k = encode_head 3 (word_of_nat (length k)) @ str_bytes k"

fun encode :: "cbor_value \<Rightarrow> bytes" where
  "encode (Uint n) = encode_head 0 n"
| "encode (Bytes b) = encode_head 2 (word_of_nat (length b)) @ b"
| "encode (Text s) = encode_head 3 (word_of_nat (length s)) @ str_bytes s"
| "encode (Array items) =
     encode_head 4 (word_of_nat (length items)) @ concat (map encode items)"
| "encode (Map entries) =
     encode_head 5 (word_of_nat (length entries)) @
     concat (map (\<lambda>(kb, vb). kb @ vb)
       (sort_key fst (map (\<lambda>(k, v). (encode_key k, encode v)) entries)))"

definition to_bytes :: "cbor_value \<Rightarrow> bytes" where
  "to_bytes v = encode v"

section \<open>The decoder\<close>

record cursor =
  cur_data :: bytes
  cur_pos :: nat

definition cur_take :: "nat \<Rightarrow> cursor \<Rightarrow> (auth_error, bytes \<times> cursor) result" where
  "cur_take n c =
    (if cur_pos c + n \<ge> 2 ^ 64 then Err (Cbor ''length overflow'')
     else if cur_pos c + n > length (cur_data c) then Err (Cbor ''unexpected end of input'')
     else Ok (take n (drop (cur_pos c) (cur_data c)), c\<lparr>cur_pos := cur_pos c + n\<rparr>))"

text \<open>The argument of a head, in its smallest form only.\<close>

definition read_arg :: "u8 \<Rightarrow> cursor \<Rightarrow> (auth_error, u64 \<times> cursor) result" where
  "read_arg info c =
    (if info \<le> 23 then Ok (ucast info, c)
     else if info = 24 then
       bind (cur_take 1 c) (\<lambda>(bs, c1).
         let b = ucast (hd bs) in
         if b < 24 then Err (Cbor ''non-minimal integer (1-byte)'') else Ok (b, c1))
     else if info = 25 then
       bind (cur_take 2 c) (\<lambda>(bs, c1).
         let b = from_be_bytes bs in
         if b \<le> 0xFF then Err (Cbor ''non-minimal integer (2-byte)'') else Ok (b, c1))
     else if info = 26 then
       bind (cur_take 4 c) (\<lambda>(bs, c1).
         let b = from_be_bytes bs in
         if b \<le> 0xFFFF then Err (Cbor ''non-minimal integer (4-byte)'') else Ok (b, c1))
     else if info = 27 then
       bind (cur_take 8 c) (\<lambda>(bs, c1).
         let b = from_be_bytes bs in
         if b \<le> 0xFFFFFFFF then Err (Cbor ''non-minimal integer (8-byte)'') else Ok (b, c1))
     else Err (Cbor ''indefinite-length or reserved encoding''))"

definition read_head :: "cursor \<Rightarrow> (auth_error, u8 \<times> u64 \<times> cursor) result" where
  "read_head c =
    bind (cur_take 1 c) (\<lambda>(b0, c1).
      bind (read_arg (hd b0 AND 0x1f) c1) (\<lambda>(arg, c2). Ok (drop_bit 5 (hd b0), arg, c2)))"

text \<open>One map key: a text string whose encoding is above the previous key's.\<close>

definition read_key :: "bytes option \<Rightarrow> cursor \<Rightarrow> (auth_error, string \<times> cursor) result" where
  "read_key prev_key c =
    bind (read_head c) (\<lambda>(km, ka, c1).
      if km \<noteq> 3 then Err (Cbor ''map key must be a text string'')
      else bind (cur_take (unat ka) c1) (\<lambda>(kbytes, c2).
        case from_utf8 kbytes of
          None \<Rightarrow> Err (Cbor ''invalid utf-8 in map key'')
        | Some key \<Rightarrow>
            if (case prev_key of None \<Rightarrow> False | Some prev \<Rightarrow> encode_key key \<le> prev)
            then Err (Cbor ''map keys not in canonical order or duplicated'')
            else Ok (key, c2)))"

function (sequential) read_value :: "cursor \<Rightarrow> (auth_error, cbor_value \<times> cursor) result"
  and read_items :: "nat \<Rightarrow> cursor \<Rightarrow> (auth_error, cbor_value list \<times> cursor) result"
  and read_entries ::
    "nat \<Rightarrow> bytes option \<Rightarrow> cursor \<Rightarrow> (auth_error, (string \<times> cbor_value) list \<times> cursor) result"
where
  "read_value c =
    bind (read_head c) (\<lambda>(major, arg, c1).
      if major = 0 then Ok (Uint arg, c1)
      else if major = 2 then bind (cur_take (unat arg) c1) (\<lambda>(b, c2). Ok (Bytes b, c2))
      else if major = 3 then
        bind (cur_take (unat arg) c1) (\<lambda>(b, c2).
          case from_utf8 b of
            None \<Rightarrow> Err (Cbor ''invalid utf-8 in text string'')
          | Some s \<Rightarrow> Ok (Text s, c2))
      else if major = 4 then
        bind (read_items (unat arg) c1) (\<lambda>(items, c2). Ok (Array items, c2))
      else if major = 5 then
        bind (read_entries (unat arg) None c1) (\<lambda>(entries, c2). Ok (Map entries, c2))
      else Err (Cbor ''unsupported major type''))"
| "read_items 0 c = Ok ([], c)"
| "read_items (Suc n) c =
    bind (read_value c) (\<lambda>(v, c1). bind (read_items n c1) (\<lambda>(vs, c2). Ok (v # vs, c2)))"
| "read_entries 0 prev_key c = Ok ([], c)"
| "read_entries (Suc n) prev_key c =
    bind (read_key prev_key c) (\<lambda>(key, c1).
    bind (read_value c1) (\<lambda>(v, c2).
    bind (read_entries n (Some (encode_key key)) c2) (\<lambda>(es, c3). Ok ((key, v) # es, c3))))"
  by pat_completeness auto

text \<open>
  Every successful read moves the cursor forward inside the same input. This is what makes the
  recursion, whose loops continue from the cursor a nested call returned, terminate.
\<close>

definition advances :: "cursor \<Rightarrow> cursor \<Rightarrow> bool" where
  "advances c c' \<longleftrightarrow>
     cur_data c' = cur_data c \<and> cur_pos c < cur_pos c' \<and> cur_pos c' \<le> length (cur_data c)
       \<and> cur_pos c' < 2 ^ 64"

definition advances_eq :: "cursor \<Rightarrow> cursor \<Rightarrow> bool" where
  "advances_eq c c' \<longleftrightarrow> c' = c \<or> advances c c'"

definition remaining :: "cursor \<Rightarrow> nat" where
  "remaining c = length (cur_data c) - cur_pos c"

lemma advances_eq_refl [simp]: "advances_eq c c"
  by (simp add: advances_eq_def)

lemma advances_trans: "advances c d \<Longrightarrow> advances d e \<Longrightarrow> advances c e"
  by (auto simp: advances_def)

lemma advances_eq_trans: "advances c d \<Longrightarrow> advances_eq d e \<Longrightarrow> advances c e"
  by (auto simp: advances_eq_def intro: advances_trans)

lemma remaining_advances: "advances c d \<Longrightarrow> remaining d < remaining c"
  by (auto simp: advances_def remaining_def)

lemma cur_take_advances: "cur_take n c = Ok (b, c') \<Longrightarrow> 0 < n \<Longrightarrow> advances c c'"
  by (auto simp: cur_take_def advances_def split: if_splits)

lemma cur_take_advances_eq: "cur_take n c = Ok (b, c') \<Longrightarrow> advances_eq c c'"
  by (cases "n = 0") (auto simp: advances_eq_def cur_take_def advances_def split: if_splits)

lemma read_arg_advances_eq: "read_arg i c = Ok (n, c') \<Longrightarrow> advances_eq c c'"
  by (auto simp: read_arg_def bind_Ok_iff Let_def dest!: cur_take_advances_eq split: if_splits)

lemma read_head_advances: "read_head c = Ok (m, a, c') \<Longrightarrow> advances c c'"
  by (auto simp: read_head_def bind_Ok_iff dest!: cur_take_advances read_arg_advances_eq
      intro: advances_eq_trans)

lemma read_key_advances: "read_key p c = Ok (k, c') \<Longrightarrow> advances c c'"
  by (auto simp: read_key_def bind_Ok_iff dest!: read_head_advances cur_take_advances_eq
      intro: advances_eq_trans split: if_splits option.splits)

lemma read_advances_dom:
  "read_value_read_items_read_entries_dom (Inl c) \<Longrightarrow>
     (\<And>v c'. read_value c = Ok (v, c') \<Longrightarrow> advances c c')"
  "read_value_read_items_read_entries_dom (Inr (Inl (n, c))) \<Longrightarrow>
     (\<And>vs c'. read_items n c = Ok (vs, c') \<Longrightarrow> advances_eq c c')"
  "read_value_read_items_read_entries_dom (Inr (Inr (n, p, c))) \<Longrightarrow>
     (\<And>es c'. read_entries n p c = Ok (es, c') \<Longrightarrow> advances_eq c c')"
proof (induction c and n c and n p c rule: read_value_read_items_read_entries.pinduct)
  case (1 c)
  from "1.prems" obtain major arg c1 where h: "read_head c = Ok (major, arg, c1)"
    by (auto simp: read_value.psimps [OF "1.hyps"] bind_Ok_iff)
  from h have adv: "advances c c1" by (rule read_head_advances)
  have "advances_eq c1 c'"
    using "1.prems" "1.IH"(1,2) [OF h] h
    by (auto simp: read_value.psimps [OF "1.hyps"] bind_Ok_iff
        dest!: cur_take_advances_eq split: if_splits option.splits)
  with adv show ?case by (rule advances_eq_trans)
next
  case (2 c)
  then show ?case by (simp add: read_items.psimps advances_eq_def)
next
  case (3 n c)
  then show ?case
    by (fastforce simp: read_items.psimps bind_Ok_iff advances_eq_def intro: advances_trans)
next
  case (4 p c)
  then show ?case by (simp add: read_entries.psimps advances_eq_def)
next
  case (5 n p c)
  from "5.prems" obtain key v c1 c2 es' where
      k: "read_key p c = Ok (key, c1)" and v: "read_value c1 = Ok (v, c2)"
      and e: "read_entries n (Some (encode_key key)) c2 = Ok (es', c')"
    by (auto simp: read_entries.psimps(2) [OF "5.hyps"] bind_Ok_iff)
  have "advances c c1" using k by (rule read_key_advances)
  moreover have "advances c1 c2" using "5.IH"(1) [OF k _ v] by simp
  moreover have "advances_eq c2 c'" using "5.IH"(2) [OF k _ v _ e] by simp
  ultimately show ?case by (meson advances_eq_def advances_trans advances_eq_trans)
qed

lemma read_total: "\<forall>x. read_value_read_items_read_entries_dom x"
proof (relation "measure (\<lambda>x. case x of Inl c \<Rightarrow> 2 * remaining c
    | Inr (Inl (n, c)) \<Rightarrow> 2 * remaining c + 1 | Inr (Inr (n, p, c)) \<Rightarrow> 2 * remaining c + 1)")
qed (auto dest!: read_head_advances read_key_advances read_advances_dom remaining_advances)

termination read_value
  by (rule read_total)

declare read_value.simps [simp del]

lemma read_value_advances: "read_value c = Ok (v, c') \<Longrightarrow> advances c c'"
  by (rule read_advances_dom(1)) (simp_all add: read_total)

definition from_bytes :: "bytes \<Rightarrow> (auth_error, cbor_value) result" where
  "from_bytes data =
    bind (read_value \<lparr>cur_data = data, cur_pos = 0\<rparr>) (\<lambda>(v, cur).
      if cur_pos cur \<noteq> length data then Err (Cbor ''trailing bytes after top-level value'')
      else Ok v)"

section \<open>Typed accessors\<close>

fun as_uint :: "cbor_value \<Rightarrow> (auth_error, u64) result" where
  "as_uint (Uint n) = Ok n"
| "as_uint _ = Err (Cbor ''expected uint'')"

fun as_bytes :: "cbor_value \<Rightarrow> (auth_error, bytes) result" where
  "as_bytes (Bytes b) = Ok b"
| "as_bytes _ = Err (Cbor ''expected byte string'')"

fun as_text :: "cbor_value \<Rightarrow> (auth_error, string) result" where
  "as_text (Text s) = Ok s"
| "as_text _ = Err (Cbor ''expected text string'')"

definition leak :: "string \<Rightarrow> string" where
  "leak key =
    (if key \<in> {''v'', ''aud'', ''nonce'', ''iat'', ''exp'', ''chal'', ''pub'', ''sig'', ''pqpub'',
        ''pqsig'', ''alg'', ''key''}
     then key else ''field'')"

text \<open>\<open>find(|(k, _)| k == key).map(|(_, v)| v)\<close> is the first entry with that key: \<open>map_of\<close>.\<close>

fun get :: "cbor_value \<Rightarrow> string \<Rightarrow> (auth_error, cbor_value) result" where
  "get (Map entries) key = ok_or (map_of entries key) (MissingField (leak key))"
| "get _ key = Err (Cbor ''expected map'')"

fun get_opt :: "cbor_value \<Rightarrow> string \<Rightarrow> (auth_error, cbor_value option) result" where
  "get_opt (Map entries) key = Ok (map_of entries key)"
| "get_opt _ key = Err (Cbor ''expected map'')"

definition map_value :: "(string \<times> cbor_value) list \<Rightarrow> cbor_value" where
  "map_value entries = Map entries"

end
