(* ===== verification/Auth_Cbor_Laws.thy ===== *)
theory Auth_Cbor_Laws
  imports Auth_Cbor "HOL-Library.Multiset"
begin

text \<open>
  What the codec of \<open>cbor.rs\<close> guarantees. The decoder is characterised exactly: it accepts a
  byte string if and only if that string is the encoding of a canonical value, and returns that
  value (\<open>from_bytes_iff\<close>). Round trips and the \<open>canonical_codec\<close> interface follow.
\<close>

section \<open>Head bytes\<close>


lemma byte_split: "push_bit 5 (drop_bit 5 b) OR (b AND 31) = (b :: u8)"
proof -
  have "b AND 31 = take_bit 5 b" by (simp add: take_bit_eq_mask mask_eq_exp_minus_1)
  then show ?thesis by (auto intro!: bit_word_eqI simp: bit_simps)
qed

lemma head_byte:
  assumes "m < (8 :: u8)" and "i < (32 :: u8)"
  shows "drop_bit 5 (push_bit 5 m OR i) = m" and "(push_bit 5 m OR i) AND 31 = i"
proof -
  have m: "take_bit 3 m = m" and i: "take_bit 5 i = i"
    using assms by (simp_all add: take_bit_eq_mod word_less_nat_alt word_arith_nat_mod
        unat_of_nat mod_less)
  have mb: "k < 3" if "bit m k" for k using m that by (metis bit_take_bit_iff)
  have ib: "k < 5" if "bit i k" for k using i that by (metis bit_take_bit_iff)
  show "drop_bit 5 (push_bit 5 m OR i) = m"
    by (rule bit_word_eqI) (auto simp: bit_simps dest: mb ib)
  have "(push_bit 5 m OR i) AND 31 = take_bit 5 (push_bit 5 m OR i)"
    by (simp add: take_bit_eq_mask mask_eq_exp_minus_1)
  then show "(push_bit 5 m OR i) AND 31 = i"
    by (auto intro!: bit_word_eqI simp: bit_simps dest: ib)
qed

lemma major_less: "drop_bit 5 (b :: u8) < 8"
proof -
  have "unat b < 256" using unsigned_less [of b] by simp
  then show ?thesis by (simp add: word_less_nat_alt unat_drop_bit_eq drop_bit_eq_div unat_div)
qed

lemma info_less: "(b :: u8) AND 31 < 32"
proof -
  have "b AND 31 \<le> 31" by (rule word_and_le1)
  then show ?thesis by (rule order_le_less_trans) simp
qed

lemma unat_ucast_u8: "unat (ucast (n :: u64) :: u8) = unat n mod 256"
  by (simp add: unsigned_ucast_eq take_bit_eq_mod)
lemma unat_ucast_u64: "unat (ucast (b :: u8) :: u64) = unat b"
proof -
  have "unat b < 256" using unsigned_less [of b] by simp
  then show ?thesis by (simp add: unsigned_ucast_eq take_bit_eq_mod)
qed

section \<open>Consuming input\<close>

text \<open>\<open>consumed c bs c'\<close>: the input continues with \<open>bs\<close> at \<open>c\<close>, and \<open>c'\<close> is the cursor after it.\<close>

definition skip :: "nat \<Rightarrow> cursor \<Rightarrow> cursor" where "skip n c = c\<lparr>cur_pos := cur_pos c + n\<rparr>"

definition consumed :: "cursor \<Rightarrow> bytes \<Rightarrow> cursor \<Rightarrow> bool" where
  "consumed c bs c' \<longleftrightarrow> c' = skip (length bs) c \<and> cur_pos c + length bs \<le> length (cur_data c)
     \<and> take (length bs) (drop (cur_pos c) (cur_data c)) = bs"

lemma consumed_append:
  "consumed c (a @ b) e \<longleftrightarrow> (\<exists>d. consumed c a d \<and> consumed d b e)"
  by (auto simp: consumed_def skip_def take_add add.assoc add.commute append_eq_append_conv)

lemma cur_take_iff:
  assumes "length (cur_data c) < 2 ^ 64"
  shows "cur_take n c = Ok (b, c') \<longleftrightarrow> length b = n \<and> consumed c b c'"
  using assms by (auto simp: cur_take_def consumed_def skip_def)

lemma consumed_data: "consumed c b c' \<Longrightarrow> cur_data c' = cur_data c"
  by (simp add: consumed_def skip_def)

lemma consumed_length: "consumed c b c' \<Longrightarrow> length b \<le> length (cur_data c)"
  by (simp add: consumed_def)

lemma consumed_det: "consumed c b d \<Longrightarrow> consumed c b e \<Longrightarrow> d = e"
  by (simp add: consumed_def)

definition head_info :: "u64 \<Rightarrow> u8" where
  "head_info n = (if n < 24 then ucast n else if n \<le> 0xFF then 24 else if n \<le> 0xFFFF then 25
     else if n \<le> 0xFFFFFFFF then 26 else 27)"

definition head_arg :: "u64 \<Rightarrow> bytes" where
  "head_arg n = (if n < 24 then [] else if n \<le> 0xFF then [ucast n] else if n \<le> 0xFFFF then to_be_bytes 2 n
     else if n \<le> 0xFFFFFFFF then to_be_bytes 4 n else to_be_bytes 8 n)"

lemma encode_head_split: "encode_head m n = [push_bit 5 m OR head_info n] @ head_arg n"
  by (simp add: encode_head_def head_info_def head_arg_def Let_def)

lemma head_info_less: "head_info n < 28"
  by (auto simp: head_info_def word_less_nat_alt unat_ucast_u8)

lemma consumed_Cons: "consumed c (b # bs) e \<longleftrightarrow> (\<exists>d. consumed c [b] d \<and> consumed d bs e)"
  using consumed_append [of c "[b]" bs e] by simp
lemma consumed_Nil: "consumed c [] e \<longleftrightarrow> e = c \<and> cur_pos c \<le> length (cur_data c)"
  by (auto simp: consumed_def skip_def)


lemma bind_take_iff:
  assumes "length (cur_data c) < 2 ^ 64"
  shows "bind (cur_take k c) f = Ok x \<longleftrightarrow> (\<exists>bs d. length bs = k \<and> consumed c bs d \<and> f (bs, d) = Ok x)"
  using assms by (auto simp: bind_Ok_iff cur_take_iff)

lemma ucast_u8_u64 [simp]:
  "ucast (b :: u8) \<le> (0xFF :: u64)"
  "ucast (ucast b :: u64) = b"
  "(n :: u64) \<le> 0xFF \<Longrightarrow> ucast (ucast n :: u8) = n"
proof -
  have "unat b < 256" using unsigned_less [of b] by simp
  then show "ucast b \<le> (0xFF :: u64)" and "ucast (ucast b :: u64) = b"
    by (auto simp: word_le_nat_alt word_unat_eq_iff unat_ucast_u8 unat_ucast_u64)
  show "n \<le> 0xFF \<Longrightarrow> ucast (ucast n :: u8) = n"
    by (auto simp: word_le_nat_alt word_unat_eq_iff unat_ucast_u8 unat_ucast_u64)
qed

lemma from_be_eq_iff:
  assumes "length bs = k" and "k * 8 \<le> 64"
  shows "from_be_bytes bs = (n :: u64) \<longleftrightarrow> unat n < 256 ^ k \<and> bs = to_be_bytes k n"
proof
  assume "from_be_bytes bs = n"
  then show "unat n < 256 ^ k \<and> bs = to_be_bytes k n"
    using assms be_to_nat_less [of bs] unat_from_be_bytes [of bs, where 'a = 64]
      to_from_be_bytes [of bs k, where 'a = 64] by auto
next
  assume "unat n < 256 ^ k \<and> bs = to_be_bytes k n"
  then show "from_be_bytes bs = n" by (simp add: from_to_be_bytes)
qed

lemma head_info_iff:
  "i \<le> 23 \<Longrightarrow> i = head_info n \<longleftrightarrow> n = ucast i"
  "24 = head_info n \<longleftrightarrow> 24 \<le> n \<and> n \<le> 0xFF"
  "25 = head_info n \<longleftrightarrow> 0xFF < n \<and> n \<le> 0xFFFF"
  "26 = head_info n \<longleftrightarrow> 0xFFFF < n \<and> n \<le> 0xFFFFFFFF"
  "27 = head_info n \<longleftrightarrow> 0xFFFFFFFF < n"
  by (simp_all add: head_info_def word_le_nat_alt word_less_nat_alt word_unat_eq_iff
      unat_ucast_u8 unat_ucast_u64; arith)+

lemma head_arg_simps:
  "n = ucast (i :: u8) \<Longrightarrow> i \<le> 23 \<Longrightarrow> head_arg n = []"
  "24 \<le> n \<Longrightarrow> n \<le> 0xFF \<Longrightarrow> head_arg n = [ucast n]"
  "0xFF < n \<Longrightarrow> n \<le> 0xFFFF \<Longrightarrow> head_arg n = to_be_bytes 2 n"
  "0xFFFF < n \<Longrightarrow> n \<le> 0xFFFFFFFF \<Longrightarrow> head_arg n = to_be_bytes 4 n"
  "0xFFFFFFFF < n \<Longrightarrow> head_arg n = to_be_bytes 8 n"
  by (auto simp: head_arg_def word_le_nat_alt word_less_nat_alt unat_ucast_u64)

lemma unat_u64_le: "n \<le> 0xFF \<longleftrightarrow> unat (n :: u64) < 256" "n \<le> 0xFFFF \<longleftrightarrow> unat n < 256 ^ 2"
  "n \<le> 0xFFFFFFFF \<longleftrightarrow> unat n < 256 ^ 4" "unat n < 256 ^ 8"
  using unsigned_less [of n] by (auto simp: word_le_nat_alt)

lemma read_be_iff:
  assumes len: "length (cur_data c) < 2 ^ 64" and k: "k * 8 \<le> 64"
  shows "bind (cur_take k c)
      (\<lambda>(bs, c1). let b = from_be_bytes bs in if b \<le> lo then Err e else Ok (b, c1)) = Ok (n :: u64, c')
    \<longleftrightarrow> lo < n \<and> unat n < 256 ^ k \<and> consumed c (to_be_bytes k n) c'" (is "?l \<longleftrightarrow> ?r")
proof
  assume ?l
  then obtain bs where "length bs = k" "consumed c bs c'" "lo < n" "from_be_bytes bs = n"
    by (auto simp: bind_take_iff [OF len] Let_def split: if_splits)
  then show ?r using from_be_eq_iff [of bs k n] k by auto
next
  assume ?r
  then show ?l
    by (auto simp: bind_take_iff [OF len] Let_def from_to_be_bytes
        intro!: exI [of _ "to_be_bytes k n"])
qed

lemma info_cases:
  "i \<le> 23 \<or> i = 24 \<or> i = 25 \<or> i = 26 \<or> i = 27 \<or> 27 < (i :: u8)"
  by (simp add: word_le_nat_alt word_less_nat_alt word_unat_eq_iff) arith

lemma read_arg_iff:
  assumes len: "length (cur_data c) < 2 ^ 64" and pos: "cur_pos c \<le> length (cur_data c)"
  shows "read_arg i c = Ok (n, c') \<longleftrightarrow> i = head_info n \<and> consumed c (head_arg n) c'"
proof -
  consider "i \<le> 23" | "i = 24" | "i = 25" | "i = 26" | "i = 27" | "27 < i"
    using info_cases by blast
  then show ?thesis
  proof cases
    case 1
    then show ?thesis using pos
      by (auto simp: read_arg_def head_info_iff head_arg_simps consumed_Nil)
  next
    case 2
    then show ?thesis
      by (auto simp: read_arg_def bind_take_iff [OF len] Let_def head_info_iff head_arg_simps
          length_Suc_conv not_less intro!: exI [of _ "[ucast n]"])
  next
    case 3
    then show ?thesis using unat_u64_le [of n]
      by (auto simp: read_arg_def read_be_iff [OF len] head_info_iff head_arg_simps)
  next
    case 4
    then show ?thesis using unat_u64_le [of n]
      by (auto simp: read_arg_def read_be_iff [OF len] head_info_iff head_arg_simps)
  next
    case 5
    then show ?thesis using unat_u64_le [of n]
      by (auto simp: read_arg_def read_be_iff [OF len] head_info_iff head_arg_simps)
  next
    case 6
    then show ?thesis using head_info_less [of n]
      by (auto simp: read_arg_def word_less_nat_alt word_le_nat_alt)
  qed
qed

lemma read_head_iff:
  assumes len: "length (cur_data c) < 2 ^ 64"
  shows "read_head c = Ok (m, n, c') \<longleftrightarrow> m < 8 \<and> consumed c (encode_head m n) c'"
proof
  assume "read_head c = Ok (m, n, c')"
  then obtain b c1 where b: "consumed c [b] c1" and m: "m = drop_bit 5 b"
    and arg: "read_arg (b AND 31) c1 = Ok (n, c')"
    by (auto simp: read_head_def bind_Ok_iff cur_take_iff [OF len] length_Suc_conv)
  have c1: "cur_data c1 = cur_data c" "cur_pos c1 \<le> length (cur_data c1)"
    using b by (auto simp: consumed_def skip_def)
  have "b AND 31 = head_info n" and "consumed c1 (head_arg n) c'"
    using arg len c1 by (auto simp: read_arg_iff)
  then show "m < 8 \<and> consumed c (encode_head m n) c'"
    using b m byte_split [of b] major_less [of b]
    by (auto simp: encode_head_split consumed_Cons [of c _ "head_arg n"])
next
  assume r: "m < 8 \<and> consumed c (encode_head m n) c'"
  then obtain c1 where b: "consumed c [push_bit 5 m OR head_info n] c1"
    and arg: "consumed c1 (head_arg n) c'"
    by (auto simp: encode_head_split consumed_Cons [of c _ "head_arg n"])
  have c1: "cur_data c1 = cur_data c" "cur_pos c1 \<le> length (cur_data c1)"
    using b by (auto simp: consumed_def skip_def)
  have i: "head_info n < 32" using head_info_less [of n] by (rule order_less_trans) simp
  have "cur_take 1 c = Ok ([push_bit 5 m OR head_info n], c1)"
    using b by (simp add: cur_take_iff [OF len])
  moreover have "read_arg (head_info n) c1 = Ok (n, c')"
    using arg len c1 by (simp add: read_arg_iff)
  ultimately show "read_head c = Ok (m, n, c')"
    using r head_byte [OF _ i, of m] by (simp add: read_head_def del: drop_bit_or)
qed


section \<open>Canonical values\<close>

fun canonical :: "cbor_value \<Rightarrow> bool" where
  "canonical (Uint n) = True"
| "canonical (Bytes b) = True"
| "canonical (Text s) = valid_text s"
| "canonical (Array items) = list_all canonical items"
| "canonical (Map entries) =
     (sorted_wrt (<) (map (encode_key \<circ> fst) entries) \<and>
      list_all (\<lambda>(k, v). valid_text k \<and> canonical v) entries)"

definition keys_above :: "bytes option \<Rightarrow> (string \<times> cbor_value) list \<Rightarrow> bool" where
  "keys_above prev es \<longleftrightarrow>
     sorted_wrt (<) ((case prev of None \<Rightarrow> [] | Some p \<Rightarrow> [p]) @ map (encode_key \<circ> fst) es)"

definition entry_bytes :: "(string \<times> cbor_value) list \<Rightarrow> bytes" where
  "entry_bytes es = concat (map (\<lambda>(k, v). encode_key k @ encode v) es)"

lemma keys_above_simps [simp]:
  "keys_above None es = sorted_wrt (<) (map (encode_key \<circ> fst) es)"
  "keys_above prev [] = True"
  "keys_above prev ((k, v) # es) \<longleftrightarrow>
     (\<forall>p. prev = Some p \<longrightarrow> p < encode_key k) \<and> keys_above (Some (encode_key k)) es"
  by (auto simp: keys_above_def split: option.splits)

lemma encode_head_not_Nil [simp]: "encode_head m n \<noteq> []"
  by (simp add: encode_head_split)

lemma encode_not_Nil [simp]: "encode v \<noteq> []"
  by (cases v) simp_all

lemma sort_key_strict: "sorted_wrt (<) (map f xs) \<Longrightarrow> sort_key f xs = xs"
  by (intro sorted_sort_id sort_key_id_if_sorted strict_sorted_imp_sorted)

lemma encode_Map_canonical:
  assumes "canonical (Map es)"
  shows "encode (Map es) = encode_head 5 (word_of_nat (length es)) @ entry_bytes es"
proof -
  let ?f = "\<lambda>(k, v). (encode_key k, encode v)"
  have keys: "map fst (map ?f es) = map (encode_key \<circ> fst) es" by (auto simp: case_prod_unfold)
  have "sort_key fst (map ?f es) = map ?f es"
    by (rule sort_key_strict, subst keys) (use assms in simp)
  then show ?thesis by (simp add: entry_bytes_def comp_def case_prod_unfold)
qed

lemma length_le_concat: "(\<And>x. x \<in> set xs \<Longrightarrow> f x \<noteq> []) \<Longrightarrow> length xs \<le> length (concat (map f xs))"
proof (induction xs)
  case (Cons x xs)
  then have "f x \<noteq> []" by simp
  then have "1 \<le> length (f x)" by (cases "f x") auto
  with Cons show ?case by force
qed simp

lemma entry_bytes_Cons: "entry_bytes ((k, v) # es) = encode_key k @ encode v @ entry_bytes es"
  by (simp add: entry_bytes_def)

lemma length_le_entry_bytes: "length es \<le> length (entry_bytes es)"
  unfolding entry_bytes_def by (rule length_le_concat) auto

lemma unat_of_length: "n < 2 ^ 64 \<Longrightarrow> unat (word_of_nat n :: u64) = n"
  by (simp add: unat_of_nat)

lemma read_key_iff:
  assumes len: "length (cur_data c) < 2 ^ 64"
  shows "read_key prev c = Ok (k, c') \<longleftrightarrow>
    valid_text k \<and> (\<forall>p. prev = Some p \<longrightarrow> p < encode_key k) \<and> consumed c (encode_key k) c'"
  (is "?l \<longleftrightarrow> ?r")
proof
  assume ?l
  then obtain ka c1 kb where h: "read_head c = Ok (3, ka, c1)"
    and t: "cur_take (unat ka) c1 = Ok (kb, c')" and u: "from_utf8 kb = Some k"
    and p: "\<forall>p. prev = Some p \<longrightarrow> p < encode_key k"
    by (cases prev) (auto simp: read_key_def bind_Ok_iff not_le split: if_splits option.splits)
  from h have c1: "consumed c (encode_head 3 ka) c1" by (simp add: read_head_iff [OF len])
  then have "length (cur_data c1) < 2 ^ 64" using len consumed_data by metis
  with t have kb: "length kb = unat ka" "consumed c1 kb c'" by (simp_all add: cur_take_iff)
  from u have k: "valid_text k" "str_bytes k = kb" by (simp_all add: from_utf8_Some_iff)
  then have "length k = unat ka" using kb by (metis length_str_bytes)
  then have "word_of_nat (length k) = ka" by simp
  with c1 kb k p show ?r by (auto simp: encode_key_def consumed_append)
next
  assume r: ?r
  then obtain c1 where c1: "consumed c (encode_head 3 (word_of_nat (length k))) c1"
    and kb: "consumed c1 (str_bytes k) c'"
    by (auto simp: encode_key_def consumed_append)
  have len1: "length (cur_data c1) < 2 ^ 64" using len consumed_data [OF c1] by simp
  have "length k < 2 ^ 64" using consumed_length [OF kb] len1 by simp
  then have "cur_take (unat (word_of_nat (length k) :: u64)) c1 = Ok (str_bytes k, c')"
    using kb by (simp add: cur_take_iff [OF len1] unat_of_length)
  moreover have "read_head c = Ok (3, word_of_nat (length k), c1)"
    using c1 by (simp add: read_head_iff [OF len])
  ultimately show ?l using r by (auto simp: read_key_def not_le split: option.splits)
qed


lemma consumed_end: "consumed c b d \<Longrightarrow> cur_data d = cur_data c \<and> cur_pos d \<le> length (cur_data d)"
  by (auto simp: consumed_def skip_def)

section \<open>The decoder accepts exactly the canonical encodings\<close>

text \<open>
  The two loops of \<open>read_value\<close> are characterised by the same relation; \<open>items_spec\<close> and
  \<open>entries_spec\<close> name those statements, so that the induction below is a short assembly.
\<close>

definition value_spec :: "cursor \<Rightarrow> bool" where
  "value_spec c \<longleftrightarrow>
    (\<forall>v c'. read_value c = Ok (v, c') \<longleftrightarrow> canonical v \<and> consumed c (encode v) c')"

definition items_spec :: "nat \<Rightarrow> cursor \<Rightarrow> bool" where
  "items_spec n c \<longleftrightarrow>
    (\<forall>vs c'. read_items n c = Ok (vs, c') \<longleftrightarrow>
       length vs = n \<and> list_all canonical vs \<and> consumed c (concat (map encode vs)) c')"

definition entries_spec :: "nat \<Rightarrow> bytes option \<Rightarrow> cursor \<Rightarrow> bool" where
  "entries_spec n p c \<longleftrightarrow>
    (\<forall>es c'. read_entries n p c = Ok (es, c') \<longleftrightarrow>
       length es = n \<and> keys_above p es \<and> list_all (\<lambda>(k, v). valid_text k \<and> canonical v) es
         \<and> consumed c (entry_bytes es) c')"

lemma read_value_sound:
  assumes h: "read_head c = Ok (m, n, d)" and hd: "consumed c (encode_head m n) d"
    and len: "length (cur_data d) < 2 ^ 64"
    and items: "m = 4 \<Longrightarrow> items_spec (unat n) d"
    and entries: "m = 5 \<Longrightarrow> entries_spec (unat n) None d"
    and l: "read_value c = Ok (v, c')"
  shows "canonical v \<and> consumed c (encode v) c'"
proof -
  note l' = l [unfolded read_value.simps [of c] h bind.simps prod.case]
  have nn: "k = unat n \<Longrightarrow> word_of_nat k = n" for k by simp
  consider "m = 0" | "m = 2" | "m = 3" | "m = 4" | "m = 5"
    using l' by (auto split: if_splits)
  then show ?thesis
  proof cases
    case 1
    with l' hd show ?thesis by auto
  next
    case 2
    with l' hd show ?thesis by (auto simp: bind_Ok_iff cur_take_iff [OF len] consumed_append nn)
  next
    case 3
    with l' hd show ?thesis
      by (auto simp: bind_Ok_iff cur_take_iff [OF len] consumed_append nn from_utf8_Some_iff
          split: option.splits) blast
  next
    case 4
    with l' hd items show ?thesis
      by (auto simp: bind_Ok_iff items_spec_def consumed_append nn)
  next
    case 5
    with l' hd entries show ?thesis
      by (auto simp: bind_Ok_iff entries_spec_def consumed_append nn encode_Map_canonical
          simp del: encode.simps(5))
  qed
qed

lemma read_value_Array:
  assumes h: "read_head c = Ok (4, word_of_nat (length vs), d)"
    and len: "length (cur_data d) < 2 ^ 64"
    and spec: "items_spec (unat (word_of_nat (length vs) :: u64)) d"
    and b: "consumed d (concat (map encode vs)) c'" and can: "list_all canonical vs"
  shows "read_value c = Ok (Array vs, c')"
proof -
  have "length vs < 2 ^ 64"
    using consumed_length [OF b] length_le_concat [of vs encode] len by simp
  then have "read_items (unat (word_of_nat (length vs) :: u64)) d = Ok (vs, c')"
    using can b spec by (simp add: items_spec_def unat_of_length)
  with h show ?thesis by (simp add: read_value.simps [of c])
qed

lemma read_value_Map:
  assumes h: "read_head c = Ok (5, word_of_nat (length es), d)"
    and len: "length (cur_data d) < 2 ^ 64"
    and spec: "entries_spec (unat (word_of_nat (length es) :: u64)) None d"
    and b: "consumed d (entry_bytes es) c'" and can: "canonical (Map es)"
  shows "read_value c = Ok (Map es, c')"
proof -
  have "length es < 2 ^ 64"
    using consumed_length [OF b] length_le_entry_bytes [of es] len by simp
  then have "read_entries (unat (word_of_nat (length es) :: u64)) None d = Ok (es, c')"
    using can b spec by (simp add: entries_spec_def unat_of_length)
  with h show ?thesis by (simp add: read_value.simps [of c])
qed

lemma read_value_leaf:
  assumes h: "read_head c = Ok (m, word_of_nat (length b), d)"
    and len: "length (cur_data d) < 2 ^ 64" and b: "consumed d b c'"
  shows "m = 2 \<Longrightarrow> read_value c = Ok (Bytes b, c')"
    and "m = 3 \<Longrightarrow> from_utf8 b = Some s \<Longrightarrow> read_value c = Ok (Text s, c')"
proof -
  have "unat (word_of_nat (length b) :: u64) = length b"
    using consumed_length [OF b] len by (intro unat_of_length) simp
  then have t: "cur_take (unat (word_of_nat (length b) :: u64)) d = Ok (b, c')"
    using b by (simp add: cur_take_iff [OF len])
  show "m = 2 \<Longrightarrow> read_value c = Ok (Bytes b, c')"
    using h t by (simp add: read_value.simps [of c])
  show "m = 3 \<Longrightarrow> from_utf8 b = Some s \<Longrightarrow> read_value c = Ok (Text s, c')"
    using h t by (simp add: read_value.simps [of c])
qed

lemma read_value_complete:
  assumes len: "length (cur_data c) < 2 ^ 64"
    and items: "\<And>n d. read_head c = Ok (4, n, d) \<Longrightarrow> items_spec (unat n) d"
    and entries: "\<And>n d. read_head c = Ok (5, n, d) \<Longrightarrow> entries_spec (unat n) None d"
    and can: "canonical v" and r: "consumed c (encode v) c'"
  shows "read_value c = Ok (v, c')"
proof -
  note head = read_head_iff [OF len]
  have len': "length (cur_data d) < 2 ^ 64" if "read_head c = Ok (m, n, d)" for m n d
    using that consumed_data [of c "encode_head m n" d] len by (simp add: head)
  show ?thesis
  proof (cases v)
    case (Uint n)
    with r head [of 0 n c'] show ?thesis by (simp add: read_value.simps [of c])
  next
    case (Bytes b)
    with r obtain d where d: "read_head c = Ok (2, word_of_nat (length b), d)"
      and b: "consumed d b c'" by (auto simp: consumed_append head)
    from read_value_leaf(1) [OF d len' [OF d] b] Bytes show ?thesis by simp
  next
    case (Text s)
    with r obtain d where d: "read_head c = Ok (3, word_of_nat (length (str_bytes s)), d)"
      and b: "consumed d (str_bytes s) c'" by (auto simp: consumed_append head)
    from read_value_leaf(2) [OF d len' [OF d] b] Text can show ?thesis by simp
  next
    case (Array vs)
    with r obtain d where d: "read_head c = Ok (4, word_of_nat (length vs), d)"
      and b: "consumed d (concat (map encode vs)) c'" by (auto simp: consumed_append head)
    from read_value_Array [OF d len' [OF d] items [OF d] b] Array can show ?thesis by simp
  next
    case (Map es)
    with r can obtain d where d: "read_head c = Ok (5, word_of_nat (length es), d)"
      and b: "consumed d (entry_bytes es) c'"
      by (auto simp: consumed_append head encode_Map_canonical simp del: encode.simps(5))
    from read_value_Map [OF d len' [OF d] entries [OF d] b] Map can show ?thesis by simp
  qed
qed

lemma read_items_step:
  assumes v: "value_spec c"
    and rest: "\<And>w d. read_value c = Ok (w, d) \<Longrightarrow> items_spec n d"
  shows "items_spec (Suc n) c"
  unfolding items_spec_def
proof (intro allI)
  fix vs c'
  show "read_items (Suc n) c = Ok (vs, c') \<longleftrightarrow>
      length vs = Suc n \<and> list_all canonical vs \<and> consumed c (concat (map encode vs)) c'"
  proof (cases vs)
    case Nil
    then show ?thesis by (auto simp: bind_Ok_iff)
  next
    case (Cons w ws)
    have "read_items (Suc n) c = Ok (vs, c') \<longleftrightarrow>
        (\<exists>d. read_value c = Ok (w, d) \<and> read_items n d = Ok (ws, c'))"
      by (auto simp: Cons bind_Ok_iff)
    also have "\<dots> \<longleftrightarrow> (\<exists>d. read_value c = Ok (w, d) \<and> length ws = n
        \<and> list_all canonical ws \<and> consumed d (concat (map encode ws)) c')"
      using rest [of w] unfolding items_spec_def by blast
    also have "\<dots> \<longleftrightarrow> length vs = Suc n \<and> list_all canonical vs
        \<and> consumed c (concat (map encode vs)) c'"
      using v by (auto simp: Cons value_spec_def consumed_append)
    finally show ?thesis .
  qed
qed

lemma read_entries_step:
  assumes len: "length (cur_data c) < 2 ^ 64"
    and v: "\<And>key d. read_key p c = Ok (key, d) \<Longrightarrow> value_spec d"
    and rest: "\<And>key d w e. read_key p c = Ok (key, d) \<Longrightarrow> read_value d = Ok (w, e) \<Longrightarrow>
      entries_spec n (Some (encode_key key)) e"
  shows "entries_spec (Suc n) p c"
  unfolding entries_spec_def
proof (intro allI)
  fix es c'
  let ?ok = "list_all (\<lambda>(k, v). valid_text k \<and> canonical v)"
  show "read_entries (Suc n) p c = Ok (es, c') \<longleftrightarrow>
      length es = Suc n \<and> keys_above p es \<and> ?ok es \<and> consumed c (entry_bytes es) c'"
  proof (cases es)
    case Nil
    then show ?thesis by (auto simp: bind_Ok_iff)
  next
    case (Cons x es')
    obtain key w where x: "x = (key, w)" by (cases x)
    have "read_entries (Suc n) p c = Ok (es, c') \<longleftrightarrow>
        (\<exists>d e. read_key p c = Ok (key, d) \<and> read_value d = Ok (w, e)
          \<and> read_entries n (Some (encode_key key)) e = Ok (es', c'))"
      unfolding Cons x by (auto simp: bind_Ok_iff)
    also have "\<dots> \<longleftrightarrow> (\<exists>d e. read_key p c = Ok (key, d) \<and> canonical w \<and> consumed d (encode w) e
          \<and> length es' = n \<and> keys_above (Some (encode_key key)) es' \<and> ?ok es'
          \<and> consumed e (entry_bytes es') c')"
      using v [of key] rest [of key _ w] unfolding value_spec_def entries_spec_def by blast
    also have "\<dots> \<longleftrightarrow> length es = Suc n \<and> keys_above p es \<and> ?ok es \<and> consumed c (entry_bytes es) c'"
      unfolding Cons x entry_bytes_Cons read_key_iff [OF len]
      by (simp add: consumed_append) blast
    finally show ?thesis .
  qed
qed

lemma read_value_end:
  assumes "value_spec c" and "read_value c = Ok (v, d)"
  shows "cur_data d = cur_data c" and "cur_pos d \<le> length (cur_data d)"
  using assms consumed_end [of c "encode v" d] by (auto simp: value_spec_def)

lemma read_value_spec:
  "length (cur_data c) < 2 ^ 64 \<Longrightarrow> value_spec c"
  "length (cur_data c) < 2 ^ 64 \<Longrightarrow> cur_pos c \<le> length (cur_data c) \<Longrightarrow> items_spec n c"
  "length (cur_data c) < 2 ^ 64 \<Longrightarrow> cur_pos c \<le> length (cur_data c) \<Longrightarrow> entries_spec n p c"
proof (induction c and n c and n p c rule: read_value_read_items_read_entries.induct)
  case (1 c)
  note head = read_head_iff [OF "1.prems"]
  have d: "length (cur_data d) < 2 ^ 64" "cur_pos d \<le> length (cur_data d)"
    if "read_head c = Ok (m, n, d)" for m n d
    using consumed_end [of c "encode_head m n" d] that "1.prems" by (auto simp: head)
  have items: "items_spec (unat n) d" if "read_head c = Ok (4, n, d)" for n d
    by (rule "1.IH"(1) [OF that refl refl]) (use d [OF that] in simp_all)
  have entries: "entries_spec (unat n) None d" if "read_head c = Ok (5, n, d)" for n d
    by (rule "1.IH"(2) [OF that refl refl]) (use d [OF that] in simp_all)
  have sound: "canonical v \<and> consumed c (encode v) c'" if l: "read_value c = Ok (v, c')" for v c'
  proof -
    from l obtain m n d where h: "read_head c = Ok (m, n, d)"
      by (auto simp: read_value.simps [of c] bind_Ok_iff)
    show ?thesis
      by (rule read_value_sound [OF h _ d(1) [OF h] _ _ l]) (use h items entries head in auto)
  qed
  have complete: "read_value c = Ok (v, c')" if "canonical v" "consumed c (encode v) c'" for v c'
    using "1.prems" items entries that by (rule read_value_complete)
  from sound complete show ?case unfolding value_spec_def by blast
next
  case (2 c)
  then show ?case by (auto simp: items_spec_def consumed_Nil)
next
  case (3 n c)
  show ?case
  proof (rule read_items_step)
    show v: "value_spec c" by (rule "3.IH"(1)) (use "3.prems" in simp)
    show "items_spec n d" if r: "read_value c = Ok (w, d)" for w d
      by (rule "3.IH"(2) [OF r refl]) (use read_value_end [OF v r] "3.prems" in auto)
  qed
next
  case (4 p c)
  then show ?case by (auto simp: entries_spec_def consumed_Nil entry_bytes_def)
next
  case (5 n p c)
  have d: "length (cur_data d) < 2 ^ 64" if "read_key p c = Ok (key, d)" for key d
    using that consumed_data [of c "encode_key key" d] "5.prems" by (simp add: read_key_iff)
  have v: "value_spec d" if "read_key p c = Ok (key, d)" for key d
    by (rule "5.IH"(1) [OF that refl]) (use d [OF that] in simp)
  show ?case
  proof (rule read_entries_step [OF "5.prems"(1)])
    show "value_spec d" if "read_key p c = Ok (key, d)" for key d
      using that by (rule v)
    show "entries_spec n (Some (encode_key key)) e"
      if k: "read_key p c = Ok (key, d)" and w: "read_value d = Ok (w, e)" for key d w e
      by (rule "5.IH"(2) [OF k refl w refl]) (use read_value_end [OF v [OF k] w] d [OF k] in auto)
  qed
qed

lemma read_value_iff:
  "length (cur_data c) < 2 ^ 64 \<Longrightarrow>
     read_value c = Ok (v, c') \<longleftrightarrow> canonical v \<and> consumed c (encode v) c'"
  using read_value_spec(1) [of c] by (simp add: value_spec_def)

lemma from_bytes_iff:
  "from_bytes b = Ok v \<longleftrightarrow> canonical v \<and> encode v = b \<and> length b < 2 ^ 64"
proof
  assume l: "from_bytes b = Ok v"
  then obtain c' where r: "read_value \<lparr>cur_data = b, cur_pos = 0\<rparr> = Ok (v, c')"
    and e: "cur_pos c' = length b"
    by (auto simp: from_bytes_def bind_Ok_iff split: if_splits)
  have "advances \<lparr>cur_data = b, cur_pos = 0\<rparr> c'" using read_value_advances [OF r] .
  then have len: "length b < 2 ^ 64" using e by (simp add: advances_def)
  with r have "canonical v" "consumed \<lparr>cur_data = b, cur_pos = 0\<rparr> (encode v) c'"
    by (simp_all add: read_value_iff)
  with e len show "canonical v \<and> encode v = b \<and> length b < 2 ^ 64"
    by (auto simp: consumed_def skip_def)
next
  assume r: "canonical v \<and> encode v = b \<and> length b < 2 ^ 64"
  then have "consumed \<lparr>cur_data = b, cur_pos = 0\<rparr> (encode v) \<lparr>cur_data = b, cur_pos = length b\<rparr>"
    by (auto simp: consumed_def skip_def)
  with r show "from_bytes b = Ok v"
    using read_value_iff [of "\<lparr>cur_data = b, cur_pos = 0\<rparr>" v "\<lparr>cur_data = b, cur_pos = length b\<rparr>"]
    by (simp add: from_bytes_def)
qed

section \<open>Heads and keys are uniquely decodable\<close>

lemma head_arg_length: "head_info n = head_info n' \<Longrightarrow> length (head_arg n) = length (head_arg n')"
  by (auto simp: head_info_def head_arg_def word_less_nat_alt word_le_nat_alt word_unat_eq_iff
      unat_ucast_u8 split: if_splits)

lemma head_info_arg_inj:
  assumes "head_info n = head_info n'" and "head_arg n = head_arg n'"
  shows "n = n'"
proof -
  let ?c = "\<lparr>cur_data = head_arg n, cur_pos = 0\<rparr>"
  have len: "length (cur_data ?c) < 2 ^ 64" by (simp add: head_arg_def)
  have c: "consumed ?c (head_arg n) (skip (length (head_arg n)) ?c)" by (simp add: consumed_def)
  have "read_arg (head_info n) ?c = Ok (n, skip (length (head_arg n)) ?c)"
    using c by (subst read_arg_iff [OF len]) simp_all
  moreover have "read_arg (head_info n) ?c = Ok (n', skip (length (head_arg n)) ?c)"
    using c assms by (subst read_arg_iff [OF len]) simp_all
  ultimately show ?thesis by simp
qed

lemma encode_head_append_inj:
  assumes "m < 8" and "encode_head m n @ x = encode_head m n' @ y"
  shows "n = n' \<and> x = y"
proof -
  have i: "head_info k < 32" for k using head_info_less [of k] by (rule order_less_trans) simp
  have eq: "(push_bit 5 m OR head_info n) # head_arg n @ x =
      (push_bit 5 m OR head_info n') # head_arg n' @ y"
    using assms(2) unfolding encode_head_split by simp
  then have "(push_bit 5 m OR head_info n) AND 31 = (push_bit 5 m OR head_info n') AND 31"
    unfolding list.inject by (elim conjE arg_cong)
  then have info: "head_info n = head_info n'" unfolding head_byte(2) [OF assms(1) i] .
  from eq have "head_arg n @ x = head_arg n' @ y" by blast
  with head_arg_length [OF info] have "head_arg n = head_arg n'" and "x = y" by simp_all
  with head_info_arg_inj [OF info] show ?thesis by simp
qed

lemma encode_key_inj [simp]: "encode_key k = encode_key k' \<longleftrightarrow> k = k'"
  using encode_head_append_inj [of 3 "word_of_nat (length k)" "str_bytes k"
      "word_of_nat (length k')" "str_bytes k'"]
  by (auto simp: encode_key_def)

section \<open>Round trips\<close>

text \<open>
  A \<open>Value\<close> built by the program keeps its entries in construction order. \<open>canon\<close> sorts the
  entries at every level; \<open>wf_value\<close> is what the program has to guarantee of a value it encodes:
  text is UTF-8 (the Rust type's invariant) and no map has two entries for one key.
\<close>

fun canon :: "cbor_value \<Rightarrow> cbor_value" where
  "canon (Uint n) = Uint n"
| "canon (Bytes b) = Bytes b"
| "canon (Text s) = Text s"
| "canon (Array items) = Array (map canon items)"
| "canon (Map entries) =
     Map (sort_key (encode_key \<circ> fst) (map (\<lambda>(k, v). (k, canon v)) entries))"

fun wf_value :: "cbor_value \<Rightarrow> bool" where
  "wf_value (Uint n) = True"
| "wf_value (Bytes b) = True"
| "wf_value (Text s) = valid_text s"
| "wf_value (Array items) = list_all wf_value items"
| "wf_value (Map entries) =
     (distinct (map fst entries) \<and> list_all (\<lambda>(k, v). valid_text k \<and> wf_value v) entries)"

lemma insort_key_map: "insort_key f (g x) (map g xs) = map g (insort_key (f \<circ> g) x xs)"
  by (induction xs) auto

lemma sort_key_map: "sort_key f (map g xs) = map g (sort_key (f \<circ> g) xs)"
  by (induction xs) (simp_all add: insort_key_map [unfolded comp_def] comp_def)

lemma encode_canon: "encode (canon v) = encode v"
proof (induction v)
  case (Array vs)
  then have "map (\<lambda>x. encode (canon x)) vs = map encode vs" by simp
  then show ?case by (simp add: comp_def del: map_eq_conv)
next
  case (Map es)
  let ?f = "\<lambda>(k, v). (encode_key k, encode v)" and ?g = "\<lambda>(k, v). (k, canon v)"
  have fg: "map ?f (map ?g es) = map ?f es" using Map by (auto simp: case_prod_unfold)
  have ff: "fst \<circ> ?f = encode_key \<circ> fst" by (auto simp: fun_eq_iff)
  have "sort_key fst (map ?f (sort_key (encode_key \<circ> fst) (map ?g es)))
      = map ?f (sort_key (encode_key \<circ> fst) (map ?g es))"
    unfolding sort_key_map [of fst ?f] ff sort_key_id_if_sorted [OF sorted_sort_key] ..
  also have "\<dots> = sort_key fst (map ?f es)"
    unfolding fg [symmetric] sort_key_map [of fst ?f] ff ..
  finally show ?case by simp
qed simp_all

lemma keys_sort_canon:
  "distinct (map fst (sort_key f (map (\<lambda>(k, v). (k, canon v)) es))) = distinct (map fst es)"
proof -
  let ?es = "map (\<lambda>(k, v). (k, canon v)) es"
  have "mset (map fst (sort_key f ?es)) = mset (map fst ?es)"
    by (simp only: mset_map mset_sort)
  then have "distinct (map fst (sort_key f ?es)) = distinct (map fst ?es)"
    by (rule mset_eq_imp_distinct_iff)
  then show ?thesis by (simp add: comp_def case_prod_unfold)
qed

lemma canonical_canon: "wf_value v \<Longrightarrow> canonical (canon v)"
proof (induction v)
  case (Array vs)
  then show ?case by (auto simp: list_all_iff)
next
  case (Map es)
  let ?es = "sort_key (encode_key \<circ> fst) (map (\<lambda>(k, v). (k, canon v)) es)"
  have "distinct (map (encode_key \<circ> fst) ?es)"
    using Map.prems keys_sort_canon [of "encode_key \<circ> fst" es]
    by (simp add: distinct_map comp_inj_on inj_on_def)
  then have "sorted_wrt (<) (map (encode_key \<circ> fst) ?es)"
    by (simp add: strict_sorted_iff)
  moreover have "list_all (\<lambda>(k, v). valid_text k \<and> canonical v) ?es"
    using Map by (fastforce simp: list_all_iff)
  ultimately show ?case by simp
qed simp_all

lemma canonical_wf: "canonical v \<Longrightarrow> wf_value v"
proof (induction v)
  case (Array vs)
  then show ?case by (auto simp: list_all_iff)
next
  case (Map es)
  then have "distinct (map (encode_key \<circ> fst) es)" by (simp add: strict_sorted_iff)
  then have "distinct (map fst es)" by (auto simp: distinct_map inj_on_def)
  with Map show ?case by (fastforce simp: list_all_iff)
qed simp_all

lemma canon_canonical: "canonical v \<Longrightarrow> canon v = v"
proof (induction v)
  case (Array vs)
  then show ?case by (auto simp: list_all_iff intro: map_idI)
next
  case (Map es)
  then have "map (\<lambda>(k, v). (k, canon v)) es = es"
    by (intro map_idI) (force simp: list_all_iff)
  with Map.prems show ?case by (simp add: sort_key_strict)
qed simp_all

lemma from_bytes_to_bytes:
  assumes "wf_value v" and "length (to_bytes v) < 2 ^ 64"
  shows "from_bytes (to_bytes v) = Ok (canon v)"
  using assms by (simp add: from_bytes_iff to_bytes_def encode_canon canonical_canon)

interpretation cbor: canonical_codec to_bytes from_bytes
    "\<lambda>v. canonical v \<and> length (to_bytes v) < 2 ^ 64"
  by unfold_locales (auto simp: from_bytes_iff to_bytes_def)

lemma sort_key_perm:
  fixes f :: "'a \<Rightarrow> 'b :: linorder"
  assumes "mset xs = mset ys" and "inj_on f (set xs)"
  shows "sort_key f xs = sort_key f ys"
  using assms by (intro sort_key_inj_key_eq) simp_all

lemma encode_Map_perm:
  assumes d: "distinct (map fst es)" and m: "mset es = mset es'"
  shows "to_bytes (Map es) = to_bytes (Map es')"
proof -
  let ?f = "\<lambda>(k, v). (encode_key k, encode v)"
  have "inj_on (encode_key \<circ> fst) (set es)" using d by (auto simp: distinct_map inj_on_def)
  then have "sort_key (encode_key \<circ> fst) es = sort_key (encode_key \<circ> fst) es'"
    using m by (rule sort_key_perm [rotated])
  moreover have "fst \<circ> ?f = encode_key \<circ> fst" by (auto simp: fun_eq_iff)
  ultimately have "sort_key fst (map ?f es) = sort_key fst (map ?f es')"
    by (simp only: sort_key_map)
  moreover have "length es = length es'" using m by (rule mset_eq_length)
  ultimately show ?thesis by (simp add: to_bytes_def)
qed

section \<open>Sizes\<close>

text \<open>
  Upper bounds on encoded sizes. They discharge the bound of the address space from bounds on the
  fields of a structure.
\<close>

lemma length_encode_head_le: "length (encode_head m n) \<le> 9"
  by (simp add: encode_head_split head_arg_def)

lemma length_encode_Map:
  "length (encode (Map es)) = length (encode_head 5 (word_of_nat (length es)))
     + sum_list (map (\<lambda>(k, v). length (encode_key k) + length (encode v)) es)"
proof -
  let ?f = "\<lambda>(k, v). (encode_key k, encode v)" and ?n = "\<lambda>(kb, vb). length kb + length vb"
  have "sum_list (map ?n (sort_key fst (map ?f es))) = sum_mset (mset (map ?n (sort_key fst (map ?f es))))"
    by (rule sum_mset_sum_list [symmetric])
  also have "\<dots> = sum_mset (mset (map ?n (map ?f es)))" by (simp only: mset_map mset_sort)
  also have "\<dots> = sum_list (map (\<lambda>(k, v). length (encode_key k) + length (encode v)) es)"
    by (simp only: sum_mset_sum_list map_map) (simp add: comp_def case_prod_unfold)
  finally show ?thesis
    by (simp add: length_concat comp_def case_prod_unfold)
qed

lemma length_encode_key_le: "length (encode_key k) \<le> 9 + length k"
  using length_encode_head_le [of 3] by (simp add: encode_key_def)

fun size_bound :: "cbor_value \<Rightarrow> nat" where
  "size_bound (Uint n) = 9"
| "size_bound (Bytes b) = 9 + length b"
| "size_bound (Text s) = 9 + length s"
| "size_bound (Array vs) = 9 + sum_list (map size_bound vs)"
| "size_bound (Map es) = 9 + sum_list (map (\<lambda>(k, v). 9 + length k + size_bound v) es)"

lemma length_encode_le: "length (encode v) \<le> size_bound v"
proof (induction v)
  case (Array vs)
  have "sum_list (map (length \<circ> encode) vs) \<le> sum_list (map size_bound vs)"
    using Array by (intro sum_list_mono) auto
  then show ?case using length_encode_head_le [of 4 "word_of_nat (length vs)"]
    by (simp add: length_concat)
next
  case (Map es)
  have "sum_list (map (\<lambda>(k, v). length (encode_key k) + length (encode v)) es)
      \<le> sum_list (map (\<lambda>(k, v). 9 + length k + size_bound v) es)"
    using Map length_encode_key_le by (intro sum_list_mono) (fastforce intro: add_mono)
  then show ?case using length_encode_head_le [of 5 "word_of_nat (length es)"]
    by (simp add: length_encode_Map del: encode.simps)
qed (simp_all add: length_encode_head_le)

lemma to_bytes_fits: "size_bound v < 2 ^ 64 \<Longrightarrow> length (to_bytes v) < 2 ^ 64"
  using length_encode_le [of v] by (simp add: to_bytes_def)

section \<open>Reading fields back\<close>

lemma map_of_sort_canon:
  assumes "distinct (map fst es)"
  shows "map_of (sort_key f (map (\<lambda>(k, v). (k, canon v)) es)) k = map_option canon (map_of es k)"
proof -
  have "map_of (sort_key f (map (\<lambda>(k, v). (k, canon v)) es)) = map_of (map (\<lambda>(k, v). (k, canon v)) es)"
    using assms keys_sort_canon [of f es]
    by (subst map_of_inject_set) (simp_all add: comp_def case_prod_unfold)
  then show ?thesis by (simp add: map_of_map)
qed

lemma get_canon:
  "distinct (map fst es) \<Longrightarrow> get (canon (Map es)) k = bind (get (Map es) k) (\<lambda>v. Ok (canon v))"
  by (cases "map_of es k") (simp_all add: map_of_sort_canon)

lemma get_opt_canon:
  "distinct (map fst es) \<Longrightarrow> get_opt (canon (Map es)) k = Ok (map_option canon (map_of es k))"
  by (simp add: map_of_sort_canon)

lemma get_Ok_iff: "get v k = Ok w \<longleftrightarrow> (\<exists>es. v = Map es \<and> map_of es k = Some w)"
  by (cases v) (auto simp: ok_or_Ok_iff)

lemma as_uint_Ok_iff: "as_uint v = Ok n \<longleftrightarrow> v = Uint n" by (cases v) auto
lemma as_bytes_Ok_iff: "as_bytes v = Ok b \<longleftrightarrow> v = Bytes b" by (cases v) auto
lemma as_text_Ok_iff: "as_text v = Ok s \<longleftrightarrow> v = Text s" by (cases v) auto

lemmas accessor_iffs [result_simps] = get_Ok_iff as_uint_Ok_iff as_bytes_Ok_iff as_text_Ok_iff

section \<open>Properties\<close>

text \<open>
  C4. The decoder is exact: \<open>from_bytes\<close> accepts a byte string if and only if it is the canonical
  encoding of a value (smallest-form heads, UTF-8 text, strictly ascending keys, no trailing
  bytes, within a 64-bit address space), and then returns precisely that value.
\<close>

theorem cbor_decode_exact:
  "from_bytes b = Ok v \<longleftrightarrow> canonical v \<and> to_bytes v = b \<and> length b < 2 ^ 64"
  by (simp add: from_bytes_iff to_bytes_def)

text \<open>
  Encode then decode: any value with distinct keys and valid text, in whatever order its
  entries were pushed, is read back with its entries in canonical order.
\<close>

lemma cbor_roundtrip:
  assumes "wf_value v" and "length (to_bytes v) < 2 ^ 64"
  shows "from_bytes (to_bytes v) = Ok (canon v)"
  using assms by (rule from_bytes_to_bytes)

lemma cbor_roundtrip_witness:
  "from_bytes (to_bytes (Map [(''exp'', Uint 300), (''v'', Array [Bytes [7], Text ''x''])]))
     = Ok (Map [(''v'', Array [Bytes [7], Text ''x'']), (''exp'', Uint 300)])"
proof -
  let ?v = "Map [(''exp'', Uint 300), (''v'', Array [Bytes [7], Text ''x''])]"
  have "length (to_bytes ?v) = 15" by code_simp
  then have "from_bytes (to_bytes ?v) = Ok (canon ?v)"
    by (intro cbor_roundtrip) simp_all
  moreover have "canon ?v = Map [(''v'', Array [Bytes [7], Text ''x'']), (''exp'', Uint 300)]"
    by code_simp
  ultimately show ?thesis by (simp only:)
qed

text \<open>
  Determinism of the encoding: two maps with the same entries, pushed in different orders,
  have the same bytes.
\<close>

lemma cbor_order_independent:
  assumes "distinct (map fst es)" and "mset es = mset es'"
  shows "to_bytes (Map es) = to_bytes (Map es')"
  using assms by (rule encode_Map_perm)

lemma cbor_order_independent_witness:
  "to_bytes (Map [(''b'', Uint 1), (''a'', Uint 2)]) = to_bytes (Map [(''a'', Uint 2), (''b'', Uint 1)])"
  by (rule cbor_order_independent) simp_all

end
