(* ===== verification/Keys.thy ===== *)
theory Keys
  imports Auth_Cbor_Laws
begin

text \<open>
  The algorithm registry (\<open>algorithm.rs\<close>) and the self-describing public keys, signatures and
  fingerprints (\<open>key.rs\<close>) of \<open>identikey-auth\<close>. Blake3 and Base58 come from other crates: they are
  arguments of the definitions that call them.
\<close>

section \<open>Algorithms\<close>

datatype classical_alg = Ed25519 | P256

datatype pq_alg = MlDsa44 | MlDsa65 | MlDsa87

fun classical_tag :: "classical_alg \<Rightarrow> string" where
  "classical_tag Ed25519 = ''ed25519''"
| "classical_tag P256 = ''p256''"

definition classical_from_tag :: "string \<Rightarrow> (auth_error, classical_alg) result" where
  "classical_from_tag tag =
    (if tag = ''ed25519'' then Ok Ed25519
     else if tag = ''p256'' then Ok P256
     else Err (UnknownAlg tag))"

fun pq_tag :: "pq_alg \<Rightarrow> string" where
  "pq_tag MlDsa44 = ''ml-dsa-44''"
| "pq_tag MlDsa65 = ''ml-dsa-65''"
| "pq_tag MlDsa87 = ''ml-dsa-87''"

definition pq_from_tag :: "string \<Rightarrow> (auth_error, pq_alg) result" where
  "pq_from_tag tag =
    (if tag = ''ml-dsa-44'' then Ok MlDsa44
     else if tag = ''ml-dsa-65'' then Ok MlDsa65
     else if tag = ''ml-dsa-87'' then Ok MlDsa87
     else Err (UnknownAlg tag))"

section \<open>Keys and signatures\<close>

record classical_public_key =
  cpk_alg :: classical_alg
  cpk_bytes :: bytes

record classical_signature =
  csig_alg :: classical_alg
  csig_bytes :: bytes

record pq_public_key =
  pqpk_alg :: pq_alg
  pqpk_bytes :: bytes

record pq_signature =
  pqsig_alg :: pq_alg
  pqsig_bytes :: bytes

definition classical_public_key_to_value :: "classical_public_key \<Rightarrow> cbor_value" where
  "classical_public_key_to_value k =
    map_value [(''alg'', Text (classical_tag (cpk_alg k))), (''key'', Bytes (cpk_bytes k))]"

definition classical_public_key_from_value ::
    "cbor_value \<Rightarrow> (auth_error, classical_public_key) result" where
  "classical_public_key_from_value v =
    bind (bind (bind (get v ''alg'') as_text) classical_from_tag) (\<lambda>alg.
    bind (bind (get v ''key'') as_bytes) (\<lambda>bytes.
    Ok \<lparr>cpk_alg = alg, cpk_bytes = bytes\<rparr>))"

definition classical_signature_to_value :: "classical_signature \<Rightarrow> cbor_value" where
  "classical_signature_to_value s =
    map_value [(''alg'', Text (classical_tag (csig_alg s))), (''sig'', Bytes (csig_bytes s))]"

definition classical_signature_from_value ::
    "cbor_value \<Rightarrow> (auth_error, classical_signature) result" where
  "classical_signature_from_value v =
    bind (bind (bind (get v ''alg'') as_text) classical_from_tag) (\<lambda>alg.
    bind (bind (get v ''sig'') as_bytes) (\<lambda>bytes.
    Ok \<lparr>csig_alg = alg, csig_bytes = bytes\<rparr>))"

definition pq_public_key_to_value :: "pq_public_key \<Rightarrow> cbor_value" where
  "pq_public_key_to_value k =
    map_value [(''alg'', Text (pq_tag (pqpk_alg k))), (''key'', Bytes (pqpk_bytes k))]"

definition pq_public_key_from_value :: "cbor_value \<Rightarrow> (auth_error, pq_public_key) result" where
  "pq_public_key_from_value v =
    bind (bind (bind (get v ''alg'') as_text) pq_from_tag) (\<lambda>alg.
    bind (bind (get v ''key'') as_bytes) (\<lambda>bytes.
    Ok \<lparr>pqpk_alg = alg, pqpk_bytes = bytes\<rparr>))"

definition pq_signature_to_value :: "pq_signature \<Rightarrow> cbor_value" where
  "pq_signature_to_value s =
    map_value [(''alg'', Text (pq_tag (pqsig_alg s))), (''sig'', Bytes (pqsig_bytes s))]"

definition pq_signature_from_value :: "cbor_value \<Rightarrow> (auth_error, pq_signature) result" where
  "pq_signature_from_value v =
    bind (bind (bind (get v ''alg'') as_text) pq_from_tag) (\<lambda>alg.
    bind (bind (get v ''sig'') as_bytes) (\<lambda>bytes.
    Ok \<lparr>pqsig_alg = alg, pqsig_bytes = bytes\<rparr>))"

section \<open>Fingerprints\<close>

text \<open>A fingerprint is a 32-byte array; the hash function is \<open>blake3::hash\<close>.\<close>

type_synonym fingerprint = bytes

definition classical_fingerprint :: "(bytes \<Rightarrow> bytes) \<Rightarrow> classical_public_key \<Rightarrow> fingerprint" where
  "classical_fingerprint blake3 k = blake3 (to_bytes (classical_public_key_to_value k))"

definition fingerprint_to_base58 :: "(bytes \<Rightarrow> string) \<Rightarrow> fingerprint \<Rightarrow> string" where
  "fingerprint_to_base58 bs58_enc fp = bs58_enc fp"

definition fingerprint_from_base58 ::
    "(string \<Rightarrow> bytes option) \<Rightarrow> string \<Rightarrow> (auth_error, fingerprint) result" where
  "fingerprint_from_base58 bs58_dec s =
    bind (ok_or (bs58_dec s) (InvalidKey ''fingerprint base58'')) (\<lambda>bytes.
      if length bytes = 32 then Ok bytes else Err (InvalidKey ''fingerprint length''))"

definition fingerprint_debug :: "(bytes \<Rightarrow> string) \<Rightarrow> fingerprint \<Rightarrow> string" where
  "fingerprint_debug bs58_enc fp =
    ''Fingerprint('' @ take (min 8 (length (bs58_enc fp))) (bs58_enc fp) @ '')''"

section \<open>Values that structures are written to and read from\<close>

text \<open>
  A structure with a \<open>to_value\<close> and a \<open>from_value\<close>. The law is stated on \<open>canon\<close>, which is what
  decoding the value's bytes returns (\<open>from_bytes_to_bytes\<close>), so that a structure can be read back
  both on its own and as a field of another one.
\<close>

locale value_codec =
  fixes tv :: "'a \<Rightarrow> cbor_value"
    and fv :: "cbor_value \<Rightarrow> (auth_error, 'a) result"
    and wf :: "'a \<Rightarrow> bool"
  assumes wf_tv: "wf x \<Longrightarrow> wf_value (tv x)"
    and fv_tv: "wf x \<Longrightarrow> fv (canon (tv x)) = Ok x"
begin

lemma field_back:
  assumes "wf x" and "distinct (map fst es)" and "map_of es k = Some (tv x)"
  shows "bind (get (canon (Map es)) k) fv = Ok x"
  using assms by (simp add: get_canon fv_tv del: canon.simps)

lemma tv_inj: "wf x \<Longrightarrow> wf y \<Longrightarrow> tv x = tv y \<Longrightarrow> x = y"
  by (metis fv_tv result.inject(2))

end

sublocale value_codec \<subseteq> wire: wire_codec "\<lambda>x. to_bytes (tv x)" "\<lambda>b. bind (from_bytes b) fv"
    "\<lambda>x. wf x \<and> length (to_bytes (tv x)) < 2 ^ 64"
  by unfold_locales (simp add: from_bytes_to_bytes wf_tv fv_tv)

text \<open>A strict structure reads nothing but what it writes.\<close>

locale canonical_value_codec = value_codec +
  assumes fv_canonical: "canonical v \<Longrightarrow> fv v = Ok x \<Longrightarrow> wf x \<and> canon (tv x) = v"
begin

lemma fv_Ok_iff: "canonical v \<Longrightarrow> fv v = Ok x \<longleftrightarrow> wf x \<and> v = canon (tv x)"
  using fv_canonical [of v x] fv_tv [of x] by auto

lemma collect_Ok_iff':
  "list_all canonical vs \<Longrightarrow>
     collect fv vs = Ok xs \<longleftrightarrow> list_all wf xs \<and> vs = map (\<lambda>x. canon (tv x)) xs"
proof (induction vs arbitrary: xs)
  case Nil
  then show ?case by auto
next
  case (Cons v vs)
  have "collect fv (v # vs) = Ok xs \<longleftrightarrow> (\<exists>y ys. xs = y # ys \<and> fv v = Ok y \<and> collect fv vs = Ok ys)"
    by (auto simp: bind_Ok_iff)
  also have "\<dots> \<longleftrightarrow> (\<exists>y ys. xs = y # ys \<and> (wf y \<and> v = canon (tv y))
      \<and> list_all wf ys \<and> vs = map (\<lambda>x. canon (tv x)) ys)"
    using Cons by (simp add: fv_Ok_iff)
  also have "\<dots> \<longleftrightarrow> list_all wf xs \<and> v # vs = map (\<lambda>x. canon (tv x)) xs"
    by (cases xs) auto
  finally show ?case .
qed

end

sublocale canonical_value_codec \<subseteq> strict: canonical_codec "\<lambda>x. to_bytes (tv x)"
    "\<lambda>b. bind (from_bytes b) fv" "\<lambda>x. wf x \<and> length (to_bytes (tv x)) < 2 ^ 64"
proof unfold_locales
  fix b x
  assume "bind (from_bytes b) fv = Ok x"
  then obtain v where v: "canonical v" "encode v = b" "length b < 2 ^ 64" "fv v = Ok x"
    by (auto simp: bind_Ok_iff from_bytes_iff)
  then have "wf x" and "canon (tv x) = v" using fv_canonical by blast+
  with v show "wf x \<and> length (to_bytes (tv x)) < 2 ^ 64" and "to_bytes (tv x) = b"
    using encode_canon [of "tv x"] by (simp_all add: to_bytes_def)
qed

section \<open>Laws\<close>

lemma classical_from_tag_tag [simp]: "classical_from_tag (classical_tag a) = Ok a"
  by (cases a) (simp_all add: classical_from_tag_def)

lemma pq_from_tag_tag [simp]: "pq_from_tag (pq_tag a) = Ok a"
  by (cases a) (simp_all add: pq_from_tag_def)

lemma classical_from_tag_Ok_iff [result_simps]:
  "classical_from_tag t = Ok a \<longleftrightarrow> t = classical_tag a"
  by (cases a) (auto simp: classical_from_tag_def)

lemma pq_from_tag_Ok_iff [result_simps]: "pq_from_tag t = Ok a \<longleftrightarrow> t = pq_tag a"
  by (cases a) (auto simp: pq_from_tag_def)

lemma valid_text_tag [simp]: "valid_text (classical_tag a)" "valid_text (pq_tag q)"
  by (cases a; simp) (cases q; simp)

interpretation cpk: value_codec classical_public_key_to_value classical_public_key_from_value
    "\<lambda>_. True"
  by unfold_locales (simp_all add: classical_public_key_to_value_def map_value_def
      classical_public_key_from_value_def get_canon del: canon.simps(5))

interpretation csig: value_codec classical_signature_to_value classical_signature_from_value
    "\<lambda>_. True"
  by unfold_locales (simp_all add: classical_signature_to_value_def map_value_def
      classical_signature_from_value_def get_canon del: canon.simps(5))

interpretation pqpk: value_codec pq_public_key_to_value pq_public_key_from_value "\<lambda>_. True"
  by unfold_locales (simp_all add: pq_public_key_to_value_def map_value_def
      pq_public_key_from_value_def get_canon del: canon.simps(5))

interpretation pqsig: value_codec pq_signature_to_value pq_signature_from_value "\<lambda>_. True"
  by unfold_locales (simp_all add: pq_signature_to_value_def map_value_def
      pq_signature_from_value_def get_canon del: canon.simps(5))

end
