(* ===== verification/Challenge.thy ===== *)
theory Challenge
  imports Keys
begin

text \<open>
  The challenge and response structures of \<open>identikey-auth\<close> and the payload that is signed
  (\<open>challenge.rs\<close>).
\<close>

section \<open>Constants\<close>

definition VERSION :: u64 where "VERSION = 1"

definition CONTEXT :: string where "CONTEXT = ''identikey-auth/v1''"

definition PURPOSE_CHALLENGE :: string where "PURPOSE_CHALLENGE = ''challenge''"

definition MIN_NONCE_LEN :: nat where "MIN_NONCE_LEN = 16"

section \<open>Challenges\<close>

record challenge =
  ch_version :: u64
  ch_audience :: string
  ch_nonce :: bytes
  ch_issued_at :: u64
  ch_expires_at :: u64

definition challenge_to_value :: "challenge \<Rightarrow> cbor_value" where
  "challenge_to_value c = map_value
    [(''v'', Uint (ch_version c)),
     (''aud'', Text (ch_audience c)),
     (''nonce'', Bytes (ch_nonce c)),
     (''iat'', Uint (ch_issued_at c)),
     (''exp'', Uint (ch_expires_at c))]"

definition challenge_to_bytes :: "challenge \<Rightarrow> bytes" where
  "challenge_to_bytes c = to_bytes (challenge_to_value c)"

definition challenge_from_bytes :: "bytes \<Rightarrow> (auth_error, challenge) result" where
  "challenge_from_bytes data =
    bind (from_bytes data) (\<lambda>v.
    bind (bind (get v ''v'') as_uint) (\<lambda>version.
    bind (bind (get v ''aud'') as_text) (\<lambda>audience.
    bind (bind (get v ''nonce'') as_bytes) (\<lambda>nonce.
    bind (bind (get v ''iat'') as_uint) (\<lambda>issued_at.
    bind (bind (get v ''exp'') as_uint) (\<lambda>expires_at.
    Ok \<lparr>ch_version = version, ch_audience = audience, ch_nonce = nonce,
        ch_issued_at = issued_at, ch_expires_at = expires_at\<rparr>))))))"

definition signing_payload :: "bytes \<Rightarrow> bytes" where
  "signing_payload chal_bytes =
    to_bytes (Array [Text CONTEXT, Text PURPOSE_CHALLENGE, Bytes chal_bytes])"

section \<open>Responses\<close>

record response =
  challenge_bytes :: bytes
  resp_public_key :: classical_public_key
  resp_signature :: classical_signature
  resp_pq :: "(pq_public_key \<times> pq_signature) option"

definition response_entries :: "response \<Rightarrow> (string \<times> cbor_value) list" where
  "response_entries r =
    [(''chal'', Bytes (challenge_bytes r)),
     (''pub'', classical_public_key_to_value (resp_public_key r)),
     (''sig'', classical_signature_to_value (resp_signature r))] @
    (case resp_pq r of
       Some (pqpub, pqsig) \<Rightarrow>
         [(''pqpub'', pq_public_key_to_value pqpub), (''pqsig'', pq_signature_to_value pqsig)]
     | None \<Rightarrow> [])"

definition response_to_bytes :: "response \<Rightarrow> bytes" where
  "response_to_bytes r = to_bytes (map_value (response_entries r))"

definition response_from_bytes :: "bytes \<Rightarrow> (auth_error, response) result" where
  "response_from_bytes data =
    bind (from_bytes data) (\<lambda>v.
    bind (bind (get v ''chal'') as_bytes) (\<lambda>chal.
    bind (bind (get v ''pub'') classical_public_key_from_value) (\<lambda>pub.
    bind (bind (get v ''sig'') classical_signature_from_value) (\<lambda>sig.
    bind (get_opt v ''pqpub'') (\<lambda>pqpub.
    bind (get_opt v ''pqsig'') (\<lambda>pqsig.
    bind (case (pqpub, pqsig) of
        (Some pk, Some sg) \<Rightarrow>
          bind (pq_public_key_from_value pk) (\<lambda>k.
          bind (pq_signature_from_value sg) (\<lambda>s. Ok (Some (k, s))))
      | (None, None) \<Rightarrow> Ok None
      | _ \<Rightarrow> Err PqDangling) (\<lambda>pq.
    Ok \<lparr>challenge_bytes = chal, resp_public_key = pub, resp_signature = sig, resp_pq = pq\<rparr>)))))))"

definition response_signing_payload :: "response \<Rightarrow> bytes" where
  "response_signing_payload r = signing_payload (challenge_bytes r)"

section \<open>Laws\<close>

definition challenge_ok :: "challenge \<Rightarrow> bool" where
  "challenge_ok c \<longleftrightarrow> valid_text (ch_audience c) \<and> length (challenge_to_bytes c) < 2 ^ 64"

lemma challenge_wf_value: "valid_text (ch_audience c) \<Longrightarrow> wf_value (challenge_to_value c)"
  by (simp add: challenge_to_value_def map_value_def)

interpretation challenge: wire_codec challenge_to_bytes challenge_from_bytes challenge_ok
proof
  fix c assume "challenge_ok c"
  then have "from_bytes (challenge_to_bytes c) = Ok (canon (challenge_to_value c))"
    by (simp add: challenge_ok_def challenge_to_bytes_def from_bytes_to_bytes challenge_wf_value)
  then show "challenge_from_bytes (challenge_to_bytes c) = Ok c"
    by (simp add: challenge_from_bytes_def challenge_to_value_def map_value_def get_canon
        del: canon.simps(5))
qed

lemma challenge_okI:
  assumes "valid_text (ch_audience c)" and "length (ch_audience c) + length (ch_nonce c) < 2 ^ 63"
  shows "challenge_ok c"
  unfolding challenge_ok_def challenge_to_bytes_def
  using assms by (intro conjI to_bytes_fits) (simp_all add: challenge_to_value_def map_value_def)

definition response_ok :: "response \<Rightarrow> bool" where
  "response_ok r \<longleftrightarrow> length (response_to_bytes r) < 2 ^ 64"

lemma response_wf_value: "wf_value (Map (response_entries r))"
  by (simp add: response_entries_def cpk.wf_tv csig.wf_tv pqpk.wf_tv pqsig.wf_tv
      image_iff split: option.split)

interpretation response: wire_codec response_to_bytes response_from_bytes response_ok
proof
  fix r assume "response_ok r"
  then have "from_bytes (response_to_bytes r) = Ok (canon (Map (response_entries r)))"
    using response_wf_value [of r]
    by (simp only: response_ok_def response_to_bytes_def from_bytes_to_bytes map_value_def)
  then show "response_from_bytes (response_to_bytes r) = Ok r"
    by (cases "resp_pq r")
      (auto simp: response_from_bytes_def response_entries_def get_canon get_opt_canon
        cpk.fv_tv csig.fv_tv pqpk.fv_tv pqsig.fv_tv simp del: canon.simps(5) get_opt.simps)
qed

lemma PqDangling_iff:
  assumes "from_bytes data = Ok (Map es)"
    and "bind (get (Map es) ''chal'') as_bytes = Ok chal"
    and "bind (get (Map es) ''pub'') classical_public_key_from_value = Ok pub"
    and "bind (get (Map es) ''sig'') classical_signature_from_value = Ok sg"
    and "(map_of es ''pqpub'' = None) \<noteq> (map_of es ''pqsig'' = None)"
  shows "response_from_bytes data = Err PqDangling"
  using assms unfolding response_from_bytes_def
  by (cases "map_of es ''pqpub''"; cases "map_of es ''pqsig''") simp_all

text \<open>The signed payload determines the challenge bytes.\<close>

lemma encode_Bytes_inj: "encode (Bytes a) @ x = encode (Bytes b) @ y \<Longrightarrow>
    length a < 2 ^ 64 \<Longrightarrow> length b < 2 ^ 64 \<Longrightarrow> a = b \<and> x = y"
  using encode_head_append_inj [of 2 "word_of_nat (length a)" "a @ x" "word_of_nat (length b)" "b @ y"]
  by (auto dest: arg_cong [where f = unat] simp: unat_of_length)

lemma encode_Text_inj: "encode (Text s) @ x = encode (Text t) @ y \<Longrightarrow>
    length s < 2 ^ 64 \<Longrightarrow> length t < 2 ^ 64 \<Longrightarrow> s = t \<and> x = y"
  using encode_head_append_inj [of 3 "word_of_nat (length s)" "str_bytes s @ x"
      "word_of_nat (length t)" "str_bytes t @ y"]
  by (auto dest: arg_cong [where f = unat] simp: unat_of_length)

lemma signing_payload_inj [simp]: "signing_payload a = signing_payload b \<longleftrightarrow> a = b"
  using encode_head_append_inj [of 2 "word_of_nat (length a)" a "word_of_nat (length b)" b]
  by (auto simp: signing_payload_def to_bytes_def)

lemma length_signing_payload: "length b \<le> length (signing_payload b)"
  by (simp add: signing_payload_def to_bytes_def)

end
