(* ===== verification/Signer.thy ===== *)
theory Signer
  imports Challenge
begin

text \<open>
  Signing and verification backends of \<open>identikey-auth\<close> (\<open>signer.rs\<close>): the \<open>Signer\<close> trait with its
  provided method \<open>respond\<close>, the in-process \<open>SoftwareSigner\<close>, and the two verification functions.
  The primitives belong to other crates (\<open>blake3\<close>, \<open>ed25519-dalek\<close>, \<open>p256\<close>, \<open>fips204\<close>); they are the
  fields of a record that every definition takes as an argument.
\<close>

section \<open>The cryptographic crates\<close>

text \<open>
  A fallible call of a crate is a result whose error is the message the program formats. Calls
  that draw from the operating system's generator take the drawn bytes as an argument.
\<close>

record crypto =
  blake3 :: "bytes \<Rightarrow> bytes"
  ed_public :: "bytes \<Rightarrow> bytes"
  ed_sign :: "bytes \<Rightarrow> bytes \<Rightarrow> bytes"
  ed_key_ok :: "bytes \<Rightarrow> bool"
  ed_verify_strict :: "bytes \<Rightarrow> bytes \<Rightarrow> bytes \<Rightarrow> bool"
  p256_scalar :: "bytes \<Rightarrow> (string, unit) result"
  p256_public :: "bytes \<Rightarrow> bytes"
  p256_sign :: "bytes \<Rightarrow> bytes \<Rightarrow> bytes"
  p256_key_ok :: "bytes \<Rightarrow> bool"
  p256_sig_ok :: "bytes \<Rightarrow> bool"
  p256_verify :: "bytes \<Rightarrow> bytes \<Rightarrow> bytes \<Rightarrow> bool"
  mldsa_pk_len :: "pq_alg \<Rightarrow> nat"
  mldsa_sig_len :: "pq_alg \<Rightarrow> nat"
  mldsa_key :: "pq_alg \<Rightarrow> bytes \<Rightarrow> (string, unit) result"
  mldsa_verify :: "pq_alg \<Rightarrow> bytes \<Rightarrow> bytes \<Rightarrow> bytes \<Rightarrow> bool"
  mldsa65_keygen :: "bytes \<Rightarrow> (string, bytes \<times> bytes) result"
  mldsa65_sign :: "bytes \<Rightarrow> bytes \<Rightarrow> bytes \<Rightarrow> (string, bytes) result"

section \<open>The Signer trait\<close>

definition respond ::
    "classical_public_key \<Rightarrow> (bytes \<Rightarrow> (auth_error, classical_signature) result) \<Rightarrow>
     pq_public_key option \<Rightarrow> (bytes \<Rightarrow> (auth_error, pq_signature option) result) \<Rightarrow>
     challenge \<Rightarrow> (auth_error, response) result" where
  "respond classical_public_key sign_classical pq_public_key sign_pq ch =
    (let chal = challenge_to_bytes ch; payload = signing_payload chal in
     bind (sign_classical payload) (\<lambda>signature.
     bind (sign_pq payload) (\<lambda>pqsig.
     let pq = (case (pq_public_key, pqsig) of (Some pk, Some sg) \<Rightarrow> Some (pk, sg) | _ \<Rightarrow> None) in
     Ok \<lparr>challenge_bytes = chal, resp_public_key = classical_public_key,
         resp_signature = signature, resp_pq = pq\<rparr>)))"

section \<open>Software signer\<close>

datatype classical_secret = SecretEd25519 bytes | SecretP256 bytes

text \<open>The optional ML-DSA-65 key is \<open>(secret, public-key bytes)\<close>.\<close>

record software_signer =
  sw_classical :: classical_secret
  sw_pq :: "(bytes \<times> bytes) option"

definition generate_ed25519 :: "bytes \<Rightarrow> software_signer" where
  "generate_ed25519 drawn = \<lparr>sw_classical = SecretEd25519 drawn, sw_pq = None\<rparr>"

definition generate_p256 :: "bytes \<Rightarrow> software_signer" where
  "generate_p256 drawn = \<lparr>sw_classical = SecretP256 drawn, sw_pq = None\<rparr>"

definition from_ed25519_seed :: "bytes \<Rightarrow> software_signer" where
  "from_ed25519_seed seed = \<lparr>sw_classical = SecretEd25519 seed, sw_pq = None\<rparr>"

definition from_p256_seed :: "crypto \<Rightarrow> bytes \<Rightarrow> (auth_error, software_signer) result" where
  "from_p256_seed C seed =
    bind (map_err (\<lambda>e. Backend (''p256 seed: '' @ e)) (p256_scalar C seed)) (\<lambda>_.
      Ok \<lparr>sw_classical = SecretP256 seed, sw_pq = None\<rparr>)"

definition with_ml_dsa_65 ::
    "crypto \<Rightarrow> bytes \<Rightarrow> software_signer \<Rightarrow> (auth_error, software_signer) result" where
  "with_ml_dsa_65 C drawn s =
    bind (map_err (\<lambda>e. Backend (''ml-dsa-65 keygen: '' @ e)) (mldsa65_keygen C drawn))
      (\<lambda>(pk, sk). Ok (s\<lparr>sw_pq := Some (sk, pk)\<rparr>))"

definition software_public_key :: "crypto \<Rightarrow> software_signer \<Rightarrow> classical_public_key" where
  "software_public_key C s =
    (case sw_classical s of
       SecretEd25519 sk \<Rightarrow> \<lparr>cpk_alg = Ed25519, cpk_bytes = ed_public C sk\<rparr>
     | SecretP256 sk \<Rightarrow> \<lparr>cpk_alg = P256, cpk_bytes = p256_public C sk\<rparr>)"

definition software_sign_classical ::
    "crypto \<Rightarrow> software_signer \<Rightarrow> bytes \<Rightarrow> (auth_error, classical_signature) result" where
  "software_sign_classical C s payload =
    (case sw_classical s of
       SecretEd25519 sk \<Rightarrow> Ok \<lparr>csig_alg = Ed25519, csig_bytes = ed_sign C sk payload\<rparr>
     | SecretP256 sk \<Rightarrow> Ok \<lparr>csig_alg = P256, csig_bytes = p256_sign C sk payload\<rparr>)"

definition software_pq_public_key :: "software_signer \<Rightarrow> pq_public_key option" where
  "software_pq_public_key s =
    map_option (\<lambda>(_, pk_bytes). \<lparr>pqpk_alg = MlDsa65, pqpk_bytes = pk_bytes\<rparr>) (sw_pq s)"

definition software_sign_pq ::
    "crypto \<Rightarrow> bytes \<Rightarrow> software_signer \<Rightarrow> bytes \<Rightarrow> (auth_error, pq_signature option) result" where
  "software_sign_pq C drawn s payload =
    (case sw_pq s of
       None \<Rightarrow> Ok None
     | Some (sk, _) \<Rightarrow>
         bind (map_err (\<lambda>e. Backend (''ml-dsa-65 sign: '' @ e)) (mldsa65_sign C drawn sk payload))
           (\<lambda>sig. Ok (Some \<lparr>pqsig_alg = MlDsa65, pqsig_bytes = sig\<rparr>)))"

definition software_respond ::
    "crypto \<Rightarrow> bytes \<Rightarrow> software_signer \<Rightarrow> challenge \<Rightarrow> (auth_error, response) result" where
  "software_respond C drawn s =
    respond (software_public_key C s) (software_sign_classical C s)
      (software_pq_public_key s) (software_sign_pq C drawn s)"

section \<open>Verification\<close>

definition verify_classical ::
    "crypto \<Rightarrow> classical_public_key \<Rightarrow> bytes \<Rightarrow> classical_signature \<Rightarrow> (auth_error, unit) result" where
  "verify_classical C pk payload sig =
    (if cpk_alg pk \<noteq> csig_alg sig then Err BadSignature
     else case cpk_alg pk of
       Ed25519 \<Rightarrow>
         bind (guard (length (cpk_bytes pk) = 32) (InvalidKey ''ed25519'')) (\<lambda>_.
         bind (guard (ed_key_ok C (cpk_bytes pk)) (InvalidKey ''ed25519'')) (\<lambda>_.
         bind (guard (length (csig_bytes sig) = 64) (InvalidSig ''ed25519'')) (\<lambda>_.
         guard (ed_verify_strict C (cpk_bytes pk) payload (csig_bytes sig)) BadSignature)))
     | P256 \<Rightarrow>
         bind (guard (p256_key_ok C (cpk_bytes pk)) (InvalidKey ''p256'')) (\<lambda>_.
         bind (guard (p256_sig_ok C (csig_bytes sig)) (InvalidSig ''p256'')) (\<lambda>_.
         guard (p256_verify C (cpk_bytes pk) payload (csig_bytes sig)) BadSignature)))"

text \<open>The macro \<open>verify_with!\<close>, one expansion per parameter set.\<close>

definition verify_with ::
    "crypto \<Rightarrow> pq_alg \<Rightarrow> string \<Rightarrow> pq_public_key \<Rightarrow> bytes \<Rightarrow> pq_signature \<Rightarrow> (auth_error, unit) result" where
  "verify_with C m name pk payload sig =
    bind (guard (length (pqpk_bytes pk) = mldsa_pk_len C m) (InvalidKey name)) (\<lambda>_.
    bind (map_err Backend (mldsa_key C m (pqpk_bytes pk))) (\<lambda>_.
    bind (guard (length (pqsig_bytes sig) = mldsa_sig_len C m) (InvalidSig name)) (\<lambda>_.
    if mldsa_verify C m (pqpk_bytes pk) payload (pqsig_bytes sig) then Ok ()
    else Err BadSignature)))"

definition verify_pq ::
    "crypto \<Rightarrow> pq_public_key \<Rightarrow> bytes \<Rightarrow> pq_signature \<Rightarrow> (auth_error, unit) result" where
  "verify_pq C pk payload sig =
    (if pqpk_alg pk \<noteq> pqsig_alg sig then Err BadSignature
     else case pqpk_alg pk of
       MlDsa44 \<Rightarrow> verify_with C MlDsa44 ''ml-dsa-44'' pk payload sig
     | MlDsa65 \<Rightarrow> verify_with C MlDsa65 ''ml-dsa-65'' pk payload sig
     | MlDsa87 \<Rightarrow> verify_with C MlDsa87 ''ml-dsa-87'' pk payload sig)"

section \<open>What the program relies on\<close>

text \<open>
  Documented behaviour of the crates, used as named hypotheses: a signature made with a secret
  key is accepted by the verification function under the matching public key, and encodings have
  their fixed sizes. Nothing is assumed about which other signatures are accepted.
\<close>

definition ed25519_ok :: "crypto \<Rightarrow> bool" where
  "ed25519_ok C \<longleftrightarrow> (\<forall>sk. length sk = 32 \<longrightarrow>
     length (ed_public C sk) = 32 \<and> ed_key_ok C (ed_public C sk) \<and>
     (\<forall>m. length (ed_sign C sk m) = 64 \<and> ed_verify_strict C (ed_public C sk) m (ed_sign C sk m)))"

definition p256_ok :: "crypto \<Rightarrow> bool" where
  "p256_ok C \<longleftrightarrow> (\<forall>sk. p256_scalar C sk = Ok () \<longrightarrow>
     p256_key_ok C (p256_public C sk) \<and>
     (\<forall>m. p256_sig_ok C (p256_sign C sk m) \<and> p256_verify C (p256_public C sk) m (p256_sign C sk m)))"

definition mldsa65_ok :: "crypto \<Rightarrow> bool" where
  "mldsa65_ok C \<longleftrightarrow> (\<forall>drawn pk sk. mldsa65_keygen C drawn = Ok (pk, sk) \<longrightarrow>
     length pk = mldsa_pk_len C MlDsa65 \<and> mldsa_key C MlDsa65 pk = Ok () \<and>
     (\<forall>r m sig. mldsa65_sign C r sk m = Ok sig \<longrightarrow>
        length sig = mldsa_sig_len C MlDsa65 \<and> mldsa_verify C MlDsa65 pk m sig))"

definition crypto_ok :: "crypto \<Rightarrow> bool" where
  "crypto_ok C \<longleftrightarrow>
    ed25519_ok C \<and> p256_ok C \<and> mldsa65_ok C \<and> (\<forall>m. length (blake3 C m) = 32)"

text \<open>A signer's type invariant: its secrets are ones the crates accept or generate.\<close>

definition classical_secret_ok :: "crypto \<Rightarrow> classical_secret \<Rightarrow> bool" where
  "classical_secret_ok C sec =
    (case sec of SecretEd25519 sk \<Rightarrow> length sk = 32 | SecretP256 sk \<Rightarrow> p256_scalar C sk = Ok ())"

definition software_ok :: "crypto \<Rightarrow> software_signer \<Rightarrow> bool" where
  "software_ok C s \<longleftrightarrow> classical_secret_ok C (sw_classical s) \<and>
    (\<forall>sk pk. sw_pq s = Some (sk, pk) \<longrightarrow> (\<exists>drawn. mldsa65_keygen C drawn = Ok (pk, sk)))"

section \<open>Every signer's responses verify\<close>

text \<open>
  The contract of an implementation of \<open>Signer\<close>, against the verification functions. \<open>respond\<close> is
  proved correct once, from the contract alone, so it also holds of the platform backends that
  keep it.
\<close>

locale signer =
  fixes valid :: "'c \<Rightarrow> 's \<Rightarrow> bool"
    and public_key :: "'c \<Rightarrow> 's \<Rightarrow> classical_public_key"
    and sign :: "'c \<Rightarrow> 's \<Rightarrow> bytes \<Rightarrow> (auth_error, classical_signature) result"
    and pq_key :: "'s \<Rightarrow> pq_public_key option"
    and sign_pq :: "'c \<Rightarrow> bytes \<Rightarrow> 's \<Rightarrow> bytes \<Rightarrow> (auth_error, pq_signature option) result"
    and check :: "'c \<Rightarrow> classical_public_key \<Rightarrow> bytes \<Rightarrow> classical_signature \<Rightarrow> (auth_error, unit) result"
    and check_pq :: "'c \<Rightarrow> pq_public_key \<Rightarrow> bytes \<Rightarrow> pq_signature \<Rightarrow> (auth_error, unit) result"
  assumes sign_verifies:
      "valid C s \<Longrightarrow> sign C s m = Ok sg \<Longrightarrow> check C (public_key C s) m sg = Ok ()"
    and sign_pq_verifies:
      "valid C s \<Longrightarrow> sign_pq C r s m = Ok (Some qsg) \<Longrightarrow> pq_key s = Some pk \<Longrightarrow>
         check_pq C pk m qsg = Ok ()"
begin

lemma respond_verifies:
  assumes "valid C s"
    and "respond (public_key C s) (sign C s) (pq_key s) (sign_pq C r s) ch = Ok resp"
  shows "challenge_bytes resp = challenge_to_bytes ch"
    and "resp_public_key resp = public_key C s"
    and "check C (resp_public_key resp) (response_signing_payload resp) (resp_signature resp) = Ok ()"
    and "resp_pq resp = Some (pk, sg) \<Longrightarrow>
      pq_key s = Some pk \<and> check_pq C pk (response_signing_payload resp) sg = Ok ()"
proof -
  let ?m = "signing_payload (challenge_to_bytes ch)"
  obtain c q where c: "sign C s ?m = Ok c" and q: "sign_pq C r s ?m = Ok q"
    and resp: "resp = \<lparr>challenge_bytes = challenge_to_bytes ch, resp_public_key = public_key C s,
      resp_signature = c,
      resp_pq = (case (pq_key s, q) of (Some pk, Some sg) \<Rightarrow> Some (pk, sg) | _ \<Rightarrow> None)\<rparr>"
    using assms(2) by (auto simp: respond_def Let_def bind_Ok_iff)
  show "challenge_bytes resp = challenge_to_bytes ch" "resp_public_key resp = public_key C s"
    by (simp_all add: resp)
  show "check C (resp_public_key resp) (response_signing_payload resp) (resp_signature resp) = Ok ()"
    using sign_verifies [OF assms(1) c] by (simp add: resp response_signing_payload_def)
  show "resp_pq resp = Some (pk, sg) \<Longrightarrow>
      pq_key s = Some pk \<and> check_pq C pk (response_signing_payload resp) sg = Ok ()"
    using q sign_pq_verifies [OF assms(1)]
    by (auto simp: resp response_signing_payload_def split: option.splits)
qed

end

lemma software_sign_verifies:
  assumes "crypto_ok C" and "software_ok C s" and "software_sign_classical C s m = Ok sg"
  shows "verify_classical C (software_public_key C s) m sg = Ok ()"
  using assms
  by (auto simp: software_sign_classical_def software_public_key_def verify_classical_def
      crypto_ok_def ed25519_ok_def p256_ok_def software_ok_def classical_secret_ok_def
      split: classical_secret.splits)

lemma software_sign_pq_verifies:
  assumes "crypto_ok C" and "software_ok C s" and "software_sign_pq C r s m = Ok (Some sg)"
    and "software_pq_public_key s = Some pk"
  shows "verify_pq C pk m sg = Ok ()"
proof -
  from assms(3,4) obtain sk pkb sig where pq: "sw_pq s = Some (sk, pkb)"
    and sign: "mldsa65_sign C r sk m = Ok sig"
    and sg: "sg = \<lparr>pqsig_alg = MlDsa65, pqsig_bytes = sig\<rparr>"
    and pk: "pk = \<lparr>pqpk_alg = MlDsa65, pqpk_bytes = pkb\<rparr>"
    by (auto simp: software_sign_pq_def software_pq_public_key_def bind_Ok_iff map_err_Ok_iff
        split: option.splits)
  obtain drawn where "mldsa65_keygen C drawn = Ok (pkb, sk)"
    using assms(2) pq by (auto simp: software_ok_def)
  moreover have "mldsa65_ok C" using assms(1) by (simp add: crypto_ok_def)
  ultimately have "length pkb = mldsa_pk_len C MlDsa65" "mldsa_key C MlDsa65 pkb = Ok ()"
    "length sig = mldsa_sig_len C MlDsa65" "mldsa_verify C MlDsa65 pkb m sig"
    using sign unfolding mldsa65_ok_def by blast+
  then show ?thesis by (simp add: verify_pq_def verify_with_def pk sg)
qed

interpretation software: signer "\<lambda>C s. crypto_ok C \<and> software_ok C s" software_public_key
    software_sign_classical software_pq_public_key software_sign_pq verify_classical verify_pq
  by unfold_locales (auto intro: software_sign_verifies software_sign_pq_verifies)

lemma software_constructors_ok:
  "length seed = 32 \<Longrightarrow> software_ok C (from_ed25519_seed seed)"
  "length seed = 32 \<Longrightarrow> software_ok C (generate_ed25519 seed)"
  "p256_scalar C seed = Ok () \<Longrightarrow> software_ok C (generate_p256 seed)"
  "from_p256_seed C seed = Ok s \<Longrightarrow> software_ok C s"
  "software_ok C s \<Longrightarrow> with_ml_dsa_65 C drawn s = Ok s' \<Longrightarrow> software_ok C s'"
  by (auto simp: software_ok_def classical_secret_ok_def from_ed25519_seed_def generate_ed25519_def
      generate_p256_def from_p256_seed_def with_ml_dsa_65_def result_simps)

lemma verify_classical_Ok_iff:
  "verify_classical C pk m sg = Ok u \<longleftrightarrow> cpk_alg pk = csig_alg sg \<and>
     (case cpk_alg pk of
        Ed25519 \<Rightarrow> length (cpk_bytes pk) = 32 \<and> ed_key_ok C (cpk_bytes pk) \<and>
          length (csig_bytes sg) = 64 \<and> ed_verify_strict C (cpk_bytes pk) m (csig_bytes sg)
      | P256 \<Rightarrow> p256_key_ok C (cpk_bytes pk) \<and> p256_sig_ok C (csig_bytes sg) \<and>
          p256_verify C (cpk_bytes pk) m (csig_bytes sg))"
  by (auto simp: verify_classical_def result_simps split: classical_alg.splits)

lemma verify_pq_Ok_iff:
  "verify_pq C pk m sg = Ok u \<longleftrightarrow> pqpk_alg pk = pqsig_alg sg \<and>
     length (pqpk_bytes pk) = mldsa_pk_len C (pqpk_alg pk) \<and>
     mldsa_key C (pqpk_alg pk) (pqpk_bytes pk) = Ok () \<and>
     length (pqsig_bytes sg) = mldsa_sig_len C (pqpk_alg pk) \<and>
     mldsa_verify C (pqpk_alg pk) (pqpk_bytes pk) m (pqsig_bytes sg)"
  by (auto simp: verify_pq_def verify_with_def result_simps split: pq_alg.splits if_splits)

section \<open>A concrete instance\<close>

text \<open>
  A keyed-checksum instance of the primitives: it has no security, and shows that the hypotheses
  of this theory can hold together.
\<close>

definition toy_tag :: "nat \<Rightarrow> bytes \<Rightarrow> bytes \<Rightarrow> bytes" where
  "toy_tag n sk m = take n (sk @ m @ replicate n 0)"

definition toy_crypto :: crypto where
  "toy_crypto = \<lparr>
    blake3 = (\<lambda>m. take 32 (m @ replicate 32 0)),
    ed_public = id,
    ed_sign = toy_tag 64,
    ed_key_ok = (\<lambda>pk. length pk = 32),
    ed_verify_strict = (\<lambda>pk m s. s = toy_tag 64 pk m),
    p256_scalar = (\<lambda>sk. if length sk = 32 then Ok () else Err ''length''),
    p256_public = (\<lambda>sk. 2 # sk),
    p256_sign = toy_tag 64,
    p256_key_ok = (\<lambda>pk. length pk = 33),
    p256_sig_ok = (\<lambda>s. length s = 64),
    p256_verify = (\<lambda>pk m s. s = toy_tag 64 (tl pk) m),
    mldsa_pk_len = (\<lambda>a. case a of MlDsa44 \<Rightarrow> 1312 | MlDsa65 \<Rightarrow> 1952 | MlDsa87 \<Rightarrow> 2592),
    mldsa_sig_len = (\<lambda>a. case a of MlDsa44 \<Rightarrow> 2420 | MlDsa65 \<Rightarrow> 3309 | MlDsa87 \<Rightarrow> 4627),
    mldsa_key = (\<lambda>_ _. Ok ()),
    mldsa_verify = (\<lambda>a pk m s. s = toy_tag (case a of MlDsa44 \<Rightarrow> 2420 | MlDsa65 \<Rightarrow> 3309 | MlDsa87 \<Rightarrow> 4627) pk m),
    mldsa65_keygen = (\<lambda>r. if length r = 32
      then Ok (r @ replicate 1920 0, r @ replicate 1920 0) else Err ''rng''),
    mldsa65_sign = (\<lambda>r sk m. Ok (toy_tag 3309 sk m))\<rparr>"

lemma length_toy_tag [simp]: "length (toy_tag n sk m) = n"
  by (simp add: toy_tag_def)

lemma toy_crypto_ok [simp]: "crypto_ok toy_crypto"
  by (auto simp: crypto_ok_def ed25519_ok_def p256_ok_def mldsa65_ok_def toy_crypto_def
      split: if_splits)

end
