(* ===== verification/Nonce.thy ===== *)
theory Nonce
  imports Challenge
begin

text \<open>
  Verifier-issued nonces and replay protection (\<open>nonce.rs\<close>): the \<open>NonceStore\<close> interface, the
  in-memory store, and the challenge issuer.
\<close>

section \<open>The in-memory store\<close>

text \<open>The map from a nonce to \<open>(expires_at, used)\<close>.\<close>

record nonce_store =
  issued :: "bytes \<rightharpoonup> u64 \<times> bool"

definition new_store :: nonce_store where
  "new_store = \<lparr>issued = Map.empty\<rparr>"

definition record_issued :: "bytes \<Rightarrow> u64 \<Rightarrow> nonce_store \<Rightarrow> nonce_store" where
  "record_issued nonce expires_at st = st\<lparr>issued := (issued st)(nonce \<mapsto> (expires_at, False))\<rparr>"

definition consume ::
    "bytes \<Rightarrow> u64 \<Rightarrow> nonce_store \<Rightarrow> (auth_error, unit) result \<times> nonce_store" where
  "consume nonce now st =
    (case issued st nonce of
       None \<Rightarrow> (Err NonceReplay, st)
     | Some (expires_at, used) \<Rightarrow>
         if used then (Err NonceReplay, st)
         else if now > expires_at then (Err TimeWindow, st)
         else (Ok (), st\<lparr>issued := (issued st)(nonce \<mapsto> (expires_at, True))\<rparr>))"

definition gc :: "u64 \<Rightarrow> nonce_store \<Rightarrow> nonce_store" where
  "gc now st = st\<lparr>issued := (\<lambda>n. case issued st n of
      Some (expires_at, used) \<Rightarrow> if expires_at \<ge> now then Some (expires_at, used) else None
    | None \<Rightarrow> None)\<rparr>"

section \<open>The issuer\<close>

record challenge_issuer =
  ci_audience :: string
  ci_ttl_secs :: u64

definition new_issuer :: "string \<Rightarrow> u64 \<Rightarrow> challenge_issuer" where
  "new_issuer audience ttl_secs = \<lparr>ci_audience = audience, ci_ttl_secs = ttl_secs\<rparr>"

text \<open>
  \<open>drawn\<close> are the \<open>MIN_NONCE_LEN\<close> bytes the system generator fills the nonce with; the store is a
  trait object, so its \<open>record_issued\<close> is an argument.
\<close>

definition issue ::
    "bool \<Rightarrow> (bytes \<Rightarrow> u64 \<Rightarrow> 's \<Rightarrow> 's) \<Rightarrow> bytes \<Rightarrow> challenge_issuer \<Rightarrow> u64 \<Rightarrow> 's
      \<Rightarrow> (challenge \<times> 's) outcome" where
  "issue checked store_record drawn iss now st =
    andthen (add_u64 checked now (ci_ttl_secs iss)) (\<lambda>expires_at.
      Done (\<lparr>ch_version = VERSION, ch_audience = ci_audience iss, ch_nonce = drawn,
             ch_issued_at = now, ch_expires_at = expires_at\<rparr>,
            store_record drawn expires_at st))"

section \<open>What a store promises\<close>

text \<open>
  The abstract store is the partial map \<open>live\<close> from the nonces that were issued and not yet used
  to their expiry. Any sequence of calls is a list of \<open>store_op\<close>; \<open>run_store\<close> returns the nonces
  that were successfully consumed, in order.
\<close>

datatype store_op = Issue bytes u64 | Consume bytes u64 | Gc u64

fun run_store ::
    "(bytes \<Rightarrow> u64 \<Rightarrow> 's \<Rightarrow> 's) \<Rightarrow> (bytes \<Rightarrow> u64 \<Rightarrow> 's \<Rightarrow> (auth_error, unit) result \<times> 's) \<Rightarrow>
     (u64 \<Rightarrow> 's \<Rightarrow> 's) \<Rightarrow> store_op list \<Rightarrow> 's \<Rightarrow> bytes list \<times> 's" where
  "run_store iss con g [] st = ([], st)"
| "run_store iss con g (Issue n e # ops) st = run_store iss con g ops (iss n e st)"
| "run_store iss con g (Gc now # ops) st = run_store iss con g ops (g now st)"
| "run_store iss con g (Consume n now # ops) st =
    (let (res, st') = con n now st; (ns, st'') = run_store iss con g ops st' in
     (if is_ok res then n # ns else ns, st''))"

definition issues :: "bytes \<Rightarrow> store_op list \<Rightarrow> nat" where
  "issues n ops = length (filter (\<lambda>x. case x of Issue m _ \<Rightarrow> m = n | _ \<Rightarrow> False) ops)"

lemma issues_simps [simp]:
  "issues n [] = 0"
  "issues n (Issue m e # ops) = (if m = n then Suc (issues n ops) else issues n ops)"
  "issues n (Consume m t # ops) = issues n ops"
  "issues n (Gc t # ops) = issues n ops"
  by (simp_all add: issues_def)

locale replay_store =
  fixes iss :: "bytes \<Rightarrow> u64 \<Rightarrow> 's \<Rightarrow> 's"
    and con :: "bytes \<Rightarrow> u64 \<Rightarrow> 's \<Rightarrow> (auth_error, unit) result \<times> 's"
    and gcf :: "u64 \<Rightarrow> 's \<Rightarrow> 's"
    and live :: "'s \<Rightarrow> bytes \<rightharpoonup> u64"
  assumes live_iss: "live (iss n e st) = (live st)(n \<mapsto> e)"
    and con_ok_iff: "is_ok (fst (con n now st)) \<longleftrightarrow> (\<exists>e. live st n = Some e \<and> now \<le> e)"
    and live_con_ok: "is_ok (fst (con n now st)) \<Longrightarrow> live (snd (con n now st)) = (live st)(n := None)"
    and con_err: "\<not> is_ok (fst (con n now st)) \<Longrightarrow> snd (con n now st) = st"
    and live_gcf: "live (gcf now st) n = (case live st n of Some e \<Rightarrow> if now \<le> e then Some e else None | None \<Rightarrow> None)"
begin

abbreviation "run \<equiv> run_store iss con gcf"

definition budget :: "'s \<Rightarrow> bytes \<Rightarrow> nat" where
  "budget st n = (if live st n = None then 0 else 1)"

lemma budget_con:
  "budget (snd (con m now st)) n + (if m = n \<and> is_ok (fst (con m now st)) then 1 else 0) \<le> budget st n"
  using live_con_ok [of m now st] con_ok_iff [of m now st] con_err [of m now st]
  by (cases "is_ok (fst (con m now st))") (auto simp: budget_def)

text \<open>Each issue of a nonce pays for at most one successful use of it.\<close>

lemma uses_le_issues: "count_list (fst (run ops st)) n \<le> budget st n + issues n ops"
proof (induction ops arbitrary: st)
  case Nil
  then show ?case by simp
next
  case (Cons op ops)
  show ?case
  proof (cases op)
    case (Issue m e)
    have "budget (iss m e st) n \<le> (if m = n then 1 else budget st n)"
      by (simp add: budget_def live_iss)
    then show ?thesis using Cons [of "iss m e st"] Issue by (auto split: if_splits)
  next
    case (Consume m t)
    then show ?thesis
      using Cons [of "snd (con m t st)"] budget_con [of m t st n]
      by (auto simp: Let_def case_prod_unfold split: if_splits)
  next
    case (Gc t)
    have "budget (gcf t st) n \<le> budget st n"
      by (simp add: budget_def live_gcf split: option.splits)
    then show ?thesis using Cons [of "gcf t st"] Gc by simp
  qed
qed

text \<open>A nonce that is not live stays so until it is issued again.\<close>

lemma dead_stays_dead:
  "live st n = None \<Longrightarrow> issues n ops = 0 \<Longrightarrow> live (snd (run ops st)) n = None"
proof (induction ops arbitrary: st)
  case Nil
  then show ?case by simp
next
  case (Cons op ops)
  show ?case
  proof (cases op)
    case (Issue m e)
    then show ?thesis using Cons by (simp add: live_iss split: if_splits)
  next
    case (Consume m t)
    have "live (snd (con m t st)) n = None"
      using Cons.prems(1) live_con_ok [of m t st] con_err [of m t st]
      by (cases "is_ok (fst (con m t st))") auto
    then show ?thesis using Cons.IH [of "snd (con m t st)"] Cons.prems(2) Consume
      by (simp add: Let_def case_prod_unfold)
  next
    case (Gc t)
    then show ?thesis using Cons by (simp add: live_gcf)
  qed
qed

lemma no_replay:
  assumes "is_ok (fst (con n now st))" and "issues n ops = 0"
  shows "\<not> is_ok (fst (con n now' (snd (run ops (snd (con n now st))))))"
  using dead_stays_dead [OF _ assms(2)] live_con_ok [OF assms(1)] con_ok_iff by auto

end

section \<open>The in-memory store keeps the contract\<close>

definition live_nonces :: "nonce_store \<Rightarrow> bytes \<rightharpoonup> u64" where
  "live_nonces st n = (case issued st n of Some (e, False) \<Rightarrow> Some e | _ \<Rightarrow> None)"

lemma live_nonces_Some_iff: "live_nonces st n = Some e \<longleftrightarrow> issued st n = Some (e, False)"
  by (auto simp: live_nonces_def split: option.splits bool.splits)

lemma consume_ok_iff:
  "consume n now st = (Ok u, st') \<longleftrightarrow>
     (\<exists>e. issued st n = Some (e, False) \<and> now \<le> e \<and> st' = st\<lparr>issued := (issued st)(n \<mapsto> (e, True))\<rparr>)"
  by (auto simp: consume_def split: option.splits if_splits)

lemma consume_err_keeps: "consume n now st = (Err e, st') \<Longrightarrow> st' = st"
  by (auto simp: consume_def split: option.splits if_splits)

interpretation in_memory: replay_store record_issued consume gc live_nonces
proof
  fix n e st
  show "live_nonces (record_issued n e st) = (live_nonces st)(n \<mapsto> e)"
    by (auto simp: live_nonces_def record_issued_def)
next
  fix n now st
  show "is_ok (fst (consume n now st)) \<longleftrightarrow> (\<exists>e. live_nonces st n = Some e \<and> now \<le> e)"
    by (auto simp: consume_def live_nonces_def split: option.splits bool.splits)
next
  fix n now st
  assume "is_ok (fst (consume n now st))"
  then show "live_nonces (snd (consume n now st)) = (live_nonces st)(n := None)"
    by (auto simp: consume_def live_nonces_def split: option.splits if_splits)
next
  fix n now st
  assume "\<not> is_ok (fst (consume n now st))"
  then show "snd (consume n now st) = st"
    by (auto simp: consume_def split: option.splits if_splits)
next
  fix now st n
  show "live_nonces (gc now st) n =
      (case live_nonces st n of Some e \<Rightarrow> if now \<le> e then Some e else None | None \<Rightarrow> None)"
    by (auto simp: gc_def live_nonces_def split: option.splits bool.splits)
qed

lemma issue_Done:
  assumes "unat now + unat (ci_ttl_secs iss) < 2 ^ 64"
  shows "issue checked rec drawn iss now st =
    Done (\<lparr>ch_version = VERSION, ch_audience = ci_audience iss, ch_nonce = drawn,
           ch_issued_at = now, ch_expires_at = now + ci_ttl_secs iss\<rparr>,
          rec drawn (now + ci_ttl_secs iss) st)"
  using assms by (simp add: issue_def)

section \<open>Properties\<close>

text \<open>
  Replay protection: starting from an empty in-memory store, in every sequence of issues,
  consumptions and garbage collections, a nonce is successfully consumed at most as often as it
  was issued; in particular a challenge that was issued once is answerable once.
\<close>

lemma nonce_uses_bounded:
  "count_list (fst (run_store record_issued consume gc ops new_store)) n \<le> issues n ops"
  using in_memory.uses_le_issues [of ops new_store n]
  by (simp add: in_memory.budget_def live_nonces_def new_store_def)

text \<open>
  Garbage collection is invisible to verification: \<open>gc\<close> at time \<open>now\<close> changes the outcome of a
  consumption at no time \<open>t \<ge> now\<close> from success to failure or back.
\<close>

lemma gc_preserves_consume:
  assumes "now \<le> t"
  shows "is_ok (fst (consume n t (gc now st))) \<longleftrightarrow> is_ok (fst (consume n t st))"
  using assms by (auto simp: in_memory.con_ok_iff in_memory.live_gcf split: option.splits if_splits)

lemma gc_preserves_consume_witness:
  "is_ok (fst (consume [1] 7 (gc 5 (record_issued [1] 9 new_store))))"
proof -
  have "is_ok (fst (consume [1] 7 (record_issued [1] 9 new_store)))"
    by (simp add: consume_def record_issued_def)
  then show ?thesis using gc_preserves_consume [of 5 7 "[1]" "record_issued [1] 9 new_store"] by simp
qed

end
