(* ===== verification/Verify.thy ===== *)
theory Verify
  imports Signer Nonce
begin

text \<open>
  End-to-end verification of a response (\<open>verify.rs\<close>), and the login protocol that the issuer, the
  signer, the nonce store and the verifier form together.
\<close>

section \<open>The verifier\<close>

datatype verify_policy = PqOptional | PqRequired

record verified =
  vf_fingerprint :: fingerprint
  vf_public_key :: classical_public_key
  vf_pq_public_key :: "pq_public_key option"

text \<open>
  The validity window. The second addition is only evaluated when the first comparison is false;
  \<open>checked\<close> selects the build's behaviour on overflow.
\<close>

definition outside_window :: "bool \<Rightarrow> u64 \<Rightarrow> u64 \<Rightarrow> challenge \<Rightarrow> bool outcome" where
  "outside_window checked now skew_secs ch =
    andthen (add_u64 checked now skew_secs) (\<lambda>a.
      if a < ch_issued_at ch then Done True
      else andthen (add_u64 checked (ch_expires_at ch) skew_secs) (\<lambda>b. Done (now > b)))"

definition check_pq_policy ::
    "crypto \<Rightarrow> verify_policy \<Rightarrow> bytes \<Rightarrow> (pq_public_key \<times> pq_signature) option
      \<Rightarrow> (auth_error, pq_public_key option) result" where
  "check_pq_policy C policy payload pq =
    (case pq of
       Some (pqpub, pqsig) \<Rightarrow> bind (verify_pq C pqpub payload pqsig) (\<lambda>_. Ok (Some pqpub))
     | None \<Rightarrow> if policy = PqRequired then Err PqRequiredError else Ok None)"

text \<open>The nonce store is a trait object: its \<open>consume\<close> is an argument.\<close>

definition verify_response ::
    "bool \<Rightarrow> crypto \<Rightarrow> (bytes \<Rightarrow> u64 \<Rightarrow> 's \<Rightarrow> (auth_error, unit) result \<times> 's) \<Rightarrow> response \<Rightarrow> string \<Rightarrow>
     u64 \<Rightarrow> u64 \<Rightarrow> verify_policy \<Rightarrow> 's \<Rightarrow> ((auth_error, verified) result \<times> 's) outcome" where
  "verify_response checked C store_consume resp expected_audience now skew_secs policy st =
    (case challenge_from_bytes (challenge_bytes resp) of
       Err e \<Rightarrow> Done (Err e, st)
     | Ok ch \<Rightarrow>
         if ch_version ch \<noteq> VERSION then Done (Err (Version (ch_version ch)), st)
         else if ch_audience ch \<noteq> expected_audience then Done (Err Audience, st)
         else if length (ch_nonce ch) < MIN_NONCE_LEN then Done (Err NonceTooShort, st)
         else andthen (outside_window checked now skew_secs ch) (\<lambda>outside.
           if outside then Done (Err TimeWindow, st)
           else let payload = response_signing_payload resp in
             case verify_classical C (resp_public_key resp) payload (resp_signature resp) of
               Err e \<Rightarrow> Done (Err e, st)
             | Ok _ \<Rightarrow>
                 (case check_pq_policy C policy payload (resp_pq resp) of
                    Err e \<Rightarrow> Done (Err e, st)
                  | Ok pq_public_key \<Rightarrow>
                      (case store_consume (ch_nonce ch) now st of
                         (Err e, st') \<Rightarrow> Done (Err e, st')
                       | (Ok _, st') \<Rightarrow> Done (Ok \<lparr>
                           vf_fingerprint = classical_fingerprint (blake3 C) (resp_public_key resp),
                           vf_public_key = resp_public_key resp,
                           vf_pq_public_key = pq_public_key\<rparr>, st')))))"

section \<open>Characterisation\<close>

lemma outside_window_fits:
  assumes "unat now + unat skew < 2 ^ 64" and "unat (ch_expires_at ch) + unat skew < 2 ^ 64"
  shows "outside_window checked now skew ch =
    Done (unat now + unat skew < unat (ch_issued_at ch) \<or> unat (ch_expires_at ch) + unat skew < unat now)"
  using assms by (simp add: outside_window_def word_less_nat_alt unat_add_fits)

lemma check_pq_policy_Ok_iff:
  "check_pq_policy C policy m pq = Ok k \<longleftrightarrow>
     (pq = None \<and> policy = PqOptional \<and> k = None) \<or>
     (\<exists>pk sg. pq = Some (pk, sg) \<and> verify_pq C pk m sg = Ok () \<and> k = Some pk)"
  by (cases policy) (auto simp: check_pq_policy_def bind_Ok_iff split: option.splits)

text \<open>What an accepted response has passed, before the nonce is consumed.\<close>

definition acceptable ::
    "bool \<Rightarrow> crypto \<Rightarrow> response \<Rightarrow> string \<Rightarrow> u64 \<Rightarrow> u64 \<Rightarrow> verify_policy \<Rightarrow> challenge \<Rightarrow> bool" where
  "acceptable checked C resp aud now skew policy ch \<longleftrightarrow>
     challenge_from_bytes (challenge_bytes resp) = Ok ch \<and>
     ch_version ch = VERSION \<and> ch_audience ch = aud \<and> MIN_NONCE_LEN \<le> length (ch_nonce ch) \<and>
     outside_window checked now skew ch = Done False \<and>
     verify_classical C (resp_public_key resp) (signing_payload (challenge_bytes resp))
       (resp_signature resp) = Ok () \<and>
     (\<forall>pk sg. resp_pq resp = Some (pk, sg) \<longrightarrow>
        verify_pq C pk (signing_payload (challenge_bytes resp)) sg = Ok ()) \<and>
     (policy = PqRequired \<longrightarrow> resp_pq resp \<noteq> None)"

lemma verify_response_accept:
  "verify_response checked C con resp aud now skew policy st = Done (Ok vd, st') \<longleftrightarrow>
     (\<exists>ch. acceptable checked C resp aud now skew policy ch
        \<and> con (ch_nonce ch) now st = (Ok (), st')
        \<and> vd = \<lparr>vf_fingerprint = classical_fingerprint (blake3 C) (resp_public_key resp),
               vf_public_key = resp_public_key resp, vf_pq_public_key = map_option fst (resp_pq resp)\<rparr>)"
  (is "?l \<longleftrightarrow> ?r")
proof (cases "challenge_from_bytes (challenge_bytes resp)")
  case (Err e)
  then show ?thesis by (simp add: verify_response_def acceptable_def)
next
  case (Ok ch)
  have pq: "check_pq_policy C policy m (resp_pq resp) = Ok k \<longleftrightarrow>
      (\<forall>pk sg. resp_pq resp = Some (pk, sg) \<longrightarrow> verify_pq C pk m sg = Ok ()) \<and>
      (policy = PqRequired \<longrightarrow> resp_pq resp \<noteq> None) \<and> k = map_option fst (resp_pq resp)" for m k
    by (cases policy; cases "resp_pq resp") (auto simp: check_pq_policy_Ok_iff)
  show ?thesis
  proof
    assume ?l
    then show ?r
      by (auto simp: verify_response_def acceptable_def Ok Let_def andthen_Done_iff pq
          response_signing_payload_def split: if_splits result.splits prod.splits)
  next
    assume ?r
    then show ?l
      using pq [of "signing_payload (challenge_bytes resp)" "map_option fst (resp_pq resp)"]
      by (auto simp: verify_response_def acceptable_def Ok Let_def response_signing_payload_def)
  qed
qed

lemma verify_response_err_cases:
  assumes "verify_response checked C con resp aud now skew policy st = Done (Err e, st')"
  shows "st' = st \<or> (\<exists>n. con n now st = (Err e, st'))"
  using assms
  by (auto simp: verify_response_def Let_def andthen_Done_iff
      split: if_splits result.splits prod.splits)

lemma outside_window_no_panic:
  assumes "unat now + unat skew < 2 ^ 64" and "unat (ch_expires_at ch) + unat skew < 2 ^ 64"
  shows "outside_window checked now skew ch \<noteq> Panic"
  using outside_window_fits [OF assms] by simp

section \<open>Replay, for any store that keeps the contract\<close>

context replay_store
begin

lemma verify_no_replay:
  assumes ok: "verify_response checked C con resp aud now skew policy st = Done (Ok vd, st1)"
    and "challenge_from_bytes (challenge_bytes resp) = Ok ch"
    and "challenge_from_bytes (challenge_bytes resp') = Ok ch'" and "ch_nonce ch' = ch_nonce ch"
    and "issues (ch_nonce ch) ops = 0"
  shows "verify_response checked' C' con resp' aud' now' skew' policy' (snd (run ops st1))
    \<noteq> Done (Ok vd', st2)"
proof
  assume again: "verify_response checked' C' con resp' aud' now' skew' policy' (snd (run ops st1))
    = Done (Ok vd', st2)"
  have "con (ch_nonce ch) now st = (Ok (), st1)"
    using ok assms(2) by (auto simp: verify_response_accept acceptable_def)
  then have "is_ok (fst (con (ch_nonce ch) now st))" and "st1 = snd (con (ch_nonce ch) now st)"
    by simp_all
  then have "\<not> is_ok (fst (con (ch_nonce ch) now' (snd (run ops st1))))"
    using no_replay assms(5) by blast
  moreover have "con (ch_nonce ch) now' (snd (run ops st1)) = (Ok (), st2)"
    using again assms(3,4) by (auto simp: verify_response_accept acceptable_def)
  ultimately show False by simp
qed

end

lemma respond_has_pq:
  assumes "software_respond C r s ch = Ok resp"
  shows "resp_pq resp = None \<longleftrightarrow> sw_pq s = None"
  using assms
  by (auto simp: software_respond_def respond_def software_sign_pq_def software_pq_public_key_def
      Let_def bind_Ok_iff split: option.splits)

section \<open>An example run\<close>

definition demo_seed :: bytes where "demo_seed = replicate 32 5"

definition demo_issuer :: challenge_issuer where "demo_issuer = new_issuer ''app'' 60"

definition demo_challenge :: challenge where
  "demo_challenge = \<lparr>ch_version = 1, ch_audience = ''app'', ch_nonce = replicate 16 7,
     ch_issued_at = 1000, ch_expires_at = 1060\<rparr>"

definition demo_store :: nonce_store where
  "demo_store = record_issued (replicate 16 7) 1060 new_store"

definition demo_response :: response where
  "demo_response = \<lparr>challenge_bytes = challenge_to_bytes demo_challenge,
     resp_public_key = \<lparr>cpk_alg = Ed25519, cpk_bytes = demo_seed\<rparr>,
     resp_signature = \<lparr>csig_alg = Ed25519,
       csig_bytes = toy_tag 64 demo_seed (signing_payload (challenge_to_bytes demo_challenge))\<rparr>,
     resp_pq = None\<rparr>"

lemma demo_challenge_ok: "challenge_ok demo_challenge"
  by (rule challenge_okI) (simp_all add: demo_challenge_def)

lemma demo_issue: "issue True record_issued (replicate 16 7) demo_issuer 1000 new_store =
    Done (demo_challenge, demo_store)"
  by (simp add: issue_Done demo_issuer_def new_issuer_def demo_challenge_def demo_store_def
      VERSION_def)

lemma demo_respond:
  "software_respond toy_crypto [] (from_ed25519_seed demo_seed) demo_challenge = Ok demo_response"
  by (simp add: software_respond_def respond_def software_sign_classical_def
      software_public_key_def software_sign_pq_def software_pq_public_key_def
      from_ed25519_seed_def demo_response_def toy_crypto_def Let_def)

lemma demo_parse: "challenge_from_bytes (challenge_bytes demo_response) = Ok demo_challenge"
  using challenge.dec_enc [OF demo_challenge_ok] by (simp add: demo_response_def)

lemma demo_window: "outside_window True t 5 demo_challenge = Done (t + 5 < 1000 \<or> 1065 < t)"
    if "unat t < 2000"
  using that by (subst outside_window_fits)
    (simp_all add: demo_challenge_def word_less_nat_alt unat_add_fits)

lemma demo_acceptable:
  assumes "unat t < 2000" and "\<not> (t + 5 < 1000 \<or> 1065 < t)"
  shows "acceptable True toy_crypto demo_response ''app'' t 5 PqOptional demo_challenge"
  unfolding acceptable_def demo_window [OF assms(1)] demo_parse
  using assms(2) by (simp add: demo_challenge_def demo_response_def VERSION_def MIN_NONCE_LEN_def
      verify_classical_def toy_crypto_def demo_seed_def)

lemma demo_live: "issued demo_store (ch_nonce demo_challenge) = Some (1060, False)"
  by (simp add: demo_store_def demo_challenge_def record_issued_def)

lemma demo_accepted:
  "\<exists>vd st'. verify_response True toy_crypto consume demo_response ''app'' 1030 5 PqOptional demo_store
     = Done (Ok vd, st')"
proof -
  have "consume (ch_nonce demo_challenge) 1030 demo_store = (Ok (), demo_store\<lparr>issued :=
      (issued demo_store)(ch_nonce demo_challenge \<mapsto> (1060, True))\<rparr>)"
    using demo_live by (simp add: consume_def)
  moreover have "acceptable True toy_crypto demo_response ''app'' 1030 5 PqOptional demo_challenge"
    by (rule demo_acceptable) simp_all
  ultimately show ?thesis unfolding verify_response_accept by blast
qed

section \<open>Properties\<close>

text \<open>
  C1. Soundness of \<open>verify_response\<close>. An accepted response embeds a well-formed challenge of
  this protocol version for the expected audience, with a nonce of at least 16 bytes, inside the
  validity window; its classical signature verifies over the domain-separated payload of exactly
  the embedded bytes, a present post-quantum signature verifies too and is present when required;
  the nonce was issued by this store, had not been used or expired, and is marked used; and the
  reported identity is that of the verified key.
\<close>

theorem verify_response_sound:
  assumes "verify_response checked C consume resp aud now skew policy st = Done (Ok vd, st')"
  shows "\<exists>ch e. acceptable checked C resp aud now skew policy ch
    \<and> issued st (ch_nonce ch) = Some (e, False) \<and> now \<le> e
    \<and> st' = st\<lparr>issued := (issued st)(ch_nonce ch \<mapsto> (e, True))\<rparr>
    \<and> vf_fingerprint vd = classical_fingerprint (blake3 C) (resp_public_key resp)
    \<and> vf_public_key vd = resp_public_key resp
    \<and> vf_pq_public_key vd = map_option fst (resp_pq resp)"
  using assms by (auto simp: verify_response_accept consume_ok_iff)

theorem verify_response_sound_witness:
  "\<exists>ch e. acceptable True toy_crypto demo_response ''app'' 1030 5 PqOptional ch
    \<and> issued demo_store (ch_nonce ch) = Some (e, False) \<and> (1030 :: u64) \<le> e"
  using demo_accepted verify_response_sound by blast

text \<open>
  C2. A proof is accepted once: after a response was accepted, no response that carries the same
  nonce is accepted by the same store again, whatever happens to the store in between short of
  issuing that nonce anew, and whatever the parameters of the later call.
\<close>

theorem verify_response_no_replay:
  assumes "verify_response checked C consume resp aud now skew policy st = Done (Ok vd, st1)"
    and "challenge_from_bytes (challenge_bytes resp) = Ok ch"
    and "challenge_from_bytes (challenge_bytes resp') = Ok ch'" and "ch_nonce ch' = ch_nonce ch"
    and "issues (ch_nonce ch) ops = 0"
  shows "verify_response checked' C' consume resp' aud' now' skew' policy'
      (snd (run_store record_issued consume gc ops st1)) \<noteq> Done (Ok vd', st2)"
  using assms by (rule in_memory.verify_no_replay)

theorem verify_response_no_replay_witness:
  "\<exists>vd st1. verify_response True toy_crypto consume demo_response ''app'' 1030 5 PqOptional
      demo_store = Done (Ok vd, st1)
    \<and> (\<forall>vd' st2. verify_response True toy_crypto consume demo_response ''app'' 1031 5 PqOptional
      (snd (run_store record_issued consume gc [Gc 1031, Issue [] 2000] st1)) \<noteq> Done (Ok vd', st2))"
proof -
  obtain vd st1 where ok: "verify_response True toy_crypto consume demo_response ''app'' 1030 5
      PqOptional demo_store = Done (Ok vd, st1)"
    using demo_accepted by blast
  have "issues (ch_nonce demo_challenge) [Gc 1031, Issue [] 2000] = 0"
    by (simp add: demo_challenge_def)
  then have "verify_response True toy_crypto consume demo_response ''app'' 1031 5 PqOptional
      (snd (run_store record_issued consume gc [Gc 1031, Issue [] 2000] st1)) \<noteq> Done (Ok vd', st2)"
    for vd' st2
    by (rule verify_response_no_replay [OF ok demo_parse demo_parse refl])
  with ok show ?thesis by blast
qed

text \<open>
  A response to a challenge of this verifier is accepted from issue to expiry, whoever made it, when it repeats the challenge and
  its signatures verify.
\<close>

lemma issued_response_accepted:
  assumes "length drawn = MIN_NONCE_LEN"
    and aud: "valid_text (ci_audience iss)" "length (ci_audience iss) < 2 ^ 62"
    and issue: "issue checked record_issued drawn iss t0 st = Done (ch, st1)"
    and fits: "unat t0 + unat (ci_ttl_secs iss) + unat skew < 2 ^ 64"
    and time: "t0 \<le> t" "t \<le> ch_expires_at ch"
    and bytes: "challenge_bytes resp = challenge_to_bytes ch"
    and classical: "verify_classical C (resp_public_key resp) (response_signing_payload resp) (resp_signature resp) = Ok ()"
    and pq: "\<And>pk sg. resp_pq resp = Some (pk, sg) \<Longrightarrow> verify_pq C pk (response_signing_payload resp) sg = Ok ()"
    and policy: "policy = PqRequired \<longrightarrow> resp_pq resp \<noteq> None"
  shows "\<exists>st2. verify_response checked C consume resp (ci_audience iss) t skew policy st1 =
      Done (Ok \<lparr>vf_fingerprint = classical_fingerprint (blake3 C) (resp_public_key resp),
        vf_public_key = resp_public_key resp, vf_pq_public_key = map_option fst (resp_pq resp)\<rparr>, st2)"
proof -
  have ch: "ch = \<lparr>ch_version = VERSION, ch_audience = ci_audience iss, ch_nonce = drawn,
      ch_issued_at = t0, ch_expires_at = t0 + ci_ttl_secs iss\<rparr>"
    and st1: "st1 = record_issued drawn (t0 + ci_ttl_secs iss) st"
    using issue fits by (simp_all add: issue_Done)
  have exp: "unat (ch_expires_at ch) = unat t0 + unat (ci_ttl_secs iss)"
    using fits by (simp add: ch unat_add_fits)
  have win: "outside_window checked t skew ch = Done False"
    using fits time exp by (subst outside_window_fits) (auto simp: ch word_le_nat_alt)
  have "challenge_ok ch"
    using aud assms(1) by (intro challenge_okI) (simp_all add: ch MIN_NONCE_LEN_def)
  then have parse: "challenge_from_bytes (challenge_bytes resp) = Ok ch"
    using challenge.dec_enc [of ch] bytes by simp
  have "acceptable checked C resp (ci_audience iss) t skew policy ch"
    unfolding acceptable_def using parse win classical pq policy assms(1) by (auto simp: ch response_signing_payload_def)
  moreover have "consume (ch_nonce ch) t st1 = (Ok (), st1\<lparr>issued := (issued st1)(drawn \<mapsto> (ch_expires_at ch, True))\<rparr>)"
    using time by (subst consume_ok_iff) (simp add: ch st1 record_issued_def)
  ultimately show ?thesis unfolding verify_response_accept by blast
qed

text \<open>
  C6. The login protocol completes: a challenge issued by this verifier and answered by a software
  signer (with a post-quantum key when the policy requires one) is accepted at any time from issue
  to expiry, and the verified identity is the signer's.
\<close>

theorem login_succeeds:
  assumes "crypto_ok C" and "software_ok C s"
    and "length drawn = MIN_NONCE_LEN"
    and aud: "valid_text (ci_audience iss)" "length (ci_audience iss) < 2 ^ 62"
    and issue: "issue checked record_issued drawn iss t0 st = Done (ch, st1)"
    and fits: "unat t0 + unat (ci_ttl_secs iss) + unat skew < 2 ^ 64"
    and respond: "software_respond C r s ch = Ok resp"
    and time: "t0 \<le> t" "t \<le> ch_expires_at ch"
    and pq: "policy = PqRequired \<longrightarrow> sw_pq s \<noteq> None"
  shows "\<exists>vd st2. verify_response checked C consume resp (ci_audience iss) t skew policy st1 = Done (Ok vd, st2)
    \<and> vf_public_key vd = software_public_key C s
    \<and> vf_fingerprint vd = classical_fingerprint (blake3 C) (software_public_key C s)"
proof -
  note resp = software.respond_verifies [of C s r ch resp, folded software_respond_def]
  have "\<exists>st2. verify_response checked C consume resp (ci_audience iss) t skew policy st1 =
      Done (Ok \<lparr>vf_fingerprint = classical_fingerprint (blake3 C) (resp_public_key resp),
        vf_public_key = resp_public_key resp, vf_pq_public_key = map_option fst (resp_pq resp)\<rparr>, st2)"
    by (rule issued_response_accepted [OF assms(3) aud issue fits time])
      (use assms(1,2) resp(1-3) [OF _ respond] resp(4) [OF _ respond] respond_has_pq [OF respond] pq in auto)
  then show ?thesis using assms(1,2) resp(2) [OF _ respond] by fastforce
qed

theorem login_succeeds_witness:
  "\<exists>vd st2. verify_response True toy_crypto consume demo_response ''app'' 1060 5 PqOptional demo_store
      = Done (Ok vd, st2)
    \<and> vf_public_key vd = software_public_key toy_crypto (from_ed25519_seed demo_seed)"
proof -
  have "\<exists>vd st2. verify_response True toy_crypto consume demo_response (ci_audience demo_issuer) 1060 5
      PqOptional demo_store = Done (Ok vd, st2)
    \<and> vf_public_key vd = software_public_key toy_crypto (from_ed25519_seed demo_seed)
    \<and> vf_fingerprint vd = classical_fingerprint (blake3 toy_crypto)
        (software_public_key toy_crypto (from_ed25519_seed demo_seed))"
    by (rule login_succeeds [OF toy_crypto_ok _ _ _ _ demo_issue _ demo_respond])
      (simp_all add: software_constructors_ok MIN_NONCE_LEN_def demo_seed_def demo_issuer_def
        new_issuer_def, simp_all add: demo_challenge_def)
  then show ?thesis by (auto simp: demo_issuer_def new_issuer_def)
qed

text \<open>
  A failed verification changes nothing: when \<open>verify_response\<close> returns an error, the nonce
  store is exactly what it was, so a forged or malformed response cannot burn a challenge.
\<close>

lemma verify_failure_keeps_store:
  assumes "verify_response checked C consume resp aud now skew policy st = Done (Err e, st')"
  shows "st' = st"
  using verify_response_err_cases [OF assms] consume_err_keeps by blast

lemma verify_failure_keeps_store_witness:
  "verify_response True toy_crypto consume demo_response ''other'' 1030 5 PqOptional demo_store
     = Done (Err Audience, demo_store)"
proof -
  have "\<exists>st'. verify_response True toy_crypto consume demo_response ''other'' 1030 5 PqOptional demo_store
      = Done (Err Audience, st')"
    by (simp add: verify_response_def demo_parse) (simp add: demo_challenge_def VERSION_def)
  then show ?thesis using verify_failure_keeps_store by blast
qed

text \<open>
  C35. The sums in the window check can overflow: with overflow checks on, a response whose embedded
  challenge carries an \<open>exp\<close> within \<open>skew_secs\<close> of the largest 64-bit value makes the verifier
  panic. The response need not be signed: the signature is only looked at afterwards.
\<close>

theorem verify_overflow_panics:
  assumes "challenge_from_bytes (challenge_bytes resp) = Ok ch"
    and "ch_version ch = VERSION" and "ch_audience ch = aud" and "MIN_NONCE_LEN \<le> length (ch_nonce ch)"
    and "unat now + unat skew < 2 ^ 64" and "unat (ch_issued_at ch) \<le> unat now + unat skew"
    and "2 ^ 64 \<le> unat (ch_expires_at ch) + unat skew"
  shows "verify_response True C con resp aud now skew policy st = Panic"
  using assms
  by (simp add: verify_response_def outside_window_def add_u64_def word_less_nat_alt unat_add_fits)

theorem verify_overflow_panics_witness:
  "verify_response True toy_crypto consume (demo_response\<lparr>challenge_bytes :=
      challenge_to_bytes (demo_challenge\<lparr>ch_expires_at := 0xFFFFFFFFFFFFFFFF\<rparr>)\<rparr>) ''app'' 1030 5 PqOptional demo_store
     = Panic"
proof -
  let ?ch = "demo_challenge\<lparr>ch_expires_at := 0xFFFFFFFFFFFFFFFF\<rparr>"
  have "challenge_ok ?ch" by (rule challenge_okI) (simp_all add: demo_challenge_def)
  then have "challenge_from_bytes (challenge_bytes (demo_response\<lparr>challenge_bytes :=
      challenge_to_bytes ?ch\<rparr>)) = Ok ?ch" by (simp add: challenge.dec_enc)
  then show ?thesis
    by (rule verify_overflow_panics)
      (simp_all add: demo_challenge_def VERSION_def MIN_NONCE_LEN_def)
qed

text \<open>
  The tolerance for late answers has no effect with the in-memory store: an answer to a
  challenge of this verifier that arrives after \<open>exp\<close>, though within the tolerated skew, passes all
  checks of the verifier and is then refused by the store, with the time-window error.
\<close>

lemma late_skew_has_no_effect:
  assumes "acceptable checked C resp aud now skew policy ch"
    and "issued st (ch_nonce ch) = Some (ch_expires_at ch, False)" and "ch_expires_at ch < now"
  shows "verify_response checked C consume resp aud now skew policy st = Done (Err TimeWindow, st)"
proof -
  have "check_pq_policy C policy (signing_payload (challenge_bytes resp)) (resp_pq resp)
      = Ok (map_option fst (resp_pq resp))"
    using assms(1) by (cases policy; cases "resp_pq resp")
      (auto simp: acceptable_def check_pq_policy_Ok_iff)
  then show ?thesis
    using assms
    by (simp add: verify_response_def acceptable_def response_signing_payload_def consume_def)
qed

lemma late_skew_has_no_effect_witness:
  "verify_response True toy_crypto consume demo_response ''app'' 1063 5 PqOptional demo_store
     = Done (Err TimeWindow, demo_store)"
  by (rule late_skew_has_no_effect [OF demo_acceptable])
    (simp_all add: demo_live, simp_all add: demo_challenge_def)

end
