(* ===== verification/Attestation.thy ===== *)
theory Attestation
  imports Verify
begin

text \<open>
  Node attestations of \<open>identikey-auth\<close> (\<open>attestation.rs\<close>): an identity key signs a transport node
  identifier, and any peer can check the link.
\<close>

definition PURPOSE_NODE :: string where "PURPOSE_NODE = ''node-attestation''"

definition node_signing_payload :: "bytes \<Rightarrow> bytes" where
  "node_signing_payload node_id =
    to_bytes (Array [Text CONTEXT, Text PURPOSE_NODE, Bytes node_id])"

record node_attestation =
  node_id :: bytes
  att_public_key :: classical_public_key
  att_signature :: classical_signature
  att_pq :: "(pq_public_key \<times> pq_signature) option"

definition attestation_fingerprint :: "crypto \<Rightarrow> node_attestation \<Rightarrow> fingerprint" where
  "attestation_fingerprint C att = classical_fingerprint (blake3 C) (att_public_key att)"

definition attestation_entries :: "node_attestation \<Rightarrow> (string \<times> cbor_value) list" where
  "attestation_entries att =
    [(''node'', Bytes (node_id att)),
     (''pub'', classical_public_key_to_value (att_public_key att)),
     (''sig'', classical_signature_to_value (att_signature att))] @
    (case att_pq att of
       Some (pqpub, pqsig) \<Rightarrow>
         [(''pqpub'', pq_public_key_to_value pqpub), (''pqsig'', pq_signature_to_value pqsig)]
     | None \<Rightarrow> [])"

definition attestation_to_bytes :: "node_attestation \<Rightarrow> bytes" where
  "attestation_to_bytes att = to_bytes (map_value (attestation_entries att))"

definition attestation_from_bytes :: "bytes \<Rightarrow> (auth_error, node_attestation) result" where
  "attestation_from_bytes data =
    bind (from_bytes data) (\<lambda>v.
    bind (bind (get v ''node'') as_bytes) (\<lambda>node.
    bind (bind (get v ''pub'') classical_public_key_from_value) (\<lambda>pub.
    bind (bind (get v ''sig'') classical_signature_from_value) (\<lambda>sig.
    bind (get_opt v ''pqpub'') (\<lambda>pqpub.
    bind (get_opt v ''pqsig'') (\<lambda>pqsig.
    bind (case (pqpub, pqsig) of
        (Some pk, Some sg) \<Rightarrow>
          bind (pq_public_key_from_value pk) (\<lambda>k.
          bind (pq_signature_from_value sg) (\<lambda>s. Ok (Some (k, s))))
      | (None, None) \<Rightarrow> Ok None
      | _ \<Rightarrow> Err PqDangling) (\<lambda>pq.
    Ok \<lparr>node_id = node, att_public_key = pub, att_signature = sig, att_pq = pq\<rparr>)))))))"

text \<open>The signer is a trait object: its four operations are arguments.\<close>

definition attest_node_id ::
    "classical_public_key \<Rightarrow> (bytes \<Rightarrow> (auth_error, classical_signature) result) \<Rightarrow>
     pq_public_key option \<Rightarrow> (bytes \<Rightarrow> (auth_error, pq_signature option) result) \<Rightarrow>
     bytes \<Rightarrow> (auth_error, node_attestation) result" where
  "attest_node_id classical_public_key sign_classical pq_public_key sign_pq nid =
    (let payload = node_signing_payload nid in
     bind (sign_classical payload) (\<lambda>signature.
     bind (sign_pq payload) (\<lambda>pqsig.
     let pq = (case (pq_public_key, pqsig) of (Some pk, Some sg) \<Rightarrow> Some (pk, sg) | _ \<Rightarrow> None) in
     Ok \<lparr>node_id = nid, att_public_key = classical_public_key, att_signature = signature,
         att_pq = pq\<rparr>)))"

definition verify_node_attestation ::
    "crypto \<Rightarrow> node_attestation \<Rightarrow> verify_policy \<Rightarrow> (auth_error, fingerprint) result" where
  "verify_node_attestation C att policy =
    (let payload = node_signing_payload (node_id att) in
     bind (verify_classical C (att_public_key att) payload (att_signature att)) (\<lambda>_.
     bind (case att_pq att of
         Some (pqpub, pqsig) \<Rightarrow> verify_pq C pqpub payload pqsig
       | None \<Rightarrow> if policy = PqRequired then Err PqRequiredError else Ok ()) (\<lambda>_.
     Ok (attestation_fingerprint C att))))"

section \<open>Laws\<close>

definition attestation_ok :: "node_attestation \<Rightarrow> bool" where
  "attestation_ok att \<longleftrightarrow> length (attestation_to_bytes att) < 2 ^ 64"

lemma attestation_wf_value: "wf_value (Map (attestation_entries att))"
  by (simp add: attestation_entries_def cpk.wf_tv csig.wf_tv pqpk.wf_tv pqsig.wf_tv image_iff
      split: option.split)

interpretation attestation: wire_codec attestation_to_bytes attestation_from_bytes attestation_ok
proof
  fix att assume "attestation_ok att"
  then have "from_bytes (attestation_to_bytes att) = Ok (canon (Map (attestation_entries att)))"
    using attestation_wf_value [of att]
    by (simp only: attestation_ok_def attestation_to_bytes_def from_bytes_to_bytes map_value_def)
  then show "attestation_from_bytes (attestation_to_bytes att) = Ok att"
    by (cases "att_pq att")
      (auto simp: attestation_from_bytes_def attestation_entries_def get_canon get_opt_canon
        cpk.fv_tv csig.fv_tv pqpk.fv_tv pqsig.fv_tv simp del: canon.simps(5) get_opt.simps)
qed

lemma verify_attestation_Ok_iff:
  "verify_node_attestation C att policy = Ok fp \<longleftrightarrow>
     verify_classical C (att_public_key att) (node_signing_payload (node_id att)) (att_signature att) = Ok () \<and>
     (\<forall>pk sg. att_pq att = Some (pk, sg) \<longrightarrow>
        verify_pq C pk (node_signing_payload (node_id att)) sg = Ok ()) \<and>
     (policy = PqRequired \<longrightarrow> att_pq att \<noteq> None) \<and>
     fp = classical_fingerprint (blake3 C) (att_public_key att)"
  by (cases "att_pq att")
    (auto simp: verify_node_attestation_def attestation_fingerprint_def Let_def bind_Ok_iff)

lemma node_signing_payload_inj [simp]: "node_signing_payload a = node_signing_payload b \<longleftrightarrow> a = b"
  using encode_head_append_inj [of 2 "word_of_nat (length a)" a "word_of_nat (length b)" b]
  by (auto simp: node_signing_payload_def to_bytes_def)

context signer
begin

lemma attest_verifies:
  assumes "valid C s"
    and "attest_node_id (public_key C s) (sign C s) (pq_key s) (sign_pq C r s) nid = Ok att"
  shows "node_id att = nid"
    and "att_public_key att = public_key C s"
    and "check C (att_public_key att) (node_signing_payload nid) (att_signature att) = Ok ()"
    and "att_pq att = Some (pk, sg) \<Longrightarrow> pq_key s = Some pk \<and> check_pq C pk (node_signing_payload nid) sg = Ok ()"
    and "att_pq att = None \<Longrightarrow> pq_key s = None \<or> sign_pq C r s (node_signing_payload nid) = Ok None"
proof -
  let ?m = "node_signing_payload nid"
  obtain c q where c: "sign C s ?m = Ok c" and q: "sign_pq C r s ?m = Ok q"
    and att: "att = \<lparr>node_id = nid, att_public_key = public_key C s, att_signature = c,
      att_pq = (case (pq_key s, q) of (Some pk, Some sg) \<Rightarrow> Some (pk, sg) | _ \<Rightarrow> None)\<rparr>"
    using assms(2) by (auto simp: attest_node_id_def Let_def bind_Ok_iff)
  show "node_id att = nid" "att_public_key att = public_key C s" by (simp_all add: att)
  show "check C (att_public_key att) (node_signing_payload nid) (att_signature att) = Ok ()"
    using sign_verifies [OF assms(1) c] by (simp add: att)
  show "att_pq att = Some (pk, sg) \<Longrightarrow> pq_key s = Some pk \<and> check_pq C pk ?m sg = Ok ()"
    using q sign_pq_verifies [OF assms(1)] by (auto simp: att split: option.splits)
  show "att_pq att = None \<Longrightarrow> pq_key s = None \<or> sign_pq C r s ?m = Ok None"
    using q by (auto simp: att split: option.splits)
qed

end

section \<open>Properties\<close>

text \<open>
  An attestation made by a software signer verifies at any peer, after a trip over the wire,
  and yields the signer's fingerprint; under \<open>PqRequired\<close> this needs a signer with a post-quantum
  key.
\<close>

lemma attestation_verifies_over_wire:
  assumes "crypto_ok C" and "software_ok C s"
    and "attest_node_id (software_public_key C s) (software_sign_classical C s)
      (software_pq_public_key s) (software_sign_pq C r s) nid = Ok att"
    and "policy = PqRequired \<longrightarrow> sw_pq s \<noteq> None"
    and "length (attestation_to_bytes att) < 2 ^ 64"
  shows "bind (attestation_from_bytes (attestation_to_bytes att)) (\<lambda>a. verify_node_attestation C a policy)
    = Ok (classical_fingerprint (blake3 C) (software_public_key C s))"
proof -
  note att = software.attest_verifies [OF conjI [OF assms(1,2)] assms(3)]
  have "att_pq att = None \<Longrightarrow> sw_pq s = None"
    using att(5) by (auto simp: software_pq_public_key_def software_sign_pq_def bind_Ok_iff
        split: option.splits)
  then have "verify_node_attestation C att policy
      = Ok (classical_fingerprint (blake3 C) (software_public_key C s))"
    using att(1-4) assms(4) by (cases "att_pq att") (auto simp: verify_attestation_Ok_iff)
  then show ?thesis using attestation.dec_enc [of att] assms(5) by (simp add: attestation_ok_def)
qed

lemma attestation_verifies_over_wire_witness:
  "\<exists>att. bind (attestation_from_bytes (attestation_to_bytes att))
      (\<lambda>a. verify_node_attestation toy_crypto a PqOptional)
    = Ok (classical_fingerprint (blake3 toy_crypto)
        (software_public_key toy_crypto (from_ed25519_seed demo_seed)))"
proof -
  let ?s = "from_ed25519_seed demo_seed"
  obtain att where att: "attest_node_id (software_public_key toy_crypto ?s)
      (software_sign_classical toy_crypto ?s) (software_pq_public_key ?s)
      (software_sign_pq toy_crypto [] ?s) [9] = Ok att"
    and v: "node_id att = [9]" "cpk_bytes (att_public_key att) = demo_seed"
      "cpk_alg (att_public_key att) = Ed25519" "csig_alg (att_signature att) = Ed25519"
      "length (csig_bytes (att_signature att)) = 64" "att_pq att = None"
    by (simp add: attest_node_id_def software_sign_classical_def software_public_key_def Let_def
        software_sign_pq_def software_pq_public_key_def from_ed25519_seed_def toy_crypto_def)
  have "length (attestation_to_bytes att) < 2 ^ 64"
    unfolding attestation_to_bytes_def using v
    by (intro to_bytes_fits) (simp add: map_value_def attestation_entries_def demo_seed_def
        classical_public_key_to_value_def classical_signature_to_value_def)
  then show ?thesis
    using attestation_verifies_over_wire [OF toy_crypto_ok _ att, of PqOptional]
    by (auto simp: software_constructors_ok demo_seed_def)
qed

text \<open>
  Soundness and downgrade protection of \<open>verify_node_attestation\<close>: it accepts exactly when the
  classical signature verifies over the attested node identifier, a present post-quantum signature
  verifies over the same payload, and one is present if the policy requires it.
\<close>

lemma attestation_accept_iff:
  "is_ok (verify_node_attestation C att policy) \<longleftrightarrow>
     verify_classical C (att_public_key att) (node_signing_payload (node_id att)) (att_signature att) = Ok () \<and>
     (case att_pq att of
        None \<Rightarrow> policy = PqOptional
      | Some (pk, sg) \<Rightarrow> verify_pq C pk (node_signing_payload (node_id att)) sg = Ok ())"
  by (cases policy; cases "att_pq att") (auto simp: is_ok_iff verify_attestation_Ok_iff)

end
