(* ===== verification/Sha256.thy ===== *)
theory Sha256
  imports Prelude
begin

text \<open>
  The SHA-256 of \<open>identikey-auth\<close> (\<open>state.rs\<close>), as the program computes it: padding by a loop, a
  64-entry message schedule updated in place, and the compression rounds. It is proved equal to a
  direct transcription of FIPS 180-4.
\<close>

section \<open>The program\<close>

definition K :: "u32 list" where
  "K =
    [0x428a2f98, 0x71374491, 0xb5c0fbcf, 0xe9b5dba5, 0x3956c25b, 0x59f111f1, 0x923f82a4, 0xab1c5ed5] @
    [0xd807aa98, 0x12835b01, 0x243185be, 0x550c7dc3, 0x72be5d74, 0x80deb1fe, 0x9bdc06a7, 0xc19bf174] @
    [0xe49b69c1, 0xefbe4786, 0x0fc19dc6, 0x240ca1cc, 0x2de92c6f, 0x4a7484aa, 0x5cb0a9dc, 0x76f988da] @
    [0x983e5152, 0xa831c66d, 0xb00327c8, 0xbf597fc7, 0xc6e00bf3, 0xd5a79147, 0x06ca6351, 0x14292967] @
    [0x27b70a85, 0x2e1b2138, 0x4d2c6dfc, 0x53380d13, 0x650a7354, 0x766a0abb, 0x81c2c92e, 0x92722c85] @
    [0xa2bfe8a1, 0xa81a664b, 0xc24b8b70, 0xc76c51a3, 0xd192e819, 0xd6990624, 0xf40e3585, 0x106aa070] @
    [0x19a4c116, 0x1e376c08, 0x2748774c, 0x34b0bcb5, 0x391c0cb3, 0x4ed8aa4a, 0x5b9cca4f, 0x682e6ff3] @
    [0x748f82ee, 0x78a5636f, 0x84c87814, 0x8cc70208, 0x90befffa, 0xa4506ceb, 0xbef9a3f7, 0xc67178f2]"

definition sha256_init :: "u32 list" where
  "sha256_init = [0x6a09e667, 0xbb67ae85, 0x3c6ef372, 0xa54ff53a, 0x510e527f, 0x9b05688c,
    0x1f83d9ab, 0x5be0cd19]"

text \<open>\<open>while msg.len() % 64 != 56 { msg.push(0) }\<close>\<close>

function pad_loop :: "bytes \<Rightarrow> bytes" where
  "pad_loop msg = (if length msg mod 64 \<noteq> 56 then pad_loop (msg @ [0]) else msg)"
  by pat_completeness auto
termination
  by (relation "measure (\<lambda>msg. if length msg mod 64 \<le> 56 then 56 - length msg mod 64
      else 120 - length msg mod 64)") (auto simp: mod_Suc)

declare pad_loop.simps [simp del]

definition sha256_pad :: "bytes \<Rightarrow> bytes" where
  "sha256_pad data =
    pad_loop (data @ [0x80]) @ to_be_bytes 8 ((word_of_nat (length data) :: u64) * 8)"

text \<open>\<open>chunks_exact(n)\<close>: the full chunks, a shorter rest is dropped.\<close>

function chunks_exact :: "nat \<Rightarrow> 'a list \<Rightarrow> 'a list list" where
  "chunks_exact n xs =
    (if n = 0 \<or> length xs < n then [] else take n xs # chunks_exact n (drop n xs))"
  by pat_completeness auto
termination
  by (relation "measure (\<lambda>(n, xs). length xs)") auto

declare chunks_exact.simps [simp del]

definition schedule_step :: "u32 list \<Rightarrow> nat \<Rightarrow> u32 list" where
  "schedule_step w i =
    (let s0 = word_rotr 7 (w ! (i - 15)) XOR word_rotr 18 (w ! (i - 15)) XOR drop_bit 3 (w ! (i - 15));
         s1 = word_rotr 17 (w ! (i - 2)) XOR word_rotr 19 (w ! (i - 2)) XOR drop_bit 10 (w ! (i - 2))
     in w[i := w ! (i - 16) + s0 + w ! (i - 7) + s1])"

definition schedule :: "bytes \<Rightarrow> u32 list" where
  "schedule block =
    (let w0 = fold (\<lambda>(i, word) w. w[i := from_be_bytes word])
           (enumerate 0 (chunks_exact 4 block)) (replicate 64 0)
     in fold (\<lambda>i w. schedule_step w i) [16..<64] w0)"

datatype regs = Regs u32 u32 u32 u32 u32 u32 u32 u32

fun sha_round :: "u32 list \<Rightarrow> nat \<Rightarrow> regs \<Rightarrow> regs" where
  "sha_round w i (Regs a b c d e f g hh) =
    (let s1 = word_rotr 6 e XOR word_rotr 11 e XOR word_rotr 25 e;
         ch = (e AND f) XOR (NOT e AND g);
         t1 = hh + s1 + ch + K ! i + w ! i;
         s0 = word_rotr 2 a XOR word_rotr 13 a XOR word_rotr 22 a;
         maj = (a AND b) XOR (a AND c) XOR (b AND c);
         t2 = s0 + maj
     in Regs (t1 + t2) a b c (d + t1) e f g)"

definition regs_of :: "u32 list \<Rightarrow> regs" where
  "regs_of h = Regs (h ! 0) (h ! 1) (h ! 2) (h ! 3) (h ! 4) (h ! 5) (h ! 6) (h ! 7)"

fun regs_list :: "regs \<Rightarrow> u32 list" where
  "regs_list (Regs a b c d e f g hh) = [a, b, c, d, e, f, g, hh]"

definition compress :: "u32 list \<Rightarrow> bytes \<Rightarrow> u32 list" where
  "compress h block =
    (let w = schedule block;
         r = fold (\<lambda>i r. sha_round w i r) [0..<64] (regs_of h)
     in map (\<lambda>(x, y). x + y) (zip h (regs_list r)))"

definition sha256 :: "bytes \<Rightarrow> bytes" where
  "sha256 data =
    (let h = fold (\<lambda>block h. compress h block) (chunks_exact 64 (sha256_pad data)) sha256_init
     in concat (map (to_be_bytes 4) h))"

section \<open>The standard\<close>

text \<open>
  FIPS 180-4: the padding rule (section 5.1.1), the message schedule as a recurrence and the
  compression function (section 6.2.2), on words of 32 bits.
\<close>

definition small_sigma0 :: "u32 \<Rightarrow> u32" where
  "small_sigma0 x = word_rotr 7 x XOR word_rotr 18 x XOR drop_bit 3 x"

definition small_sigma1 :: "u32 \<Rightarrow> u32" where
  "small_sigma1 x = word_rotr 17 x XOR word_rotr 19 x XOR drop_bit 10 x"

definition big_sigma0 :: "u32 \<Rightarrow> u32" where
  "big_sigma0 x = word_rotr 2 x XOR word_rotr 13 x XOR word_rotr 22 x"

definition big_sigma1 :: "u32 \<Rightarrow> u32" where
  "big_sigma1 x = word_rotr 6 x XOR word_rotr 11 x XOR word_rotr 25 x"

definition Ch :: "u32 \<Rightarrow> u32 \<Rightarrow> u32 \<Rightarrow> u32" where
  "Ch x y z = (x AND y) XOR (NOT x AND z)"

definition Maj :: "u32 \<Rightarrow> u32 \<Rightarrow> u32 \<Rightarrow> u32" where
  "Maj x y z = (x AND y) XOR (x AND z) XOR (y AND z)"

definition fips_pad :: "bytes \<Rightarrow> bytes" where
  "fips_pad data = data @ [0x80] @ replicate ((119 - length data mod 64) mod 64) 0
     @ to_be_bytes 8 (word_of_nat (8 * length data) :: u64)"

fun fips_W :: "(nat \<Rightarrow> u32) \<Rightarrow> nat \<Rightarrow> u32" where
  "fips_W M t = (if t < 16 then M t
     else small_sigma1 (fips_W M (t - 2)) + fips_W M (t - 7) + small_sigma0 (fips_W M (t - 15))
       + fips_W M (t - 16))"

declare fips_W.simps [simp del]

fun fips_round :: "u32 \<Rightarrow> u32 \<Rightarrow> regs \<Rightarrow> regs" where
  "fips_round k w (Regs a b c d e f g h) =
    (let T1 = h + big_sigma1 e + Ch e f g + k + w; T2 = big_sigma0 a + Maj a b c in
     Regs (T1 + T2) a b c (d + T1) e f g)"

definition block_word :: "bytes \<Rightarrow> nat \<Rightarrow> u32" where
  "block_word block t = from_be_bytes (take 4 (drop (4 * t) block))"

definition fips_compress :: "u32 list \<Rightarrow> bytes \<Rightarrow> u32 list" where
  "fips_compress H block =
    map2 (+) H (regs_list (fold (\<lambda>t. fips_round (K ! t) (fips_W (block_word block) t)) [0..<64]
      (regs_of H)))"

definition fips_sha256 :: "bytes \<Rightarrow> bytes" where
  "fips_sha256 data =
    concat (map (to_be_bytes 4)
      (foldl fips_compress sha256_init
        (map (\<lambda>i. take 64 (drop (64 * i) (fips_pad data))) [0..<length (fips_pad data) div 64])))"

section \<open>Equivalence\<close>

lemma chunks_exact_eq:
  assumes "0 < n"
  shows "chunks_exact n xs = map (\<lambda>i. take n (drop (n * i) xs)) [0..<length xs div n]"
  using assms
proof (induction n xs rule: chunks_exact.induct)
  case (1 n xs)
  show ?case
  proof (cases "length xs < n")
    case True
    then show ?thesis by (simp add: chunks_exact.simps [of n xs])
  next
    case False
    then have "length xs div n = Suc (length (drop n xs) div n)"
      using "1.prems" by (simp add: le_div_geq)
    then have "[0..<length xs div n] = 0 # map Suc [0..<length (drop n xs) div n]"
      by (simp add: upt_conv_Cons map_Suc_upt del: upt_Suc)
    then show ?thesis using False 1 by (simp add: chunks_exact.simps [of n xs] add.commute)
  qed
qed

lemma pad_count: "r < 64 \<Longrightarrow> r \<noteq> 56 \<Longrightarrow> r \<noteq> 63 \<Longrightarrow> (120 - r) mod 64 = Suc ((119 - r) mod (64 :: nat))"
  by (cases "r < 56") (auto simp: mod_if)

lemma pad_loop_eq: "pad_loop msg = msg @ replicate ((120 - length msg mod 64) mod 64) 0"
proof (induction msg rule: pad_loop.induct)
  case (1 msg)
  show ?case
  proof (cases "length msg mod 64 = 56")
    case True
    then show ?thesis by (simp add: pad_loop.simps [of msg])
  next
    case False
    then have "(120 - length msg mod 64) mod 64 = Suc ((120 - length (msg @ [0]) mod 64) mod 64)"
      using pad_count [of "length msg mod 64"] by (simp add: mod_Suc split: if_splits)
    with False 1 show ?thesis by (simp add: pad_loop.simps [of msg])
  qed
qed

lemma sha256_pad_eq: "sha256_pad data = fips_pad data"
proof -
  have "(120 - Suc (length data) mod 64) mod 64 = (119 - length data mod 64) mod 64"
    by (simp add: mod_Suc)
  then show ?thesis
    by (simp add: sha256_pad_def fips_pad_def pad_loop_eq mult.commute)
qed

definition schedule_ok :: "bytes \<Rightarrow> nat \<Rightarrow> u32 list \<Rightarrow> bool" where
  "schedule_ok block n w \<longleftrightarrow> length w = 64 \<and> (\<forall>t < n. w ! t = fips_W (block_word block) t)"

lemma schedule_step_ok:
  assumes "schedule_ok block i w" and "16 \<le> i" and "i < 64"
  shows "schedule_ok block (Suc i) (schedule_step w i)"
proof -
  have "fips_W (block_word block) i = w ! (i - 16) + small_sigma0 (w ! (i - 15)) + w ! (i - 7)
      + small_sigma1 (w ! (i - 2))"
    using assms by (subst fips_W.simps) (simp add: schedule_ok_def add.commute add.left_commute)
  then show ?thesis
    using assms by (auto simp: schedule_ok_def schedule_step_def Let_def small_sigma0_def
        small_sigma1_def nth_list_update less_Suc_eq)
qed

lemma schedule_steps_ok:
  "16 \<le> n \<Longrightarrow> n \<le> 64 \<Longrightarrow> schedule_ok block 16 w \<Longrightarrow>
     schedule_ok block n (fold (\<lambda>i w. schedule_step w i) [16..<n] w)"
proof (induction n rule: nat_induct_at_least)
  case base
  then show ?case by simp
next
  case (Suc n)
  then show ?case by (simp add: schedule_step_ok)
qed

lemma fold_fill:
  "length xs \<le> length w \<Longrightarrow>
     fold (\<lambda>(i, x) w. w[i := f x]) (enumerate 0 xs) w = map f xs @ drop (length xs) w"
proof (induction xs rule: rev_induct)
  case Nil
  then show ?case by simp
next
  case (snoc x xs)
  then show ?case
    by (simp add: enumerate_append_eq list_update_append nth_append Cons_nth_drop_Suc [symmetric])
qed

lemma schedule_eq:
  assumes "length block = 64"
  shows "schedule_ok block 64 (schedule block)"
proof -
  let ?w0 = "fold (\<lambda>(i, word) w. w[i := from_be_bytes word]) (enumerate 0 (chunks_exact 4 block))
    (replicate 64 0)"
  have "?w0 = map (block_word block) [0..<16] @ replicate 48 0"
    using assms by (simp add: chunks_exact_eq fold_fill comp_def block_word_def)
  then have "schedule_ok block 16 ?w0"
    by (auto simp: schedule_ok_def nth_append fips_W.simps)
  then show ?thesis unfolding schedule_def Let_def by (intro schedule_steps_ok) simp_all
qed

lemma sha_round_eq:
  assumes "schedule_ok block 64 w" and "t < 64"
  shows "sha_round w t r = fips_round (K ! t) (fips_W (block_word block) t) r"
  using assms by (cases r) (simp add: schedule_ok_def big_sigma0_def big_sigma1_def Ch_def Maj_def)

lemma compress_eq: "length block = 64 \<Longrightarrow> compress h block = fips_compress h block"
proof -
  assume "length block = 64"
  then have ok: "schedule_ok block 64 (schedule block)" by (rule schedule_eq)
  have "fold (\<lambda>i r. sha_round (schedule block) i r) [0..<64] (regs_of h)
      = fold (\<lambda>t. fips_round (K ! t) (fips_W (block_word block) t)) [0..<64] (regs_of h)"
    by (rule fold_cong) (auto simp: fun_eq_iff sha_round_eq [OF ok])
  then show ?thesis by (simp add: compress_def fips_compress_def Let_def del: upt_conv_Cons_Cons)
qed

lemma sha256_eq: "sha256 data = fips_sha256 data"
proof -
  let ?blocks = "map (\<lambda>i. take 64 (drop (64 * i) (fips_pad data))) [0..<length (fips_pad data) div 64]"
  have "fold (\<lambda>block h. compress h block) ?blocks sha256_init
      = fold (\<lambda>block h. fips_compress h block) ?blocks sha256_init"
  proof (rule fold_cong [OF refl refl])
    fix block assume "block \<in> set ?blocks"
    then have "length block = 64" by auto
    then show "(\<lambda>h. compress h block) = (\<lambda>h. fips_compress h block)" by (simp add: compress_eq)
  qed
  then show ?thesis
    by (simp add: sha256_def fips_sha256_def sha256_pad_eq chunks_exact_eq foldl_conv_fold)
qed

lemma length_regs_list [simp]: "length (regs_list r) = 8"
  by (cases r) simp

lemma length_compress: "length h = 8 \<Longrightarrow> length (compress h block) = 8"
  by (simp add: compress_def Let_def)

lemma length_sha256 [simp]: "length (sha256 data) = 32"
proof -
  have "length (fold (\<lambda>block h. compress h block) bs h) = 8" if "length h = 8" for bs h
    using that by (induction bs arbitrary: h) (simp_all add: length_compress)
  then show ?thesis by (simp add: sha256_def length_concat comp_def sha256_init_def sum_list_triv)
qed

section \<open>Properties\<close>

text \<open>
  C33. The program's SHA-256 is the standard's: for every input, the padding loop, the in-place
  message schedule and the rounds compute the digest that FIPS 180-4 defines.
\<close>

theorem sha256_is_fips180_4: "sha256 data = fips_sha256 data"
  by (rule sha256_eq)

definition first_primes :: "nat list" where
  "first_primes = [
    2, 3, 5, 7, 11, 13, 17, 19, 23, 29, 31, 37, 41, 43, 47, 53, 59, 61, 67, 71, 73, 79, 83,
    89, 97, 101, 103, 107, 109, 113, 127, 131, 137, 139, 149, 151, 157, 163, 167, 173, 179,
    181, 191, 193, 197, 199, 211, 223, 227, 229, 233, 239, 241, 251, 257, 263, 269, 271, 277,
    281, 283, 293, 307, 311]"

definition root_fraction :: "nat \<Rightarrow> nat \<Rightarrow> u32 \<Rightarrow> bool" where
  "root_fraction d p k \<longleftrightarrow> (\<exists>q. (q * 2 ^ 32 + unat k) ^ d \<le> p * 2 ^ (32 * d)
     \<and> p * 2 ^ (32 * d) < (q * 2 ^ 32 + unat k + 1) ^ d)"

lemma first_eight_primes: "take 8 first_primes = [2, 3, 5, 7, 11, 13, 17, 19]"
  by (simp add: first_primes_def)

lemma root_fractionI:
  "(q * 2 ^ 32 + unat k) ^ d \<le> p * 2 ^ (32 * d) \<Longrightarrow>
     p * 2 ^ (32 * d) < (q * 2 ^ 32 + unat k + 1) ^ d \<Longrightarrow> root_fraction d p k"
  unfolding root_fraction_def by blast

lemma root_fractionI_floor:
  assumes "q = length (takeWhile (\<lambda>r. r ^ d \<le> p) [1, 2, 3, 4, 5, 6, 7])"
    and "(q * 2 ^ 32 + unat k) ^ d \<le> p * 2 ^ (32 * d)"
    and "p * 2 ^ (32 * d) < (q * 2 ^ 32 + unat k + 1) ^ d"
  shows "root_fraction d p k"
  using assms(2,3) by (rule root_fractionI)

text \<open>
  The constants are the standard's: the round constants are the first 32 bits of the fractional
  parts of the cube roots of the first 64 primes, and the initial hash value those of the square
  roots of the first eight.
\<close>

lemma sha256_constants:
  "list_all2 (root_fraction 3) first_primes K \<and>
   list_all2 (root_fraction 2) (take 8 first_primes) sha256_init"
  unfolding first_eight_primes unfolding first_primes_def K_def sha256_init_def append.simps
  by (intro conjI list.rel_intros; rule root_fractionI_floor [OF refl]; simp)

end
