(* ===== verification/State.thy ===== *)
theory State
  imports Signer Sha256
begin

text \<open>
  The post-quantum state chain of \<open>identikey-auth\<close> (\<open>state.rs\<close>): unsigned state records with their
  strict decoder, and the verifier-local trust that \<open>observe\<close> advances.
\<close>

section \<open>Records\<close>

definition STATE_VERSION :: u64 where "STATE_VERSION = 1"

definition STATE_DOMAIN :: string where "STATE_DOMAIN = ''identikey-pq-state/v1''"

definition ML_DSA_65_PK_LEN :: nat where "ML_DSA_65_PK_LEN = 1952"

type_synonym digest32 = bytes

record operational_key =
  opk_alg :: string
  opk_key :: bytes
  opk_privileges :: "string list"
  opk_not_before :: "u64 option"
  opk_not_after :: "u64 option"

record state_record =
  sr_xid :: digest32
  sr_seq :: u64
  sr_prev :: "digest32 option"
  sr_control :: pq_public_key
  sr_operational :: "operational_key list"

definition opt_entry :: "string \<Rightarrow> ('a \<Rightarrow> cbor_value) \<Rightarrow> 'a option \<Rightarrow> (string \<times> cbor_value) list" where
  "opt_entry k f m = (case m of None \<Rightarrow> [] | Some x \<Rightarrow> [(k, f x)])"

definition operational_key_to_value :: "operational_key \<Rightarrow> cbor_value" where
  "operational_key_to_value op = map_value (
    [(''alg'', Text (opk_alg op)),
     (''key'', Bytes (opk_key op)),
     (''privileges'', Array (map Text (opk_privileges op)))]
    @ opt_entry ''not_before'' Uint (opk_not_before op)
    @ opt_entry ''not_after'' Uint (opk_not_after op))"

definition map_entries ::
    "cbor_value \<Rightarrow> string list \<Rightarrow> string \<Rightarrow> (auth_error, (string \<times> cbor_value) list) result" where
  "map_entries v allowed unknown =
    (case v of
       Map entries \<Rightarrow>
         if list_ex (\<lambda>(k, _). k \<notin> set allowed) entries then Err (State unknown) else Ok entries
     | _ \<Rightarrow> Err (State ''expected a map''))"

definition optional :: "(string \<times> cbor_value) list \<Rightarrow> string \<Rightarrow> cbor_value option" where
  "optional entries key = map_of entries key"

definition required ::
    "(string \<times> cbor_value) list \<Rightarrow> string \<Rightarrow> string \<Rightarrow> (auth_error, cbor_value) result" where
  "required entries key missing = ok_or (optional entries key) (State missing)"

definition digest32_of :: "cbor_value \<Rightarrow> string \<Rightarrow> (auth_error, digest32) result" where
  "digest32_of v wrong_len =
    bind (as_bytes v) (\<lambda>b. if length b = 32 then Ok b else Err (State wrong_len))"

definition operational_key_from_value :: "cbor_value \<Rightarrow> (auth_error, operational_key) result" where
  "operational_key_from_value v =
    bind (map_entries v [''alg'', ''key'', ''privileges'', ''not_before'', ''not_after'']
      ''unknown key in operational entry'') (\<lambda>entries.
    bind (bind (required entries ''alg'' ''operational alg missing'') as_text) (\<lambda>alg.
    bind (bind (required entries ''key'' ''operational key missing'') as_bytes) (\<lambda>key.
    bind (bind (required entries ''privileges'' ''operational privileges missing'') (\<lambda>p.
      case p of
        Array items \<Rightarrow> collect as_text items
      | _ \<Rightarrow> Err (State ''operational privileges must be an array''))) (\<lambda>privileges.
    bind (transpose_opt as_uint (optional entries ''not_before'')) (\<lambda>not_before.
    bind (transpose_opt as_uint (optional entries ''not_after'')) (\<lambda>not_after.
    Ok \<lparr>opk_alg = alg, opk_key = key, opk_privileges = privileges,
        opk_not_before = not_before, opk_not_after = not_after\<rparr>))))))"

definition control_to_value :: "pq_public_key \<Rightarrow> cbor_value" where
  "control_to_value k = map_value
    [(''alg'', Text (pq_tag (pqpk_alg k))), (''key'', Bytes (pqpk_bytes k)), (''threshold'', Uint 1)]"

definition parse_control :: "cbor_value \<Rightarrow> (auth_error, pq_public_key) result" where
  "parse_control v =
    bind (map_entries v [''alg'', ''key'', ''threshold''] ''unknown key in control'') (\<lambda>entries.
    bind (bind (required entries ''alg'' ''control alg missing'') as_text) (\<lambda>alg.
    if alg \<noteq> pq_tag MlDsa65 then Err (State ''control alg must be ml-dsa-65'')
    else bind (bind (required entries ''key'' ''control key missing'') as_bytes) (\<lambda>key.
    if length key \<noteq> ML_DSA_65_PK_LEN then Err (State ''control key must be 1952 bytes'')
    else bind (bind (required entries ''threshold'' ''control threshold missing'') as_uint) (\<lambda>threshold.
    if threshold \<noteq> 1 then Err (State ''control threshold must be 1'')
    else Ok \<lparr>pqpk_alg = MlDsa65, pqpk_bytes = key\<rparr>))))"

definition state_record_to_value :: "state_record \<Rightarrow> cbor_value" where
  "state_record_to_value r = map_value (
    [(''v'', Uint STATE_VERSION),
     (''xid'', Bytes (sr_xid r)),
     (''seq'', Uint (sr_seq r)),
     (''control'', control_to_value (sr_control r)),
     (''operational'', Array (map operational_key_to_value (sr_operational r)))]
    @ opt_entry ''prev'' Bytes (sr_prev r))"

definition state_record_to_bytes :: "state_record \<Rightarrow> bytes" where
  "state_record_to_bytes r = to_bytes (state_record_to_value r)"

text \<open>The four arms of \<open>match (seq, prev)\<close>.\<close>

definition check_seq_prev :: "u64 \<Rightarrow> digest32 option \<Rightarrow> (auth_error, unit) result" where
  "check_seq_prev seq prev =
    (if seq = 0 then Err (State ''seq starts at 1'')
     else if seq = 1 \<and> prev \<noteq> None then Err (State ''first record must not carry prev'')
     else if prev = None \<and> seq > 1 then Err (State ''record after the first needs prev'')
     else Ok ())"

text \<open>\<open>StateRecord::from_bytes\<close> after the value has been decoded and re-encoded.\<close>

definition state_record_from_value :: "cbor_value \<Rightarrow> (auth_error, state_record) result" where
  "state_record_from_value v =
    bind (case v of
        Map _ \<Rightarrow> bind (get_opt v ''v'') (\<lambda>ver.
          case ver of Some ver \<Rightarrow> as_uint ver | None \<Rightarrow> Err (MissingField ''v''))
      | _ \<Rightarrow> Err (State ''record must be a map'')) (\<lambda>version.
    if version \<noteq> STATE_VERSION then Err (Version version)
    else bind (map_entries v [''v'', ''xid'', ''seq'', ''prev'', ''control'', ''operational'']
        ''unknown key in state record'') (\<lambda>entries.
    bind (bind (required entries ''xid'' ''xid missing'')
      (\<lambda>x. digest32_of x ''xid must be 32 bytes'')) (\<lambda>xid.
    bind (bind (required entries ''seq'' ''seq missing'') as_uint) (\<lambda>seq.
    bind (transpose_opt (\<lambda>p. digest32_of p ''prev must be 32 bytes'') (optional entries ''prev'')) (\<lambda>prev.
    bind (check_seq_prev seq prev) (\<lambda>_.
    bind (bind (required entries ''control'' ''control missing'') parse_control) (\<lambda>control.
    bind (bind (required entries ''operational'' ''operational missing'') (\<lambda>p.
      case p of
        Array items \<Rightarrow> collect operational_key_from_value items
      | _ \<Rightarrow> Err (State ''operational must be an array''))) (\<lambda>operational.
    Ok \<lparr>sr_xid = xid, sr_seq = seq, sr_prev = prev, sr_control = control,
        sr_operational = operational\<rparr>))))))))"

definition state_record_from_bytes :: "bytes \<Rightarrow> (auth_error, state_record) result" where
  "state_record_from_bytes data =
    bind (from_bytes data) (\<lambda>v.
      if to_bytes v \<noteq> data then Err (Cbor ''non-canonical state record'')
      else state_record_from_value v)"

definition state_record_digest :: "state_record \<Rightarrow> digest32" where
  "state_record_digest r = sha256 (state_record_to_bytes r)"

definition state_signing_payload :: "bytes \<Rightarrow> bytes" where
  "state_signing_payload record_bytes = to_bytes (Array [Text STATE_DOMAIN, Bytes record_bytes])"

definition state_record_signing_payload :: "state_record \<Rightarrow> bytes" where
  "state_record_signing_payload r = state_signing_payload (state_record_to_bytes r)"

definition xid_for_control_key :: "pq_public_key \<Rightarrow> digest32" where
  "xid_for_control_key pk = sha256 (to_bytes (pq_public_key_to_value pk))"

section \<open>Trust\<close>

record state_signatures =
  ss_pq :: "pq_signature list"
  ss_classical :: "classical_signature option"

record head =
  head_digest :: digest32
  head_record :: state_record

definition head_xid :: "head \<Rightarrow> digest32" where "head_xid h = sr_xid (head_record h)"

definition head_seq :: "head \<Rightarrow> u64" where "head_seq h = sr_seq (head_record h)"

definition head_control_key :: "head \<Rightarrow> pq_public_key" where
  "head_control_key h = sr_control (head_record h)"

record parent =
  par_control :: pq_public_key
  par_prev :: digest32
  par_seq :: u64

record trust =
  tr_anchor :: "digest32 option"
  tr_head :: "head option"
  tr_parent :: "parent option"
  tr_forked :: bool

definition trust_new :: trust where
  "trust_new = \<lparr>tr_anchor = None, tr_head = None, tr_parent = None, tr_forked = False\<rparr>"

definition with_anchor :: "digest32 \<Rightarrow> trust" where
  "with_anchor anchor = trust_new\<lparr>tr_anchor := Some anchor\<rparr>"

definition authority :: "trust \<Rightarrow> head option" where
  "authority t = (if tr_forked t then None else tr_head t)"

definition resolve :: "trust \<Rightarrow> digest32 \<Rightarrow> head option" where
  "resolve t digest =
    (case authority t of Some h \<Rightarrow> if head_digest h = digest then Some h else None | None \<Rightarrow> None)"

section \<open>Observing a record\<close>

definition pq_signed :: "crypto \<Rightarrow> pq_public_key \<Rightarrow> bytes \<Rightarrow> pq_signature list \<Rightarrow> bool" where
  "pq_signed C key payload sigs = list_ex (\<lambda>s. is_ok (verify_pq C key payload s)) sigs"

definition check_migration_sigs ::
    "crypto \<Rightarrow> state_record \<Rightarrow> bytes \<Rightarrow> state_signatures \<Rightarrow> classical_public_key option
      \<Rightarrow> (auth_error, unit) result" where
  "check_migration_sigs C rec payload sigs elect =
    (case (elect, ss_classical sigs) of
       (Some elect, Some sig) \<Rightarrow>
         bind (verify_classical C elect payload sig) (\<lambda>_.
           if \<not> pq_signed C (sr_control rec) payload (ss_pq sigs) then Err BadSignature else Ok ())
     | _ \<Rightarrow> Err (State ''migration needs an elect key and its signature''))"

definition check_rotation ::
    "crypto \<Rightarrow> state_record \<Rightarrow> digest32 \<Rightarrow> pq_public_key \<Rightarrow> bytes \<Rightarrow> state_signatures
      \<Rightarrow> (auth_error, unit) result" where
  "check_rotation C rec xid prev_control payload sigs =
    (if sr_xid rec \<noteq> xid then Err (State ''xid changed'')
     else if \<not> pq_signed C prev_control payload (ss_pq sigs) then Err BadSignature
     else if sr_control rec \<noteq> prev_control \<and> \<not> pq_signed C (sr_control rec) payload (ss_pq sigs)
       then Err BadSignature
     else Ok ())"

definition successor ::
    "crypto \<Rightarrow> trust \<Rightarrow> head \<Rightarrow> state_record \<Rightarrow> digest32 \<Rightarrow> bytes \<Rightarrow> state_signatures
      \<Rightarrow> (auth_error, trust) result" where
  "successor C trust head rec digest payload sigs =
    (if sr_prev rec = Some (head_digest head) \<and> Some (sr_seq rec) = checked_add_u64 (head_seq head) 1
     then bind (check_rotation C rec (head_xid head) (head_control_key head) payload sigs) (\<lambda>_.
       Ok \<lparr>tr_anchor = tr_anchor trust,
           tr_head = Some \<lparr>head_digest = digest, head_record = rec\<rparr>,
           tr_parent = Some \<lparr>par_control = sr_control (head_record head),
             par_prev = head_digest head, par_seq = sr_seq rec\<rparr>,
           tr_forked = False\<rparr>)
     else case tr_parent trust of
       Some parent \<Rightarrow>
         if sr_prev rec = Some (par_prev parent) \<and> sr_seq rec = par_seq parent
         then bind (check_rotation C rec (head_xid head) (par_control parent) payload sigs) (\<lambda>_.
           Ok (trust\<lparr>tr_forked := True\<rparr>))
         else Err (State ''record does not extend the accepted head'')
     | None \<Rightarrow> Err (State ''record does not extend the accepted head''))"

text \<open>The part of \<open>observe\<close> that runs when no head is accepted yet.\<close>

definition observe_first ::
    "crypto \<Rightarrow> trust \<Rightarrow> state_record \<Rightarrow> digest32 \<Rightarrow> bytes \<Rightarrow> state_signatures
      \<Rightarrow> classical_public_key option \<Rightarrow> bool \<Rightarrow> (auth_error, trust) result" where
  "observe_first C trust rec digest payload sigs elect classical_sound =
    (if sr_seq rec \<noteq> 1 then Err (State ''no accepted head'')
     else case tr_anchor trust of
       Some anchor \<Rightarrow>
         if anchor \<noteq> digest then Err (State ''first record is not the stored anchor'')
         else bind (check_migration_sigs C rec payload sigs elect) (\<lambda>_.
           Ok (trust\<lparr>tr_head := Some \<lparr>head_digest = digest, head_record = rec\<rparr>\<rparr>))
     | None \<Rightarrow>
         if sr_xid rec = xid_for_control_key (sr_control rec) then
           (if \<not> pq_signed C (sr_control rec) payload (ss_pq sigs) then Err BadSignature
            else Ok (trust\<lparr>tr_head := Some \<lparr>head_digest = digest, head_record = rec\<rparr>\<rparr>))
         else bind (check_migration_sigs C rec payload sigs elect) (\<lambda>_.
           if \<not> classical_sound
           then Err (State ''classical signatures are not sound and no anchor is stored'')
           else Ok (trust\<lparr>tr_anchor := Some digest,
             tr_head := Some \<lparr>head_digest = digest, head_record = rec\<rparr>\<rparr>)))"

definition observe ::
    "crypto \<Rightarrow> trust \<Rightarrow> bytes \<Rightarrow> state_signatures \<Rightarrow> classical_public_key option \<Rightarrow> bool
      \<Rightarrow> (auth_error, trust) result" where
  "observe C trust record_bytes sigs elect classical_sound =
    (if tr_forked trust then Err (State ''duplicity recorded for this xid'')
     else bind (state_record_from_bytes record_bytes) (\<lambda>rec.
       let digest = sha256 record_bytes; payload = state_signing_payload record_bytes in
       case tr_head trust of
         Some head \<Rightarrow>
           if head_digest head = digest then Ok trust
           else if sr_seq rec = 1 then
             (if tr_anchor trust = Some digest then Ok trust
              else Err (State ''chain already established''))
           else successor C trust head rec digest payload sigs
       | None \<Rightarrow> observe_first C trust rec digest payload sigs elect classical_sound))"

end
