(* ===== verification/State_Laws.thy ===== *)
theory State_Laws
  imports State
begin

text \<open>
  The state-record format is strict: every accepted byte string is the encoding of the record it
  decodes to, so a record and its digest determine each other's bytes. Interpretations of
  \<open>canonical_value_codec\<close> for the nested structures carry the proof.
\<close>

section \<open>Canonical maps are determined by their lookups\<close>

lemma sorted_keys_unique:
  fixes f :: "'a \<Rightarrow> 'b :: linorder"
  assumes "sorted_wrt (<) (map f xs)" and "sorted_wrt (<) (map f ys)" and "set xs = set ys"
  shows "xs = ys"
proof (rule map_sorted_distinct_set_unique [of f])
  show "inj_on f (set xs \<union> set ys)"
    using assms by (auto simp: strict_sorted_iff distinct_map)
qed (use assms in \<open>auto simp: strict_sorted_iff distinct_map\<close>)

lemma canonical_Map_eqI:
  assumes "canonical (Map es)" and "canonical (Map es')" and "map_of es = map_of es'"
  shows "es = es'"
proof (rule sorted_keys_unique [of "encode_key \<circ> fst"])
  have "distinct (map fst es)" "distinct (map fst es')"
    using canonical_wf [OF assms(1)] canonical_wf [OF assms(2)] by auto
  then show "set es = set es'" using assms(3) map_of_inject_set by blast
qed (use assms in auto)

lemma canon_Map_eqI:
  assumes "canonical (Map es)" and "wf_value (Map es')"
    and "\<And>k. map_of es k = map_option canon (map_of es' k)"
  shows "canon (Map es') = Map es"
proof -
  obtain es2 where es2: "canon (Map es') = Map es2" by simp
  have "map_of es2 k = map_option canon (map_of es' k)" for k
    using get_opt_canon [of es' k] assms(2) es2 by simp
  then have "map_of es2 = map_of es" using assms(3) by auto
  moreover have "canonical (Map es2)" using canonical_canon [OF assms(2)] es2 by simp
  ultimately show ?thesis using canonical_Map_eqI assms(1) es2 by metis
qed

lemma canonical_lookup: "canonical (Map es) \<Longrightarrow> map_of es k = Some w \<Longrightarrow> canonical w"
  by (drule map_of_SomeD) (auto simp: list_all_iff)

section \<open>Reading entries\<close>

lemma collect_map_Text [simp]: "collect as_text (map Text ps) = Ok ps"
  by (induction ps) simp_all

lemma transpose_map_option [simp]:
  "(\<And>x. f (g x) = Ok x) \<Longrightarrow> transpose_opt f (map_option g m) = Ok m"
  by (cases m) simp_all

lemma map_entries_Ok_iff:
  "map_entries v allowed msg = Ok es \<longleftrightarrow> v = Map es \<and> fst ` set es \<subseteq> set allowed"
  by (cases v) (auto simp: map_entries_def list_ex_iff)

lemma required_Ok_iff: "required es k msg = Ok v \<longleftrightarrow> map_of es k = Some v"
  by (simp add: required_def optional_def ok_or_Ok_iff)

lemma digest32_of_Ok_iff: "digest32_of v msg = Ok d \<longleftrightarrow> v = Bytes d \<and> length d = 32"
  by (auto simp: digest32_of_def bind_Ok_iff as_bytes_Ok_iff split: if_splits)

lemmas state_iffs = bind_Ok_iff map_entries_Ok_iff required_Ok_iff digest32_of_Ok_iff
  as_uint_Ok_iff as_bytes_Ok_iff as_text_Ok_iff collect_Ok_iff transpose_opt_Ok_iff optional_def

lemma collect_as_text: "list_all2 (\<lambda>x y. x = Text y) items ps \<longleftrightarrow> items = map Text ps"
  by (induction items arbitrary: ps) (auto simp: list_all2_Cons1 Cons_eq_map_conv)

lemma map_of_opt_entry:
  "map_of (opt_entry k f m) k' = (if k' = k then map_option f m else None)"
  by (auto simp: opt_entry_def split: option.splits)

lemma fst_opt_entry: "fst ` set (opt_entry k f m) \<subseteq> {k}" "distinct (map fst (opt_entry k f m))"
  by (auto simp: opt_entry_def split: option.splits)

section \<open>Operational keys\<close>

definition operational_key_ok :: "operational_key \<Rightarrow> bool" where
  "operational_key_ok op \<longleftrightarrow> valid_text (opk_alg op) \<and> list_all valid_text (opk_privileges op)"

lemma operational_key_wf: "operational_key_ok op \<Longrightarrow> wf_value (operational_key_to_value op)"
  by (auto simp: operational_key_to_value_def operational_key_ok_def map_value_def opt_entry_def
      list_all_iff split: option.splits)

lemma canon_texts [simp]: "map (canon \<circ> Text) ps = map Text ps" "map canon (map Text ps) = map Text ps"
  by (induction ps) simp_all

lemma canon_privileges [simp]: "canon (Array (map Text ps)) = Array (map Text ps)"
  by simp

text \<open>The entries of an encoded key, as a lookup function.\<close>

definition opk_lookup :: "operational_key \<Rightarrow> string \<rightharpoonup> cbor_value" where
  "opk_lookup op k = (if k = ''alg'' then Some (Text (opk_alg op))
     else if k = ''key'' then Some (Bytes (opk_key op))
     else if k = ''privileges'' then Some (Array (map Text (opk_privileges op)))
     else if k = ''not_before'' then map_option Uint (opk_not_before op)
     else if k = ''not_after'' then map_option Uint (opk_not_after op) else None)"

lemma operational_key_to_value_Map:
  obtains es where "operational_key_to_value op = Map es" and "distinct (map fst es)"
    and "map_of es = opk_lookup op"
  unfolding operational_key_to_value_def map_value_def
  by (auto simp: opt_entry_def opk_lookup_def fun_eq_iff split: option.splits)

lemma keys_from_lookup: "(\<And>k. k \<notin> A \<Longrightarrow> map_of es k = None) \<Longrightarrow> fst ` set es \<subseteq> A"
  using map_of_eq_None_iff by fastforce

lemma lookup_from_keys: "fst ` set es \<subseteq> A \<Longrightarrow> k \<notin> A \<Longrightarrow> map_of es k = None"
  by (auto simp: map_of_eq_None_iff)

lemma array_case_Ok_iff:
  "(case p of Array items \<Rightarrow> f items | _ \<Rightarrow> Err e) = Ok x \<longleftrightarrow> (\<exists>items. p = Array items \<and> f items = Ok x)"
  by (cases p) auto

lemma map_option_from:
  "(m = None \<and> y = None \<or> (\<exists>x z. m = Some x \<and> x = f z \<and> y = Some z)) \<longleftrightarrow> m = map_option f y"
  by (cases y) auto

lemma operational_key_from_value_iff:
  "operational_key_from_value v = Ok op \<longleftrightarrow> (\<exists>es. v = Map es \<and> map_of es = opk_lookup op)"
proof
  assume "operational_key_from_value v = Ok op"
  then obtain es where v: "v = Map es"
    and keys: "fst ` set es \<subseteq> set [''alg'', ''key'', ''privileges'', ''not_before'', ''not_after'']"
    and "map_of es ''alg'' = Some (Text (opk_alg op))"
      "map_of es ''key'' = Some (Bytes (opk_key op))"
      "map_of es ''privileges'' = Some (Array (map Text (opk_privileges op)))"
      "map_of es ''not_before'' = map_option Uint (opk_not_before op)"
      "map_of es ''not_after'' = map_option Uint (opk_not_after op)"
    unfolding operational_key_from_value_def
    by (auto simp: state_iffs array_case_Ok_iff collect_as_text map_option_from)
  moreover have "map_of es k = None"
    if "k \<notin> set [''alg'', ''key'', ''privileges'', ''not_before'', ''not_after'']" for k
    using keys that by (rule lookup_from_keys)
  ultimately have "map_of es = opk_lookup op" by (auto simp: opk_lookup_def fun_eq_iff)
  with v show "\<exists>es. v = Map es \<and> map_of es = opk_lookup op" by blast
next
  assume "\<exists>es. v = Map es \<and> map_of es = opk_lookup op"
  then obtain es where v: "v = Map es" and es: "map_of es = opk_lookup op" by blast
  have "fst ` set es \<subseteq> set [''alg'', ''key'', ''privileges'', ''not_before'', ''not_after'']"
    by (rule keys_from_lookup) (simp add: es opk_lookup_def)
  then have "map_entries v [''alg'', ''key'', ''privileges'', ''not_before'', ''not_after'']
      ''unknown key in operational entry'' = Ok es" by (simp add: map_entries_Ok_iff v)
  then show "operational_key_from_value v = Ok op"
    by (simp add: operational_key_from_value_def required_def optional_def es opk_lookup_def)
qed

lemma opk_lookup_canon [simp]: "map_option canon (opk_lookup op k) = opk_lookup op k"
  by (simp add: opk_lookup_def option.map_comp comp_def)

interpretation opk: canonical_value_codec operational_key_to_value operational_key_from_value
    operational_key_ok
proof unfold_locales
  fix op
  assume ok: "operational_key_ok op"
  show "wf_value (operational_key_to_value op)" using ok by (rule operational_key_wf)
  obtain es where es: "operational_key_to_value op = Map es" "distinct (map fst es)"
    "map_of es = opk_lookup op" by (rule operational_key_to_value_Map)
  then show "operational_key_from_value (canon (operational_key_to_value op)) = Ok op"
    by (auto simp: operational_key_from_value_iff map_of_sort_canon)
next
  fix v op
  assume v: "canonical v" and "operational_key_from_value v = Ok op"
  then obtain es where es: "v = Map es" "map_of es = opk_lookup op"
    by (auto simp: operational_key_from_value_iff)
  have sub: "canonical w" if "opk_lookup op k = Some w" for k w
    using canonical_lookup [of es k w] v that es by simp
  have ok: "operational_key_ok op"
    using sub [of "''alg''"] sub [of "''privileges''"]
    by (auto simp: opk_lookup_def operational_key_ok_def list_all_iff)
  obtain es' where es': "operational_key_to_value op = Map es'" "map_of es' = opk_lookup op"
    by (rule operational_key_to_value_Map)
  have "canon (Map es') = Map es"
    using v es es' operational_key_wf [OF ok] by (intro canon_Map_eqI) simp_all
  with ok es es' show "operational_key_ok op \<and> canon (operational_key_to_value op) = v" by simp
qed

section \<open>Control keys\<close>

definition control_ok :: "pq_public_key \<Rightarrow> bool" where
  "control_ok k \<longleftrightarrow> pqpk_alg k = MlDsa65 \<and> length (pqpk_bytes k) = ML_DSA_65_PK_LEN"

definition control_lookup :: "pq_public_key \<Rightarrow> string \<rightharpoonup> cbor_value" where
  "control_lookup c k = (if k = ''alg'' then Some (Text (pq_tag (pqpk_alg c)))
     else if k = ''key'' then Some (Bytes (pqpk_bytes c))
     else if k = ''threshold'' then Some (Uint 1) else None)"

lemma control_to_value_Map:
  obtains es where "control_to_value c = Map es" and "distinct (map fst es)"
    and "map_of es = control_lookup c"
  unfolding control_to_value_def map_value_def
  by (auto simp: control_lookup_def fun_eq_iff)

lemma parse_control_iff:
  "parse_control v = Ok c \<longleftrightarrow> control_ok c \<and> (\<exists>es. v = Map es \<and> map_of es = control_lookup c)"
proof
  assume "parse_control v = Ok c"
  then obtain es where v: "v = Map es" and ok: "control_ok c"
    and keys: "fst ` set es \<subseteq> set [''alg'', ''key'', ''threshold'']"
    and "map_of es ''alg'' = Some (Text (pq_tag (pqpk_alg c)))"
      "map_of es ''key'' = Some (Bytes (pqpk_bytes c))" "map_of es ''threshold'' = Some (Uint 1)"
    unfolding parse_control_def control_ok_def by (auto simp: state_iffs split: if_splits)
  moreover have "map_of es k = None" if "k \<notin> set [''alg'', ''key'', ''threshold'']" for k
    using keys that by (rule lookup_from_keys)
  ultimately have "map_of es = control_lookup c" by (auto simp: control_lookup_def fun_eq_iff)
  with v ok show "control_ok c \<and> (\<exists>es. v = Map es \<and> map_of es = control_lookup c)" by blast
next
  assume r: "control_ok c \<and> (\<exists>es. v = Map es \<and> map_of es = control_lookup c)"
  then obtain es where v: "v = Map es" and es: "map_of es = control_lookup c" by blast
  have "fst ` set es \<subseteq> set [''alg'', ''key'', ''threshold'']"
    by (rule keys_from_lookup) (simp add: es control_lookup_def)
  then have "map_entries v [''alg'', ''key'', ''threshold''] ''unknown key in control'' = Ok es"
    by (simp add: map_entries_Ok_iff v)
  then show "parse_control v = Ok c"
    using r by (simp add: parse_control_def required_def optional_def es control_lookup_def
        control_ok_def)
qed

lemma control_wf: "wf_value (control_to_value c)"
  by (simp add: control_to_value_def map_value_def)

lemma control_lookup_canon [simp]: "map_option canon (control_lookup c k) = control_lookup c k"
  by (simp add: control_lookup_def)

interpretation control: canonical_value_codec control_to_value parse_control control_ok
proof unfold_locales
  fix c
  assume ok: "control_ok c"
  show "wf_value (control_to_value c)" by (rule control_wf)
  obtain es where "control_to_value c = Map es" "distinct (map fst es)"
    "map_of es = control_lookup c" by (rule control_to_value_Map)
  then show "parse_control (canon (control_to_value c)) = Ok c"
    using ok by (auto simp: parse_control_iff map_of_sort_canon)
next
  fix v c
  assume v: "canonical v" and "parse_control v = Ok c"
  then obtain es where es: "v = Map es" "map_of es = control_lookup c" and ok: "control_ok c"
    by (auto simp: parse_control_iff)
  obtain es' where es': "control_to_value c = Map es'" "map_of es' = control_lookup c"
    by (rule control_to_value_Map)
  have "canon (Map es') = Map es"
    using v es es' control_wf [of c] by (intro canon_Map_eqI) simp_all
  with ok es es' show "control_ok c \<and> canon (control_to_value c) = v" by simp
qed

section \<open>State records\<close>

definition state_record_ok :: "state_record \<Rightarrow> bool" where
  "state_record_ok r \<longleftrightarrow> length (sr_xid r) = 32 \<and> (\<forall>p. sr_prev r = Some p \<longrightarrow> length p = 32) \<and>
     1 \<le> sr_seq r \<and> (sr_seq r = 1 \<longleftrightarrow> sr_prev r = None) \<and> control_ok (sr_control r) \<and>
     list_all operational_key_ok (sr_operational r)"

definition sr_lookup :: "state_record \<Rightarrow> string \<rightharpoonup> cbor_value" where
  "sr_lookup r k = (if k = ''v'' then Some (Uint STATE_VERSION)
     else if k = ''xid'' then Some (Bytes (sr_xid r))
     else if k = ''seq'' then Some (Uint (sr_seq r))
     else if k = ''control'' then Some (canon (control_to_value (sr_control r)))
     else if k = ''operational'' then
       Some (Array (map (\<lambda>op. canon (operational_key_to_value op)) (sr_operational r)))
     else if k = ''prev'' then map_option Bytes (sr_prev r) else None)"

lemma state_record_to_value_Map:
  obtains es where "state_record_to_value r = Map es" and "distinct (map fst es)"
    and "\<And>k. map_option canon (map_of es k) = sr_lookup r k"
  unfolding state_record_to_value_def map_value_def
  by (cases "sr_prev r") (auto simp: opt_entry_def sr_lookup_def comp_def)

lemma state_record_wf: "state_record_ok r \<Longrightarrow> wf_value (state_record_to_value r)"
  using control_wf operational_key_wf
  by (auto simp: state_record_to_value_def map_value_def opt_entry_def state_record_ok_def
      list_all_iff split: option.splits)

lemma word_pos_cases: "(n :: u64) \<noteq> 0 \<longleftrightarrow> 1 \<le> n" "(n :: u64) > 1 \<longleftrightarrow> n \<noteq> 0 \<and> n \<noteq> 1"
  by (auto simp: word_le_nat_alt word_less_nat_alt word_unat_eq_iff)

lemma check_seq_prev_Ok_iff:
  "check_seq_prev seq prev = Ok u \<longleftrightarrow> 1 \<le> seq \<and> (seq = 1 \<longleftrightarrow> prev = None)"
  by (auto simp: check_seq_prev_def word_pos_cases)

definition state_keys :: "string list" where
  "state_keys = [''v'', ''xid'', ''seq'', ''prev'', ''control'', ''operational'']"

lemma state_record_from_value_sound:
  assumes v: "canonical v" and r: "state_record_from_value v = Ok r"
  shows "state_record_ok r \<and> (\<exists>es. v = Map es \<and> map_of es = sr_lookup r)"
proof -
  obtain es where v': "v = Map es" using r by (cases v) (auto simp: state_record_from_value_def)
  note sub = canonical_lookup [OF v [unfolded v']]
  obtain c ops where keys: "fst ` set es \<subseteq> set state_keys"
    and r1: "map_of es ''v'' = Some (Uint STATE_VERSION)" "map_of es ''xid'' = Some (Bytes (sr_xid r))"
      "map_of es ''seq'' = Some (Uint (sr_seq r))" "length (sr_xid r) = 32"
      "map_of es ''prev'' = map_option Bytes (sr_prev r)" "\<forall>p. sr_prev r = Some p \<longrightarrow> length p = 32"
      "1 \<le> sr_seq r" "sr_seq r = 1 \<longleftrightarrow> sr_prev r = None"
    and c: "map_of es ''control'' = Some c" "parse_control c = Ok (sr_control r)"
    and ops: "map_of es ''operational'' = Some (Array ops)"
      "collect operational_key_from_value ops = Ok (sr_operational r)"
    using r unfolding state_record_from_value_def v' state_keys_def
    by (auto simp: bind_Ok_iff map_entries_Ok_iff required_Ok_iff
        digest32_of_Ok_iff as_uint_Ok_iff transpose_opt_Ok_iff optional_def check_seq_prev_Ok_iff
        array_case_Ok_iff split: if_splits option.splits)
  have c': "control_ok (sr_control r)" "c = canon (control_to_value (sr_control r))"
    using c sub control.fv_Ok_iff by auto
  have "list_all canonical ops" using sub [OF ops(1)] by simp
  then have ops': "list_all operational_key_ok (sr_operational r)"
      "ops = map (\<lambda>op. canon (operational_key_to_value op)) (sr_operational r)"
    using ops opk.collect_Ok_iff' by auto
  have "map_of es = sr_lookup r"
  proof
    fix k
    show "map_of es k = sr_lookup r k"
      using lookup_from_keys [OF keys, of k] r1 c c' ops ops'
      by (cases "k \<in> set state_keys") (auto simp: sr_lookup_def state_keys_def)
  qed
  moreover have "state_record_ok r" using r1 c' ops' by (simp add: state_record_ok_def)
  ultimately show ?thesis using v' by blast
qed

lemma state_record_from_value_complete:
  assumes ok: "state_record_ok r" and es: "map_of es = sr_lookup r"
  shows "state_record_from_value (Map es) = Ok r"
proof -
  have "fst ` set es \<subseteq> set state_keys"
    by (rule keys_from_lookup) (simp add: es sr_lookup_def state_keys_def)
  then have "map_entries (Map es) state_keys ''unknown key in state record'' = Ok es"
    by (simp add: map_entries_Ok_iff)
  moreover have "collect operational_key_from_value
      (map (\<lambda>op. canon (operational_key_to_value op)) (sr_operational r)) = Ok (sr_operational r)"
    using ok opk.fv_tv by (subst collect_map_Ok [where h = id]) (auto simp: state_record_ok_def list_all_iff)
  moreover have "transpose_opt (\<lambda>p. digest32_of p ''prev must be 32 bytes'')
      (map_option Bytes (sr_prev r)) = Ok (sr_prev r)"
    using ok by (cases "sr_prev r") (auto simp: digest32_of_def state_record_ok_def)
  moreover have "check_seq_prev (sr_seq r) (sr_prev r) = Ok ()"
    using ok by (simp add: check_seq_prev_Ok_iff state_record_ok_def)
  moreover have "parse_control (canon (control_to_value (sr_control r))) = Ok (sr_control r)"
    using ok by (intro control.fv_tv) (simp add: state_record_ok_def)
  ultimately show ?thesis
    using ok unfolding state_record_from_value_def state_keys_def [symmetric]
    by (simp add: required_def optional_def es sr_lookup_def digest32_of_def state_record_ok_def)
qed

interpretation state_record: canonical_value_codec state_record_to_value state_record_from_value
    state_record_ok
proof unfold_locales
  fix r
  assume ok: "state_record_ok r"
  show "wf_value (state_record_to_value r)" using ok by (rule state_record_wf)
  obtain es where es: "state_record_to_value r = Map es" "distinct (map fst es)"
    "\<And>k. map_option canon (map_of es k) = sr_lookup r k"
    using state_record_to_value_Map [of r] by metis
  then show "state_record_from_value (canon (state_record_to_value r)) = Ok r"
    using ok by (auto intro!: state_record_from_value_complete simp: map_of_sort_canon)
next
  fix v r
  assume v: "canonical v" and r: "state_record_from_value v = Ok r"
  then obtain es where es: "v = Map es" "map_of es = sr_lookup r" and ok: "state_record_ok r"
    using state_record_from_value_sound by blast
  obtain es' where es': "state_record_to_value r = Map es'"
    "\<And>k. map_option canon (map_of es' k) = sr_lookup r k"
    using state_record_to_value_Map [of r] by metis
  have "canon (Map es') = Map es"
    using v es es' state_record_wf [OF ok] by (intro canon_Map_eqI) simp_all
  with ok es es' show "state_record_ok r \<and> canon (state_record_to_value r) = v" by simp
qed

text \<open>The re-encoding check of \<open>from_bytes\<close> never fires: the decoder is already exact.\<close>

lemma state_record_from_bytes_eq:
  "state_record_from_bytes b = bind (from_bytes b) state_record_from_value"
proof (cases "from_bytes b")
  case (Ok v)
  then have "to_bytes v = b" by (simp add: from_bytes_iff to_bytes_def)
  with Ok show ?thesis by (simp add: state_record_from_bytes_def)
qed (simp add: state_record_from_bytes_def)

lemma state_record_from_bytes_iff:
  "state_record_from_bytes b = Ok r \<longleftrightarrow>
     state_record_ok r \<and> length b < 2 ^ 64 \<and> state_record_to_bytes r = b"
  using state_record.strict.dec_Ok_iff [of b r]
  by (auto simp: state_record_from_bytes_eq state_record_to_bytes_def)

section \<open>Properties\<close>

text \<open>
  C5. The state-record format is strict in both directions: \<open>from_bytes\<close> accepts a byte string if
  and only if it is the encoding of a valid version-1 record (32-byte XID and \<open>prev\<close>, sequence
  numbers from 1, \<open>prev\<close> absent exactly on the first record, one ML-DSA-65 control key of 1952
  bytes, UTF-8 operational keys), and returns that record. Unknown keys, a second spelling or a
  second encoding of the same record are all refused.
\<close>

theorem state_record_decode_exact:
  "state_record_from_bytes b = Ok r \<longleftrightarrow>
     state_record_ok r \<and> length b < 2 ^ 64 \<and> state_record_to_bytes r = b"
  by (rule state_record_from_bytes_iff)

end
