(* ===== verification/State_Chain.thy ===== *)
theory State_Chain
  imports State_Laws
begin

text \<open>
  The state machine that \<open>observe\<close> drives: what each accepted record does to the trust, the
  invariant of every reachable trust, and the guarantees of the chain (hash links, one sequence
  number at a time, every rotation signed by the key it replaces, fork detection).
\<close>

section \<open>Steps\<close>

definition pq_verified :: "crypto \<Rightarrow> pq_public_key \<Rightarrow> bytes \<Rightarrow> bool" where
  "pq_verified C key m \<longleftrightarrow> (\<exists>sig. verify_pq C key m sig = Ok ())"

definition classical_verified :: "crypto \<Rightarrow> bytes \<Rightarrow> bool" where
  "classical_verified C m \<longleftrightarrow> (\<exists>elect sig. verify_classical C elect m sig = Ok ())"

text \<open>\<open>rec\<close> is a valid rotation of the chain whose head is \<open>h\<close>.\<close>

definition extends :: "crypto \<Rightarrow> digest32 \<Rightarrow> digest32 \<Rightarrow> pq_public_key \<Rightarrow> u64 \<Rightarrow> state_record \<Rightarrow> bool" where
  "extends C prev xid control seq rec \<longleftrightarrow>
     sr_prev rec = Some prev \<and> sr_xid rec = xid \<and> sr_seq rec = seq \<and>
     pq_verified C control (state_record_signing_payload rec) \<and>
     pq_verified C (sr_control rec) (state_record_signing_payload rec)"

definition head_of :: "state_record \<Rightarrow> head" where
  "head_of r = \<lparr>head_digest = state_record_digest r, head_record = r\<rparr>"

lemma head_of_simps [simp]:
  "head_digest (head_of r) = state_record_digest r" "head_record (head_of r) = r"
  "head_xid (head_of r) = sr_xid r" "head_seq (head_of r) = sr_seq r"
  "head_control_key (head_of r) = sr_control r"
  by (simp_all add: head_of_def head_xid_def head_seq_def head_control_key_def)

lemma head_of_eq_iff [simp]: "head_of r = head_of r' \<longleftrightarrow> r = r'"
  by (auto simp: head_of_def)

lemma authority_unforked: "\<not> tr_forked t \<Longrightarrow> authority t = tr_head t"
  by (simp add: authority_def)

lemma pq_signed_verified: "pq_signed C k m sigs \<Longrightarrow> pq_verified C k m"
  by (auto simp: pq_signed_def pq_verified_def list_ex_iff is_ok_iff)

lemma check_rotation_Ok_iff:
  "check_rotation C rec xid k m sigs = Ok u \<longleftrightarrow>
     sr_xid rec = xid \<and> pq_signed C k m (ss_pq sigs) \<and>
     (sr_control rec = k \<or> pq_signed C (sr_control rec) m (ss_pq sigs))"
  by (auto simp: check_rotation_def)

lemma check_migration_Ok_iff:
  "check_migration_sigs C rec m sigs elect = Ok u \<longleftrightarrow>
     (\<exists>e sg. elect = Some e \<and> ss_classical sigs = Some sg \<and> verify_classical C e m sg = Ok ()) \<and>
     pq_signed C (sr_control rec) m (ss_pq sigs)"
  by (auto simp: check_migration_sigs_def bind_Ok_iff split: option.splits if_splits)

text \<open>The four ways a record is accepted.\<close>

definition established :: "crypto \<Rightarrow> bool \<Rightarrow> trust \<Rightarrow> state_record \<Rightarrow> trust \<Rightarrow> bool" where
  "established C sound t rec t' \<longleftrightarrow>
     tr_head t = None \<and> sr_seq rec = 1 \<and>
     pq_verified C (sr_control rec) (state_record_signing_payload rec) \<and>
     ((tr_anchor t = None \<and> sr_xid rec = xid_for_control_key (sr_control rec)
        \<and> t' = t\<lparr>tr_head := Some (head_of rec)\<rparr>) \<or>
      (classical_verified C (state_record_signing_payload rec)
        \<and> (tr_anchor t = Some (state_record_digest rec) \<or> tr_anchor t = None \<and> sound)
        \<and> t' = t\<lparr>tr_anchor := Some (state_record_digest rec), tr_head := Some (head_of rec)\<rparr>))"

definition extended :: "crypto \<Rightarrow> trust \<Rightarrow> state_record \<Rightarrow> trust \<Rightarrow> bool" where
  "extended C t rec t' \<longleftrightarrow>
     (\<exists>h. tr_head t = Some h \<and> unat (head_seq h) + 1 < 2 ^ 64
        \<and> extends C (head_digest h) (head_xid h) (head_control_key h) (head_seq h + 1) rec
        \<and> t' = \<lparr>tr_anchor = tr_anchor t, tr_head = Some (head_of rec),
             tr_parent = Some \<lparr>par_control = head_control_key h, par_prev = head_digest h,
               par_seq = sr_seq rec\<rparr>, tr_forked = False\<rparr>)"

definition forks :: "crypto \<Rightarrow> trust \<Rightarrow> state_record \<Rightarrow> trust \<Rightarrow> bool" where
  "forks C t rec t' \<longleftrightarrow>
     (\<exists>h p. tr_head t = Some h \<and> tr_parent t = Some p \<and> head_digest h \<noteq> state_record_digest rec
        \<and> extends C (par_prev p) (head_xid h) (par_control p) (par_seq p) rec
        \<and> t' = t\<lparr>tr_forked := True\<rparr>)"

lemma checked_add_1: "Some s = checked_add_u64 n 1 \<longleftrightarrow> unat n + 1 < 2 ^ 64 \<and> s = n + 1"
  using checked_add_u64_Some_iff [of n 1 s] by auto

lemma check_rotation_extends:
  "check_rotation C rec xid k (state_record_signing_payload rec) sigs = Ok u \<Longrightarrow>
     sr_prev rec = Some p \<Longrightarrow> extends C p xid k (sr_seq rec) rec"
  by (auto simp: check_rotation_Ok_iff extends_def intro: pq_signed_verified)

lemma successor_Ok:
  assumes "tr_head t = Some h" and "head_digest h \<noteq> state_record_digest rec"
    and "successor C t h rec (state_record_digest rec) (state_record_signing_payload rec) sigs = Ok t'"
  shows "extended C t rec t' \<or> forks C t rec t'"
proof (cases "sr_prev rec = Some (head_digest h) \<and> Some (sr_seq rec) = checked_add_u64 (head_seq h) 1")
  case True
  then have "extended C t rec t'"
    using assms unfolding successor_def
    by (auto simp: extended_def bind_Ok_iff checked_add_1 head_of_def head_control_key_def
        dest: check_rotation_extends)
  then show ?thesis ..
next
  case False
  then obtain p where p: "tr_parent t = Some p" "sr_prev rec = Some (par_prev p)"
    "sr_seq rec = par_seq p" "t' = t\<lparr>tr_forked := True\<rparr>"
    "check_rotation C rec (head_xid h) (par_control p) (state_record_signing_payload rec) sigs = Ok ()"
    using assms(3) unfolding successor_def
    by (auto simp: bind_Ok_iff split: option.splits if_splits)
  then have "extends C (par_prev p) (head_xid h) (par_control p) (par_seq p) rec"
    using check_rotation_extends by metis
  then show ?thesis using assms(1,2) p by (auto simp: forks_def)
qed

lemma observe_first_Ok:
  assumes "tr_head t = None"
    and "observe_first C t rec (state_record_digest rec) (state_record_signing_payload rec) sigs elect sound
      = Ok t'"
  shows "established C sound t rec t'"
proof (cases "tr_anchor t")
  case None
  then show ?thesis
    using assms unfolding established_def classical_verified_def observe_first_def
    by (auto simp: bind_Ok_iff check_migration_Ok_iff head_of_def pq_signed_verified split: if_splits)
next
  case (Some a)
  then have "t\<lparr>tr_anchor := Some a\<rparr> = t" by (cases t) simp
  with Some show ?thesis
    using assms unfolding established_def classical_verified_def observe_first_def
    by (auto simp: bind_Ok_iff check_migration_Ok_iff head_of_def pq_signed_verified split: if_splits)
qed

lemma observe_Ok_cases:
  assumes "observe C t b sigs elect sound = Ok t'"
  obtains rec where "\<not> tr_forked t" and "state_record_from_bytes b = Ok rec" and "state_record_ok rec"
    and "b = state_record_to_bytes rec"
    and "(t' = t \<and> tr_head t \<noteq> None) \<or> established C sound t rec t' \<or> extended C t rec t' \<or> forks C t rec t'"
proof -
  from assms obtain rec where f: "\<not> tr_forked t" and r: "state_record_from_bytes b = Ok rec"
    by (auto simp: observe_def bind_Ok_iff split: if_splits)
  then have ok: "state_record_ok rec" and b: "b = state_record_to_bytes rec"
    by (auto simp: state_record_from_bytes_iff)
  have d: "sha256 b = state_record_digest rec" and m: "state_signing_payload b = state_record_signing_payload rec"
    by (simp_all add: b state_record_digest_def state_record_signing_payload_def)
  have "(t' = t \<and> tr_head t \<noteq> None) \<or> established C sound t rec t' \<or> extended C t rec t' \<or> forks C t rec t'"
  proof (cases "tr_head t")
    case None
    then have "established C sound t rec t'"
      using assms f r by (intro observe_first_Ok [of t C rec sigs elect]) (simp_all add: observe_def d m)
    then show ?thesis by blast
  next
    case (Some h)
    let ?s = "successor C t h rec (state_record_digest rec) (state_record_signing_payload rec) sigs"
    have "Ok t' = (if head_digest h = state_record_digest rec then Ok t
        else if sr_seq rec = 1 then
          (if tr_anchor t = Some (state_record_digest rec) then Ok t
           else Err (State ''chain already established''))
        else ?s)"
      unfolding assms [symmetric] observe_def using f r Some by (simp add: d m)
    then have "t' = t \<or> head_digest h \<noteq> state_record_digest rec \<and> ?s = Ok t'"
      by (simp split: if_splits)
    then consider "t' = t" | "head_digest h \<noteq> state_record_digest rec" "?s = Ok t'" by blast
    then show ?thesis
    proof cases
      case 1
      with Some show ?thesis by simp
    next
      case 2
      from successor_Ok [OF Some 2] show ?thesis by blast
    qed
  qed
  with that f r ok b show ?thesis by blast
qed

section \<open>Reachable trust\<close>

text \<open>
  A verifier starts with empty trust or with a retained anchor, and replaces its trust by the one
  an accepted record returns.
\<close>

inductive trust_step :: "crypto \<Rightarrow> trust \<Rightarrow> trust \<Rightarrow> bool" for C where
  observed: "observe C t b sigs elect sound = Ok t' \<Longrightarrow> trust_step C t t'"

inductive_cases trust_stepE: "trust_step C t t'"

inductive reachable :: "crypto \<Rightarrow> trust \<Rightarrow> bool" for C where
  fresh: "reachable C trust_new"
| anchored: "reachable C (with_anchor a)"
| stepped: "reachable C t \<Longrightarrow> trust_step C t t' \<Longrightarrow> reachable C t'"

text \<open>
  \<open>chain C r0 h\<close>: an unbroken chain of valid records leads from the first record \<open>r0\<close> to the head
  \<open>h\<close>. Each link names the digest of its predecessor, has the next sequence number and the same XID,
  and is signed by the control key of its predecessor and by its own.
\<close>

inductive chain :: "crypto \<Rightarrow> state_record \<Rightarrow> head \<Rightarrow> bool" for C r0 where
  first: "state_record_ok r0 \<Longrightarrow> sr_seq r0 = 1 \<Longrightarrow>
      pq_verified C (sr_control r0) (state_record_signing_payload r0) \<Longrightarrow> chain C r0 (head_of r0)"
| link: "chain C r0 h \<Longrightarrow> state_record_ok r \<Longrightarrow> unat (head_seq h) + 1 < 2 ^ 64 \<Longrightarrow>
      extends C (head_digest h) (head_xid h) (head_control_key h) (head_seq h + 1) r \<Longrightarrow>
      chain C r0 (head_of r)"

lemma chain_xid: "chain C r0 h \<Longrightarrow> head_xid h = sr_xid r0"
  by (induction rule: chain.induct) (simp_all add: extends_def)

lemma chain_digest: "chain C r0 h \<Longrightarrow> head_digest h = state_record_digest (head_record h)"
  by (induction rule: chain.induct) simp_all

lemma chain_ok: "chain C r0 h \<Longrightarrow> state_record_ok (head_record h)"
  by (induction rule: chain.induct) simp_all

text \<open>Where the authority of a chain comes from: the XID itself, or the retained anchor.\<close>

definition rooted :: "crypto \<Rightarrow> digest32 option \<Rightarrow> state_record \<Rightarrow> bool" where
  "rooted C anchor r0 \<longleftrightarrow>
     (case anchor of
        None \<Rightarrow> sr_xid r0 = xid_for_control_key (sr_control r0)
      | Some a \<Rightarrow> state_record_digest r0 = a \<and> classical_verified C (state_record_signing_payload r0))"

text \<open>What the trust remembers of the head's parent is what a sibling must match.\<close>

definition parent_ok :: "crypto \<Rightarrow> state_record \<Rightarrow> head \<Rightarrow> parent \<Rightarrow> bool" where
  "parent_ok C r0 h p \<longleftrightarrow>
     (\<exists>h0. chain C r0 h0 \<and> par_prev p = head_digest h0 \<and> par_control p = head_control_key h0
        \<and> par_seq p = head_seq h0 + 1 \<and> unat (head_seq h0) + 1 < 2 ^ 64
        \<and> extends C (head_digest h0) (head_xid h0) (head_control_key h0) (head_seq h0 + 1) (head_record h))"

definition trust_inv :: "crypto \<Rightarrow> trust \<Rightarrow> bool" where
  "trust_inv C t \<longleftrightarrow>
     (case tr_head t of
        None \<Rightarrow> tr_parent t = None \<and> \<not> tr_forked t
      | Some h \<Rightarrow> (\<exists>r0. chain C r0 h \<and> rooted C (tr_anchor t) r0 \<and>
          (case tr_parent t of None \<Rightarrow> head_seq h = 1 \<and> \<not> tr_forked t | Some p \<Rightarrow> parent_ok C r0 h p)))"

lemma trust_inv_init: "trust_inv C trust_new" "trust_inv C (with_anchor a)"
  by (simp_all add: trust_inv_def trust_new_def with_anchor_def)

lemma trust_inv_established:
  assumes "trust_inv C t" and "state_record_ok rec" and "established C sound t rec t'"
  shows "trust_inv C t'"
proof -
  have "tr_parent t = None" and "\<not> tr_forked t"
    using assms(1,3) by (simp_all add: trust_inv_def established_def)
  moreover have "chain C rec (head_of rec)"
    using assms(2,3) by (intro chain.first) (simp_all add: established_def)
  ultimately show ?thesis
    using assms(3) by (auto simp: established_def trust_inv_def rooted_def intro!: exI [of _ rec])
qed

lemma trust_inv_extended:
  assumes "trust_inv C t" and "state_record_ok rec" and "extended C t rec t'"
  shows "trust_inv C t'"
proof -
  from assms(3) obtain h where h: "tr_head t = Some h" "unat (head_seq h) + 1 < 2 ^ 64"
    "extends C (head_digest h) (head_xid h) (head_control_key h) (head_seq h + 1) rec"
    and t': "t' = \<lparr>tr_anchor = tr_anchor t, tr_head = Some (head_of rec),
      tr_parent = Some \<lparr>par_control = head_control_key h, par_prev = head_digest h,
        par_seq = sr_seq rec\<rparr>, tr_forked = False\<rparr>"
    by (auto simp: extended_def)
  from assms(1) h(1) obtain r0 where r0: "chain C r0 h" "rooted C (tr_anchor t) r0"
    by (auto simp: trust_inv_def)
  have "chain C r0 (head_of rec)" using r0(1) assms(2) h(2,3) by (rule chain.link)
  moreover have "sr_seq rec = head_seq h + 1" using h(3) by (simp add: extends_def)
  ultimately show ?thesis
    using r0 h by (auto simp: trust_inv_def parent_ok_def t' intro!: exI [of _ r0] exI [of _ h])
qed

lemma trust_inv_forks: "trust_inv C t \<Longrightarrow> forks C t rec t' \<Longrightarrow> trust_inv C t'"
  by (auto simp: forks_def trust_inv_def)

lemma trust_inv_step:
  assumes "trust_inv C t" and "trust_step C t t'"
  shows "trust_inv C t'"
  using assms(2)
proof (rule trust_stepE)
  fix b sigs elect sound
  assume "observe C t b sigs elect sound = Ok t'"
  then obtain rec where ok: "state_record_ok rec"
    and cases: "(t' = t \<and> tr_head t \<noteq> None) \<or> established C sound t rec t' \<or> extended C t rec t'
      \<or> forks C t rec t'"
    by (rule observe_Ok_cases)
  from cases show ?thesis
    using assms(1) trust_inv_established [OF assms(1) ok] trust_inv_extended [OF assms(1) ok]
      trust_inv_forks [OF assms(1)] by blast
qed

lemma reachable_inv: "reachable C t \<Longrightarrow> trust_inv C t"
  by (induction rule: reachable.induct) (auto intro: trust_inv_init trust_inv_step)

section \<open>Acceptance\<close>

lemma observe_encoded:
  assumes "state_record_ok rec" and "length (state_record_to_bytes rec) < 2 ^ 64"
    and "\<not> tr_forked t"
  shows "observe C t (state_record_to_bytes rec) sigs elect sound =
    (case tr_head t of
       Some h \<Rightarrow>
         if head_digest h = state_record_digest rec then Ok t
         else if sr_seq rec = 1 then
           (if tr_anchor t = Some (state_record_digest rec) then Ok t
            else Err (State ''chain already established''))
         else successor C t h rec (state_record_digest rec) (state_record_signing_payload rec) sigs
     | None \<Rightarrow> observe_first C t rec (state_record_digest rec) (state_record_signing_payload rec)
         sigs elect sound)"
proof -
  have "state_record_from_bytes (state_record_to_bytes rec) = Ok rec"
    using assms by (simp add: state_record_from_bytes_iff)
  then show ?thesis
    using assms(3)
    by (simp add: observe_def Let_def flip: state_record_digest_def state_record_signing_payload_def)
qed

lemma seq_not_1: "unat (n :: u64) + 1 < 2 ^ 64 \<Longrightarrow> 1 \<le> n \<Longrightarrow> n + 1 \<noteq> 1"
  by (auto simp: word_le_nat_alt)

lemma seq_succ_neq: "unat (n :: u64) + 1 < 2 ^ 64 \<Longrightarrow> n + 1 \<noteq> n"
  by simp

lemma rotation_accepted_aux:
  assumes ok: "state_record_ok rec" "length (state_record_to_bytes rec) < 2 ^ 64"
    and t: "\<not> tr_forked t" "tr_head t = Some h" "1 \<le> head_seq h" "unat (head_seq h) + 1 < 2 ^ 64"
    and rec: "sr_prev rec = Some (head_digest h)" "sr_seq rec = head_seq h + 1" "sr_xid rec = head_xid h"
    and sigs: "pq_signed C (head_control_key h) (state_record_signing_payload rec) (ss_pq sigs)"
      "pq_signed C (sr_control rec) (state_record_signing_payload rec) (ss_pq sigs)"
    and new: "head_digest h \<noteq> state_record_digest rec"
  shows "observe C t (state_record_to_bytes rec) sigs elect sound =
    Ok \<lparr>tr_anchor = tr_anchor t, tr_head = Some (head_of rec),
        tr_parent = Some \<lparr>par_control = head_control_key h, par_prev = head_digest h,
          par_seq = sr_seq rec\<rparr>, tr_forked = False\<rparr>"
proof -
  have "sr_seq rec \<noteq> 1" using seq_not_1 t(3,4) rec(2) by simp
  moreover have "check_rotation C rec (head_xid h) (head_control_key h)
      (state_record_signing_payload rec) sigs = Ok ()"
    using rec(3) sigs by (simp add: check_rotation_Ok_iff)
  moreover have "Some (sr_seq rec) = checked_add_u64 (head_seq h) 1"
    using t(4) rec(2) by (simp add: checked_add_1)
  ultimately show ?thesis
    using observe_encoded [OF ok t(1)] t(2) rec(1) new
    by (simp add: successor_def head_of_def head_control_key_def)
qed

lemma sibling_forks_aux:
  assumes ok: "state_record_ok rec" "length (state_record_to_bytes rec) < 2 ^ 64"
    and t: "\<not> tr_forked t" "tr_head t = Some h" "tr_parent t = Some p" "head_seq h = par_seq p"
    and seq: "par_seq p \<noteq> 1"
    and rec: "sr_prev rec = Some (par_prev p)" "sr_seq rec = par_seq p" "sr_xid rec = head_xid h"
    and sigs: "pq_signed C (par_control p) (state_record_signing_payload rec) (ss_pq sigs)"
      "pq_signed C (sr_control rec) (state_record_signing_payload rec) (ss_pq sigs)"
    and new: "head_digest h \<noteq> state_record_digest rec"
  shows "observe C t (state_record_to_bytes rec) sigs elect sound = Ok (t\<lparr>tr_forked := True\<rparr>)"
proof -
  have "Some (sr_seq rec) \<noteq> checked_add_u64 (head_seq h) 1"
    using rec(2) t(4) seq_succ_neq [of "par_seq p"] by (auto simp: checked_add_1)
  moreover have "check_rotation C rec (head_xid h) (par_control p)
      (state_record_signing_payload rec) sigs = Ok ()"
    using rec(3) sigs by (simp add: check_rotation_Ok_iff)
  ultimately show ?thesis
    using observe_encoded [OF ok t(1)] t(2,3) rec(1,2) new seq by (simp add: successor_def)
qed

section \<open>An example chain\<close>

definition demo_control :: pq_public_key where
  "demo_control = \<lparr>pqpk_alg = MlDsa65, pqpk_bytes = replicate 1952 3\<rparr>"

definition demo_first :: state_record where
  "demo_first = \<lparr>sr_xid = xid_for_control_key demo_control, sr_seq = 1, sr_prev = None,
     sr_control = demo_control, sr_operational = []\<rparr>"

definition demo_second :: "operational_key list \<Rightarrow> state_record" where
  "demo_second ops = demo_first\<lparr>sr_seq := 2, sr_prev := Some (state_record_digest demo_first),
     sr_operational := ops\<rparr>"

definition demo_op :: operational_key where
  "demo_op = \<lparr>opk_alg = ''ed25519'', opk_key = [1, 2], opk_privileges = [''auth''],
     opk_not_before = None, opk_not_after = Some 9\<rparr>"

definition demo_sigs :: "state_record \<Rightarrow> state_signatures" where
  "demo_sigs r = \<lparr>ss_pq = [\<lparr>pqsig_alg = MlDsa65,
     pqsig_bytes = toy_tag 3309 (pqpk_bytes (sr_control r)) (state_record_signing_payload r)\<rparr>],
     ss_classical = None\<rparr>"

lemma length_xid [simp]: "length (xid_for_control_key k) = 32" "length (state_record_digest r) = 32"
  by (simp_all add: xid_for_control_key_def state_record_digest_def)

lemma demo_simps [simp]:
  "sr_xid demo_first = xid_for_control_key demo_control" "sr_seq demo_first = 1"
  "sr_prev demo_first = None" "sr_control demo_first = demo_control"
  "sr_xid (demo_second ops) = xid_for_control_key demo_control" "sr_seq (demo_second ops) = 2"
  "sr_prev (demo_second ops) = Some (state_record_digest demo_first)"
  "sr_control (demo_second ops) = demo_control" "demo_second ops \<noteq> demo_first"
  by (simp_all add: demo_first_def demo_second_def)

lemma demo_ok:
  "state_record_ok demo_first" "state_record_ok (demo_second [])" "state_record_ok (demo_second [demo_op])"
  by (simp_all add: state_record_ok_def demo_first_def demo_second_def control_ok_def
      demo_control_def ML_DSA_65_PK_LEN_def operational_key_ok_def demo_op_def)

lemma demo_fits:
  "length (state_record_to_bytes demo_first) < 2 ^ 64"
  "length (state_record_to_bytes (demo_second [])) < 2 ^ 64"
  "length (state_record_to_bytes (demo_second [demo_op])) < 2 ^ 64"
  unfolding state_record_to_bytes_def
  by (intro to_bytes_fits; simp add: state_record_to_value_def map_value_def opt_entry_def
      demo_first_def demo_second_def control_to_value_def demo_control_def
      operational_key_to_value_def demo_op_def)+

lemma demo_signed:
  "pq_signed toy_crypto demo_control (state_record_signing_payload demo_first) (ss_pq (demo_sigs demo_first))"
  "pq_signed toy_crypto demo_control (state_record_signing_payload (demo_second ops))
     (ss_pq (demo_sigs (demo_second ops)))"
  by (simp_all add: pq_signed_def demo_sigs_def verify_pq_def verify_with_def demo_first_def
      demo_second_def demo_control_def toy_crypto_def)

definition demo_trust :: trust where
  "demo_trust = trust_new\<lparr>tr_head := Some (head_of demo_first)\<rparr>"

lemma demo_observe:
  "observe toy_crypto trust_new (state_record_to_bytes demo_first) (demo_sigs demo_first) None False
     = Ok demo_trust"
  using observe_encoded [OF demo_ok(1) demo_fits(1), of trust_new] demo_signed(1)
  by (simp add: trust_new_def observe_first_def demo_trust_def head_of_def)

lemma demo_reachable: "reachable toy_crypto demo_trust"
  using reachable.fresh trust_step.observed [OF demo_observe] by (rule reachable.stepped)

lemma demo_trust_simps [simp]:
  "\<not> tr_forked demo_trust" "tr_head demo_trust = Some (head_of demo_first)" "tr_anchor demo_trust = None"
  by (simp_all add: demo_trust_def trust_new_def)

definition demo_trust2 :: trust where
  "demo_trust2 = \<lparr>tr_anchor = None, tr_head = Some (head_of (demo_second [])),
     tr_parent = Some \<lparr>par_control = demo_control, par_prev = state_record_digest demo_first, par_seq = 2\<rparr>,
     tr_forked = False\<rparr>"

lemma demo_observe2:
  assumes "state_record_digest demo_first \<noteq> state_record_digest (demo_second [])"
  shows "observe toy_crypto demo_trust (state_record_to_bytes (demo_second [])) (demo_sigs (demo_second []))
    None False = Ok demo_trust2"
proof -
  show ?thesis
    using rotation_accepted_aux [OF demo_ok(2) demo_fits(2) demo_trust_simps(1,2),
        of toy_crypto "demo_sigs (demo_second [])" None False] demo_signed(2) [of "[]"] assms
    by (simp add: demo_trust2_def)
qed

section \<open>Properties\<close>

text \<open>
  C3. The chain invariant. In every trust a verifier can reach, the head is the end of an unbroken
  chain of valid records: consecutive sequence numbers from 1, one XID, hash links, and every
  rotation signed by the control key it succeeds. The chain is rooted in the XID itself (the XID
  is the hash of the first control key) or in the retained anchor, whose record carries a valid
  classical signature. The stored digest is the digest of the stored record.
\<close>

theorem reachable_head_is_chained:
  assumes "reachable C t" and "tr_head t = Some h"
  shows "head_digest h = state_record_digest (head_record h) \<and> state_record_ok (head_record h)
    \<and> (\<exists>r0. chain C r0 h \<and> rooted C (tr_anchor t) r0 \<and> head_xid h = sr_xid r0)"
proof -
  from reachable_inv [OF assms(1)] assms(2) obtain r0 where "chain C r0 h" "rooted C (tr_anchor t) r0"
    by (auto simp: trust_inv_def)
  then show ?thesis using chain_digest chain_ok chain_xid by blast
qed

theorem reachable_head_is_chained_witness:
  "\<exists>r0. chain toy_crypto r0 (head_of demo_first) \<and> rooted toy_crypto None r0"
  using reachable_head_is_chained [OF demo_reachable, of "head_of demo_first"]
  by (auto simp: demo_trust_def trust_new_def)

text \<open>
  Fork detection is complete for siblings of the head: once a verifier has accepted a successor
  of \<open>h\<close>, a second, different successor of \<open>h\<close> that carries the required signatures sets the fork flag
  (unless the two records have the same digest).
\<close>

lemma second_successor_is_a_fork:
  assumes "reachable C t" and "tr_head t = Some h"
    and first: "observe C t (state_record_to_bytes r1) sigs1 elect1 sound1 = Ok t1"
      "tr_head t1 = Some (head_of r1)" "tr_head t1 \<noteq> tr_head t"
    and "state_record_ok r2" and "length (state_record_to_bytes r2) < 2 ^ 64"
    and r2: "sr_prev r2 = Some (head_digest h)" "sr_seq r2 = sr_seq r1" "sr_xid r2 = head_xid h"
    and "pq_signed C (head_control_key h) (state_record_signing_payload r2) (ss_pq sigs2)"
    and "pq_signed C (sr_control r2) (state_record_signing_payload r2) (ss_pq sigs2)"
  shows "observe C t1 (state_record_to_bytes r2) sigs2 elect2 sound2 = Ok (t1\<lparr>tr_forked := True\<rparr>)
    \<or> state_record_digest r1 = state_record_digest r2"
proof -
  from first(1) obtain rec where rec: "state_record_ok rec" "state_record_to_bytes r1 = state_record_to_bytes rec"
    and "(t1 = t \<and> tr_head t \<noteq> None) \<or> established C sound1 t rec t1 \<or> extended C t rec t1 \<or> forks C t rec t1"
    by (rule observe_Ok_cases)
  with first(3) assms(2) have "extended C t rec t1" by (auto simp: established_def forks_def)
  with first(2) assms(2) have t1: "tr_head t1 = Some (head_of r1)" "\<not> tr_forked t1"
      "tr_parent t1 = Some \<lparr>par_control = head_control_key h, par_prev = head_digest h, par_seq = sr_seq rec\<rparr>"
    and ext: "extends C (head_digest h) (head_xid h) (head_control_key h) (head_seq h + 1) rec"
      "unat (head_seq h) + 1 < 2 ^ 64" and eq: "head_of rec = head_of r1"
    by (auto simp: extended_def)
  from eq have "rec = r1" by (metis head_of_simps(2))
  moreover have "1 \<le> head_seq h"
    using reachable_inv [OF assms(1)] assms(2) chain_ok
    by (auto simp: trust_inv_def state_record_ok_def head_seq_def)
  ultimately have "sr_seq r1 \<noteq> 1" "sr_xid r1 = head_xid h"
    using ext seq_not_1 by (simp_all add: extends_def)
  then show ?thesis
    using sibling_forks_aux [OF assms(6,7) t1(2,1,3), of C sigs2 elect2 sound2] r2 assms(11,12) \<open>rec = r1\<close>
    by auto
qed

lemma second_successor_is_a_fork_witness:
  "observe toy_crypto demo_trust2 (state_record_to_bytes (demo_second [demo_op]))
        (demo_sigs (demo_second [demo_op])) None False = Ok (demo_trust2\<lparr>tr_forked := True\<rparr>)
    \<or> state_record_digest (demo_second []) = state_record_digest (demo_second [demo_op])
    \<or> state_record_digest demo_first = state_record_digest (demo_second [])"
proof (cases "state_record_digest demo_first = state_record_digest (demo_second [])")
  case False
  have "observe toy_crypto demo_trust2 (state_record_to_bytes (demo_second [demo_op]))
        (demo_sigs (demo_second [demo_op])) None False = Ok (demo_trust2\<lparr>tr_forked := True\<rparr>)
    \<or> state_record_digest (demo_second []) = state_record_digest (demo_second [demo_op])"
    by (rule second_successor_is_a_fork
        [OF demo_reachable demo_trust_simps(2) demo_observe2 [OF False] _ _ demo_ok(3) demo_fits(3)])
      (use demo_signed(2) [of "[demo_op]"] False in \<open>auto simp: demo_trust2_def\<close>)
  then show ?thesis by blast
qed simp

text \<open>
  Duplicity is final: after a fork every record is refused, no head is the authority, and no
  digest resolves.
\<close>

lemma fork_is_final:
  assumes "tr_forked t"
  shows "observe C t b sigs elect sound = Err (State ''duplicity recorded for this xid'')
    \<and> authority t = None \<and> resolve t d = None"
  using assms by (simp add: observe_def authority_def resolve_def)

lemma fork_is_final_witness:
  "resolve (demo_trust\<lparr>tr_forked := True\<rparr>) (state_record_digest demo_first) = None"
  using fork_is_final [of "demo_trust\<lparr>tr_forked := True\<rparr>"] by simp

text \<open>
  Progress of the chain is monotone: a step from a trust with a head keeps the anchor and the
  XID, never lowers the sequence number, and moves the head only to a record that names the old
  head's digest and was signed by the old head's control key.
\<close>

lemma head_moves_forward:
  assumes "trust_step C t t'" and "tr_head t = Some h"
  shows "\<exists>h'. tr_head t' = Some h' \<and> tr_anchor t' = tr_anchor t \<and> head_xid h' = head_xid h
    \<and> (h' = h \<or> unat (head_seq h') = unat (head_seq h) + 1
        \<and> sr_prev (head_record h') = Some (head_digest h)
        \<and> pq_verified C (head_control_key h) (state_record_signing_payload (head_record h')))"
  using assms(1)
proof (rule trust_stepE)
  fix b sigs elect sound
  assume "observe C t b sigs elect sound = Ok t'"
  then obtain rec where "(t' = t \<and> tr_head t \<noteq> None) \<or> established C sound t rec t' \<or> extended C t rec t'
      \<or> forks C t rec t'"
    by (rule observe_Ok_cases)
  then show ?thesis
    using assms(2) by (auto simp: established_def extended_def forks_def extends_def unat_add_fits)
qed

lemma head_moves_forward_witness:
  "\<exists>t' h'. trust_step toy_crypto demo_trust t' \<and> tr_head t' = Some h'
    \<and> head_xid h' = xid_for_control_key demo_control"
proof -
  have "observe toy_crypto demo_trust (state_record_to_bytes demo_first) (demo_sigs demo_first) None False
      = Ok demo_trust"
    by (subst observe_encoded [OF demo_ok(1) demo_fits(1)])
      (simp_all add: demo_trust_def trust_new_def)
  then have step: "trust_step toy_crypto demo_trust demo_trust" by (rule trust_step.observed)
  have "tr_head demo_trust = Some (head_of demo_first)" by (simp add: demo_trust_def)
  with head_moves_forward [OF step this] step show ?thesis by (auto simp: demo_first_def)
qed

text \<open>
  No downgrade to classical trust: a verifier that no longer considers classical signatures
  sound and retains no anchor accepts a first record only if the XID is the hash of the record's
  own control key and that key signed the record.
\<close>

lemma unsound_classical_needs_self_certifying_xid:
  assumes "observe C t b sigs elect False = Ok t'" and "tr_head t = None" and "tr_anchor t = None"
  shows "\<exists>r. tr_head t' = Some (head_of r) \<and> tr_anchor t' = None \<and> state_record_to_bytes r = b
    \<and> sr_xid r = xid_for_control_key (sr_control r)
    \<and> pq_verified C (sr_control r) (state_record_signing_payload r)"
proof -
  from assms(1) obtain rec where "b = state_record_to_bytes rec"
    and "(t' = t \<and> tr_head t \<noteq> None) \<or> established C False t rec t' \<or> extended C t rec t' \<or> forks C t rec t'"
    by (rule observe_Ok_cases)
  then show ?thesis
    using assms(2,3) by (auto simp: established_def extended_def forks_def)
qed

lemma unsound_classical_needs_self_certifying_xid_witness:
  "\<exists>r. tr_head demo_trust = Some (head_of r) \<and> sr_xid r = xid_for_control_key (sr_control r)"
  using unsound_classical_needs_self_certifying_xid [OF demo_observe]
  by (auto simp: trust_new_def)

text \<open>
  C34. An honest rotation goes through: a valid record with the next sequence number, the head's
  digest and the same XID, signed by the current control key and by the new one, becomes the head
  of any reachable trust that is not forked (unless its digest equals the head's).
\<close>

theorem rotation_accepted:
  assumes "reachable C t" and "\<not> tr_forked t" and "tr_head t = Some h"
    and "state_record_ok rec" and "length (state_record_to_bytes rec) < 2 ^ 64"
    and "sr_prev rec = Some (head_digest h)" and "sr_xid rec = head_xid h"
    and "unat (sr_seq rec) = unat (head_seq h) + 1"
    and "pq_signed C (head_control_key h) (state_record_signing_payload rec) (ss_pq sigs)"
    and "pq_signed C (sr_control rec) (state_record_signing_payload rec) (ss_pq sigs)"
  shows "(\<exists>t'. observe C t (state_record_to_bytes rec) sigs elect sound = Ok t'
      \<and> authority t' = Some (head_of rec)) \<or> head_digest h = state_record_digest rec"
proof -
  have fits: "unat (head_seq h) + 1 < 2 ^ 64"
    using assms(8) unsigned_less [of "sr_seq rec", where ?'a = nat] by simp
  then have "sr_seq rec = head_seq h + 1"
    using assms(8) unat_add_fits [of "head_seq h" 1] by (simp add: word_unat_eq_iff)
  moreover have "1 \<le> head_seq h"
    using reachable_inv [OF assms(1)] assms(3) chain_ok
    by (auto simp: trust_inv_def state_record_ok_def head_seq_def)
  ultimately show ?thesis
    using rotation_accepted_aux [OF assms(4,5,2,3) _ fits assms(6) _ assms(7,9,10), of elect sound]
    by (cases "head_digest h = state_record_digest rec") (simp_all add: authority_unforked)
qed

theorem rotation_accepted_witness:
  "(\<exists>t'. observe toy_crypto demo_trust (state_record_to_bytes (demo_second [demo_op]))
        (demo_sigs (demo_second [demo_op])) None False = Ok t'
      \<and> authority t' = Some (head_of (demo_second [demo_op])))
    \<or> state_record_digest demo_first = state_record_digest (demo_second [demo_op])"
proof -
  have "(\<exists>t'. observe toy_crypto demo_trust (state_record_to_bytes (demo_second [demo_op]))
        (demo_sigs (demo_second [demo_op])) None False = Ok t'
      \<and> authority t' = Some (head_of (demo_second [demo_op])))
    \<or> head_digest (head_of demo_first) = state_record_digest (demo_second [demo_op])"
    by (rule rotation_accepted [OF demo_reachable _ _ demo_ok(3) demo_fits(3)])
      (use demo_signed(2) [of "[demo_op]"] in \<open>simp_all\<close>)
  then show ?thesis by simp
qed

end
