(* ===== verification/Dcbor.thy ===== *)
theory Dcbor
  imports Auth_Cbor_Laws
begin

text \<open>
  The part of the vendored \<open>dcbor\<close> crate that \<open>identikey-share\<close> relies on: CBOR values, the sorted
  map, the deterministic encoder and the decoder. Unicode normalisation, which another crate does, and the conversions of
  floating-point numbers (\<open>float.rs\<close>, \<open>exact.rs\<close>), which no caller uses, are fields of a record that the codec takes.
\<close>

section \<open>Values\<close>

datatype dcbor_error =
    Underrun
  | UnsupportedHeaderValue u8
  | NonCanonicalNumeric
  | InvalidSimpleValue
  | InvalidUtf8
  | NonCanonicalString
  | UnusedData nat
  | MisorderedMapKey
  | DuplicateMapKey
  | MissingMapKey
  | WrongType
  | OutOfRange

text \<open>\<open>Simple::Float\<close> holds the bits of the number. A map is kept sorted by its encoded keys.\<close>

datatype simple = SFalse | STrue | SNull | SFloat u64

datatype dcbor =
    DUnsigned u64
  | DNegative u64
  | DBytes bytes
  | DText string
  | DArray "dcbor list"
  | DMap "(dcbor \<times> dcbor) list"
  | DTagged u64 dcbor
  | DSimple simple

text \<open>The result of the field that reads a floating-point item: numbers that an integer represents exactly are integers.\<close>

datatype float_value = FUnsigned u64 | FNegative u64 | FFloat u64

primrec float_cbor :: "float_value \<Rightarrow> dcbor" where
  "float_cbor (FUnsigned n) = DUnsigned n"
| "float_cbor (FNegative n) = DNegative n"
| "float_cbor (FFloat v) = DSimple (SFloat v)"

record dcbor_ext =
  nfc :: "string \<Rightarrow> string"
  is_nfc :: "string \<Rightarrow> bool"
  float_data :: "u64 \<Rightarrow> bytes"
  float_item :: "nat \<Rightarrow> u64 \<Rightarrow> (dcbor_error, float_value) result"

section \<open>Encoding\<close>

definition type_bits :: "u8 \<Rightarrow> u8" where
  "type_bits major = push_bit 5 major"

text \<open>\<open>encode_varint\<close> of \<open>u64\<close>, which tries the narrower types first.\<close>

definition encode_varint :: "u8 \<Rightarrow> u64 \<Rightarrow> bytes" where
  "encode_varint major n =
    (if n \<le> 0xFFFFFFFF then
       if n \<le> 0xFFFF then
         if n \<le> 0xFF then
           if n \<le> 23 then [ucast n OR type_bits major]
           else [0x18 OR type_bits major, ucast n]
         else (0x19 OR type_bits major) # to_be_bytes 2 n
       else (0x1a OR type_bits major) # to_be_bytes 4 n
     else (0x1b OR type_bits major) # to_be_bytes 8 n)"

fun simple_data :: "dcbor_ext \<Rightarrow> simple \<Rightarrow> bytes" where
  "simple_data E SFalse = encode_varint 7 20"
| "simple_data E STrue = encode_varint 7 21"
| "simple_data E SNull = encode_varint 7 22"
| "simple_data E (SFloat v) = float_data E v"

fun to_cbor_data :: "dcbor_ext \<Rightarrow> dcbor \<Rightarrow> bytes" where
  "to_cbor_data E (DUnsigned n) = encode_varint 0 n"
| "to_cbor_data E (DNegative n) = encode_varint 1 n"
| "to_cbor_data E (DBytes b) = encode_varint 2 (word_of_nat (length b)) @ b"
| "to_cbor_data E (DText s) =
     (let t = nfc E s in encode_varint 3 (word_of_nat (length t)) @ str_bytes t)"
| "to_cbor_data E (DArray xs) =
     encode_varint 4 (word_of_nat (length xs)) @ concat (map (to_cbor_data E) xs)"
| "to_cbor_data E (DMap m) =
     encode_varint 5 (word_of_nat (length m)) @
     concat (map (\<lambda>(k, v). to_cbor_data E k @ to_cbor_data E v) m)"
| "to_cbor_data E (DTagged t x) = encode_varint 6 t @ to_cbor_data E x"
| "to_cbor_data E (DSimple s) = simple_data E s"

section \<open>Maps\<close>

type_synonym dmap = "(dcbor \<times> dcbor) list"

fun map_insert :: "dcbor_ext \<Rightarrow> dcbor \<Rightarrow> dcbor \<Rightarrow> dmap \<Rightarrow> dmap" where
  "map_insert E k v [] = [(k, v)]"
| "map_insert E k v ((k', v') # m) =
    (if to_cbor_data E k < to_cbor_data E k' then (k, v) # (k', v') # m
     else if to_cbor_data E k = to_cbor_data E k' then (k, v) # m
     else (k', v') # map_insert E k v m)"

definition insert_next ::
    "dcbor_ext \<Rightarrow> dcbor \<Rightarrow> dcbor \<Rightarrow> dmap \<Rightarrow> (dcbor_error, dmap) result" where
  "insert_next E k v m =
    (if m = [] then Ok (map_insert E k v m)
     else if to_cbor_data E k \<in> to_cbor_data E ` fst ` set m then Err DuplicateMapKey
     else if to_cbor_data E (fst (last m)) \<ge> to_cbor_data E k then Err MisorderedMapKey
     else Ok (map_insert E k v m))"

text \<open>A map that starts empty and receives one \<open>insert\<close> per text key, in this order.\<close>

definition insert_all :: "dcbor_ext \<Rightarrow> (string \<times> dcbor) list \<Rightarrow> dmap" where
  "insert_all E kvs = fold (\<lambda>(k, v). map_insert E (DText k) v) kvs []"

text \<open>The lookup of \<open>get\<close> and \<open>extract\<close>, before the conversion of the value.\<close>

definition map_lookup :: "dcbor_ext \<Rightarrow> dmap \<Rightarrow> dcbor \<Rightarrow> dcbor option" where
  "map_lookup E m k = map_of (map (\<lambda>(k', v). (to_cbor_data E k', v)) m) (to_cbor_data E k)"

definition map_get ::
    "dcbor_ext \<Rightarrow> (dcbor \<Rightarrow> (dcbor_error, 'a) result) \<Rightarrow> dmap \<Rightarrow> string \<Rightarrow> 'a option" where
  "map_get E conv m k =
    (case map_lookup E m (DText k) of
       Some v \<Rightarrow> (case conv v of Ok x \<Rightarrow> Some x | Err _ \<Rightarrow> None)
     | None \<Rightarrow> None)"

definition map_extract ::
    "dcbor_ext \<Rightarrow> (dcbor \<Rightarrow> (dcbor_error, 'a) result) \<Rightarrow> dmap \<Rightarrow> string \<Rightarrow> (dcbor_error, 'a) result" where
  "map_extract E conv m k = ok_or (map_get E conv m k) MissingMapKey"

text \<open>Conversions. A negative integer \<open>-1 - n\<close> is cast to \<open>u64\<close> with \<open>as\<close>, which wraps.\<close>

fun try_text :: "dcbor \<Rightarrow> (dcbor_error, string) result" where
  "try_text (DText s) = Ok s"
| "try_text _ = Err WrongType"

fun try_byte_string :: "dcbor \<Rightarrow> (dcbor_error, bytes) result" where
  "try_byte_string (DBytes b) = Ok b"
| "try_byte_string _ = Err WrongType"

fun try_u64 :: "dcbor \<Rightarrow> (dcbor_error, u64) result" where
  "try_u64 (DUnsigned n) = Ok n"
| "try_u64 (DNegative n) = Ok (- 1 - n)"
| "try_u64 _ = Err WrongType"

fun try_into_array :: "dcbor \<Rightarrow> (dcbor_error, dcbor list) result" where
  "try_into_array (DArray xs) = Ok xs"
| "try_into_array _ = Err WrongType"

fun try_into_map :: "dcbor \<Rightarrow> (dcbor_error, dmap) result" where
  "try_into_map (DMap m) = Ok m"
| "try_into_map _ = Err WrongType"

section \<open>Decoding\<close>

definition parse_header :: "u8 \<Rightarrow> u8 \<times> u8" where
  "parse_header header = (drop_bit 5 header, header AND 31)"

definition parse_header_varint :: "bytes \<Rightarrow> (dcbor_error, u8 \<times> u64 \<times> nat) result" where
  "parse_header_varint data =
    (case data of
       [] \<Rightarrow> Err Underrun
     | header # rest \<Rightarrow>
         (let (major, value) = parse_header header in
          if value \<le> 23 then Ok (major, ucast value, 1)
          else if value = 24 then
            (if length rest < 1 then Err Underrun
             else let val = ucast (hd rest) in
               if val < 24 then Err NonCanonicalNumeric else Ok (major, val, 2))
          else if value = 25 then
            (if length rest < 2 then Err Underrun
             else let val = from_be_bytes (take 2 rest) in
               if val \<le> 0xFF \<and> header \<noteq> 0xf9 then Err NonCanonicalNumeric else Ok (major, val, 3))
          else if value = 26 then
            (if length rest < 4 then Err Underrun
             else let val = from_be_bytes (take 4 rest) in
               if val \<le> 0xFFFF \<and> header \<noteq> 0xfa then Err NonCanonicalNumeric else Ok (major, val, 5))
          else if value = 27 then
            (if length rest < 8 then Err Underrun
             else let val = from_be_bytes (take 8 rest) in
               if val \<le> 0xFFFFFFFF \<and> header \<noteq> 0xfb then Err NonCanonicalNumeric else Ok (major, val, 9))
          else Err (UnsupportedHeaderValue value)))"

definition parse_bytes :: "bytes \<Rightarrow> nat \<Rightarrow> (dcbor_error, bytes) result" where
  "parse_bytes data len = (if length data < len then Err Underrun else Ok (take len data))"

text \<open>A decoder returns the value and the number of bytes it has read.\<close>

function (sequential)
      decode_internal :: "dcbor_ext \<Rightarrow> bytes \<Rightarrow> (dcbor_error, dcbor \<times> nat) result"
  and decode_items :: "dcbor_ext \<Rightarrow> nat \<Rightarrow> bytes \<Rightarrow> (dcbor_error, dcbor list \<times> nat) result"
  and decode_pairs :: "dcbor_ext \<Rightarrow> nat \<Rightarrow> dmap \<Rightarrow> bytes \<Rightarrow> (dcbor_error, dmap \<times> nat) result"
where
  "decode_internal E data =
    bind (parse_header_varint data) (\<lambda>(major, val, hl).
      if major = 0 then Ok (DUnsigned val, hl)
      else if major = 1 then Ok (DNegative val, hl)
      else if major = 2 then
        bind (parse_bytes (drop hl data) (unat val)) (\<lambda>b. Ok (DBytes b, hl + unat val))
      else if major = 3 then
        bind (parse_bytes (drop hl data) (unat val)) (\<lambda>b.
        bind (ok_or (from_utf8 b) InvalidUtf8) (\<lambda>s.
        if \<not> is_nfc E s then Err NonCanonicalString else Ok (DText s, hl + unat val)))
      else if major = 4 then
        bind (decode_items E (unat val) (drop hl data)) (\<lambda>(xs, len). Ok (DArray xs, hl + len))
      else if major = 5 then
        bind (decode_pairs E (unat val) [] (drop hl data)) (\<lambda>(m, len). Ok (DMap m, hl + len))
      else if major = 6 then
        bind (decode_internal E (drop hl data)) (\<lambda>(x, len). Ok (DTagged val x, hl + len))
      else if hl = 3 \<or> hl = 5 \<or> hl = 9 then bind (float_item E hl val) (\<lambda>x. Ok (float_cbor x, hl))
      else if val = 20 then Ok (DSimple SFalse, hl)
      else if val = 21 then Ok (DSimple STrue, hl)
      else if val = 22 then Ok (DSimple SNull, hl)
      else Err InvalidSimpleValue)"
| "decode_items E 0 data = Ok ([], 0)"
| "decode_items E (Suc n) data =
    bind (decode_internal E data) (\<lambda>(x, len).
    bind (decode_items E n (drop len data)) (\<lambda>(xs, len'). Ok (x # xs, len + len')))"
| "decode_pairs E 0 m data = Ok (m, 0)"
| "decode_pairs E (Suc n) m data =
    bind (decode_internal E data) (\<lambda>(k, klen).
    bind (decode_internal E (drop klen data)) (\<lambda>(v, vlen).
    bind (insert_next E k v m) (\<lambda>m'.
    bind (decode_pairs E n m' (drop (klen + vlen) data)) (\<lambda>(m'', len). Ok (m'', klen + vlen + len)))))"
  by pat_completeness auto

lemma parse_header_varint_pos: "parse_header_varint data = Ok (major, val, hl) \<Longrightarrow> 0 < hl \<and> data \<noteq> []"
  by (auto simp: parse_header_varint_def Let_def split: list.splits prod.splits if_splits)

lemma decode_internal_pos:
  assumes "decode_internal_decode_items_decode_pairs_dom (Inl (E, data))"
    and "decode_internal E data = Ok (x, len)"
  shows "0 < len \<and> data \<noteq> []"
proof -
  from assms(2) obtain major val hl where h: "parse_header_varint data = Ok (major, val, hl)"
    by (auto simp: decode_internal.psimps [OF assms(1)] bind_Ok_iff)
  with assms(2) have "hl \<le> len"
    by (simp add: decode_internal.psimps [OF assms(1)])
       (auto simp: bind_Ok_iff split: if_splits)
  with parse_header_varint_pos [OF h] show ?thesis by simp
qed

termination decode_internal
proof (relation "measure (\<lambda>x. case x of Inl (E, data) \<Rightarrow> 2 * length data
    | Inr (Inl (E, n, data)) \<Rightarrow> 2 * length data + 1
    | Inr (Inr (E, n, m, data)) \<Rightarrow> 2 * length data + 1)")
qed (auto dest!: parse_header_varint_pos decode_internal_pos
    simp: length_greater_0_conv [symmetric] simp del: length_greater_0_conv)

declare decode_internal.simps [simp del]

definition try_from_data :: "dcbor_ext \<Rightarrow> bytes \<Rightarrow> (dcbor_error, dcbor) result" where
  "try_from_data E data =
    bind (decode_internal E data) (\<lambda>(x, len).
      if length data - len > 0 then Err (UnusedData (length data - len)) else Ok x)"

end
