(* ===== verification/Dcbor_Laws.thy ===== *)
theory Dcbor_Laws
  imports Dcbor
begin

text \<open>
  Correctness of the \<open>dcbor\<close> subset: the encoder writes the same heads as \<open>cbor.rs\<close>, the decoder
  inverts the encoder on well-formed values, and map lookup after insertion.
\<close>

section \<open>Heads\<close>

lemma encode_varint_eq: "encode_varint m n = encode_head m n"
  by (auto simp: encode_varint_def encode_head_def type_bits_def Let_def or.commute
      word_le_nat_alt word_less_nat_alt)

lemma parse_arg:
  assumes h: "parse_header b = (m, head_info n)"
  shows "parse_header_varint (b # head_arg n @ rest) = Ok (m, n, Suc (length (head_arg n)))"
proof -
  consider "n < 24" | "24 \<le> n" "n \<le> 0xFF" | "0xFF < n" "n \<le> 0xFFFF" | "0xFFFF < n" "n \<le> 0xFFFFFFFF"
    | "0xFFFFFFFF < n" by fastforce
  then show ?thesis
  proof cases
    case 1
    then have "n \<le> 0xFF" and "ucast n \<le> (23 :: u8)"
      by (auto simp: word_le_nat_alt word_less_nat_alt unat_ucast_u8)
    with 1 show ?thesis
      by (simp add: parse_header_varint_def h head_info_def head_arg_def)
  next
    case 2
    then have "head_info n = 24" using head_info_iff(2) [of n] by simp
    with 2 show ?thesis
      by (simp add: parse_header_varint_def h head_arg_simps not_less)
  next
    case 3
    then have "head_info n = 25" using head_info_iff(3) [of n] by simp
    with 3 unat_u64_le(2) [of n] show ?thesis
      by (simp add: parse_header_varint_def h head_arg_simps not_le from_to_be_bytes)
  next
    case 4
    then have "head_info n = 26" using head_info_iff(4) [of n] by simp
    with 4 unat_u64_le(3) [of n] show ?thesis
      by (simp add: parse_header_varint_def h head_arg_simps not_le from_to_be_bytes)
  next
    case 5
    then have "head_info n = 27" using head_info_iff(5) [of n] by simp
    with 5 unat_u64_le(4) [of n] show ?thesis
      by (simp add: parse_header_varint_def h head_arg_simps not_le from_to_be_bytes)
  qed
qed

lemma parse_header_encode_varint:
  "m < 8 \<Longrightarrow> parse_header_varint (encode_varint m n @ rest) = Ok (m, n, length (encode_varint m n))"
proof -
  assume m: "m < 8"
  have i: "head_info n < 32" using head_info_less [of n] by (rule order_less_trans) simp
  have "parse_header (push_bit 5 m OR head_info n) = (m, head_info n)"
    by (simp only: parse_header_def head_byte [OF m i])
  from parse_arg [OF this] show ?thesis by (simp add: encode_varint_eq encode_head_split)
qed

text \<open>The decoder on each kind of head.\<close>

lemma decode_head:
  "decode_internal E (encode_varint 0 n @ r) = Ok (DUnsigned n, length (encode_varint 0 n))"
  "decode_internal E (encode_varint 1 n @ r) = Ok (DNegative n, length (encode_varint 1 n))"
  "decode_internal E (encode_varint 2 n @ r) =
     bind (parse_bytes r (unat n)) (\<lambda>b. Ok (DBytes b, length (encode_varint 2 n) + unat n))"
  "decode_internal E (encode_varint 3 n @ r) =
     bind (parse_bytes r (unat n)) (\<lambda>b. bind (ok_or (from_utf8 b) InvalidUtf8) (\<lambda>s.
       if \<not> is_nfc E s then Err NonCanonicalString else Ok (DText s, length (encode_varint 3 n) + unat n)))"
  "decode_internal E (encode_varint 4 n @ r) =
     bind (decode_items E (unat n) r) (\<lambda>(xs, len). Ok (DArray xs, length (encode_varint 4 n) + len))"
  "decode_internal E (encode_varint 5 n @ r) =
     bind (decode_pairs E (unat n) [] r) (\<lambda>(m, len). Ok (DMap m, length (encode_varint 5 n) + len))"
  "decode_internal E (encode_varint 6 n @ r) =
     bind (decode_internal E r) (\<lambda>(x, len). Ok (DTagged n x, length (encode_varint 6 n) + len))"
  by (subst decode_internal.simps, simp add: parse_header_encode_varint)+

lemma decode_simple:
  "decode_internal E (encode_varint 7 20 @ r) = Ok (DSimple SFalse, 1)"
  "decode_internal E (encode_varint 7 21 @ r) = Ok (DSimple STrue, 1)"
  "decode_internal E (encode_varint 7 22 @ r) = Ok (DSimple SNull, 1)"
  by (subst decode_internal.simps, simp add: parse_header_encode_varint, simp add: encode_varint_def)+

section \<open>Well-formed values\<close>

text \<open>
  Text is normalised UTF-8, lengths fit in the argument of a head, map keys are strictly sorted
  by their encodings and there is no floating-point number.
\<close>

definition keys_sorted :: "dcbor_ext \<Rightarrow> dmap \<Rightarrow> bool" where
  "keys_sorted E m \<longleftrightarrow> sorted_wrt (<) (map (\<lambda>(k, v). to_cbor_data E k) m)"

definition text_ok :: "dcbor_ext \<Rightarrow> string \<Rightarrow> bool" where
  "text_ok E s \<longleftrightarrow> valid_text s \<and> nfc E s = s \<and> is_nfc E s \<and> length s < 2 ^ 64"

fun wf_dcbor :: "dcbor_ext \<Rightarrow> dcbor \<Rightarrow> bool" where
  "wf_dcbor E (DUnsigned n) = True"
| "wf_dcbor E (DNegative n) = True"
| "wf_dcbor E (DBytes b) = (length b < 2 ^ 64)"
| "wf_dcbor E (DText s) = text_ok E s"
| "wf_dcbor E (DArray xs) = (length xs < 2 ^ 64 \<and> (\<forall>x \<in> set xs. wf_dcbor E x))"
| "wf_dcbor E (DMap m) = (length m < 2 ^ 64 \<and> keys_sorted E m \<and>
     (\<forall>p \<in> set m. wf_dcbor E (fst p) \<and> wf_dcbor E (snd p)))"
| "wf_dcbor E (DTagged t x) = wf_dcbor E x"
| "wf_dcbor E (DSimple (SFloat v)) = False"
| "wf_dcbor E (DSimple s) = True"

definition decodes :: "dcbor_ext \<Rightarrow> dcbor \<Rightarrow> bool" where
  "decodes E c \<longleftrightarrow> (\<forall>rest. decode_internal E (to_cbor_data E c @ rest) = Ok (c, length (to_cbor_data E c)))"

lemma decodesD:
  "decodes E c \<Longrightarrow> decode_internal E (to_cbor_data E c @ rest) = Ok (c, length (to_cbor_data E c))"
  by (simp add: decodes_def)

lemma decode_items_encoded:
  assumes "\<And>x. x \<in> set xs \<Longrightarrow> decodes E x"
  shows "decode_items E (length xs) (concat (map (to_cbor_data E) xs) @ rest) =
    Ok (xs, length (concat (map (to_cbor_data E) xs)))"
  using assms by (induction xs) (simp_all add: decodesD)

lemma map_insert_last:
  "(\<And>k' v'. (k', v') \<in> set m \<Longrightarrow> to_cbor_data E k' < to_cbor_data E k) \<Longrightarrow> map_insert E k v m = m @ [(k, v)]"
proof (induction m)
  case (Cons p m)
  then show ?case using Cons.prems [of "fst p" "snd p"] by (cases p) (auto simp: less_imp_not_less)
qed simp

lemma insert_next_sorted:
  assumes "keys_sorted E (m @ [(k, v)])"
  shows "insert_next E k v m = Ok (m @ [(k, v)])"
proof -
  have lt: "to_cbor_data E k' < to_cbor_data E k" if "(k', v') \<in> set m" for k' v'
    using assms that by (force simp: keys_sorted_def sorted_wrt_append)
  have "map_insert E k v m = m @ [(k, v)]" by (rule map_insert_last) (rule lt)
  moreover have "to_cbor_data E k \<notin> to_cbor_data E ` fst ` set m" using lt by force
  moreover have "to_cbor_data E (fst (last m)) < to_cbor_data E k" if "m \<noteq> []"
    using lt [of "fst (last m)" "snd (last m)"] that by simp
  ultimately show ?thesis by (auto simp: insert_next_def not_le)
qed

lemma decode_pairs_encoded:
  assumes "\<And>p. p \<in> set m \<Longrightarrow> decodes E (fst p) \<and> decodes E (snd p)" and "keys_sorted E (acc @ m)"
  shows "decode_pairs E (length m) acc
      (concat (map (\<lambda>(k, v). to_cbor_data E k @ to_cbor_data E v) m) @ rest) =
    Ok (acc @ m, length (concat (map (\<lambda>(k, v). to_cbor_data E k @ to_cbor_data E v) m)))"
  using assms
proof (induction m arbitrary: acc)
  case (Cons p m)
  obtain k v where p: "p = (k, v)" by (cases p)
  have kv: "decodes E k" "decodes E v" using Cons.prems(1) [of p] by (simp_all add: p)
  have "keys_sorted E (acc @ [(k, v)])"
    using Cons.prems(2) by (simp add: p keys_sorted_def sorted_wrt_append)
  note ins = insert_next_sorted [OF this]
  have "decode_pairs E (length m) (acc @ [(k, v)])
      (concat (map (\<lambda>(k, v). to_cbor_data E k @ to_cbor_data E v) m) @ rest) =
    Ok (acc @ p # m, length (concat (map (\<lambda>(k, v). to_cbor_data E k @ to_cbor_data E v) m)))"
    using Cons.IH [of "acc @ [(k, v)]"] Cons.prems by (simp add: p)
  then show ?case by (simp add: p decodesD kv ins)
qed simp

lemma decode_wf: "wf_dcbor E c \<Longrightarrow> decodes E c"
proof (induction c)
  case (DArray xs)
  then have "decode_items E (length xs) (concat (map (to_cbor_data E) xs) @ rest) =
      Ok (xs, length (concat (map (to_cbor_data E) xs)))" for rest
    by (intro decode_items_encoded) auto
  with DArray.prems show ?case by (simp add: decodes_def decode_head unat_of_length)
next
  case (DMap m)
  have "decode_pairs E (length m) [] (concat (map (\<lambda>(k, v). to_cbor_data E k @ to_cbor_data E v) m) @ rest) =
      Ok ([] @ m, length (concat (map (\<lambda>(k, v). to_cbor_data E k @ to_cbor_data E v) m)))" for rest
  proof (intro decode_pairs_encoded)
    fix p assume "p \<in> set m"
    with DMap show "decodes E (fst p) \<and> decodes E (snd p)" by (cases p) fastforce
  qed (use DMap.prems in simp)
  with DMap.prems show ?case by (simp add: decodes_def decode_head unat_of_length)
next
  case (DSimple s)
  then show ?case by (cases s) (simp_all add: decodes_def decode_simple, simp_all add: encode_varint_def)
qed (simp_all add: decodes_def decode_head decode_head [of _ _ "[]", simplified] parse_bytes_def unat_of_length text_ok_def)

lemma try_from_data_encoded: "wf_dcbor E c \<Longrightarrow> try_from_data E (to_cbor_data E c) = Ok c"
  using decodesD [OF decode_wf, of E c "[]"] by (simp add: try_from_data_def)

lemma to_cbor_data_inj:
  assumes "wf_dcbor E a" and "wf_dcbor E b" and "to_cbor_data E a = to_cbor_data E b"
  shows "a = b"
proof -
  have "try_from_data E (to_cbor_data E b) = Ok a"
    using try_from_data_encoded [OF assms(1)] unfolding assms(3) .
  with try_from_data_encoded [OF assms(2)] show ?thesis by simp
qed

section \<open>Maps built by insertion\<close>

definition enc_keys :: "dcbor_ext \<Rightarrow> dmap \<Rightarrow> bytes set" where
  "enc_keys E m = (\<lambda>(k, v). to_cbor_data E k) ` set m"

lemma enc_keys_simps [simp]:
  "enc_keys E [] = {}"
  "enc_keys E ((k, v) # m) = insert (to_cbor_data E k) (enc_keys E m)"
  by (simp_all add: enc_keys_def)

lemma enc_keys_map_insert: "enc_keys E (map_insert E k v m) = insert (to_cbor_data E k) (enc_keys E m)"
  by (induction m) (auto split: if_splits)

lemma keys_sorted_Cons:
  "keys_sorted E ((k, v) # m) \<longleftrightarrow> (\<forall>b \<in> enc_keys E m. to_cbor_data E k < b) \<and> keys_sorted E m"
  by (simp add: keys_sorted_def enc_keys_def)

lemma keys_sorted_Nil [simp]: "keys_sorted E []"
  by (simp add: keys_sorted_def)

lemma keys_sorted_map_insert: "keys_sorted E m \<Longrightarrow> keys_sorted E (map_insert E k v m)"
proof (induction m)
  case (Cons p m)
  obtain k' v' where p: "p = (k', v')" by (cases p)
  consider "to_cbor_data E k < to_cbor_data E k'" | "to_cbor_data E k = to_cbor_data E k'"
    | "to_cbor_data E k' < to_cbor_data E k" by (rule linorder_cases)
  then show ?case
    using Cons by cases (auto simp: p keys_sorted_Cons enc_keys_map_insert)
qed (simp add: keys_sorted_Cons)

lemma map_lookup_insert:
  "map_lookup E (map_insert E k v m) k' =
    (if to_cbor_data E k' = to_cbor_data E k then Some v else map_lookup E m k')"
  by (induction m) (auto simp: map_lookup_def)

lemma map_insert_fresh:
  assumes "to_cbor_data E k \<notin> enc_keys E m"
  shows "set (map_insert E k v m) = insert (k, v) (set m)"
    and "length (map_insert E k v m) = Suc (length m)"
  using assms by (induction m) (auto split: if_splits)

lemma enc_text_eq_iff:
  assumes "text_ok E a" and "text_ok E b"
  shows "to_cbor_data E (DText a) = to_cbor_data E (DText b) \<longleftrightarrow> a = b"
  using assms encode_head_append_inj [of 3 "word_of_nat (length a)" "str_bytes a" "word_of_nat (length b)" "str_bytes b"]
  by (auto simp: text_ok_def encode_varint_eq)

lemma insert_all_snoc: "insert_all E (kvs @ [(k, v)]) = map_insert E (DText k) v (insert_all E kvs)"
  by (simp add: insert_all_def)

lemma keys_sorted_insert_all: "keys_sorted E (insert_all E kvs)"
  by (induction kvs rule: rev_induct) (auto simp: insert_all_snoc keys_sorted_map_insert, simp add: insert_all_def)

lemma enc_keys_insert_all: "enc_keys E (insert_all E kvs) = (\<lambda>(k, v). to_cbor_data E (DText k)) ` set kvs"
  by (induction kvs rule: rev_induct)
    (auto simp: insert_all_snoc enc_keys_map_insert simp del: to_cbor_data.simps, auto simp: insert_all_def enc_keys_def)

definition fields_ok :: "dcbor_ext \<Rightarrow> (string \<times> dcbor) list \<Rightarrow> bool" where
  "fields_ok E kvs \<longleftrightarrow> distinct (map fst kvs) \<and> (\<forall>k \<in> set (map fst kvs). text_ok E k)"

lemma fields_ok_snoc:
  "fields_ok E (kvs @ [(k, v)]) \<longleftrightarrow> fields_ok E kvs \<and> text_ok E k \<and> k \<notin> fst ` set kvs"
  by (auto simp: fields_ok_def)

lemma insert_all_fresh:
  assumes "fields_ok E (kvs @ [(k, v)])"
  shows "to_cbor_data E (DText k) \<notin> enc_keys E (insert_all E kvs)"
proof
  assume "to_cbor_data E (DText k) \<in> enc_keys E (insert_all E kvs)"
  then obtain k' v' where "(k', v') \<in> set kvs" and "to_cbor_data E (DText k) = to_cbor_data E (DText k')"
    unfolding enc_keys_insert_all by (elim imageE) (simp split: prod.splits)
  moreover from this(1) assms have "text_ok E k'" "text_ok E k"
    by (force simp: fields_ok_def)+
  ultimately show False using assms enc_text_eq_iff [of E k k'] by (force simp: fields_ok_snoc)
qed

lemma insert_all_fields:
  assumes "fields_ok E kvs"
  shows "set (insert_all E kvs) = (\<lambda>(k, v). (DText k, v)) ` set kvs"
    and "length (insert_all E kvs) = length kvs"
  using assms
proof (induction kvs rule: rev_induct)
  case Nil
  { case 1 show ?case by (simp add: insert_all_def) next case 2 show ?case by (simp add: insert_all_def) }
next
  case (snoc p kvs)
  obtain k v where p: "p = (k, v)" by (cases p)
  { case 1
    then show ?case using snoc.IH(1) map_insert_fresh(1) [OF insert_all_fresh [of E kvs k v]]
      by (auto simp: p insert_all_snoc fields_ok_snoc)
  next
    case 2
    then show ?case using snoc.IH(2) map_insert_fresh(2) [OF insert_all_fresh [of E kvs k v]]
      by (auto simp: p insert_all_snoc fields_ok_snoc) }
qed

lemma wf_insert_all:
  assumes "fields_ok E kvs" and "length kvs < 2 ^ 64" and "\<And>k v. (k, v) \<in> set kvs \<Longrightarrow> wf_dcbor E v"
  shows "wf_dcbor E (DMap (insert_all E kvs))"
  using assms(2) assms(3) assms(1)
  by (auto simp: insert_all_fields [OF assms(1)] keys_sorted_insert_all)
     (force simp: fields_ok_def)

lemma lookup_insert_all:
  assumes "fields_ok E kvs" and "text_ok E k"
  shows "map_lookup E (insert_all E kvs) (DText k) = map_of kvs k"
  using assms(1)
proof (induction kvs rule: rev_induct)
  case (snoc p kvs)
  obtain k' v where p: "p = (k', v)" by (cases p)
  have ok: "fields_ok E kvs" "text_ok E k'" "k' \<notin> fst ` set kvs"
    using snoc.prems by (simp_all add: p fields_ok_snoc)
  then have "map_of kvs k' = None" by (simp add: map_of_eq_None_iff)
  with snoc.IH [OF ok(1)] show ?case
    by (auto simp: p insert_all_snoc map_lookup_insert enc_text_eq_iff [OF assms(2) ok(2)] map_add_def
        simp del: to_cbor_data.simps split: option.splits)
qed (simp add: insert_all_def map_lookup_def)

section \<open>A map is determined by its fields\<close>

definition enc_map :: "dcbor_ext \<Rightarrow> dmap \<Rightarrow> (bytes \<times> dcbor) list" where
  "enc_map E m = map (\<lambda>(k, v). (to_cbor_data E k, v)) m"

lemma enc_map_keys: "map fst (enc_map E m) = map (\<lambda>(k, v). to_cbor_data E k) m"
  by (simp add: enc_map_def comp_def case_prod_beta')

lemma keys_sorted_enc_map: "keys_sorted E m \<longleftrightarrow> sorted_wrt (<) (map fst (enc_map E m))"
  by (simp add: keys_sorted_def enc_map_keys)

lemma lookup_enc_map: "map_lookup E m k = map_of (enc_map E m) (to_cbor_data E k)"
  by (simp add: map_lookup_def enc_map_def)

lemma to_cbor_data_enc_map:
  "to_cbor_data E (DMap m) = encode_varint 5 (word_of_nat (length (enc_map E m))) @
     concat (map (\<lambda>(k, v). k @ to_cbor_data E v) (enc_map E m))"
  by (simp add: enc_map_def comp_def case_prod_beta')

lemma strict_sorted_map_eq:
  fixes xs ys :: "('a::linorder \<times> 'b) list"
  assumes "sorted_wrt (<) (map fst xs)" and "sorted_wrt (<) (map fst ys)" and "set xs = set ys"
  shows "xs = ys"
proof -
  have d: "distinct (map fst xs)" "distinct (map fst ys)" and s: "sorted (map fst xs)" "sorted (map fst ys)"
    using assms(1,2) by (simp_all add: strict_sorted_iff)
  show ?thesis using map_sorted_distinct_set_unique [OF _ s(1) d(1) s(2) d(2)] assms(3) d
    by (simp add: inj_on_def distinct_map)
qed

lemma map_determined:
  assumes "keys_sorted E m" and "fields_ok E kvs" and "length m = length kvs"
    and look: "\<And>k v. (k, v) \<in> set kvs \<Longrightarrow> map_lookup E m (DText k) = Some v"
  shows "to_cbor_data E (DMap m) = to_cbor_data E (DMap (insert_all E kvs))"
proof -
  let ?n = "insert_all E kvs"
  have "set (enc_map E ?n) \<subseteq> set (enc_map E m)"
  proof
    fix p assume "p \<in> set (enc_map E ?n)"
    then obtain k v where "(k, v) \<in> set kvs" and p: "p = (to_cbor_data E (DText k), v)"
      unfolding enc_map_def set_map insert_all_fields(1) [OF assms(2)]
      by (auto simp del: to_cbor_data.simps)
    from look [OF this(1)] show "p \<in> set (enc_map E m)"
      unfolding lookup_enc_map p by (rule map_of_SomeD)
  qed
  moreover have "card (set (enc_map E m)) \<le> length m" 
    using card_length [of "enc_map E m"] by (simp add: enc_map_def)
  moreover have "card (set (enc_map E ?n)) = length kvs"
    using keys_sorted_insert_all [of E kvs] insert_all_fields(2) [OF assms(2)]
    by (metis keys_sorted_enc_map strict_sorted_iff distinct_map distinct_card length_map enc_map_def)
  ultimately have "set (enc_map E ?n) = set (enc_map E m)"
    using assms(3) by (intro card_seteq) simp_all
  then have "enc_map E m = enc_map E ?n"
    using assms(1) keys_sorted_insert_all [of E kvs] by (intro strict_sorted_map_eq) (simp_all add: keys_sorted_enc_map)
  then show ?thesis unfolding to_cbor_data_enc_map by simp
qed

lemma float_cbor_not_map [simp]: "float_cbor x \<noteq> DMap m"
  by (cases x) auto

text \<open>The decoder only builds sorted maps.\<close>

lemma insert_next_keys_sorted: "insert_next E k v m = Ok m' \<Longrightarrow> keys_sorted E m \<Longrightarrow> keys_sorted E m'"
  by (auto simp: insert_next_def keys_sorted_map_insert split: if_splits simp del: map_insert.simps)

lemma decode_pairs_keys_sorted:
  "decode_pairs E n m data = Ok (m', len) \<Longrightarrow> keys_sorted E m \<Longrightarrow> keys_sorted E m'"
  by (induction n arbitrary: m data len) (force simp: bind_Ok_iff dest: insert_next_keys_sorted)+

lemma decode_map_keys_sorted:
  assumes "try_from_data E data = Ok (DMap m)"
  shows "keys_sorted E m"
proof -
  from assms obtain len where d: "decode_internal E data = Ok (DMap m, len)"
    by (auto simp: try_from_data_def bind_Ok_iff split: if_splits)
  then obtain major val hl where h: "parse_header_varint data = Ok (major, val, hl)"
    by (auto simp: decode_internal.simps [of E data] bind_Ok_iff)
  from d show ?thesis
    by (simp add: decode_internal.simps [of E data] h)
      (auto simp: bind_Ok_iff split: if_splits dest: decode_pairs_keys_sorted)
qed

section \<open>Fields of a map\<close>

text \<open>
  What the code assumes of the Unicode library: ASCII text is its own normal form. The field names
  and the algorithm names are ASCII.
\<close>

definition ascii :: "string \<Rightarrow> bool" where
  "ascii s \<longleftrightarrow> list_all (\<lambda>c. \<not> digit7 c) s"

definition ext_ok :: "dcbor_ext \<Rightarrow> bool" where
  "ext_ok E \<longleftrightarrow> (\<forall>s. ascii s \<longrightarrow> nfc E s = s \<and> is_nfc E s)"

lemma ascii_simps [simp]: "ascii []" "ascii (c # s) \<longleftrightarrow> \<not> digit7 c \<and> ascii s"
  by (simp_all add: ascii_def)

lemma valid_text_ascii: "ascii s \<Longrightarrow> valid_text s"
  by (induction s) simp_all

lemma text_ok_ascii: "ext_ok E \<Longrightarrow> ascii s \<Longrightarrow> length s < 2 ^ 64 \<Longrightarrow> text_ok E s"
  by (simp add: text_ok_def ext_ok_def valid_text_ascii)

text \<open>Reading a field of a map that was built by insertion.\<close>

lemma map_extract_insert_all:
  assumes "fields_ok E kvs" and "text_ok E k"
  shows "map_extract E conv (insert_all E kvs) k =
    (case map_of kvs k of None \<Rightarrow> Err MissingMapKey
     | Some v \<Rightarrow> (case conv v of Ok x \<Rightarrow> Ok x | Err _ \<Rightarrow> Err MissingMapKey))"
  by (simp add: map_extract_def map_get_def lookup_insert_all [OF assms] split: option.splits result.splits)

lemma map_get_insert_all:
  assumes "fields_ok E kvs" and "text_ok E k"
  shows "map_get E conv (insert_all E kvs) k =
    (case map_of kvs k of None \<Rightarrow> None | Some v \<Rightarrow> (case conv v of Ok x \<Rightarrow> Some x | Err _ \<Rightarrow> None))"
  by (simp add: map_get_def lookup_insert_all [OF assms])

lemma map_get_Some_iff:
  "map_get E conv m k = Some x \<longleftrightarrow> (\<exists>v. map_lookup E m (DText k) = Some v \<and> conv v = Ok x)"
  by (auto simp: map_get_def split: option.splits result.splits)

lemma map_extract_Ok_iff [result_simps]:
  "map_extract E conv m k = Ok x \<longleftrightarrow> (\<exists>v. map_lookup E m (DText k) = Some v \<and> conv v = Ok x)"
  by (simp add: map_extract_def ok_or_Ok_iff map_get_Some_iff)

lemma try_Ok_iffs:
  "try_text c = Ok s \<longleftrightarrow> c = DText s"
  "try_byte_string c = Ok b \<longleftrightarrow> c = DBytes b"
  "try_u64 c = Ok n \<longleftrightarrow> c = DUnsigned n \<or> c = DNegative (- 1 - n)"
  "try_into_array c = Ok xs \<longleftrightarrow> c = DArray xs"
  "try_into_map c = Ok m \<longleftrightarrow> c = DMap m"
  by (cases c; auto simp: algebra_simps)+

text \<open>An instance of the foreign functions: no text is changed and there are no fractions.\<close>

definition ascii_ext :: dcbor_ext where
  "ascii_ext = \<lparr>nfc = id, is_nfc = (\<lambda>_. True), float_data = (\<lambda>_. []), float_item = (\<lambda>_ _. Err NonCanonicalNumeric)\<rparr>"

lemma ascii_ext_ok [simp]: "ext_ok ascii_ext"
  by (simp add: ext_ok_def ascii_ext_def)

end
