(* ===== verification/Wrap.thy ===== *)
theory Wrap
  imports Dcbor_Laws Signer
begin

text \<open>
  The keyspace wrap of \<open>identikey-share\<close> (\<open>wrap.rs\<close>, \<open>error.rs\<close>): a 32-byte key sealed to a
  recipient's X25519, Ed25519 or P-256 public key. Key agreement, the AEAD and the hash functions
  belong to other crates and are fields of a record; drawn randomness is an argument. Zeroising
  memory has no counterpart: a key is a value that is not returned.
\<close>

section \<open>Errors and primitives\<close>

datatype share_error =
    RejectedKey
  | WrapError
  | PayloadError
  | EmptyRecipients
  | NoMatchingWrap
  | DuplicateRecipient
  | ModeError
  | GrantMismatch
  | SignatureError
  | PqSigRequired
  | RecryptError
  | DcborError dcbor_error

text \<open>
  \<open>was_contributory\<close> is the method of the shared secret. \<open>xc_encrypt\<close> and \<open>xc_decrypt\<close> are
  XChaCha20-Poly1305 with key, nonce, associated data and message. The last two fields are the key
  generation and the randomised signing of the ML-DSA parameter sets, which the grants use.
\<close>

record share_crypto = crypto +
  x25519_public :: "bytes \<Rightarrow> bytes"
  x25519_dh :: "bytes \<Rightarrow> bytes \<Rightarrow> bytes"
  was_contributory :: "bytes \<Rightarrow> bool"
  ed_to_montgomery :: "bytes \<Rightarrow> bytes"
  sha512 :: "bytes \<Rightarrow> bytes"
  p256_point_ok :: "bytes \<Rightarrow> bool"
  p256_ecdh :: "bytes \<Rightarrow> bytes \<Rightarrow> bytes"
  xc_encrypt :: "bytes \<Rightarrow> bytes \<Rightarrow> bytes \<Rightarrow> bytes \<Rightarrow> bytes option"
  xc_decrypt :: "bytes \<Rightarrow> bytes \<Rightarrow> bytes \<Rightarrow> bytes \<Rightarrow> bytes option"
  mldsa_keygen :: "pq_alg \<Rightarrow> bytes \<Rightarrow> (bytes \<times> bytes) option"
  mldsa_try_sign :: "pq_alg \<Rightarrow> bytes \<Rightarrow> bytes \<Rightarrow> bytes \<Rightarrow> bytes option"

definition WRAP_LABEL :: bytes where
  "WRAP_LABEL = str_bytes ''identikey-keyspace-v1-wrap''"

definition ALG_X25519 :: string where
  "ALG_X25519 = ''x25519-xchacha20poly1305''"

definition ALG_P256 :: string where
  "ALG_P256 = ''p256-xchacha20poly1305''"

definition SMALL_ORDER :: "bytes list" where
  "SMALL_ORDER = [
    replicate 32 0,
    1 # replicate 31 0,
    [0xe0, 0xeb, 0x7a, 0x7c, 0x3b, 0x41, 0xb8, 0xae, 0x16, 0x56, 0xe3, 0xfa, 0xf1, 0x9f, 0xc4,
     0x6a, 0xda, 0x09, 0x8d, 0xeb, 0x9c, 0x32, 0xb1, 0xfd, 0x86, 0x62, 0x05, 0x16, 0x5f, 0x49,
     0xb8, 0x00],
    [0x5f, 0x9c, 0x95, 0xbc, 0xa3, 0x50, 0x8c, 0x24, 0xb1, 0xd0, 0xb1, 0x55, 0x9c, 0x83, 0xef,
     0x5b, 0x04, 0x44, 0x5c, 0xc4, 0x58, 0x1c, 0x8e, 0x86, 0xd8, 0x22, 0x4e, 0xdd, 0xd0, 0x9f,
     0x11, 0x57],
    0xec # replicate 30 0xff @ [0x7f],
    0xed # replicate 30 0xff @ [0x7f],
    0xee # replicate 30 0xff @ [0x7f],
    replicate 31 0 @ [0x80]]"

definition is_small_order :: "bytes \<Rightarrow> bool" where
  "is_small_order point = list_ex (\<lambda>bad. bad = point) SMALL_ORDER"

definition ed25519_to_x25519 :: "share_crypto \<Rightarrow> bytes \<Rightarrow> (share_error, bytes) result" where
  "ed25519_to_x25519 C pk =
    bind (guard (ed_key_ok C pk) RejectedKey) (\<lambda>_. Ok (ed_to_montgomery C pk))"

definition ed25519_seed_to_x25519 :: "share_crypto \<Rightarrow> bytes \<Rightarrow> bytes" where
  "ed25519_seed_to_x25519 C seed = take 32 (sha512 C seed)"

section \<open>Recipients\<close>

datatype wrap_public = PubX25519 bytes | PubEd25519 bytes | PubP256 bytes

definition wrap_x25519 :: "bytes \<Rightarrow> (share_error, wrap_public) result" where
  "wrap_x25519 b = (if is_small_order b then Err RejectedKey else Ok (PubX25519 b))"

definition wrap_ed25519 :: "share_crypto \<Rightarrow> bytes \<Rightarrow> (share_error, wrap_public) result" where
  "wrap_ed25519 C b =
    bind (ed25519_to_x25519 C b) (\<lambda>point.
      if is_small_order point then Err RejectedKey else Ok (PubEd25519 b))"

definition wrap_p256 :: "share_crypto \<Rightarrow> bytes \<Rightarrow> (share_error, wrap_public) result" where
  "wrap_p256 C b = bind (guard (p256_point_ok C b) RejectedKey) (\<lambda>_. Ok (PubP256 b))"

fun wrap_tag :: "wrap_public \<Rightarrow> string" where
  "wrap_tag (PubX25519 _) = ''x25519''"
| "wrap_tag (PubEd25519 _) = ''ed25519''"
| "wrap_tag (PubP256 _) = ''p256''"

fun key_bytes :: "wrap_public \<Rightarrow> bytes" where
  "key_bytes (PubX25519 b) = b"
| "key_bytes (PubEd25519 b) = b"
| "key_bytes (PubP256 b) = b"

record encapsulation =
  enc_alg :: string
  enc_recipient :: bytes

fun encapsulate_to :: "share_crypto \<Rightarrow> wrap_public \<Rightarrow> (share_error, encapsulation) result" where
  "encapsulate_to C (PubX25519 b) = Ok \<lparr>enc_alg = ALG_X25519, enc_recipient = b\<rparr>"
| "encapsulate_to C (PubEd25519 b) =
     bind (ed25519_to_x25519 C b) (\<lambda>p. Ok \<lparr>enc_alg = ALG_X25519, enc_recipient = p\<rparr>)"
| "encapsulate_to C (PubP256 b) = Ok \<lparr>enc_alg = ALG_P256, enc_recipient = b\<rparr>"

datatype wrap_secret = SecX25519 bytes | SecEd25519Seed bytes | SecP256Scalar bytes

text \<open>The generators return what they draw; \<open>SecretKey::random\<close> draws a valid scalar.\<close>

definition generate_x25519_secret :: "bytes \<Rightarrow> wrap_secret" where
  "generate_x25519_secret drawn = SecX25519 drawn"

definition generate_ed25519_secret :: "bytes \<Rightarrow> wrap_secret" where
  "generate_ed25519_secret drawn = SecEd25519Seed drawn"

definition generate_p256_secret :: "bytes \<Rightarrow> (share_error, wrap_secret) result" where
  "generate_p256_secret drawn = Ok (SecP256Scalar drawn)"

fun wrap_secret_public :: "share_crypto \<Rightarrow> wrap_secret \<Rightarrow> (share_error, wrap_public) result" where
  "wrap_secret_public C (SecX25519 seed) = wrap_x25519 (x25519_public C seed)"
| "wrap_secret_public C (SecEd25519Seed seed) = wrap_ed25519 C (ed_public C seed)"
| "wrap_secret_public C (SecP256Scalar scalar) =
     bind (map_err (\<lambda>_. RejectedKey) (p256_scalar C scalar)) (\<lambda>_.
     let encoded = p256_public C scalar in
     bind (guard (length encoded = 33) RejectedKey) (\<lambda>_. wrap_p256 C encoded))"

definition encapsulation_public :: "share_crypto \<Rightarrow> wrap_secret \<Rightarrow> (share_error, bytes) result" where
  "encapsulation_public C s =
    bind (wrap_secret_public C s) (\<lambda>pk. bind (encapsulate_to C pk) (\<lambda>e. Ok (enc_recipient e)))"

section \<open>Key derivation\<close>

definition wrap_kdf :: "share_crypto \<Rightarrow> bytes \<Rightarrow> bytes \<Rightarrow> bytes \<Rightarrow> bytes" where
  "wrap_kdf C dh ephemeral recipient = blake3 C (WRAP_LABEL @ dh @ ephemeral @ recipient)"

definition dh_kdf_x25519 ::
    "share_crypto \<Rightarrow> bytes \<Rightarrow> bytes \<Rightarrow> bytes \<Rightarrow> (share_error, bytes) result" where
  "dh_kdf_x25519 C sk ephemeral_or_peer recipient =
    (if is_small_order ephemeral_or_peer \<or> is_small_order recipient then Err WrapError
     else let shared = x25519_dh C sk ephemeral_or_peer in
       if \<not> was_contributory C shared then Err WrapError
       else if shared = replicate 32 0 then Err WrapError
       else Ok (wrap_kdf C shared ephemeral_or_peer recipient))"

definition dh_kdf_p256 ::
    "share_crypto \<Rightarrow> bytes \<Rightarrow> bytes \<Rightarrow> bytes \<Rightarrow> (share_error, bytes) result" where
  "dh_kdf_p256 C scalar ephemeral recipient =
    bind (map_err (\<lambda>_. WrapError) (p256_scalar C scalar)) (\<lambda>_.
    bind (guard (p256_point_ok C ephemeral) WrapError) (\<lambda>_.
    let raw = p256_ecdh C scalar ephemeral in
    if raw = replicate 32 0 then Err WrapError else Ok (wrap_kdf C raw ephemeral recipient)))"

section \<open>Sealing\<close>

record wrap =
  wr_alg :: string
  wr_recipient :: bytes
  wr_ephemeral :: bytes
  wr_nonce :: bytes
  wr_ciphertext :: bytes
  wr_epoch :: u64

text \<open>What one call of \<open>seal\<close> draws: the nonce and then the ephemeral secret.\<close>

record seal_draw =
  drawn_nonce :: bytes
  drawn_ephemeral :: bytes

definition seal_x25519 ::
    "share_crypto \<Rightarrow> bytes \<Rightarrow> bytes \<Rightarrow> bytes \<Rightarrow> bytes \<Rightarrow> bytes \<Rightarrow> (share_error, bytes) result" where
  "seal_x25519 C ephemeral_sk ephemeral_pub recipient dek nonce =
    (if is_small_order recipient then Err RejectedKey
     else let shared = x25519_dh C ephemeral_sk recipient in
       if \<not> was_contributory C shared then Err WrapError
       else if shared = replicate 32 0 then Err WrapError
       else ok_or (xc_encrypt C (wrap_kdf C shared ephemeral_pub recipient) nonce [] dek) WrapError)"

definition seal_p256 ::
    "share_crypto \<Rightarrow> bytes \<Rightarrow> bytes \<Rightarrow> bytes \<Rightarrow> bytes \<Rightarrow> u64 \<Rightarrow> (share_error, wrap) result" where
  "seal_p256 C ephemeral_sk recipient dek nonce epoch =
    bind (guard (p256_point_ok C recipient) RejectedKey) (\<lambda>_.
    let ephemeral = p256_public C ephemeral_sk; raw = p256_ecdh C ephemeral_sk recipient in
    if raw = replicate 32 0 then Err WrapError
    else bind (ok_or (xc_encrypt C (wrap_kdf C raw ephemeral recipient) nonce [] dek) WrapError)
      (\<lambda>ciphertext. Ok \<lparr>wr_alg = ALG_P256, wr_recipient = recipient, wr_ephemeral = ephemeral,
        wr_nonce = nonce, wr_ciphertext = ciphertext, wr_epoch = epoch\<rparr>))"

definition seal ::
    "share_crypto \<Rightarrow> seal_draw \<Rightarrow> wrap_public \<Rightarrow> bytes \<Rightarrow> u64 \<Rightarrow> (share_error, wrap) result" where
  "seal C r recipient dek epoch =
    bind (encapsulate_to C recipient) (\<lambda>enc.
    let nonce = drawn_nonce r in
    if enc_alg enc = ALG_X25519 then
      bind (guard (length (enc_recipient enc) = 32) RejectedKey) (\<lambda>_.
      let ephemeral_sk = drawn_ephemeral r; ephemeral_pk = x25519_public C ephemeral_sk in
      bind (seal_x25519 C ephemeral_sk ephemeral_pk (enc_recipient enc) dek nonce) (\<lambda>ciphertext.
      Ok \<lparr>wr_alg = ALG_X25519, wr_recipient = enc_recipient enc, wr_ephemeral = ephemeral_pk,
          wr_nonce = nonce, wr_ciphertext = ciphertext, wr_epoch = epoch\<rparr>))
    else if enc_alg enc = ALG_P256 then
      seal_p256 C (drawn_ephemeral r) (enc_recipient enc) dek nonce epoch
    else Err WrapError)"

section \<open>Wire form\<close>

definition wrap_fields :: "wrap \<Rightarrow> dcbor \<Rightarrow> (string \<times> dcbor) list" where
  "wrap_fields w epoch =
    [(''alg'', DText (wr_alg w)), (''recipient'', DBytes (wr_recipient w)),
     (''ephemeral'', DBytes (wr_ephemeral w)), (''nonce'', DBytes (wr_nonce w)),
     (''ciphertext'', DBytes (wr_ciphertext w)), (''epoch'', epoch)]"

definition wrap_to_cbor :: "dcbor_ext \<Rightarrow> wrap \<Rightarrow> bytes" where
  "wrap_to_cbor E w =
    to_cbor_data E (DMap (insert_all E (wrap_fields w (DUnsigned (wr_epoch w)))))"

definition check_points :: "share_crypto \<Rightarrow> string \<Rightarrow> bytes \<Rightarrow> bytes \<Rightarrow> bool" where
  "check_points C alg recipient ephemeral =
    (if alg = ALG_X25519 then
       length recipient = 32 \<and> length ephemeral = 32 \<and>
       \<not> (is_small_order recipient \<or> is_small_order ephemeral)
     else if alg = ALG_P256 then
       length recipient = 33 \<and> length ephemeral = 33 \<and>
       p256_point_ok C recipient \<and> p256_point_ok C ephemeral
     else False)"

definition parse_wrap :: "share_crypto \<Rightarrow> dcbor_ext \<Rightarrow> bytes \<Rightarrow> (share_error, wrap) result" where
  "parse_wrap C E bs =
    bind (map_err DcborError (try_from_data E bs)) (\<lambda>cbor.
    bind (guard (to_cbor_data E cbor = bs) WrapError) (\<lambda>_.
    bind (map_err (\<lambda>_. WrapError) (try_into_map cbor)) (\<lambda>m.
    bind (guard (length m = 6) WrapError) (\<lambda>_.
    bind (map_err (\<lambda>_. WrapError) (map_extract E try_text m ''alg'')) (\<lambda>alg.
    bind (guard (alg = ALG_X25519 \<or> alg = ALG_P256) WrapError) (\<lambda>_.
    bind (map_err (\<lambda>_. WrapError) (map_extract E try_byte_string m ''recipient'')) (\<lambda>recipient.
    bind (map_err (\<lambda>_. WrapError) (map_extract E try_byte_string m ''ephemeral'')) (\<lambda>ephemeral.
    bind (map_err (\<lambda>_. WrapError) (map_extract E try_byte_string m ''nonce'')) (\<lambda>nonce.
    bind (map_err (\<lambda>_. WrapError) (map_extract E try_byte_string m ''ciphertext'')) (\<lambda>ciphertext.
    bind (map_err (\<lambda>_. WrapError) (map_extract E try_u64 m ''epoch'')) (\<lambda>epoch.
    bind (guard (length nonce = 24) WrapError) (\<lambda>_.
    bind (guard (check_points C alg recipient ephemeral) WrapError) (\<lambda>_.
    Ok \<lparr>wr_alg = alg, wr_recipient = recipient, wr_ephemeral = ephemeral, wr_nonce = nonce,
        wr_ciphertext = ciphertext, wr_epoch = epoch\<rparr>)))))))))))))"

section \<open>Opening\<close>

definition open_key :: "share_crypto \<Rightarrow> wrap_secret \<Rightarrow> wrap \<Rightarrow> (share_error, bytes) result" where
  "open_key C secret w =
    (case secret of
       SecX25519 scalar \<Rightarrow>
         if wr_alg w = ALG_X25519 then
           bind (guard (length (wr_recipient w) = 32) WrapError) (\<lambda>_.
           bind (guard (length (wr_ephemeral w) = 32) WrapError) (\<lambda>_.
           dh_kdf_x25519 C scalar (wr_ephemeral w) (wr_recipient w)))
         else Err WrapError
     | SecEd25519Seed seed \<Rightarrow>
         if wr_alg w = ALG_X25519 then
           bind (guard (length (wr_recipient w) = 32) WrapError) (\<lambda>_.
           bind (guard (length (wr_ephemeral w) = 32) WrapError) (\<lambda>_.
           dh_kdf_x25519 C (ed25519_seed_to_x25519 C seed) (wr_ephemeral w) (wr_recipient w)))
         else Err WrapError
     | SecP256Scalar scalar \<Rightarrow>
         if wr_alg w = ALG_P256 then dh_kdf_p256 C scalar (wr_ephemeral w) (wr_recipient w)
         else Err WrapError)"

definition open_with :: "share_crypto \<Rightarrow> wrap_secret \<Rightarrow> wrap \<Rightarrow> (share_error, bytes) result" where
  "open_with C secret w =
    bind (open_key C secret w) (\<lambda>key.
    bind (ok_or (xc_decrypt C key (wr_nonce w) [] (wr_ciphertext w)) WrapError) (\<lambda>plain.
    if length plain \<noteq> 32 then Err WrapError else Ok plain))"

definition wrap_key ::
    "share_crypto \<Rightarrow> dcbor_ext \<Rightarrow> seal_draw \<Rightarrow> wrap_public \<Rightarrow> bytes \<Rightarrow> u64 \<Rightarrow> (share_error, bytes) result" where
  "wrap_key C E r recipient dek epoch =
    bind (seal C r recipient dek epoch) (\<lambda>w. Ok (wrap_to_cbor E w))"

definition unwrap_key ::
    "share_crypto \<Rightarrow> dcbor_ext \<Rightarrow> wrap_secret \<Rightarrow> bytes \<Rightarrow> (share_error, bytes) result" where
  "unwrap_key C E secret bs =
    bind (parse_wrap C E bs) (\<lambda>parsed.
    bind (encapsulation_public C secret) (\<lambda>expected.
    if wr_recipient parsed \<noteq> expected then Err WrapError else open_with C secret parsed))"

definition rewrap_key ::
    "share_crypto \<Rightarrow> dcbor_ext \<Rightarrow> seal_draw \<Rightarrow> wrap_secret \<Rightarrow> bytes \<Rightarrow> wrap_public \<Rightarrow> u64 \<Rightarrow>
     (share_error, bytes) result" where
  "rewrap_key C E r secret bs recipient epoch =
    bind (unwrap_key C E secret bs) (\<lambda>dek. wrap_key C E r recipient dek epoch)"

end
