(* ===== verification/Wrap_Laws.thy ===== *)
theory Wrap_Laws
  imports Wrap
begin

text \<open>
  Correctness of the keyspace wrap: what the code relies on in the crates it calls, the round trip
  from \<open>wrap_key\<close> to \<open>unwrap_key\<close> for every kind of recipient, rewrapping, and an exact
  description of the byte strings that \<open>parse_wrap\<close> accepts.
\<close>

section \<open>What the program relies on\<close>

text \<open>
  X25519 and P-256 Diffie-Hellman commute; a clamped X25519 scalar never yields a small-order
  public key or a non-contributory secret with an honest peer; the Montgomery image of an Ed25519
  key is the X25519 key of the hashed seed; the AEAD decrypts what it encrypted, adds a 16-byte
  tag, and encrypts any message that its block counter can cover.
\<close>

definition x25519_ok :: "share_crypto \<Rightarrow> bool" where
  "x25519_ok C \<longleftrightarrow>
    (\<forall>a. length a = 32 \<longrightarrow>
       length (x25519_public C a) = 32 \<and> \<not> is_small_order (x25519_public C a)) \<and>
    (\<forall>a b. length a = 32 \<longrightarrow> length b = 32 \<longrightarrow>
       x25519_dh C a (x25519_public C b) = x25519_dh C b (x25519_public C a) \<and>
       was_contributory C (x25519_dh C a (x25519_public C b)) \<and>
       x25519_dh C a (x25519_public C b) \<noteq> replicate 32 0)"

definition montgomery_ok :: "share_crypto \<Rightarrow> bool" where
  "montgomery_ok C \<longleftrightarrow> (\<forall>seed. length seed = 32 \<longrightarrow>
     length (sha512 C seed) = 64 \<and> length (ed_public C seed) = 32 \<and> ed_key_ok C (ed_public C seed) \<and>
     ed_to_montgomery C (ed_public C seed) = x25519_public C (take 32 (sha512 C seed)))"

definition p256_dh_ok :: "share_crypto \<Rightarrow> bool" where
  "p256_dh_ok C \<longleftrightarrow>
    (\<forall>a. p256_scalar C a = Ok () \<longrightarrow> length (p256_public C a) = 33 \<and> p256_point_ok C (p256_public C a)) \<and>
    (\<forall>a b. p256_scalar C a = Ok () \<longrightarrow> p256_scalar C b = Ok () \<longrightarrow>
       p256_ecdh C a (p256_public C b) = p256_ecdh C b (p256_public C a)) \<and>
    (\<forall>p. p256_point_ok C p \<longrightarrow> length p \<noteq> 32)"

definition aead_ok :: "share_crypto \<Rightarrow> bool" where
  "aead_ok C \<longleftrightarrow>
    (\<forall>k n a m c. xc_encrypt C k n a m = Some c \<longrightarrow>
       xc_decrypt C k n a c = Some m \<and> length c = length m + 16) \<and>
    (\<forall>k n a m. length k = 32 \<longrightarrow> length n = 24 \<longrightarrow> length m div 64 < 2 ^ 32 - 1 \<longrightarrow>
       xc_encrypt C k n a m \<noteq> None)"

definition kem_ok :: "share_crypto \<Rightarrow> bool" where
  "kem_ok C \<longleftrightarrow> x25519_ok C \<and> montgomery_ok C \<and> p256_dh_ok C \<and> aead_ok C \<and>
    (\<forall>m. length (blake3 C m) = 32)"

lemma x25519_facts:
  fixes b :: bytes
  assumes "kem_ok C" and "length a = 32"
  shows "length (x25519_public C a) = 32" and "\<not> is_small_order (x25519_public C a)"
    and "length b = 32 \<Longrightarrow> x25519_dh C a (x25519_public C b) = x25519_dh C b (x25519_public C a)"
    and "length b = 32 \<Longrightarrow> was_contributory C (x25519_dh C a (x25519_public C b))"
    and "length b = 32 \<Longrightarrow> x25519_dh C a (x25519_public C b) \<noteq> replicate 32 0"
  using assms by (simp_all add: kem_ok_def x25519_ok_def)

lemma montgomery_facts:
  assumes "kem_ok C" and "length seed = 32"
  shows "length (ed_public C seed) = 32" and "ed_key_ok C (ed_public C seed)"
    and "ed_to_montgomery C (ed_public C seed) = x25519_public C (ed25519_seed_to_x25519 C seed)"
    and "length (ed25519_seed_to_x25519 C seed) = 32"
  using assms by (simp_all add: kem_ok_def montgomery_ok_def ed25519_seed_to_x25519_def)

lemma p256_facts:
  assumes "kem_ok C" and "p256_scalar C a = Ok ()"
  shows "length (p256_public C a) = 33" and "p256_point_ok C (p256_public C a)"
    and "p256_scalar C b = Ok () \<Longrightarrow> p256_ecdh C a (p256_public C b) = p256_ecdh C b (p256_public C a)"
  using assms by (simp_all add: kem_ok_def p256_dh_ok_def)

lemma p256_point_length: "kem_ok C \<Longrightarrow> p256_point_ok C p \<Longrightarrow> length p \<noteq> 32"
  by (simp add: kem_ok_def p256_dh_ok_def)

lemma aead_decrypts:
  "kem_ok C \<Longrightarrow> xc_encrypt C k n a m = Some c \<Longrightarrow> xc_decrypt C k n a c = Some m \<and> length c = length m + 16"
  by (auto simp: kem_ok_def aead_ok_def)

lemma aead_encrypts:
  assumes "kem_ok C" and "length k = 32" and "length n = 24" and "length m div 64 < 2 ^ 32 - 1"
  shows "\<exists>c. xc_encrypt C k n a m = Some c"
proof -
  have "xc_encrypt C k n a m \<noteq> None" using assms unfolding kem_ok_def aead_ok_def by blast
  then show ?thesis by blast
qed

lemma length_wrap_kdf [simp]: "kem_ok C \<Longrightarrow> length (wrap_kdf C dh e r) = 32"
  by (simp add: kem_ok_def wrap_kdf_def)

lemma ALG_neq [simp]: "ALG_X25519 \<noteq> ALG_P256" "ALG_P256 \<noteq> ALG_X25519"
  by (simp_all add: ALG_X25519_def ALG_P256_def)

section \<open>Type invariants\<close>

text \<open>The lengths that Rust's array types fix, and scalars the curve library accepts.\<close>

fun wrap_secret_ok :: "share_crypto \<Rightarrow> wrap_secret \<Rightarrow> bool" where
  "wrap_secret_ok C (SecX25519 s) = (length s = 32)"
| "wrap_secret_ok C (SecEd25519Seed s) = (length s = 32)"
| "wrap_secret_ok C (SecP256Scalar s) = (p256_scalar C s = Ok ())"

fun draw_ok :: "share_crypto \<Rightarrow> wrap_public \<Rightarrow> seal_draw \<Rightarrow> bool" where
  "draw_ok C (PubP256 b) r = (length (drawn_nonce r) = 24 \<and> p256_scalar C (drawn_ephemeral r) = Ok ())"
| "draw_ok C pk r = (length (drawn_nonce r) = 24 \<and> length (drawn_ephemeral r) = 32)"

text \<open>A P-256 shared secret may be the point with x-coordinate zero, which the code refuses.\<close>

fun dh_nonzero :: "share_crypto \<Rightarrow> wrap_public \<Rightarrow> seal_draw \<Rightarrow> bool" where
  "dh_nonzero C (PubP256 b) r = (p256_ecdh C (drawn_ephemeral r) b \<noteq> replicate 32 0)"
| "dh_nonzero C pk r = True"

definition wrap_ok :: "share_crypto \<Rightarrow> wrap \<Rightarrow> bool" where
  "wrap_ok C w \<longleftrightarrow> check_points C (wr_alg w) (wr_recipient w) (wr_ephemeral w) \<and>
    length (wr_nonce w) = 24 \<and> length (wr_ciphertext w) < 2 ^ 64"

section \<open>Sealing and opening\<close>

text \<open>The public key of a secret, and the recipient bytes of wraps sealed to it.\<close>

lemma wrap_secret_public_cases:
  assumes "kem_ok C" and "wrap_secret_ok C s"
  shows "wrap_secret_public C s =
    Ok (case s of SecX25519 k \<Rightarrow> PubX25519 (x25519_public C k)
        | SecEd25519Seed k \<Rightarrow> PubEd25519 (ed_public C k)
        | SecP256Scalar k \<Rightarrow> PubP256 (p256_public C k))"
  using assms
  by (cases s) (simp_all add: wrap_x25519_def wrap_ed25519_def ed25519_to_x25519_def wrap_p256_def
      x25519_facts montgomery_facts p256_facts)

definition recipient_of :: "share_crypto \<Rightarrow> wrap_secret \<Rightarrow> bytes" where
  "recipient_of C s = (case s of SecX25519 k \<Rightarrow> x25519_public C k
     | SecEd25519Seed k \<Rightarrow> x25519_public C (ed25519_seed_to_x25519 C k)
     | SecP256Scalar k \<Rightarrow> p256_public C k)"

lemma encapsulation_public_eq:
  assumes "kem_ok C" and "wrap_secret_ok C s"
  shows "encapsulation_public C s = Ok (recipient_of C s)"
  using assms unfolding encapsulation_public_def wrap_secret_public_cases [OF assms]
  by (cases s) (simp_all add: recipient_of_def ed25519_to_x25519_def montgomery_facts)

lemma seal_to_scalar:
  assumes C: "kem_ok C" and k: "length k = 32" and dek: "length dek = 32"
    and pk: "encapsulate_to C pk = Ok \<lparr>enc_alg = ALG_X25519, enc_recipient = x25519_public C k\<rparr>"
    and n: "length (drawn_nonce r) = 24" and e: "length (drawn_ephemeral r) = 32"
  shows "\<exists>w key. seal C r pk dek epoch = Ok w \<and> wr_alg w = ALG_X25519 \<and>
    wr_recipient w = x25519_public C k \<and> wr_epoch w = epoch \<and> wrap_ok C w \<and>
    dh_kdf_x25519 C k (wr_ephemeral w) (wr_recipient w) = Ok key \<and>
    xc_decrypt C key (wr_nonce w) [] (wr_ciphertext w) = Some dek"
proof -
  let ?e = "drawn_ephemeral r"
  let ?key = "wrap_kdf C (x25519_dh C ?e (x25519_public C k)) (x25519_public C ?e) (x25519_public C k)"
  obtain c where c: "xc_encrypt C ?key (drawn_nonce r) [] dek = Some c"
    using aead_encrypts [of C ?key "drawn_nonce r" dek "[]"] C n dek by auto
  note pub = x25519_facts(1,2) [OF C k] x25519_facts(1,2) [OF C e]
  note dh = x25519_facts(4,5) [OF C e k] and sym = x25519_facts(3) [OF C k e]
  let ?w = "\<lparr>wr_alg = ALG_X25519, wr_recipient = x25519_public C k, wr_ephemeral = x25519_public C ?e,
    wr_nonce = drawn_nonce r, wr_ciphertext = c, wr_epoch = epoch\<rparr>"
  have "seal C r pk dek epoch = Ok ?w"
    using c by (simp add: seal_def pk seal_x25519_def pub dh)
  moreover have "dh_kdf_x25519 C k (x25519_public C ?e) (x25519_public C k) = Ok ?key"
    by (simp add: dh_kdf_x25519_def pub dh sym)
  moreover have "wrap_ok C ?w"
    using aead_decrypts [OF C c] dek n by (simp add: wrap_ok_def check_points_def pub)
  ultimately show ?thesis using aead_decrypts [OF C c] by auto
qed

lemma seal_opens:
  assumes C: "kem_ok C" and s: "wrap_secret_ok C s" and pk: "wrap_secret_public C s = Ok pk"
    and r: "draw_ok C pk r" and nz: "dh_nonzero C pk r" and dek: "length dek = 32"
  obtains w where "seal C r pk dek epoch = Ok w" and "open_with C s w = Ok dek"
    and "wr_recipient w = recipient_of C s" and "wr_epoch w = epoch" and "wrap_ok C w"
proof (cases s)
  case (SecX25519 k)
  with s pk r wrap_secret_public_cases [OF C s] have k: "length k = 32"
    and e: "length (drawn_ephemeral r) = 32" and n: "length (drawn_nonce r) = 24"
    and pk: "pk = PubX25519 (x25519_public C k)" by auto
  have "encapsulate_to C pk = Ok \<lparr>enc_alg = ALG_X25519, enc_recipient = x25519_public C k\<rparr>"
    by (simp add: pk)
  from seal_to_scalar [OF C k dek this n e, of epoch] SecX25519 dek show ?thesis
    by (auto simp: open_with_def open_key_def recipient_of_def wrap_ok_def check_points_def intro!: that)
next
  case (SecEd25519Seed seed)
  from SecEd25519Seed s pk r wrap_secret_public_cases [OF C s] have seed: "length seed = 32"
    and e: "length (drawn_ephemeral r) = 32" and n: "length (drawn_nonce r) = 24"
    and pk: "pk = PubEd25519 (ed_public C seed)" by auto
  note k = montgomery_facts [OF C seed]
  have "encapsulate_to C pk = Ok \<lparr>enc_alg = ALG_X25519,
      enc_recipient = x25519_public C (ed25519_seed_to_x25519 C seed)\<rparr>"
    by (simp add: pk ed25519_to_x25519_def k)
  from seal_to_scalar [OF C k(4) dek this n e, of epoch] SecEd25519Seed dek show ?thesis
    by (auto simp: open_with_def open_key_def recipient_of_def wrap_ok_def check_points_def intro!: that)
next
  case (SecP256Scalar k)
  let ?e = "drawn_ephemeral r"
  from SecP256Scalar s pk r nz wrap_secret_public_cases [OF C s] have k: "p256_scalar C k = Ok ()"
    and e: "p256_scalar C ?e = Ok ()" and n: "length (drawn_nonce r) = 24"
    and pk: "pk = PubP256 (p256_public C k)"
    and nz: "p256_ecdh C ?e (p256_public C k) \<noteq> replicate 32 0" by auto
  let ?key = "wrap_kdf C (p256_ecdh C ?e (p256_public C k)) (p256_public C ?e) (p256_public C k)"
  obtain c where c: "xc_encrypt C ?key (drawn_nonce r) [] dek = Some c"
    using aead_encrypts [of C ?key "drawn_nonce r" dek "[]"] C n dek by auto
  have sym: "p256_ecdh C k (p256_public C ?e) = p256_ecdh C ?e (p256_public C k)"
    by (rule p256_facts(3) [OF C k e])
  let ?w = "\<lparr>wr_alg = ALG_P256, wr_recipient = p256_public C k, wr_ephemeral = p256_public C ?e,
    wr_nonce = drawn_nonce r, wr_ciphertext = c, wr_epoch = epoch\<rparr>"
  note pub = p256_facts(1,2) [OF C k] p256_facts(1,2) [OF C e]
  show ?thesis
  proof (rule that [of ?w])
    show "seal C r pk dek epoch = Ok ?w"
      using c nz by (simp add: seal_def seal_p256_def pk pub)
    show "open_with C s ?w = Ok dek"
      using aead_decrypts [OF C c] dek nz k
      by (simp add: open_with_def open_key_def dh_kdf_p256_def SecP256Scalar pub sym)
    show "wrap_ok C ?w"
      using aead_decrypts [OF C c] dek n by (simp add: wrap_ok_def check_points_def pub)
  qed (simp_all add: recipient_of_def SecP256Scalar)
qed

text \<open>
  The same for an arbitrary target: whatever it is, a sealed wrap opens for every secret whose
  encapsulation key is the wrap's recipient.
\<close>

lemma length_recipient_of:
  assumes "kem_ok C" and "wrap_secret_ok C s"
  shows "length (recipient_of C s) = (case s of SecP256Scalar k \<Rightarrow> 33 | _ \<Rightarrow> 32)"
  using assms by (cases s) (simp_all add: recipient_of_def x25519_facts montgomery_facts p256_facts)

lemma draw_ok_alg:
  assumes "draw_ok C t r" and "encapsulate_to C t = Ok e"
  shows "length (drawn_nonce r) = 24"
    and "enc_alg e = ALG_X25519 \<Longrightarrow> length (drawn_ephemeral r) = 32"
    and "enc_alg e = ALG_P256 \<Longrightarrow> p256_scalar C (drawn_ephemeral r) = Ok ()"
    and "enc_alg e = ALG_X25519 \<or> enc_alg e = ALG_P256"
  using assms by (cases t; auto simp: bind_Ok_iff)+

lemma seal_x25519_Ok:
  assumes "encapsulate_to C t = Ok e" and "enc_alg e = ALG_X25519" and "seal C r t dek epoch = Ok w"
  shows "length (enc_recipient e) = 32" and "\<not> is_small_order (enc_recipient e)"
    and "wr_alg w = ALG_X25519" and "wr_recipient w = enc_recipient e" and "wr_epoch w = epoch"
    and "wr_ephemeral w = x25519_public C (drawn_ephemeral r)" and "wr_nonce w = drawn_nonce r"
    and "\<exists>key. xc_encrypt C key (drawn_nonce r) [] dek = Some (wr_ciphertext w)"
  using assms by (auto simp: seal_def seal_x25519_def Let_def result_simps split: if_splits)

lemma seal_p256_Ok:
  assumes "encapsulate_to C t = Ok e" and "enc_alg e = ALG_P256" and "seal C r t dek epoch = Ok w"
  shows "p256_point_ok C (enc_recipient e)" and "wr_alg w = ALG_P256"
    and "wr_recipient w = enc_recipient e" and "wr_epoch w = epoch"
    and "wr_ephemeral w = p256_public C (drawn_ephemeral r)" and "wr_nonce w = drawn_nonce r"
    and "p256_ecdh C (drawn_ephemeral r) (enc_recipient e) \<noteq> replicate 32 0"
    and "xc_encrypt C (wrap_kdf C (p256_ecdh C (drawn_ephemeral r) (enc_recipient e)) (wr_ephemeral w)
      (wr_recipient w)) (drawn_nonce r) [] dek = Some (wr_ciphertext w)"
  using assms by (auto simp: seal_def seal_p256_def Let_def result_simps split: if_splits)

fun wrap_public_ok :: "wrap_public \<Rightarrow> bool" where
  "wrap_public_ok (PubX25519 b) = (length b = 32)"
| "wrap_public_ok (PubEd25519 b) = (length b = 32)"
| "wrap_public_ok (PubP256 b) = (length b = 33)"

lemma seal_Ok_wrap_ok:
  assumes C: "kem_ok C" and t: "wrap_public_ok t" and r: "draw_ok C t r" and dek: "length dek = 32"
    and w: "seal C r t dek epoch = Ok w"
  obtains e where "encapsulate_to C t = Ok e" and "wr_alg w = enc_alg e"
    and "wr_recipient w = enc_recipient e" and "wr_epoch w = epoch" and "wrap_ok C w"
proof -
  obtain e where e: "encapsulate_to C t = Ok e" using w by (auto simp: seal_def bind_Ok_iff)
  note d = draw_ok_alg [OF r e]
  consider "enc_alg e = ALG_X25519" | "enc_alg e = ALG_P256" using d(4) by blast
  then show ?thesis
  proof cases
    case 1
    note s = seal_x25519_Ok [OF e 1 w]
    have "length (wr_ciphertext w) = 48" using s(8) aead_decrypts [OF C] dek by fastforce
    then have "wrap_ok C w"
      using s(1-7) d(1) x25519_facts(1,2) [OF C d(2) [OF 1]] by (simp add: wrap_ok_def check_points_def)
    with that [OF e] s 1 show ?thesis by simp
  next
    case 2
    note s = seal_p256_Ok [OF e 2 w]
    have "length (wr_ciphertext w) = 48" using aead_decrypts [OF C s(8)] dek by simp
    moreover have "length (enc_recipient e) = 33"
      using e t 2 by (cases t) (auto simp: bind_Ok_iff)
    ultimately have "wrap_ok C w"
      using s(1-7) d(1) p256_facts(1,2) [OF C d(3) [OF 2]] by (simp add: wrap_ok_def check_points_def)
    with that [OF e] s 2 show ?thesis by simp
  qed
qed

lemma seal_Ok_opens:
  assumes C: "kem_ok C" and s: "wrap_secret_ok C s" and r: "draw_ok C t r" and dek: "length dek = 32"
    and w: "seal C r t dek epoch = Ok w" and rec: "wr_recipient w = recipient_of C s"
  shows "open_with C s w = Ok dek"
proof -
  obtain e where e: "encapsulate_to C t = Ok e" using w by (auto simp: seal_def bind_Ok_iff)
  note d = draw_ok_alg [OF r e]
  consider "enc_alg e = ALG_X25519" | "enc_alg e = ALG_P256" using d(4) by blast
  then show ?thesis
  proof cases
    case 1
    note sx = seal_x25519_Ok [OF e 1 w]
    have "length (recipient_of C s) = 32" using sx(1,4) rec by simp
    then obtain k where k: "length k = 32" "recipient_of C s = x25519_public C k"
      and op: "open_key C s w = dh_kdf_x25519 C k (wr_ephemeral w) (wr_recipient w)"
      using s sx(1,3,4,6) x25519_facts(1) [OF C d(2) [OF 1]] montgomery_facts(4) [OF C]
        length_recipient_of [OF C s]
      by (cases s) (auto simp: recipient_of_def open_key_def)
    have "encapsulate_to C t = Ok \<lparr>enc_alg = ALG_X25519, enc_recipient = x25519_public C k\<rparr>"
      using e 1 sx(4) rec k(2) by (cases e) simp
    from seal_to_scalar [OF C k(1) dek this d(1) d(2) [OF 1], of epoch] w dek op show ?thesis
      by (auto simp: open_with_def)
  next
    case 2
    note sp = seal_p256_Ok [OF e 2 w]
    have "length (recipient_of C s) \<noteq> 32" using p256_point_length [OF C sp(1)] sp(3) rec by simp
    then obtain k where sk: "s = SecP256Scalar k" and k: "p256_scalar C k = Ok ()"
      using s length_recipient_of [OF C s] by (cases s) auto
    have "enc_recipient e = p256_public C k" using rec sp(3) by (simp add: sk recipient_of_def)
    with sp(7,8) p256_facts(3) [OF C k d(3) [OF 2]] p256_facts(2) [OF C d(3) [OF 2]] k sp(2,3,5,6)
      aead_decrypts [OF C sp(8)] dek show ?thesis
      by (simp add: open_with_def open_key_def sk dh_kdf_p256_def)
  qed
qed

section \<open>Wire form\<close>

lemma wrap_fields_ok: "ext_ok E \<Longrightarrow> fields_ok E (wrap_fields w x)"
  by (simp add: fields_ok_def wrap_fields_def text_ok_ascii)

lemma check_points_alg: "check_points C alg a b \<Longrightarrow> alg = ALG_X25519 \<or> alg = ALG_P256"
  by (auto simp: check_points_def split: if_splits)

lemma text_ok_alg: "ext_ok E \<Longrightarrow> text_ok E ALG_X25519 \<and> text_ok E ALG_P256"
  by (simp add: text_ok_ascii ALG_X25519_def ALG_P256_def)

lemma check_points_length:
  "check_points C alg a b \<Longrightarrow> length a \<le> 33 \<and> length b \<le> 33"
  by (auto simp: check_points_def split: if_splits)

lemma wf_wrap_fields:
  assumes "ext_ok E" and "wrap_ok C w" and "wf_dcbor E x"
  shows "wf_dcbor E (DMap (insert_all E (wrap_fields w x)))"
proof (rule wf_insert_all [OF wrap_fields_ok [OF assms(1)]])
  have "text_ok E (wr_alg w)"
    using assms(1,2) check_points_alg text_ok_alg by (force simp: wrap_ok_def)
  moreover have "length (wr_recipient w) < 2 ^ 64" "length (wr_ephemeral w) < 2 ^ 64"
    using assms(2) check_points_length by (force simp: wrap_ok_def)+
  ultimately show "wf_dcbor E v" if "(k, v) \<in> set (wrap_fields w x)" for k v
    using assms(2,3) that by (auto simp: wrap_fields_def wrap_ok_def)
qed (simp add: wrap_fields_def)

text \<open>The map that \<open>parse_wrap\<close> reads, with its epoch as \<open>try_u64\<close> sees it.\<close>

lemma parse_wrap_fields:
  assumes E: "ext_ok E" and w: "wrap_ok C w" and x: "try_u64 x = Ok (wr_epoch w)" and wf: "wf_dcbor E x"
  shows "parse_wrap C E (to_cbor_data E (DMap (insert_all E (wrap_fields w x)))) = Ok w"
proof -
  note ext = map_extract_insert_all [OF wrap_fields_ok [OF E] text_ok_ascii [OF E]]
  have alg: "wr_alg w = ALG_X25519 \<or> wr_alg w = ALG_P256"
    using w by (auto simp: wrap_ok_def dest: check_points_alg)
  have len: "length (insert_all E (wrap_fields w x)) = 6"
    by (simp add: insert_all_fields(2) [OF wrap_fields_ok [OF E]]) (simp add: wrap_fields_def)
  show ?thesis
    using w alg x
    unfolding parse_wrap_def try_from_data_encoded [OF wf_wrap_fields [OF E w wf]] bind.simps map_err.simps
    by (simp add: len ext wrap_ok_def del: to_cbor_data.simps) (simp add: wrap_fields_def)
qed

lemma parse_wrap_to_cbor: "ext_ok E \<Longrightarrow> wrap_ok C w \<Longrightarrow> parse_wrap C E (wrap_to_cbor E w) = Ok w"
  unfolding wrap_to_cbor_def by (rule parse_wrap_fields) simp_all

interpretation wrap_wire: wire_codec "wrap_to_cbor E" "parse_wrap C E" "\<lambda>w. ext_ok E \<and> wrap_ok C w" for C E
  by unfold_locales (simp add: parse_wrap_to_cbor)

lemma parse_wrap_sound:
  assumes E: "ext_ok E" and len: "length (wr_ciphertext w) < 2 ^ 64" and p: "parse_wrap C E b = Ok w"
  shows "wrap_ok C w \<and> (\<exists>x. (x = DUnsigned (wr_epoch w) \<or> x = DNegative (- 1 - wr_epoch w)) \<and>
    b = to_cbor_data E (DMap (insert_all E (wrap_fields w x))))"
proof -
  from p obtain m x where d: "try_from_data E b = Ok (DMap m)" and b: "to_cbor_data E (DMap m) = b"
    and m: "length m = 6"
    and look: "map_lookup E m (DText ''alg'') = Some (DText (wr_alg w))"
      "map_lookup E m (DText ''recipient'') = Some (DBytes (wr_recipient w))"
      "map_lookup E m (DText ''ephemeral'') = Some (DBytes (wr_ephemeral w))"
      "map_lookup E m (DText ''nonce'') = Some (DBytes (wr_nonce w))"
      "map_lookup E m (DText ''ciphertext'') = Some (DBytes (wr_ciphertext w))"
      "map_lookup E m (DText ''epoch'') = Some x"
    and x: "try_u64 x = Ok (wr_epoch w)"
    and ok: "length (wr_nonce w) = 24" "check_points C (wr_alg w) (wr_recipient w) (wr_ephemeral w)"
    by (auto simp: parse_wrap_def result_simps try_Ok_iffs(1,2,5) simp del: to_cbor_data.simps)
  have "to_cbor_data E (DMap m) = to_cbor_data E (DMap (insert_all E (wrap_fields w x)))"
    using decode_map_keys_sorted [OF d] wrap_fields_ok [OF E] m look
    by (intro map_determined) (auto simp: wrap_fields_def)
  with b x ok len show ?thesis by (auto simp: wrap_ok_def try_Ok_iffs)
qed

section \<open>A concrete instance\<close>

text \<open>Primitives without security that satisfy the hypotheses, and an ASCII-only Unicode library.\<close>

lemma map2_commute_plus: "map2 (+) xs ys = map2 (+) ys (xs :: u8 list)"
proof (induction xs arbitrary: ys)
  case (Cons x xs)
  then show ?case by (cases ys) (auto simp: add.commute)
qed simp

definition toy_mix :: "bytes \<Rightarrow> bytes \<Rightarrow> bytes" where
  "toy_mix a b = 1 # map2 (+) (tl a) (tl b)"

definition toy_hash :: "bytes \<Rightarrow> bytes" where
  "toy_hash m = take 32 (drop 33 m @ replicate 32 0)"

lemma length_toy_hash [simp]: "length (toy_hash m) = 32"
  by (simp add: toy_hash_def)

definition toy_share :: share_crypto where
  "toy_share = crypto.extend (toy_crypto\<lparr>blake3 := toy_hash\<rparr>) \<lparr>
    x25519_public = (\<lambda>a. 2 # tl a),
    x25519_dh = toy_mix,
    was_contributory = (\<lambda>_. True),
    ed_to_montgomery = (\<lambda>pk. 2 # tl pk),
    sha512 = (\<lambda>m. m @ m),
    p256_point_ok = (\<lambda>p. length p = 33),
    p256_ecdh = (\<lambda>a p. toy_mix a (tl p)),
    xc_encrypt = (\<lambda>k n a m. Some (m @ toy_tag 16 k n)),
    xc_decrypt = (\<lambda>k n a c. if length c \<ge> 16 \<and> drop (length c - 16) c = toy_tag 16 k n
      then Some (take (length c - 16) c) else None),
    mldsa_keygen = (\<lambda>a r. Some (toy_tag (mldsa_pk_len toy_crypto a) r [], toy_tag (mldsa_pk_len toy_crypto a) r [])),
    mldsa_try_sign = (\<lambda>a r sk m. Some (toy_tag (mldsa_sig_len toy_crypto a) sk m))\<rparr>"

lemma toy_mix_nonzero [simp]: "toy_mix a b \<noteq> replicate 32 0"
  by (simp add: toy_mix_def numeral_eq_Suc)

lemma toy_mix_commute: "toy_mix a b = toy_mix b a"
  by (simp add: toy_mix_def map2_commute_plus)

lemma toy_share_simps [simp]:
  "blake3 toy_share m = toy_hash m"
  "ed_public toy_share = id"
  "ed_sign toy_share = toy_tag 64"
  "ed_key_ok toy_share pk = (length pk = 32)"
  "ed_verify_strict toy_share pk m s = (s = toy_tag 64 pk m)"
  "p256_scalar toy_share sk = (if length sk = 32 then Ok () else Err ''length'')"
  "p256_public toy_share sk = 2 # sk"
  "x25519_public toy_share a = 2 # tl a"
  "x25519_dh toy_share = toy_mix"
  "was_contributory toy_share b"
  "ed_to_montgomery toy_share pk = 2 # tl pk"
  "sha512 toy_share m = m @ m"
  "p256_point_ok toy_share p = (length p = 33)"
  "p256_ecdh toy_share a p = toy_mix a (tl p)"
  "xc_encrypt toy_share k n a m = Some (m @ toy_tag 16 k n)"
  "xc_decrypt toy_share k n a c = (if length c \<ge> 16 \<and> drop (length c - 16) c = toy_tag 16 k n
      then Some (take (length c - 16) c) else None)"
  "mldsa_keygen toy_share alg r = Some (toy_tag (mldsa_pk_len toy_crypto alg) r [], toy_tag (mldsa_pk_len toy_crypto alg) r [])"
  "mldsa_try_sign toy_share alg r sk m = Some (toy_tag (mldsa_sig_len toy_crypto alg) sk m)"
  "mldsa_pk_len toy_share = mldsa_pk_len toy_crypto"
  "mldsa_sig_len toy_share = mldsa_sig_len toy_crypto"
  "mldsa_key toy_share alg pk = Ok ()"
  "mldsa_verify toy_share alg pk m s = (s = toy_tag (mldsa_sig_len toy_crypto alg) pk m)"
  by (simp_all add: toy_share_def crypto.defs toy_crypto_def)

lemma toy_kem_ok [simp]: "kem_ok toy_share"
proof -
  have small: "\<not> is_small_order (2 # b)" for b
  proof -
    have "list_all (\<lambda>p. hd p \<noteq> 2) SMALL_ORDER" by (simp add: SMALL_ORDER_def hd_append)
    then show ?thesis by (auto simp: is_small_order_def list_ex_iff list_all_iff)
  qed
  have mix: "toy_mix a (2 # tl b) = toy_mix b (2 # tl a)" for a b
    using toy_mix_commute [of a b] by (simp add: toy_mix_def)
  have "x25519_ok toy_share"
    using small mix by (auto simp: x25519_ok_def)
  moreover have "montgomery_ok toy_share"
    by (simp add: montgomery_ok_def)
  moreover have "p256_dh_ok toy_share"
    using toy_mix_commute by (auto simp: p256_dh_ok_def split: if_splits)
  moreover have "aead_ok toy_share"
    by (auto simp: aead_ok_def)
  ultimately show ?thesis by (auto simp: kem_ok_def)
qed

section \<open>Properties\<close>

text \<open>
  C16. A key wrapped to the public key of a secret is returned by unwrapping with that secret, for
  X25519, Ed25519 and P-256 secrets alike: \<open>wrap_key\<close> succeeds and \<open>unwrap_key\<close> inverts it.
\<close>

theorem unwrap_after_wrap:
  assumes "kem_ok C" and "ext_ok E" and "wrap_secret_ok C s" and "wrap_secret_public C s = Ok pk"
    and "draw_ok C pk r" and "dh_nonzero C pk r" and "length dek = 32"
  shows "\<exists>b. wrap_key C E r pk dek epoch = Ok b \<and> unwrap_key C E s b = Ok dek"
proof -
  obtain w where w: "seal C r pk dek epoch = Ok w" "open_with C s w = Ok dek"
    "wr_recipient w = recipient_of C s" "wrap_ok C w"
    by (rule seal_opens [OF assms(1,3,4,5,6,7), where epoch = epoch])
  then show ?thesis
    by (simp add: wrap_key_def unwrap_key_def parse_wrap_to_cbor [OF assms(2)]
        encapsulation_public_eq [OF assms(1,3)])
qed

definition demo_draw :: seal_draw where
  "demo_draw = \<lparr>drawn_nonce = replicate 24 5, drawn_ephemeral = replicate 32 6\<rparr>"

lemma toy_secret_public [simp]:
  "wrap_secret_public toy_share (SecEd25519Seed (replicate 32 n)) = Ok (PubEd25519 (replicate 32 n))"
  "wrap_secret_public toy_share (SecP256Scalar (replicate 32 n)) = Ok (PubP256 (2 # replicate 32 n))"
  by (subst wrap_secret_public_cases; simp)+

lemma demo_draw_ok [simp]: "draw_ok toy_share pk demo_draw" "dh_nonzero toy_share pk demo_draw"
  by (cases pk; simp add: demo_draw_def toy_mix_def numeral_eq_Suc)+

theorem unwrap_after_wrap_witness:
  "\<exists>b. wrap_key toy_share ascii_ext demo_draw (PubP256 (2 # replicate 32 4)) (replicate 32 7) 9 = Ok b \<and>
    unwrap_key toy_share ascii_ext (SecP256Scalar (replicate 32 4)) b = Ok (replicate 32 7)"
  using unwrap_after_wrap [OF toy_kem_ok ascii_ext_ok _ toy_secret_public(2) demo_draw_ok, of 4 "replicate 32 7" 9]
  by simp

text \<open>
  Rewrapping hands the key on: if \<open>alice\<close> can unwrap, the rewrapped bytes open to the same key
  for \<open>bob\<close>, and no longer for \<open>alice\<close> unless both secrets have the same encapsulation key.
\<close>

lemma rewrap_hands_over:
  assumes "kem_ok C" and "ext_ok E" and "wrap_secret_ok C alice" and "wrap_secret_ok C bob"
    and "wrap_secret_public C bob = Ok pk" and "draw_ok C pk r" and "dh_nonzero C pk r"
    and "unwrap_key C E alice b = Ok dek"
  shows "\<exists>b'. rewrap_key C E r alice b pk epoch = Ok b' \<and> unwrap_key C E bob b' = Ok dek \<and>
    (encapsulation_public C alice \<noteq> encapsulation_public C bob \<longrightarrow> unwrap_key C E alice b' = Err WrapError)"
proof -
  have "length dek = 32"
    using assms(8) by (auto simp: unwrap_key_def open_with_def result_simps split: if_splits)
  then obtain w where w: "seal C r pk dek epoch = Ok w" "open_with C bob w = Ok dek"
    "wr_recipient w = recipient_of C bob" "wrap_ok C w"
    by (rule seal_opens [OF assms(1,4,5,6,7), where epoch = epoch])
  then show ?thesis using assms(8)
    by (simp add: rewrap_key_def wrap_key_def unwrap_key_def [of C E _ "wrap_to_cbor E w"]
        parse_wrap_to_cbor [OF assms(2)] encapsulation_public_eq [OF assms(1,3)]
        encapsulation_public_eq [OF assms(1,4)])
qed

definition demo_wrap :: wrap where
  "demo_wrap = \<lparr>wr_alg = ALG_X25519, wr_recipient = 2 # replicate 31 3, wr_ephemeral = 2 # replicate 31 6,
    wr_nonce = replicate 24 5,
    wr_ciphertext = replicate 32 7 @ toy_tag 16 (wrap_kdf toy_share (toy_mix (replicate 32 6) (2 # replicate 31 3))
      (2 # replicate 31 6) (2 # replicate 31 3)) (replicate 24 5),
    wr_epoch = 9\<rparr>"

lemma toy_not_small [simp]: "\<not> is_small_order (2 # replicate 31 n)"
  using toy_kem_ok x25519_facts(2) [of toy_share "replicate 32 n"] by simp

lemma demo_wrap_ok [simp]: "wrap_ok toy_share demo_wrap"
  by (simp add: wrap_ok_def demo_wrap_def check_points_def)

lemma toy_mix_replicate: "toy_mix (replicate 32 a) (2 # replicate 31 b) = 1 # replicate 31 (a + b)"
  by (simp add: toy_mix_def zip_replicate)

lemma demo_wrap_opens: "unwrap_key toy_share ascii_ext (SecEd25519Seed (replicate 32 3)) (wrap_to_cbor ascii_ext demo_wrap) =
  Ok (replicate 32 7)"
proof -
  have "toy_mix (replicate 32 3) (2 # replicate 31 6) = toy_mix (replicate 32 6) (2 # replicate 31 3)"
    by (simp add: toy_mix_replicate)
  then have "open_with toy_share (SecEd25519Seed (replicate 32 3)) demo_wrap = Ok (replicate 32 7)"
    by (simp add: open_with_def open_key_def dh_kdf_x25519_def ed25519_seed_to_x25519_def demo_wrap_def)
  moreover have "wr_recipient demo_wrap = 2 # replicate 31 3" by (simp add: demo_wrap_def)
  ultimately show ?thesis
    by (simp add: unwrap_key_def parse_wrap_to_cbor encapsulation_public_eq recipient_of_def
        ed25519_seed_to_x25519_def)
qed

lemma rewrap_hands_over_witness:
  "\<exists>b'. rewrap_key toy_share ascii_ext demo_draw (SecEd25519Seed (replicate 32 3))
      (wrap_to_cbor ascii_ext demo_wrap) (PubP256 (2 # replicate 32 4)) 10 = Ok b' \<and>
    unwrap_key toy_share ascii_ext (SecP256Scalar (replicate 32 4)) b' = Ok (replicate 32 7) \<and>
    unwrap_key toy_share ascii_ext (SecEd25519Seed (replicate 32 3)) b' = Err WrapError"
proof -
  let ?alice = "SecEd25519Seed (replicate 32 3)" and ?bob = "SecP256Scalar (replicate 32 4)"
  have "encapsulation_public toy_share ?alice \<noteq> encapsulation_public toy_share ?bob"
    by (simp add: encapsulation_public_eq recipient_of_def ed25519_seed_to_x25519_def numeral_eq_Suc)
  then show ?thesis
    using rewrap_hands_over [of toy_share ascii_ext ?alice ?bob "PubP256 (2 # replicate 32 4)" demo_draw
        "wrap_to_cbor ascii_ext demo_wrap" "replicate 32 7" 10, OF toy_kem_ok ascii_ext_ok _ _
        toy_secret_public(2) demo_draw_ok demo_wrap_opens]
    by simp
qed

text \<open>
  C32. \<open>parse_wrap\<close> accepts exactly two byte strings per wrap: its canonical encoding, and the one in
  which the epoch \<open>e\<close> is written as the negative integer that wraps around to \<open>e\<close>. The wrap read is
  well formed: its points have the right length and are not of small order or off the curve.
\<close>

theorem parse_wrap_exact:
  assumes "ext_ok E"
  shows "parse_wrap C E b = Ok w \<and> length (wr_ciphertext w) < 2 ^ 64 \<longleftrightarrow> wrap_ok C w \<and>
    (b = wrap_to_cbor E w \<or>
     b = to_cbor_data E (DMap (insert_all E (wrap_fields w (DNegative (- 1 - wr_epoch w))))))"
    (is "?l \<longleftrightarrow> ?r")
proof
  assume ?l
  with parse_wrap_sound [OF assms] show ?r unfolding wrap_to_cbor_def by blast
next
  assume ?r
  then have "wrap_ok C w" by blast
  with \<open>?r\<close> parse_wrap_to_cbor [OF assms, of C w]
    parse_wrap_fields [OF assms, of C w "DNegative (- 1 - wr_epoch w)"]
  show ?l by (auto simp: wrap_ok_def simp del: to_cbor_data.simps)
qed

theorem parse_wrap_exact_witness:
  "parse_wrap toy_share ascii_ext (wrap_to_cbor ascii_ext demo_wrap) = Ok demo_wrap \<and>
   parse_wrap toy_share ascii_ext
     (to_cbor_data ascii_ext (DMap (insert_all ascii_ext (wrap_fields demo_wrap (DNegative (- 10)))))) = Ok demo_wrap"
proof -
  have "wr_epoch demo_wrap = 9" by (simp add: demo_wrap_def)
  then show ?thesis
    using parse_wrap_exact [OF ascii_ext_ok, of toy_share "wrap_to_cbor ascii_ext demo_wrap" demo_wrap]
      parse_wrap_exact [OF ascii_ext_ok, of toy_share
        "to_cbor_data ascii_ext (DMap (insert_all ascii_ext (wrap_fields demo_wrap (DNegative (- 10)))))" demo_wrap]
    by (simp del: to_cbor_data.simps)
qed

text \<open>
  The two encodings differ, so a wrap is malleable: bytes that are not the output of \<open>to_cbor\<close>
  parse to the same wrap, although both parser checks demand canonical CBOR.
\<close>

lemma wrap_encoding_malleable:
  assumes "ext_ok E" and "wrap_ok C w"
  shows "\<exists>b. b \<noteq> wrap_to_cbor E w \<and> parse_wrap C E b = Ok w"
proof -
  let ?neg = "DNegative (- 1 - wr_epoch w)"
  let ?m = "\<lambda>x. DMap (insert_all E (wrap_fields w x))"
  have wf: "wf_dcbor E (?m (DUnsigned (wr_epoch w)))" "wf_dcbor E (?m ?neg)"
    by (rule wf_wrap_fields [OF assms], simp)+
  have "map_lookup E (insert_all E (wrap_fields w x)) (DText ''epoch'') = Some x" for x
    by (simp add: lookup_insert_all [OF wrap_fields_ok [OF assms(1)] text_ok_ascii [OF assms(1)]])
       (simp add: wrap_fields_def)
  from this [of ?neg] this [of "DUnsigned (wr_epoch w)"] have "?m ?neg \<noteq> ?m (DUnsigned (wr_epoch w))" by auto
  then have "to_cbor_data E (?m ?neg) \<noteq> wrap_to_cbor E w"
    unfolding wrap_to_cbor_def using to_cbor_data_inj [OF wf(2,1)] by blast
  moreover have "parse_wrap C E (to_cbor_data E (?m ?neg)) = Ok w"
    by (rule parse_wrap_fields [OF assms]) simp_all
  ultimately show ?thesis by blast
qed

lemma wrap_encoding_malleable_witness:
  "\<exists>b. b \<noteq> wrap_to_cbor ascii_ext demo_wrap \<and> parse_wrap toy_share ascii_ext b = Ok demo_wrap"
  by (rule wrap_encoding_malleable [OF ascii_ext_ok demo_wrap_ok])

end
