(* ===== verification/Share.thy ===== *)
theory Share
  imports Wrap_Laws
begin

text \<open>
  Shares of \<open>identikey-share\<close> (\<open>recrypt.rs\<close>, \<open>share.rs\<close>): a payload encrypted under one data key,
  one wrap of that key per direct recipient and one proxy-re-encryption capsule per Recrypt
  recipient. A Recrypt backend is an implementation of a trait that the caller supplies, so it is a
  record of functions. Functions of the source whose every path is \<open>Ok\<close> return the value itself.
\<close>

section \<open>Recrypt capsules\<close>

record recrypt_public =
  rp_backend :: string
  rp_key :: bytes

record recrypt_capsule =
  rc_backend :: string
  rc_recipient :: bytes
  rc_ciphertext :: bytes

record recrypt_kem =
  kem_encapsulate :: "string \<Rightarrow> bytes \<Rightarrow> bytes \<Rightarrow> (share_error, bytes) result"
  kem_decapsulate :: "string \<Rightarrow> bytes \<Rightarrow> bytes \<Rightarrow> (share_error, bytes) result"
  kem_transform :: "string \<Rightarrow> bytes \<Rightarrow> bytes \<Rightarrow> (share_error, bytes) result"

definition recrypt_public_new :: "string \<Rightarrow> bytes \<Rightarrow> (share_error, recrypt_public) result" where
  "recrypt_public_new backend key =
    (if backend = [] \<or> key = [] then Err RecryptError
     else Ok \<lparr>rp_backend = backend, rp_key = key\<rparr>)"

definition nop_kem :: recrypt_kem where
  "nop_kem = \<lparr>kem_encapsulate = (\<lambda>_ _ _. Err RecryptError), kem_decapsulate = (\<lambda>_ _ _. Err RecryptError),
    kem_transform = (\<lambda>_ _ _. Err RecryptError)\<rparr>"

section \<open>Shares\<close>

definition PAYLOAD_ALG :: string where
  "PAYLOAD_ALG = ''xchacha20poly1305''"

definition PAYLOAD_AAD :: bytes where
  "PAYLOAD_AAD = str_bytes ''identikey-share-v1-payload''"

definition CONTENT_DOMAIN :: bytes where
  "CONTENT_DOMAIN = str_bytes (''identikey-share-v1-content'' @ [CHR 0x0A])"

definition ACCESS_DOMAIN :: bytes where
  "ACCESS_DOMAIN = str_bytes (''identikey-share-v1-access'' @ [CHR 0x0A])"

record share =
  sh_epoch :: u64
  sh_nonce :: bytes
  sh_ciphertext :: bytes
  sh_wraps :: "wrap list"
  sh_targets :: "wrap_public list"
  sh_recrypt :: "recrypt_capsule list"

definition encrypt_payload :: "share_crypto \<Rightarrow> bytes \<Rightarrow> bytes \<Rightarrow> bytes \<Rightarrow> (share_error, bytes) result" where
  "encrypt_payload C dek nonce plaintext = ok_or (xc_encrypt C dek nonce PAYLOAD_AAD plaintext) PayloadError"

definition decrypt_payload :: "share_crypto \<Rightarrow> bytes \<Rightarrow> bytes \<Rightarrow> bytes \<Rightarrow> (share_error, bytes) result" where
  "decrypt_payload C dek nonce ciphertext = ok_or (xc_decrypt C dek nonce PAYLOAD_AAD ciphertext) PayloadError"

text \<open>The loop over the recipients, with the vector \<open>seen\<close>.\<close>

primrec reject_direct ::
    "share_crypto \<Rightarrow> wrap_public list \<Rightarrow> bytes list \<Rightarrow> wrap_public list \<Rightarrow> (share_error, unit) result" where
  "reject_direct C recipients seen [] = Ok ()"
| "reject_direct C recipients seen (r # rs) =
    bind (encapsulate_to C r) (\<lambda>enc.
      if enc_recipient enc \<in> set seen \<or> length (filter (\<lambda>x. x = r) recipients) > 1
      then Err DuplicateRecipient
      else reject_direct C recipients (seen @ [enc_recipient enc]) rs)"

definition reject_duplicate_direct :: "share_crypto \<Rightarrow> wrap_public list \<Rightarrow> (share_error, unit) result" where
  "reject_duplicate_direct C recipients = reject_direct C recipients [] recipients"

primrec reject_duplicate_recrypt :: "recrypt_public list \<Rightarrow> (share_error, unit) result" where
  "reject_duplicate_recrypt [] = Ok ()"
| "reject_duplicate_recrypt (r # rs) =
    (if list_ex (\<lambda>q. rp_backend q = rp_backend r \<and> rp_key q = rp_key r) rs then Err DuplicateRecipient
     else reject_duplicate_recrypt rs)"

text \<open>The sealing loops. The \<open>i\<close>-th call of \<open>wrap::seal\<close> draws \<open>draws i\<close>.\<close>

definition seal_all ::
    "share_crypto \<Rightarrow> (nat \<Rightarrow> seal_draw) \<Rightarrow> bytes \<Rightarrow> u64 \<Rightarrow> wrap_public list \<Rightarrow> (share_error, wrap list) result" where
  "seal_all C draws dek epoch recipients =
    collect (\<lambda>(i, recipient). seal C (draws i) recipient dek epoch) (enumerate 0 recipients)"

definition seal_capsules ::
    "recrypt_kem \<Rightarrow> bytes \<Rightarrow> recrypt_public list \<Rightarrow> (share_error, recrypt_capsule list) result" where
  "seal_capsules kem dek recrypt =
    collect (\<lambda>r. bind (kem_encapsulate kem (rp_backend r) (rp_key r) dek) (\<lambda>capsule.
      if capsule = [] then Err RecryptError
      else Ok \<lparr>rc_backend = rp_backend r, rc_recipient = rp_key r, rc_ciphertext = capsule\<rparr>)) recrypt"

record share_draw =
  drawn_dek :: bytes
  drawn_payload_nonce :: bytes
  drawn_wraps :: "nat \<Rightarrow> seal_draw"

definition seal_mixed ::
    "share_crypto \<Rightarrow> share_draw \<Rightarrow> bytes \<Rightarrow> wrap_public list \<Rightarrow> recrypt_public list \<Rightarrow> recrypt_kem \<Rightarrow> u64 \<Rightarrow>
     (share_error, share) result" where
  "seal_mixed C r plaintext recipients recrypt kem epoch =
    (if recipients = [] \<and> recrypt = [] then Err EmptyRecipients
     else bind (reject_duplicate_direct C recipients) (\<lambda>_.
       bind (reject_duplicate_recrypt recrypt) (\<lambda>_.
       let dek = drawn_dek r; nonce = drawn_payload_nonce r in
       bind (encrypt_payload C dek nonce plaintext) (\<lambda>ciphertext.
       bind (seal_all C (drawn_wraps r) dek epoch recipients) (\<lambda>wraps.
       bind (seal_capsules kem dek recrypt) (\<lambda>capsules.
       Ok \<lparr>sh_epoch = epoch, sh_nonce = nonce, sh_ciphertext = ciphertext, sh_wraps = wraps,
           sh_targets = recipients, sh_recrypt = capsules\<rparr>))))))"

definition share_seal ::
    "share_crypto \<Rightarrow> share_draw \<Rightarrow> bytes \<Rightarrow> wrap_public list \<Rightarrow> u64 \<Rightarrow> (share_error, share) result" where
  "share_seal C r plaintext recipients epoch = seal_mixed C r plaintext recipients [] nop_kem epoch"

text \<open>Both openers take the first wrap whose recipient is the secret's encapsulation key.\<close>

definition share_open :: "share_crypto \<Rightarrow> share \<Rightarrow> wrap_secret \<Rightarrow> (share_error, bytes) result" where
  "share_open C s secret =
    bind (wrap_secret_public C secret) (\<lambda>pk.
    bind (encapsulate_to C pk) (\<lambda>enc.
    case find (\<lambda>w. wr_recipient w = enc_recipient enc) (sh_wraps s) of
      None \<Rightarrow> Err NoMatchingWrap
    | Some w \<Rightarrow> bind (open_with C secret w) (\<lambda>dek. decrypt_payload C dek (sh_nonce s) (sh_ciphertext s))))"

definition open_dek :: "share_crypto \<Rightarrow> share \<Rightarrow> wrap_secret \<Rightarrow> (share_error, bytes) result" where
  "open_dek C s opener =
    bind (wrap_secret_public C opener) (\<lambda>pk.
    bind (encapsulate_to C pk) (\<lambda>enc.
    case find (\<lambda>w. wr_recipient w = enc_recipient enc) (sh_wraps s) of
      None \<Rightarrow> Err NoMatchingWrap
    | Some w \<Rightarrow> open_with C opener w))"

definition open_recrypt ::
    "share_crypto \<Rightarrow> share \<Rightarrow> string \<Rightarrow> bytes \<Rightarrow> bytes \<Rightarrow> recrypt_kem \<Rightarrow> (share_error, bytes) result" where
  "open_recrypt C s backend recipient secret kem =
    bind (ok_or (find (\<lambda>c. rc_backend c = backend \<and> rc_recipient c = recipient) (sh_recrypt s)) NoMatchingWrap)
      (\<lambda>capsule.
    bind (kem_decapsulate kem backend secret (rc_ciphertext capsule)) (\<lambda>dek.
    decrypt_payload C dek (sh_nonce s) (sh_ciphertext s)))"

definition add_recipient ::
    "share_crypto \<Rightarrow> seal_draw \<Rightarrow> share \<Rightarrow> wrap_secret \<Rightarrow> wrap_public \<Rightarrow> (share_error, share) result" where
  "add_recipient C r s opener recipient =
    (if recipient \<in> set (sh_targets s) then Err DuplicateRecipient
     else bind (encapsulate_to C recipient) (\<lambda>enc.
       if list_ex (\<lambda>w. wr_recipient w = enc_recipient enc) (sh_wraps s) then Err DuplicateRecipient
       else bind (open_dek C s opener) (\<lambda>dek.
         bind (seal C r recipient dek (sh_epoch s)) (\<lambda>w.
         Ok (s\<lparr>sh_wraps := sh_wraps s @ [w], sh_targets := sh_targets s @ [recipient]\<rparr>)))))"

definition rotate ::
    "share_crypto \<Rightarrow> (nat \<Rightarrow> seal_draw) \<Rightarrow> share \<Rightarrow> wrap_secret \<Rightarrow> wrap_public list \<Rightarrow> u64 \<Rightarrow>
     (share_error, share) result" where
  "rotate C draws s opener recipients epoch =
    (if sh_recrypt s \<noteq> [] then Err ModeError
     else if recipients = [] then Err EmptyRecipients
     else bind (reject_duplicate_direct C recipients) (\<lambda>_.
       bind (open_dek C s opener) (\<lambda>dek.
       bind (seal_all C draws dek epoch recipients) (\<lambda>wraps.
       Ok \<lparr>sh_epoch = epoch, sh_nonce = sh_nonce s, sh_ciphertext = sh_ciphertext s, sh_wraps = wraps,
           sh_targets = recipients, sh_recrypt = []\<rparr>))))"

text \<open>\<open>Iterator::position\<close>.\<close>

primrec position :: "('a \<Rightarrow> bool) \<Rightarrow> 'a list \<Rightarrow> nat option" where
  "position P [] = None"
| "position P (x # xs) = (if P x then Some 0 else map_option Suc (position P xs))"

definition transform_recrypt ::
    "share \<Rightarrow> string \<Rightarrow> bytes \<Rightarrow> recrypt_public \<Rightarrow> bytes \<Rightarrow> recrypt_kem \<Rightarrow> (share_error, share) result" where
  "transform_recrypt s backend from_key to_pk transform_key kem =
    (if rp_backend to_pk \<noteq> backend then Err RecryptError
     else if list_ex (\<lambda>c. rc_backend c = backend \<and> rc_recipient c = rp_key to_pk) (sh_recrypt s)
     then Err DuplicateRecipient
     else bind (ok_or (position (\<lambda>c. rc_backend c = backend \<and> rc_recipient c = from_key) (sh_recrypt s))
         NoMatchingWrap) (\<lambda>index.
       bind (kem_transform kem backend transform_key (rc_ciphertext (sh_recrypt s ! index))) (\<lambda>next_ct.
       if next_ct = [] then Err RecryptError
       else Ok (s\<lparr>sh_recrypt := (sh_recrypt s)[index :=
           \<lparr>rc_backend = backend, rc_recipient = rp_key to_pk, rc_ciphertext = next_ct\<rparr>]\<rparr>))))"

section \<open>Commitments\<close>

definition content_id :: "share_crypto \<Rightarrow> share \<Rightarrow> bytes" where
  "content_id C s = blake3 C (CONTENT_DOMAIN @ sh_nonce s @
     to_be_bytes 8 (word_of_nat (length (sh_ciphertext s)) :: u64) @ sh_ciphertext s)"

definition target_fields :: "wrap_public \<Rightarrow> (string \<times> dcbor) list" where
  "target_fields t = [(''alg'', DText (wrap_tag t)), (''key'', DBytes (key_bytes t))]"

definition target_cbor :: "dcbor_ext \<Rightarrow> wrap_public \<Rightarrow> bytes" where
  "target_cbor E t = to_cbor_data E (DMap (insert_all E (target_fields t)))"

definition capsule_fields :: "recrypt_capsule \<Rightarrow> (string \<times> dcbor) list" where
  "capsule_fields c =
    [(''alg'', DText ''recrypt-pre''), (''backend'', DText (rc_backend c)),
     (''recipient'', DBytes (rc_recipient c)), (''ciphertext'', DBytes (rc_ciphertext c))]"

definition capsule_cbor :: "dcbor_ext \<Rightarrow> recrypt_capsule \<Rightarrow> bytes" where
  "capsule_cbor E c = to_cbor_data E (DMap (insert_all E (capsule_fields c)))"

definition access_material :: "dcbor_ext \<Rightarrow> share \<Rightarrow> bytes" where
  "access_material E s =
    (let parts = sort (map (target_cbor E) (sh_targets s) @ map (capsule_cbor E) (sh_recrypt s)) in
     ACCESS_DOMAIN @ to_be_bytes 8 (word_of_nat (length parts) :: u64) @
     concat (map (\<lambda>part. to_be_bytes 8 (word_of_nat (length part) :: u64) @ part) parts))"

definition access_commitment :: "share_crypto \<Rightarrow> dcbor_ext \<Rightarrow> share \<Rightarrow> bytes" where
  "access_commitment C E s = blake3 C (access_material E s)"

definition has_direct :: "share \<Rightarrow> bool" where
  "has_direct s = (sh_targets s \<noteq> [])"

definition has_recrypt :: "share \<Rightarrow> bool" where
  "has_recrypt s = (sh_recrypt s \<noteq> [])"

section \<open>Wire form\<close>

definition payload_fields :: "share \<Rightarrow> (string \<times> dcbor) list" where
  "payload_fields s =
    [(''alg'', DText PAYLOAD_ALG), (''nonce'', DBytes (sh_nonce s)), (''ciphertext'', DBytes (sh_ciphertext s))]"

definition share_to_map :: "dcbor_ext \<Rightarrow> share \<Rightarrow> (share_error, dmap) result" where
  "share_to_map E s =
    (let payload = insert_all E (payload_fields s) in
     bind (collect (\<lambda>w. map_err DcborError (try_from_data E (wrap_to_cbor E w))) (sh_wraps s)) (\<lambda>wraps.
     bind (collect (\<lambda>t. map_err DcborError (try_from_data E (target_cbor E t))) (sh_targets s)) (\<lambda>targets.
     bind (collect (\<lambda>c. map_err DcborError (try_from_data E (capsule_cbor E c))) (sh_recrypt s)) (\<lambda>recrypt.
     Ok (insert_all E
       [(''v'', DUnsigned 1), (''epoch'', DUnsigned (sh_epoch s)), (''payload'', DMap payload),
        (''wraps'', DArray wraps), (''targets'', DArray targets), (''recrypt'', DArray recrypt)])))))"

definition share_to_cbor :: "dcbor_ext \<Rightarrow> share \<Rightarrow> (share_error, bytes) result" where
  "share_to_cbor E s = bind (share_to_map E s) (\<lambda>m. Ok (to_cbor_data E (DMap m)))"

definition map_cbor :: "dmap \<Rightarrow> string \<Rightarrow> (share_error, dcbor) result" where
  "map_cbor m key = ok_or (map_option snd (find (\<lambda>(k, _). k = DText key) m)) PayloadError"

definition parse_embedded_wrap :: "share_crypto \<Rightarrow> dcbor_ext \<Rightarrow> dcbor \<Rightarrow> (share_error, wrap) result" where
  "parse_embedded_wrap C E cbor = parse_wrap C E (to_cbor_data E cbor)"

definition parse_target :: "share_crypto \<Rightarrow> dcbor_ext \<Rightarrow> dcbor \<Rightarrow> (share_error, wrap_public) result" where
  "parse_target C E cbor =
    bind (map_err (\<lambda>_. PayloadError) (try_into_map cbor)) (\<lambda>m.
    bind (guard (length m = 2) PayloadError) (\<lambda>_.
    bind (map_err (\<lambda>_. PayloadError) (map_extract E try_text m ''alg'')) (\<lambda>alg.
    bind (map_err (\<lambda>_. PayloadError) (map_extract E try_byte_string m ''key'')) (\<lambda>key.
    if alg = ''x25519'' then bind (guard (length key = 32) PayloadError) (\<lambda>_. wrap_x25519 key)
    else if alg = ''ed25519'' then bind (guard (length key = 32) PayloadError) (\<lambda>_. wrap_ed25519 C key)
    else if alg = ''p256'' then bind (guard (length key = 33) PayloadError) (\<lambda>_. wrap_p256 C key)
    else Err PayloadError))))"

definition parse_capsule :: "dcbor_ext \<Rightarrow> dcbor \<Rightarrow> (share_error, recrypt_capsule) result" where
  "parse_capsule E cbor =
    bind (map_err (\<lambda>_. RecryptError) (try_into_map cbor)) (\<lambda>m.
    bind (guard (length m = 4) RecryptError) (\<lambda>_.
    bind (map_err (\<lambda>_. RecryptError) (map_extract E try_text m ''alg'')) (\<lambda>alg.
    bind (guard (alg = ''recrypt-pre'') RecryptError) (\<lambda>_.
    bind (map_err (\<lambda>_. RecryptError) (map_extract E try_text m ''backend'')) (\<lambda>backend.
    bind (map_err (\<lambda>_. RecryptError) (map_extract E try_byte_string m ''recipient'')) (\<lambda>recipient.
    bind (map_err (\<lambda>_. RecryptError) (map_extract E try_byte_string m ''ciphertext'')) (\<lambda>ciphertext.
    if backend = [] \<or> recipient = [] \<or> ciphertext = [] then Err RecryptError
    else Ok \<lparr>rc_backend = backend, rc_recipient = recipient, rc_ciphertext = ciphertext\<rparr>)))))))"

text \<open>The body of the loop over the zipped wraps and targets.\<close>

definition parse_entry ::
    "share_crypto \<Rightarrow> dcbor_ext \<Rightarrow> u64 \<Rightarrow> dcbor \<times> dcbor \<Rightarrow> (share_error, wrap \<times> wrap_public) result" where
  "parse_entry C E epoch p =
    bind (parse_embedded_wrap C E (fst p)) (\<lambda>w.
    bind (parse_target C E (snd p)) (\<lambda>t.
    bind (encapsulate_to C t) (\<lambda>enc.
    if wr_alg w \<noteq> enc_alg enc \<or> wr_recipient w \<noteq> enc_recipient enc \<or> wr_epoch w \<noteq> epoch
    then Err PayloadError else Ok (w, t))))"

definition parse_payload :: "dcbor_ext \<Rightarrow> dmap \<Rightarrow> (share_error, bytes \<times> bytes) result" where
  "parse_payload E payload =
    bind (guard (length payload = 3) PayloadError) (\<lambda>_.
    bind (map_err (\<lambda>_. PayloadError) (map_extract E try_text payload ''alg'')) (\<lambda>alg.
    bind (guard (alg = PAYLOAD_ALG) PayloadError) (\<lambda>_.
    bind (map_err (\<lambda>_. PayloadError) (map_extract E try_byte_string payload ''nonce'')) (\<lambda>nonce.
    bind (map_err (\<lambda>_. PayloadError) (map_extract E try_byte_string payload ''ciphertext'')) (\<lambda>ciphertext.
    bind (guard (length nonce = 24) PayloadError) (\<lambda>_.
    Ok (nonce, ciphertext)))))))"

definition share_from_cbor :: "share_crypto \<Rightarrow> dcbor_ext \<Rightarrow> bytes \<Rightarrow> (share_error, share) result" where
  "share_from_cbor C E bs =
    bind (map_err DcborError (try_from_data E bs)) (\<lambda>cbor.
    bind (guard (to_cbor_data E cbor = bs) PayloadError) (\<lambda>_.
    bind (map_err (\<lambda>_. PayloadError) (try_into_map cbor)) (\<lambda>m.
    bind (guard (length m = 6) PayloadError) (\<lambda>_.
    bind (map_err (\<lambda>_. PayloadError) (map_extract E try_u64 m ''v'')) (\<lambda>version.
    bind (guard (version = 1) PayloadError) (\<lambda>_.
    bind (map_err (\<lambda>_. PayloadError) (map_extract E try_u64 m ''epoch'')) (\<lambda>epoch.
    bind (map_cbor m ''payload'') (\<lambda>p.
    bind (map_err (\<lambda>_. PayloadError) (try_into_map p)) (\<lambda>payload.
    bind (parse_payload E payload) (\<lambda>(nonce, ciphertext).
    bind (map_cbor m ''wraps'') (\<lambda>ws.
    bind (map_err (\<lambda>_. PayloadError) (try_into_array ws)) (\<lambda>wrap_values.
    bind (map_cbor m ''targets'') (\<lambda>ts.
    bind (map_err (\<lambda>_. PayloadError) (try_into_array ts)) (\<lambda>target_values.
    bind (map_cbor m ''recrypt'') (\<lambda>rs.
    bind (map_err (\<lambda>_. PayloadError) (try_into_array rs)) (\<lambda>recrypt_values.
    bind (guard (length wrap_values = length target_values) PayloadError) (\<lambda>_.
    bind (collect (parse_entry C E epoch) (zip wrap_values target_values)) (\<lambda>entries.
    bind (collect (parse_capsule E) recrypt_values) (\<lambda>recrypt.
    if entries = [] \<and> recrypt = [] then Err EmptyRecipients
    else Ok \<lparr>sh_epoch = epoch, sh_nonce = nonce, sh_ciphertext = ciphertext, sh_wraps = map fst entries,
        sh_targets = map snd entries, sh_recrypt = recrypt\<rparr>)))))))))))))))))))"

end
