(* ===== verification/Share_Laws.thy ===== *)
theory Share_Laws
  imports Share
begin

text \<open>
  Correctness of shares: the invariant that every wrap holds the data key for its target, that every
  operation keeps it, that every recipient opens every share derived from a sealed one, and that
  content and commitment are stable or bound as the source says.
\<close>

section \<open>The invariant\<close>

definition holds :: "share_crypto \<Rightarrow> bytes \<Rightarrow> u64 \<Rightarrow> wrap \<Rightarrow> wrap_public \<Rightarrow> bool" where
  "holds C dek epoch w t \<longleftrightarrow> wrap_public_ok t \<and> wrap_ok C w \<and> wr_epoch w = epoch \<and>
    encapsulate_to C t = Ok \<lparr>enc_alg = wr_alg w, enc_recipient = wr_recipient w\<rparr> \<and>
    (\<forall>s. wrap_secret_ok C s \<longrightarrow> wr_recipient w = recipient_of C s \<longrightarrow> open_with C s w = Ok dek)"

definition capsule_ids :: "recrypt_capsule list \<Rightarrow> (string \<times> bytes) list" where
  "capsule_ids cs = map (\<lambda>c. (rc_backend c, rc_recipient c)) cs"

definition share_inv :: "share_crypto \<Rightarrow> bytes \<Rightarrow> share \<Rightarrow> bool" where
  "share_inv C dek s \<longleftrightarrow> length dek = 32 \<and>
    list_all2 (holds C dek (sh_epoch s)) (sh_wraps s) (sh_targets s) \<and>
    distinct (map wr_recipient (sh_wraps s)) \<and>
    (sh_targets s \<noteq> [] \<or> sh_recrypt s \<noteq> []) \<and> distinct (capsule_ids (sh_recrypt s))"

lemma seal_holds:
  assumes "kem_ok C" and "wrap_public_ok t" and "draw_ok C t r" and "length dek = 32"
    and "seal C r t dek epoch = Ok w"
  shows "holds C dek epoch w t"
proof -
  obtain e where "encapsulate_to C t = Ok e" "wr_alg w = enc_alg e" "wr_recipient w = enc_recipient e"
    "wr_epoch w = epoch" "wrap_ok C w"
    by (rule seal_Ok_wrap_ok [OF assms])
  with seal_Ok_opens [OF assms(1) _ assms(3,4,5)] assms(2) show ?thesis by (simp add: holds_def)
qed

lemma seal_all_holds:
  assumes "kem_ok C" and "length dek = 32" and "seal_all C draws dek epoch ps = Ok ws"
    and "\<And>p. p \<in> set ps \<Longrightarrow> wrap_public_ok p" and "\<And>i. i < length ps \<Longrightarrow> draw_ok C (ps ! i) (draws i)"
  shows "list_all2 (holds C dek epoch) ws ps"
proof (rule list_all2_all_nthI)
  from assms(3) have all: "list_all2 (\<lambda>(i, p) w. seal C (draws i) p dek epoch = Ok w) (enumerate 0 ps) ws"
    by (simp add: seal_all_def collect_Ok_iff case_prod_beta')
  then show len: "length ws = length ps" by (auto dest: list_all2_lengthD)
  fix i assume i: "i < length ws"
  with all len have "seal C (draws i) (ps ! i) dek epoch = Ok (ws ! i)"
    by (auto simp: list_all2_conv_all_nth nth_enumerate_eq)
  with assms len i show "holds C dek epoch (ws ! i) (ps ! i)" by (intro seal_holds) auto
qed

text \<open>The duplicate checks make the encapsulation keys of the recipients distinct.\<close>

lemma reject_direct_distinct:
  assumes "reject_direct C all seen ps = Ok ()" and "list_all2 (holds C dek epoch) ws ps" and "distinct seen"
  shows "distinct (seen @ map wr_recipient ws)"
  using assms
proof (induction ps arbitrary: seen ws)
  case (Cons p ps)
  then obtain w ws' where ws: "ws = w # ws'" and w: "holds C dek epoch w p"
    and rest: "list_all2 (holds C dek epoch) ws' ps" by (auto simp: list_all2_Cons2)
  have enc: "encapsulate_to C p = Ok \<lparr>enc_alg = wr_alg w, enc_recipient = wr_recipient w\<rparr>"
    using w by (simp add: holds_def)
  from Cons.prems(1) have "wr_recipient w \<notin> set seen" and "reject_direct C all (seen @ [wr_recipient w]) ps = Ok ()"
    by (auto simp: enc split: if_splits)
  with Cons.IH [OF this(2) rest] Cons.prems(3) show ?case by (simp add: ws)
qed simp

lemma reject_duplicate_direct_distinct:
  "reject_duplicate_direct C ps = Ok () \<Longrightarrow> list_all2 (holds C dek epoch) ws ps \<Longrightarrow> distinct (map wr_recipient ws)"
  using reject_direct_distinct [of C ps "[]" ps dek epoch ws] by (simp add: reject_duplicate_direct_def)

lemma reject_duplicate_recrypt_distinct:
  "reject_duplicate_recrypt rs = Ok () \<Longrightarrow> distinct (map (\<lambda>r. (rp_backend r, rp_key r)) rs)"
  by (induction rs) (auto simp: list_ex_iff split: if_splits)

lemma seal_capsules_Ok:
  assumes "seal_capsules kem dek rs = Ok cs"
  shows "capsule_ids cs = map (\<lambda>r. (rp_backend r, rp_key r)) rs"
    and "c \<in> set cs \<Longrightarrow> kem_encapsulate kem (rc_backend c) (rc_recipient c) dek = Ok (rc_ciphertext c)"
proof -
  have all: "list_all2 (\<lambda>r c. rc_backend c = rp_backend r \<and> rc_recipient c = rp_key r \<and>
      kem_encapsulate kem (rc_backend c) (rc_recipient c) dek = Ok (rc_ciphertext c)) rs cs"
    using assms unfolding seal_capsules_def collect_Ok_iff
    by (rule list_all2_mono) (auto simp: bind_Ok_iff split: if_splits)
  then show "capsule_ids cs = map (\<lambda>r. (rp_backend r, rp_key r)) rs"
    by (induction rule: list_all2_induct) (simp_all add: capsule_ids_def)
  show "c \<in> set cs \<Longrightarrow> kem_encapsulate kem (rc_backend c) (rc_recipient c) dek = Ok (rc_ciphertext c)"
    using all by (auto simp: list_all2_conv_all_nth in_set_conv_nth)
qed

text \<open>What a caller supplies: arrays of the right length and drawn bytes of the right kind.\<close>

definition targets_ok :: "share_crypto \<Rightarrow> (nat \<Rightarrow> seal_draw) \<Rightarrow> wrap_public list \<Rightarrow> bool" where
  "targets_ok C draws ps \<longleftrightarrow> (\<forall>p \<in> set ps. wrap_public_ok p) \<and> (\<forall>i < length ps. draw_ok C (ps ! i) (draws i))"

definition share_draw_ok :: "share_crypto \<Rightarrow> share_draw \<Rightarrow> wrap_public list \<Rightarrow> bool" where
  "share_draw_ok C r ps \<longleftrightarrow> length (drawn_dek r) = 32 \<and> length (drawn_payload_nonce r) = 24 \<and>
    targets_ok C (drawn_wraps r) ps"

lemma seal_mixed_inv:
  assumes "kem_ok C" and "share_draw_ok C r ps" and "seal_mixed C r pt ps rs kem epoch = Ok s"
  shows "share_inv C (drawn_dek r) s"
proof -
  from assms(3) obtain ct ws cs where d: "reject_duplicate_direct C ps = Ok ()"
    and dr: "reject_duplicate_recrypt rs = Ok ()"
    and ws: "seal_all C (drawn_wraps r) (drawn_dek r) epoch ps = Ok ws"
    and cs: "seal_capsules kem (drawn_dek r) rs = Ok cs" and ne: "\<not> (ps = [] \<and> rs = [])"
    and s: "s = \<lparr>sh_epoch = epoch, sh_nonce = drawn_payload_nonce r, sh_ciphertext = ct, sh_wraps = ws,
      sh_targets = ps, sh_recrypt = cs\<rparr>"
    by (auto simp: seal_mixed_def Let_def bind_Ok_iff split: if_splits)
  have h: "list_all2 (holds C (drawn_dek r) epoch) ws ps"
    using assms(1,2) ws by (intro seal_all_holds) (auto simp: share_draw_ok_def targets_ok_def)
  have "length cs = length rs"
    using arg_cong [OF seal_capsules_Ok(1) [OF cs], of length] by (simp add: capsule_ids_def)
  then have "cs = [] \<longleftrightarrow> rs = []" by auto
  with h reject_duplicate_direct_distinct [OF d h] reject_duplicate_recrypt_distinct [OF dr]
    seal_capsules_Ok(1) [OF cs] ne assms(2)
  show ?thesis by (simp add: share_inv_def s share_draw_ok_def)
qed

section \<open>Opening\<close>

lemma find_wrap:
  assumes "share_inv C dek s" and "wrap_secret_ok C sec"
  shows "case find (\<lambda>w. wr_recipient w = recipient_of C sec) (sh_wraps s) of
      None \<Rightarrow> recipient_of C sec \<notin> wr_recipient ` set (sh_wraps s)
    | Some w \<Rightarrow> recipient_of C sec \<in> wr_recipient ` set (sh_wraps s) \<and> open_with C sec w = Ok dek"
proof (cases "find (\<lambda>w. wr_recipient w = recipient_of C sec) (sh_wraps s)")
  case None
  then have "\<forall>w \<in> set (sh_wraps s). wr_recipient w \<noteq> recipient_of C sec" by (simp add: find_None_iff)
  with None show ?thesis by auto
next
  case (Some w)
  then have w: "w \<in> set (sh_wraps s)" and rec: "wr_recipient w = recipient_of C sec"
    by (auto simp: find_Some_iff)
  from w assms(1) obtain t where "holds C dek (sh_epoch s) w t"
    by (auto simp: share_inv_def list_all2_conv_all_nth in_set_conv_nth)
  with rec assms(2) have "open_with C sec w = Ok dek" by (simp add: holds_def)
  moreover have "recipient_of C sec \<in> wr_recipient ` set (sh_wraps s)" using w rec by (metis imageI)
  ultimately show ?thesis by (simp add: Some)
qed

lemma secret_public_encapsulation:
  assumes "kem_ok C" and "wrap_secret_ok C sec"
  obtains pk enc where "wrap_secret_public C sec = Ok pk" and "encapsulate_to C pk = Ok enc"
    and "enc_recipient enc = recipient_of C sec"
  using encapsulation_public_eq [OF assms] by (auto simp: encapsulation_public_def bind_Ok_iff)

lemma open_dek_eq:
  assumes "kem_ok C" and "share_inv C dek s" and "wrap_secret_ok C sec"
  shows "open_dek C s sec = (if recipient_of C sec \<in> wr_recipient ` set (sh_wraps s) then Ok dek else Err NoMatchingWrap)"
proof -
  obtain pk enc where "wrap_secret_public C sec = Ok pk" "encapsulate_to C pk = Ok enc"
    "enc_recipient enc = recipient_of C sec" by (rule secret_public_encapsulation [OF assms(1,3)])
  with find_wrap [OF assms(2,3)] show ?thesis by (simp add: open_dek_def split: option.splits)
qed

lemma share_open_eq:
  assumes "kem_ok C" and "share_inv C dek s" and "wrap_secret_ok C sec"
  shows "share_open C s sec = (if recipient_of C sec \<in> wr_recipient ` set (sh_wraps s)
    then decrypt_payload C dek (sh_nonce s) (sh_ciphertext s) else Err NoMatchingWrap)"
proof -
  obtain pk enc where "wrap_secret_public C sec = Ok pk" "encapsulate_to C pk = Ok enc"
    "enc_recipient enc = recipient_of C sec" by (rule secret_public_encapsulation [OF assms(1,3)])
  with find_wrap [OF assms(2,3)] show ?thesis by (simp add: share_open_def split: option.splits)
qed


section \<open>Derived shares\<close>

text \<open>
  The contract of a proxy-re-encryption backend. \<open>pair b pk sk\<close> relates the keys of a recipient,
  \<open>rekey b pk pk' tk\<close> says that \<open>tk\<close> transforms capsules from \<open>pk\<close> to \<open>pk'\<close>, and \<open>sealed b pk dek c\<close>
  that \<open>c\<close> is a capsule of \<open>dek\<close> for \<open>pk\<close>.
\<close>

locale recrypt_backend =
  fixes kem :: recrypt_kem
    and pair :: "string \<Rightarrow> bytes \<Rightarrow> bytes \<Rightarrow> bool"
    and rekey :: "string \<Rightarrow> bytes \<Rightarrow> bytes \<Rightarrow> bytes \<Rightarrow> bool"
    and sealed :: "string \<Rightarrow> bytes \<Rightarrow> bytes \<Rightarrow> bytes \<Rightarrow> bool"
  assumes encapsulate_seals: "kem_encapsulate kem b pk dek = Ok c \<Longrightarrow> sealed b pk dek c"
    and transform_seals: "sealed b pk dek c \<Longrightarrow> rekey b pk pk' tk \<Longrightarrow> kem_transform kem b tk c = Ok c' \<Longrightarrow>
      sealed b pk' dek c'"
    and decapsulate_sealed: "sealed b pk dek c \<Longrightarrow> pair b pk sk \<Longrightarrow> kem_decapsulate kem b sk c = Ok dek"
begin

definition capsules_sealed :: "bytes \<Rightarrow> share \<Rightarrow> bool" where
  "capsules_sealed dek s \<longleftrightarrow> (\<forall>c \<in> set (sh_recrypt s). sealed (rc_backend c) (rc_recipient c) dek (rc_ciphertext c))"

lemma open_recrypt_sealed:
  assumes "capsules_sealed dek s" and "(b, pk) \<in> set (capsule_ids (sh_recrypt s))" and "pair b pk sk"
  shows "open_recrypt C s b pk sk kem = decrypt_payload C dek (sh_nonce s) (sh_ciphertext s)"
proof (cases "find (\<lambda>c. rc_backend c = b \<and> rc_recipient c = pk) (sh_recrypt s)")
  case None
  with assms(2) show ?thesis by (auto simp: capsule_ids_def find_None_iff)
next
  case (Some c)
  then have "c \<in> set (sh_recrypt s)" "rc_backend c = b" "rc_recipient c = pk"
    by (auto simp: find_Some_iff)
  with assms(1) have "sealed b pk dek (rc_ciphertext c)" by (auto simp: capsules_sealed_def)
  from decapsulate_sealed [OF this assms(3)] show ?thesis by (simp add: open_recrypt_def Some)
qed

lemma seal_mixed_sealed:
  assumes "seal_mixed C r pt ps rs kem epoch = Ok s"
  shows "capsules_sealed (drawn_dek r) s"
proof -
  from assms have "seal_capsules kem (drawn_dek r) rs = Ok (sh_recrypt s)"
    by (auto simp: seal_mixed_def Let_def bind_Ok_iff split: if_splits)
  from seal_capsules_Ok(2) [OF this] show ?thesis
    by (auto simp: capsules_sealed_def intro: encapsulate_seals)
qed

end

interpretation nop: recrypt_backend nop_kem "\<lambda>_ _ _. False" "\<lambda>_ _ _ _. False" "\<lambda>_ _ _ _. False"
  by unfold_locales (simp_all add: nop_kem_def)

lemma position_Some: "position P xs = Some i \<Longrightarrow> i < length xs \<and> P (xs ! i)"
  by (induction xs arbitrary: i) (auto split: if_splits)

text \<open>
  \<open>derived\<close>: the shares that a sequence of \<open>add_recipient\<close>, \<open>rotate\<close> and \<open>transform_recrypt\<close> calls, by
  any holders of secrets, makes out of a share.
\<close>

inductive derived ::
    "share_crypto \<Rightarrow> recrypt_kem \<Rightarrow> (string \<Rightarrow> bytes \<Rightarrow> bytes \<Rightarrow> bytes \<Rightarrow> bool) \<Rightarrow> share \<Rightarrow> share \<Rightarrow> bool"
  for C kem rekey s0 where
  derived_refl: "derived C kem rekey s0 s0"
| derived_add: "derived C kem rekey s0 s \<Longrightarrow> wrap_secret_ok C opener \<Longrightarrow> wrap_public_ok pk \<Longrightarrow> draw_ok C pk r \<Longrightarrow>
    add_recipient C r s opener pk = Ok s' \<Longrightarrow> derived C kem rekey s0 s'"
| derived_rotate: "derived C kem rekey s0 s \<Longrightarrow> wrap_secret_ok C opener \<Longrightarrow> targets_ok C draws ps \<Longrightarrow>
    rotate C draws s opener ps epoch = Ok s' \<Longrightarrow> derived C kem rekey s0 s'"
| derived_transform: "derived C kem rekey s0 s \<Longrightarrow> rekey b pk (rp_key to_pk) tk \<Longrightarrow>
    transform_recrypt s b pk to_pk tk kem = Ok s' \<Longrightarrow> derived C kem rekey s0 s'"

lemma add_recipient_inv:
  assumes "kem_ok C" and "share_inv C dek s" and "wrap_secret_ok C opener" and "wrap_public_ok pk"
    and "draw_ok C pk r" and "add_recipient C r s opener pk = Ok s'"
  shows "share_inv C dek s'" and "sh_recrypt s' = sh_recrypt s"
    and "sh_nonce s' = sh_nonce s \<and> sh_ciphertext s' = sh_ciphertext s"
    and "set (sh_targets s') = insert pk (set (sh_targets s))"
proof -
  from assms(6) obtain enc w where enc: "encapsulate_to C pk = Ok enc"
    and new: "\<forall>w \<in> set (sh_wraps s). wr_recipient w \<noteq> enc_recipient enc"
    and w: "seal C r pk dek (sh_epoch s) = Ok w"
    and s': "s' = s\<lparr>sh_wraps := sh_wraps s @ [w], sh_targets := sh_targets s @ [pk]\<rparr>"
    by (auto simp: add_recipient_def open_dek_eq [OF assms(1,2,3)] result_simps list_ex_iff split: if_splits)
  have h: "holds C dek (sh_epoch s) w pk"
    using assms(1,2,4,5) w by (intro seal_holds) (auto simp: share_inv_def)
  then have "wr_recipient w = enc_recipient enc" using enc by (auto simp: holds_def)
  with assms(2) h new show "share_inv C dek s'"
    by (auto simp: share_inv_def s' list_all2_append intro!: list_all2_appendI)
qed (use assms(6) in \<open>auto simp: add_recipient_def result_simps split: if_splits\<close>)

lemma rotate_inv:
  assumes "kem_ok C" and "share_inv C dek s" and "wrap_secret_ok C opener" and "targets_ok C draws ps"
    and "rotate C draws s opener ps epoch = Ok s'"
  shows "share_inv C dek s'" and "sh_recrypt s' = []"
    and "sh_nonce s' = sh_nonce s \<and> sh_ciphertext s' = sh_ciphertext s" and "sh_targets s' = ps"
proof -
  from assms(5) obtain ws where ps: "ps \<noteq> []" and d: "reject_duplicate_direct C ps = Ok ()"
    and ws: "seal_all C draws dek epoch ps = Ok ws"
    and s': "s' = \<lparr>sh_epoch = epoch, sh_nonce = sh_nonce s, sh_ciphertext = sh_ciphertext s, sh_wraps = ws,
      sh_targets = ps, sh_recrypt = []\<rparr>"
    by (auto simp: rotate_def open_dek_eq [OF assms(1,2,3)] result_simps split: if_splits)
  have h: "list_all2 (holds C dek epoch) ws ps"
    using assms(1,2,4) ws by (intro seal_all_holds) (auto simp: share_inv_def targets_ok_def)
  from h reject_duplicate_direct_distinct [OF d h] ps assms(2) show "share_inv C dek s'"
    by (simp add: share_inv_def s' capsule_ids_def)
qed (use assms(5) in \<open>auto simp: rotate_def result_simps split: if_splits\<close>)

lemma transform_inv:
  assumes "share_inv C dek s" and "transform_recrypt s b pk to_pk tk kem = Ok s'"
  shows "share_inv C dek s'"
    and "sh_nonce s' = sh_nonce s \<and> sh_ciphertext s' = sh_ciphertext s"
    and "sh_targets s' = sh_targets s"
    and "\<exists>c \<in> set (sh_recrypt s). \<exists>ct. rc_backend c = b \<and> rc_recipient c = pk \<and>
      kem_transform kem b tk (rc_ciphertext c) = Ok ct \<and>
      set (sh_recrypt s') \<subseteq> insert \<lparr>rc_backend = b, rc_recipient = rp_key to_pk, rc_ciphertext = ct\<rparr> (set (sh_recrypt s))"
proof -
  from assms(2) obtain i ct where p: "position (\<lambda>c. rc_backend c = b \<and> rc_recipient c = pk) (sh_recrypt s) = Some i"
    and fresh: "\<forall>c \<in> set (sh_recrypt s). \<not> (rc_backend c = b \<and> rc_recipient c = rp_key to_pk)"
    and ct: "kem_transform kem b tk (rc_ciphertext (sh_recrypt s ! i)) = Ok ct"
    and s': "s' = s\<lparr>sh_recrypt := (sh_recrypt s)[i :=
      \<lparr>rc_backend = b, rc_recipient = rp_key to_pk, rc_ciphertext = ct\<rparr>]\<rparr>"
    by (auto simp: transform_recrypt_def result_simps list_ex_iff split: if_splits)
  from position_Some [OF p] have i: "i < length (sh_recrypt s)" "rc_backend (sh_recrypt s ! i) = b"
    "rc_recipient (sh_recrypt s ! i) = pk" by auto
  have "(b, rp_key to_pk) \<notin> set (capsule_ids (sh_recrypt s))"
    using fresh by (auto simp: capsule_ids_def)
  then have "distinct (capsule_ids (sh_recrypt s'))"
    using assms(1) by (auto simp: s' capsule_ids_def map_update share_inv_def intro!: distinct_list_update)
  moreover have "sh_recrypt s' \<noteq> []" using i(1) by (auto simp: s')
  ultimately show "share_inv C dek s'" using assms(1) by (simp add: share_inv_def s')
  show "\<exists>c \<in> set (sh_recrypt s). \<exists>ct. rc_backend c = b \<and> rc_recipient c = pk \<and>
      kem_transform kem b tk (rc_ciphertext c) = Ok ct \<and>
      set (sh_recrypt s') \<subseteq> insert \<lparr>rc_backend = b, rc_recipient = rp_key to_pk, rc_ciphertext = ct\<rparr> (set (sh_recrypt s))"
    using i ct set_update_subset_insert [of "sh_recrypt s" i]
    by (intro bexI [of _ "sh_recrypt s ! i"]) (auto simp: s')
qed (use assms(2) in \<open>auto simp: transform_recrypt_def result_simps split: if_splits\<close>)

lemma derived_inv:
  assumes "derived C kem rekey s0 s" and "kem_ok C" and "share_inv C dek s0"
  shows "share_inv C dek s \<and> sh_nonce s = sh_nonce s0 \<and> sh_ciphertext s = sh_ciphertext s0"
  using assms(1)
proof induction
  case derived_refl
  then show ?case using assms(3) by simp
next
  case (derived_add s opener pk r s')
  then show ?case using add_recipient_inv(1,3) [OF assms(2) _ derived_add.hyps(2-5), of dek] by simp
next
  case (derived_rotate s opener draws ps epoch s')
  then show ?case using rotate_inv(1,3) [OF assms(2) _ derived_rotate.hyps(2-4), of dek] by simp
next
  case (derived_transform s b pk to_pk tk s')
  then show ?case using transform_inv(1,2) [OF _ derived_transform.hyps(3), of C dek] by simp
qed

context recrypt_backend
begin

lemma derived_sealed:
  assumes "derived C kem rekey s0 s" and "kem_ok C" and "share_inv C dek s0" and "capsules_sealed dek s0"
  shows "capsules_sealed dek s"
  using assms(1)
proof induction
  case derived_refl
  then show ?case using assms(4) .
next
  case (derived_add s opener pk r s')
  have "share_inv C dek s" using derived_inv [OF derived_add.hyps(1) assms(2,3)] by simp
  from add_recipient_inv(2) [OF assms(2) this derived_add.hyps(2-5)] derived_add.IH
  show ?case by (simp add: capsules_sealed_def)
next
  case (derived_rotate s opener draws ps epoch s')
  have "share_inv C dek s" using derived_inv [OF derived_rotate.hyps(1) assms(2,3)] by simp
  from rotate_inv(2) [OF assms(2) this derived_rotate.hyps(2-4)] show ?case by (simp add: capsules_sealed_def)
next
  case (derived_transform s b pk to_pk tk s')
  have "share_inv C dek s" using derived_inv [OF derived_transform.hyps(1) assms(2,3)] by simp
  from transform_inv(4) [OF this derived_transform.hyps(3)] obtain c ct
    where c: "c \<in> set (sh_recrypt s)" "rc_backend c = b" "rc_recipient c = pk"
      "kem_transform kem b tk (rc_ciphertext c) = Ok ct"
    and sub: "set (sh_recrypt s') \<subseteq> insert \<lparr>rc_backend = b, rc_recipient = rp_key to_pk, rc_ciphertext = ct\<rparr> (set (sh_recrypt s))"
    by blast
  have "sealed b pk dek (rc_ciphertext c)" using derived_transform.IH c by (auto simp: capsules_sealed_def)
  from transform_seals [OF this derived_transform.hyps(2) c(4)] derived_transform.IH sub
  show ?case by (auto simp: capsules_sealed_def)
qed

lemma derived_open_recrypt:
  assumes "kem_ok C" and "share_draw_ok C r ps" and "seal_mixed C r pt ps rs kem epoch = Ok s0"
    and "derived C kem rekey s0 s" and "(b, pk) \<in> set (capsule_ids (sh_recrypt s))" and "pair b pk sk"
  shows "open_recrypt C s b pk sk kem = Ok pt"
proof -
  have inv: "share_inv C (drawn_dek r) s0" by (rule seal_mixed_inv [OF assms(1,2,3)])
  have "xc_encrypt C (drawn_dek r) (sh_nonce s0) PAYLOAD_AAD pt = Some (sh_ciphertext s0)"
    using assms(3) by (auto simp: seal_mixed_def Let_def encrypt_payload_def result_simps split: if_splits)
  from aead_decrypts [OF assms(1) this] derived_inv [OF assms(4,1) inv]
    open_recrypt_sealed [OF derived_sealed [OF assms(4,1) inv seal_mixed_sealed [OF assms(3)]] assms(5,6)]
  show ?thesis by (simp add: decrypt_payload_def)
qed

end

section \<open>Who can open a derived share\<close>

lemma wrap_ok_alg_length: "wrap_ok C w \<Longrightarrow> wr_alg w = (if length (wr_recipient w) = 32 then ALG_X25519 else ALG_P256)"
  by (auto simp: wrap_ok_def check_points_def split: if_splits)

lemma secret_encapsulation:
  assumes "kem_ok C" and "wrap_secret_ok C sec" and "wrap_secret_public C sec = Ok pk"
  shows "encapsulate_to C pk = Ok \<lparr>enc_alg = (if length (recipient_of C sec) = 32 then ALG_X25519 else ALG_P256),
    enc_recipient = recipient_of C sec\<rparr>"
  using assms wrap_secret_public_cases [OF assms(1,2)]
  by (cases sec) (auto simp: recipient_of_def ed25519_to_x25519_def montgomery_facts x25519_facts p256_facts)

lemma recipient_iff_target:
  assumes "kem_ok C" and "share_inv C dek s" and "wrap_secret_ok C sec" and "wrap_secret_public C sec = Ok pk"
  shows "recipient_of C sec \<in> wr_recipient ` set (sh_wraps s) \<longleftrightarrow>
    encapsulate_to C pk \<in> encapsulate_to C ` set (sh_targets s)"
proof -
  have h: "list_all2 (holds C dek (sh_epoch s)) (sh_wraps s) (sh_targets s)"
    using assms(2) by (simp add: share_inv_def)
  have "encapsulate_to C ` set (sh_targets s) =
    (\<lambda>w. Ok \<lparr>enc_alg = wr_alg w, enc_recipient = wr_recipient w\<rparr>) ` set (sh_wraps s)"
    using h by (induction rule: list_all2_induct) (auto simp: holds_def)
  moreover have "wr_alg w = (if length (wr_recipient w) = 32 then ALG_X25519 else ALG_P256)"
    if "w \<in> set (sh_wraps s)" for w
    using h that wrap_ok_alg_length [of C w] by (auto simp: list_all2_conv_all_nth in_set_conv_nth holds_def)
  ultimately show ?thesis unfolding secret_encapsulation [OF assms(1,3,4)] by auto
qed

definition demo_sdraw :: share_draw where
  "demo_sdraw = \<lparr>drawn_dek = replicate 32 8, drawn_payload_nonce = replicate 24 9, drawn_wraps = (\<lambda>_. demo_draw)\<rparr>"

definition demo_alice :: wrap_secret where "demo_alice = SecEd25519Seed (replicate 32 3)"
definition demo_bob :: wrap_secret where "demo_bob = SecP256Scalar (replicate 32 4)"
definition demo_alice_pk :: wrap_public where "demo_alice_pk = PubEd25519 (replicate 32 3)"
definition demo_bob_pk :: wrap_public where "demo_bob_pk = PubP256 (2 # replicate 32 4)"

text \<open>A backend without security, whose capsule is the key itself.\<close>

definition toy_kem :: recrypt_kem where
  "toy_kem = \<lparr>kem_encapsulate = (\<lambda>_ _ dek. Ok dek), kem_decapsulate = (\<lambda>_ _ c. Ok c), kem_transform = (\<lambda>_ _ c. Ok c)\<rparr>"

lemma toy_backend: "recrypt_backend toy_kem (\<lambda>_ _ _. True) (\<lambda>_ _ _ _. True) (\<lambda>_ _ dek c. c = dek)"
  by unfold_locales (simp_all add: toy_kem_def)

lemma demo_secrets [simp]:
  "wrap_secret_ok toy_share demo_alice" "wrap_secret_ok toy_share demo_bob"
  "wrap_public_ok demo_alice_pk" "wrap_public_ok demo_bob_pk"
  "wrap_secret_public toy_share demo_alice = Ok demo_alice_pk"
  "wrap_secret_public toy_share demo_bob = Ok demo_bob_pk"
  unfolding demo_alice_def demo_bob_def demo_alice_pk_def demo_bob_pk_def toy_secret_public by simp_all

lemma demo_encapsulations [simp]:
  "encapsulate_to toy_share demo_alice_pk = Ok \<lparr>enc_alg = ALG_X25519, enc_recipient = 2 # replicate 31 3\<rparr>"
  "encapsulate_to toy_share demo_bob_pk = Ok \<lparr>enc_alg = ALG_P256, enc_recipient = 2 # replicate 32 4\<rparr>"
  by (simp_all add: demo_alice_pk_def demo_bob_pk_def ed25519_to_x25519_def)

lemma demo_sdraw_ok [simp]: "(\<And>p. p \<in> set ps \<Longrightarrow> wrap_public_ok p) \<Longrightarrow> share_draw_ok toy_share demo_sdraw ps"
  by (simp add: share_draw_ok_def targets_ok_def demo_sdraw_def)

section \<open>Sealing succeeds\<close>

lemma collect_total: "(\<And>x. x \<in> set xs \<Longrightarrow> \<exists>y. f x = Ok y) \<Longrightarrow> \<exists>ys. collect f xs = Ok ys"
proof (induction xs)
  case (Cons x xs)
  then obtain y ys where "f x = Ok y" and "collect f xs = Ok ys" by (meson list.set_intros)
  then show ?case by simp
qed simp

lemma reject_direct_ok:
  assumes "\<And>p. p \<in> set ps \<Longrightarrow> encapsulate_to C p = Ok (f p)" and "distinct all"
    and "distinct (seen @ map (\<lambda>p. enc_recipient (f p)) ps)" and "set ps \<subseteq> set all"
  shows "reject_direct C all seen ps = Ok ()"
  using assms(1,3,4)
proof (induction ps arbitrary: seen)
  case (Cons p ps)
  have "length (filter (\<lambda>x. x = p) all) = card ({x. x = p} \<inter> set all)"
    by (rule distinct_length_filter [OF assms(2)])
  also have "\<dots> \<le> 1" using card_mono [of "{p}" "{x. x = p} \<inter> set all"] by auto
  finally show ?case
    using Cons.IH [of "seen @ [enc_recipient (f p)]"] Cons.prems by (auto simp: not_less)
qed simp

lemma reject_duplicate_recrypt_ok:
  "distinct (map (\<lambda>r. (rp_backend r, rp_key r)) rs) \<Longrightarrow> reject_duplicate_recrypt rs = Ok ()"
  by (induction rs) (simp_all add: list_ex_iff image_iff, metis)

lemma reject_duplicate_direct_ok:
  assumes "\<And>p. p \<in> set ps \<Longrightarrow> \<exists>sec. wrap_secret_ok C sec \<and> wrap_secret_public C sec = Ok p"
    and "kem_ok C" and "distinct (map (encapsulate_to C) ps)"
  shows "reject_duplicate_direct C ps = Ok ()"
proof -
  have "\<exists>e. encapsulate_to C p = Ok e \<and> enc_alg e = (if length (enc_recipient e) = 32 then ALG_X25519 else ALG_P256)"
    if "p \<in> set ps" for p
    using assms(1) [OF that] secret_encapsulation [OF assms(2)] by fastforce
  then obtain f where f: "\<And>p. p \<in> set ps \<Longrightarrow> encapsulate_to C p = Ok (f p) \<and>
      enc_alg (f p) = (if length (enc_recipient (f p)) = 32 then ALG_X25519 else ALG_P256)" by metis
  then have "map (encapsulate_to C) ps = map (\<lambda>p. Ok (f p)) ps" by simp
  with assms(3) have d: "distinct ps" "inj_on f (set ps)" by (auto simp: distinct_map inj_on_def)
  have "inj_on (\<lambda>p. enc_recipient (f p)) (set ps)"
  proof (rule inj_onI)
    fix p q assume "p \<in> set ps" "q \<in> set ps" "enc_recipient (f p) = enc_recipient (f q)"
    with f have "f p = f q" by (metis encapsulation.equality unit_eq)
    with d(2) \<open>p \<in> set ps\<close> \<open>q \<in> set ps\<close> show "p = q" by (simp add: inj_on_eq_iff)
  qed
  with d(1) f show ?thesis
    unfolding reject_duplicate_direct_def by (intro reject_direct_ok [where f = f]) (simp_all add: distinct_map)
qed

lemma seal_all_succeeds:
  assumes "kem_ok C" and "length dek = 32" and "targets_ok C draws ps"
    and "\<And>p. p \<in> set ps \<Longrightarrow> \<exists>sec. wrap_secret_ok C sec \<and> wrap_secret_public C sec = Ok p"
    and "\<And>i. i < length ps \<Longrightarrow> dh_nonzero C (ps ! i) (draws i)"
  shows "\<exists>ws. seal_all C draws dek epoch ps = Ok ws"
  unfolding seal_all_def
proof (rule collect_total)
  fix x assume "x \<in> set (enumerate 0 ps)"
  then obtain i where i: "i < length ps" and x: "x = (i, ps ! i)"
    by (auto simp: in_set_enumerate_eq)
  obtain sec where sec: "wrap_secret_ok C sec" "wrap_secret_public C sec = Ok (ps ! i)"
    using assms(4) [OF nth_mem [OF i]] by blast
  have "draw_ok C (ps ! i) (draws i)" using assms(3) i by (simp add: targets_ok_def)
  from seal_opens [OF assms(1) sec this assms(5) [OF i] assms(2), of epoch]
  show "\<exists>y. (case x of (i, p) \<Rightarrow> seal C (draws i) p dek epoch) = Ok y" by (auto simp: x)
qed

lemma seal_capsules_succeeds:
  assumes "\<And>q. q \<in> set rs \<Longrightarrow> \<exists>c. kem_encapsulate kem (rp_backend q) (rp_key q) dek = Ok c \<and> c \<noteq> []"
  shows "\<exists>cs. seal_capsules kem dek rs = Ok cs"
  unfolding seal_capsules_def
proof (rule collect_total)
  fix q assume "q \<in> set rs"
  from assms [OF this] obtain c where "kem_encapsulate kem (rp_backend q) (rp_key q) dek = Ok c" "c \<noteq> []" by blast
  then show "\<exists>y. bind (kem_encapsulate kem (rp_backend q) (rp_key q) dek) (\<lambda>capsule. if capsule = [] then Err RecryptError
      else Ok \<lparr>rc_backend = rp_backend q, rc_recipient = rp_key q, rc_ciphertext = capsule\<rparr>) = Ok y" by simp
qed

lemma seal_mixed_total:
  assumes "kem_ok C" and "share_draw_ok C r ps" and "ps \<noteq> [] \<or> rs \<noteq> []"
    and "\<And>p. p \<in> set ps \<Longrightarrow> \<exists>sec. wrap_secret_ok C sec \<and> wrap_secret_public C sec = Ok p"
    and "\<And>i. i < length ps \<Longrightarrow> dh_nonzero C (ps ! i) (drawn_wraps r i)"
    and "distinct (map (encapsulate_to C) ps)" and "distinct (map (\<lambda>q. (rp_backend q, rp_key q)) rs)"
    and "\<And>q. q \<in> set rs \<Longrightarrow> \<exists>c. kem_encapsulate kem (rp_backend q) (rp_key q) (drawn_dek r) = Ok c \<and> c \<noteq> []"
    and "length pt div 64 < 2 ^ 32 - 1"
  shows "\<exists>s. seal_mixed C r pt ps rs kem epoch = Ok s"
proof -
  have d: "length (drawn_dek r) = 32" "length (drawn_payload_nonce r) = 24" "targets_ok C (drawn_wraps r) ps"
    using assms(2) by (simp_all add: share_draw_ok_def)
  obtain ct where ct: "encrypt_payload C (drawn_dek r) (drawn_payload_nonce r) pt = Ok ct"
    using aead_encrypts [OF assms(1) d(1,2) assms(9), of PAYLOAD_AAD] by (auto simp: encrypt_payload_def)
  obtain ws where ws: "seal_all C (drawn_wraps r) (drawn_dek r) epoch ps = Ok ws"
    using seal_all_succeeds [OF assms(1) d(1,3) assms(4,5)] by blast
  obtain cs where cs: "seal_capsules kem (drawn_dek r) rs = Ok cs"
    using seal_capsules_succeeds [OF assms(8)] by blast
  show ?thesis
    using assms(3) ct ws cs reject_duplicate_direct_ok [OF assms(4,1,6)] reject_duplicate_recrypt_ok [OF assms(7)]
    by (auto simp: seal_mixed_def)
qed

text \<open>A sealed share of the example: Alice is a direct recipient, a Recrypt key holds a capsule.\<close>

definition demo_rp :: recrypt_public where "demo_rp = \<lparr>rp_backend = ''lattice'', rp_key = [1, 2]\<rparr>"

abbreviation demo_seal :: "(share_error, share) result" where
  "demo_seal \<equiv> seal_mixed toy_share demo_sdraw [10, 11] [demo_alice_pk] [demo_rp] toy_kem 1"

abbreviation demo_add :: "share \<Rightarrow> (share_error, share) result" where
  "demo_add s \<equiv> add_recipient toy_share demo_draw s demo_alice demo_bob_pk"

lemma demo_sdraw_simps [simp]: "drawn_wraps demo_sdraw i = demo_draw" "drawn_dek demo_sdraw = replicate 32 8"
  by (simp_all add: demo_sdraw_def)

lemma demo_draws: "share_draw_ok toy_share demo_sdraw [demo_alice_pk]"
  by (rule demo_sdraw_ok) auto

lemma demo_seal_Ok: "\<exists>s. demo_seal = Ok s"
proof (rule seal_mixed_total)
  show "\<exists>sec. wrap_secret_ok toy_share sec \<and> wrap_secret_public toy_share sec = Ok p"
    if "p \<in> set [demo_alice_pk]" for p
    using that by (auto intro!: exI [of _ demo_alice])
qed (auto simp: toy_kem_def simp del: demo_encapsulations intro!: demo_sdraw_ok)

text \<open>
  Sealing succeeds for a non-empty list of recipients with distinct encapsulation keys, each the
  public key of some secret, when the backend makes the capsules and the plaintext fits the AEAD;
  and each of these secrets then opens the share.
\<close>

lemma seal_mixed_succeeds:
  assumes "kem_ok C" and "share_draw_ok C r ps" and "ps \<noteq> [] \<or> rs \<noteq> []"
    and "\<And>p. p \<in> set ps \<Longrightarrow> \<exists>sec. wrap_secret_ok C sec \<and> wrap_secret_public C sec = Ok p"
    and "\<And>i. i < length ps \<Longrightarrow> dh_nonzero C (ps ! i) (drawn_wraps r i)"
    and "distinct (map (encapsulate_to C) ps)" and "distinct (map (\<lambda>q. (rp_backend q, rp_key q)) rs)"
    and "\<And>q. q \<in> set rs \<Longrightarrow> \<exists>c. kem_encapsulate kem (rp_backend q) (rp_key q) (drawn_dek r) = Ok c \<and> c \<noteq> []"
    and "length pt div 64 < 2 ^ 32 - 1"
  shows "\<exists>s. seal_mixed C r pt ps rs kem epoch = Ok s \<and>
    (\<forall>sec p. wrap_secret_ok C sec \<longrightarrow> wrap_secret_public C sec = Ok p \<longrightarrow> p \<in> set ps \<longrightarrow> share_open C s sec = Ok pt)"
proof -
  obtain s where s: "seal_mixed C r pt ps rs kem epoch = Ok s"
    using seal_mixed_total [OF assms, of epoch] by blast
  have inv: "share_inv C (drawn_dek r) s" by (rule seal_mixed_inv [OF assms(1,2) s])
  have "xc_encrypt C (drawn_dek r) (sh_nonce s) PAYLOAD_AAD pt = Some (sh_ciphertext s)" and t: "sh_targets s = ps"
    using s by (auto simp: seal_mixed_def Let_def encrypt_payload_def result_simps split: if_splits)
  from aead_decrypts [OF assms(1) this(1)]
  have "decrypt_payload C (drawn_dek r) (sh_nonce s) (sh_ciphertext s) = Ok pt"
    by (simp add: decrypt_payload_def)
  with s share_open_eq [OF assms(1) inv] recipient_iff_target [OF assms(1) inv] t show ?thesis by auto
qed

lemma seal_mixed_succeeds_witness: "\<exists>s. demo_seal = Ok s \<and> share_open toy_share s demo_alice = Ok [10, 11]"
proof -
  have "\<exists>s. demo_seal = Ok s \<and> (\<forall>sec p. wrap_secret_ok toy_share sec \<longrightarrow>
    wrap_secret_public toy_share sec = Ok p \<longrightarrow> p \<in> set [demo_alice_pk] \<longrightarrow> share_open toy_share s sec = Ok [10, 11])"
  proof (rule seal_mixed_succeeds)
    show "\<exists>sec. wrap_secret_ok toy_share sec \<and> wrap_secret_public toy_share sec = Ok p"
      if "p \<in> set [demo_alice_pk]" for p
      using that by (auto intro!: exI [of _ demo_alice])
  qed (auto simp: toy_kem_def simp del: demo_encapsulations intro!: demo_sdraw_ok)
  then show ?thesis by auto
qed

lemma add_recipient_total:
  assumes "kem_ok C" and "share_inv C dek s" and "wrap_secret_ok C opener" and "wrap_secret_public C opener = Ok opk"
    and "encapsulate_to C opk \<in> encapsulate_to C ` set (sh_targets s)"
    and "wrap_secret_ok C sec" and "wrap_secret_public C sec = Ok pk" and "draw_ok C pk r" and "dh_nonzero C pk r"
    and "encapsulate_to C pk \<notin> encapsulate_to C ` set (sh_targets s)"
  shows "\<exists>s'. add_recipient C r s opener pk = Ok s'"
proof -
  have dek: "length dek = 32" using assms(2) by (simp add: share_inv_def)
  obtain w where w: "seal C r pk dek (sh_epoch s) = Ok w"
    by (rule seal_opens [OF assms(1,6,7,8,9) dek, where epoch = "sh_epoch s"])
  have "open_dek C s opener = Ok dek"
    using open_dek_eq [OF assms(1-3)] recipient_iff_target [OF assms(1-4)] assms(5) by simp
  moreover have "recipient_of C sec \<notin> wr_recipient ` set (sh_wraps s)"
    using recipient_iff_target [OF assms(1,2,6,7)] assms(10) by simp
  then have "\<not> list_ex (\<lambda>w. wr_recipient w = recipient_of C sec) (sh_wraps s)" by (force simp: list_ex_iff)
  moreover have "pk \<notin> set (sh_targets s)" using assms(10) by blast
  ultimately show ?thesis
    using w by (simp add: add_recipient_def secret_encapsulation [OF assms(1,6,7)])
qed

lemma demo_seal_targets: "demo_seal = Ok s \<Longrightarrow> sh_targets s = [demo_alice_pk] \<and> capsule_ids (sh_recrypt s) = [(''lattice'', [1, 2])]"
  by (auto simp: seal_mixed_def Let_def result_simps demo_rp_def split: if_splits dest!: seal_capsules_Ok(1))

lemma demo_add_Ok:
  assumes "demo_seal = Ok s"
  shows "\<exists>s'. demo_add s = Ok s'"
proof -
  have "share_inv toy_share (drawn_dek demo_sdraw) s"
    by (rule seal_mixed_inv [OF toy_kem_ok demo_draws assms])
  with demo_seal_targets [OF assms] show ?thesis
    by (intro add_recipient_total [of _ _ _ _ demo_alice_pk demo_bob]) auto
qed

section \<open>Properties\<close>

text \<open>
  C7. After any sequence of added recipients, rotations and capsule transformations of a sealed
  share, a secret opens the share to the original plaintext if its encapsulation key is that of a
  current target, and gets \<open>NoMatchingWrap\<close> otherwise: recipients never lose access by an operation
  that keeps them, and a recipient dropped by a rotation is refused.
\<close>

theorem derived_share_opens:
  assumes "kem_ok C" and "share_draw_ok C r ps" and "seal_mixed C r pt ps rs kem epoch = Ok s0"
    and "derived C kem rekey s0 s" and "wrap_secret_ok C sec" and "wrap_secret_public C sec = Ok pk"
  shows "share_open C s sec =
    (if encapsulate_to C pk \<in> encapsulate_to C ` set (sh_targets s) then Ok pt else Err NoMatchingWrap)"
proof -
  have inv0: "share_inv C (drawn_dek r) s0" by (rule seal_mixed_inv [OF assms(1,2,3)])
  note inv = derived_inv [OF assms(4,1) inv0]
  have "xc_encrypt C (drawn_dek r) (sh_nonce s0) PAYLOAD_AAD pt = Some (sh_ciphertext s0)"
    using assms(3) by (auto simp: seal_mixed_def Let_def encrypt_payload_def result_simps split: if_splits)
  from aead_decrypts [OF assms(1) this] inv
  have "decrypt_payload C (drawn_dek r) (sh_nonce s) (sh_ciphertext s) = Ok pt"
    by (simp add: decrypt_payload_def)
  with share_open_eq [OF assms(1) conjunct1 [OF inv] assms(5)]
    recipient_iff_target [OF assms(1) conjunct1 [OF inv] assms(5,6)]
  show ?thesis by simp
qed

theorem derived_share_opens_witness:
  "\<exists>s s'. demo_seal = Ok s \<and> demo_add s = Ok s' \<and>
    share_open toy_share s demo_bob = Err NoMatchingWrap \<and> share_open toy_share s' demo_bob = Ok [10, 11]"
proof -
  obtain s s' where s: "demo_seal = Ok s" and s': "demo_add s = Ok s'" using demo_seal_Ok demo_add_Ok by blast
  let ?rk = "\<lambda>_ _ _ _. True"
  have d0: "derived toy_share toy_kem ?rk s s" by (rule derived_refl)
  have d: "derived toy_share toy_kem ?rk s s'"
    by (rule derived_add [OF d0 demo_secrets(1,4) demo_draw_ok(1) s'])
  have t: "sh_targets s' = [demo_alice_pk, demo_bob_pk]"
    using s' demo_seal_targets [OF s] by (auto simp: add_recipient_def result_simps split: if_splits)
  show ?thesis
    using s s' t demo_seal_targets [OF s]
      derived_share_opens [OF toy_kem_ok demo_draws s d0 demo_secrets(2,6)]
      derived_share_opens [OF toy_kem_ok demo_draws s d demo_secrets(2,6)] by auto
qed

text \<open>
  A holder of a Recrypt key opens every derived share that has a capsule for the key, also when
  the capsule was transformed to it from another key: transformation keeps the data key.
\<close>

lemma derived_recrypt_opens:
  assumes "recrypt_backend kem pair rekey sealed" and "kem_ok C" and "share_draw_ok C r ps"
    and "seal_mixed C r pt ps rs kem epoch = Ok s0" and "derived C kem rekey s0 s"
    and "(b, pk) \<in> set (capsule_ids (sh_recrypt s))" and "pair b pk sk"
  shows "open_recrypt C s b pk sk kem = Ok pt"
  by (rule recrypt_backend.derived_open_recrypt [OF assms])

lemma derived_recrypt_opens_witness:
  "\<exists>s s'. demo_seal = Ok s \<and>
    transform_recrypt s ''lattice'' [1, 2] \<lparr>rp_backend = ''lattice'', rp_key = [3]\<rparr> [] toy_kem = Ok s' \<and>
    open_recrypt toy_share s' ''lattice'' [3] [] toy_kem = Ok [10, 11]"
proof -
  let ?to = "\<lparr>rp_backend = ''lattice'', rp_key = [3 :: u8]\<rparr>"
  obtain s where s: "demo_seal = Ok s" using demo_seal_Ok by blast
  obtain c where c: "sh_recrypt s = [c]" "rc_backend c = ''lattice''" "rc_recipient c = [1, 2]"
    using demo_seal_targets [OF s] by (auto simp: capsule_ids_def)
  have ct: "rc_ciphertext c = replicate 32 8"
    using s c seal_capsules_Ok(2) [of toy_kem "drawn_dek demo_sdraw" "[demo_rp]" "[c]" c]
    by (auto simp: seal_mixed_def Let_def result_simps toy_kem_def split: if_splits)
  obtain s' where s': "transform_recrypt s ''lattice'' [1, 2] ?to [] toy_kem = Ok s'"
    and cs: "sh_recrypt s' = [\<lparr>rc_backend = ''lattice'', rc_recipient = [3], rc_ciphertext = replicate 32 8\<rparr>]"
    by (simp add: transform_recrypt_def c ct toy_kem_def)
  have d0: "derived toy_share toy_kem (\<lambda>_ _ _ _. True) s s" by (rule derived_refl)
  have d: "derived toy_share toy_kem (\<lambda>_ _ _ _. True) s s'" by (rule derived_transform [OF d0 _ s']) simp
  have "open_recrypt toy_share s' ''lattice'' [3] [] toy_kem = Ok [10, 11]"
    by (rule derived_recrypt_opens [OF toy_backend toy_kem_ok demo_draws s d]) (simp_all add: cs capsule_ids_def)
  with s s' show ?thesis by blast
qed

end
