(* ===== verification/Share_Wire.thy ===== *)
theory Share_Wire
  imports Share_Laws
begin

text \<open>
  The wire form of shares: \<open>from_cbor\<close> inverts \<open>to_cbor\<close> on well-formed shares, and the access
  commitment and content id determine the access set and the payload up to a Blake3 collision.
\<close>

section \<open>Well-formed shares\<close>

fun target_ok :: "share_crypto \<Rightarrow> wrap_public \<Rightarrow> bool" where
  "target_ok C (PubX25519 b) = (length b = 32 \<and> \<not> is_small_order b)"
| "target_ok C (PubEd25519 b) = (length b = 32 \<and> ed_key_ok C b \<and> \<not> is_small_order (ed_to_montgomery C b))"
| "target_ok C (PubP256 b) = (length b = 33 \<and> p256_point_ok C b)"

definition capsule_ok :: "dcbor_ext \<Rightarrow> recrypt_capsule \<Rightarrow> bool" where
  "capsule_ok E c \<longleftrightarrow> text_ok E (rc_backend c) \<and> rc_backend c \<noteq> [] \<and>
    rc_recipient c \<noteq> [] \<and> rc_ciphertext c \<noteq> [] \<and>
    length (rc_backend c) + length (rc_recipient c) + length (rc_ciphertext c) < 2 ^ 63"

definition entry_ok :: "share_crypto \<Rightarrow> u64 \<Rightarrow> wrap \<Rightarrow> wrap_public \<Rightarrow> bool" where
  "entry_ok C epoch w t \<longleftrightarrow> wrap_ok C w \<and> target_ok C t \<and> wr_epoch w = epoch \<and>
    encapsulate_to C t = Ok \<lparr>enc_alg = wr_alg w, enc_recipient = wr_recipient w\<rparr>"

definition share_ok :: "share_crypto \<Rightarrow> dcbor_ext \<Rightarrow> share \<Rightarrow> bool" where
  "share_ok C E s \<longleftrightarrow> length (sh_nonce s) = 24 \<and> length (sh_ciphertext s) < 2 ^ 64 \<and>
    list_all2 (entry_ok C (sh_epoch s)) (sh_wraps s) (sh_targets s) \<and>
    list_all (capsule_ok E) (sh_recrypt s) \<and> (sh_targets s \<noteq> [] \<or> sh_recrypt s \<noteq> []) \<and>
    length (sh_wraps s) + length (sh_recrypt s) < 2 ^ 64"

section \<open>Targets and capsules\<close>

lemma target_fields_ok: "ext_ok E \<Longrightarrow> fields_ok E (target_fields t)"
  by (simp add: fields_ok_def target_fields_def text_ok_ascii)

lemma capsule_fields_ok: "ext_ok E \<Longrightarrow> fields_ok E (capsule_fields c)"
  by (simp add: fields_ok_def capsule_fields_def text_ok_ascii)

lemma wf_target: "ext_ok E \<Longrightarrow> target_ok C t \<Longrightarrow> wf_dcbor E (DMap (insert_all E (target_fields t)))"
  by (intro wf_insert_all target_fields_ok) (cases t; auto simp: target_fields_def text_ok_ascii)+

lemma wf_capsule: "ext_ok E \<Longrightarrow> capsule_ok E c \<Longrightarrow> wf_dcbor E (DMap (insert_all E (capsule_fields c)))"
  by (intro wf_insert_all capsule_fields_ok) (auto simp: capsule_fields_def capsule_ok_def text_ok_ascii)

lemma parse_target_fields:
  assumes E: "ext_ok E" and "target_ok C t"
  shows "parse_target C E (DMap (insert_all E (target_fields t))) = Ok t"
proof -
  note ext = map_extract_insert_all [OF target_fields_ok [OF E] text_ok_ascii [OF E]]
  have "length (insert_all E (target_fields t)) = 2"
    by (simp add: insert_all_fields(2) [OF target_fields_ok [OF E]]) (simp add: target_fields_def)
  with assms(2) show ?thesis
    by (cases t; simp add: parse_target_def ext; simp add: target_fields_def wrap_x25519_def wrap_ed25519_def
        wrap_p256_def ed25519_to_x25519_def)
qed

lemma parse_capsule_fields:
  assumes E: "ext_ok E" and "capsule_ok E c"
  shows "parse_capsule E (DMap (insert_all E (capsule_fields c))) = Ok c"
proof -
  note ext = map_extract_insert_all [OF capsule_fields_ok [OF E] text_ok_ascii [OF E]]
  have "length (insert_all E (capsule_fields c)) = 4"
    by (simp add: insert_all_fields(2) [OF capsule_fields_ok [OF E]]) (simp add: capsule_fields_def)
  with assms(2) show ?thesis
    by (simp add: parse_capsule_def ext) (simp add: capsule_fields_def capsule_ok_def)
qed

lemma parse_target_capsule:
  assumes "ext_ok E"
  shows "parse_target C E (DMap (insert_all E (capsule_fields c))) = Err PayloadError"
proof -
  have "length (insert_all E (capsule_fields c)) = 4"
    by (simp add: insert_all_fields(2) [OF capsule_fields_ok [OF assms]]) (simp add: capsule_fields_def)
  then show ?thesis by (simp add: parse_target_def)
qed

lemma parse_entry_fields:
  assumes "ext_ok E" and "entry_ok C epoch w t"
  shows "parse_entry C E epoch (DMap (insert_all E (wrap_fields w (DUnsigned (wr_epoch w)))),
    DMap (insert_all E (target_fields t))) = Ok (w, t)"
  using assms(2) parse_wrap_to_cbor [OF assms(1), of C w] parse_target_fields [OF assms(1), of C t]
  by (simp add: parse_entry_def parse_embedded_wrap_def wrap_to_cbor_def entry_ok_def del: to_cbor_data.simps)

section \<open>The round trip\<close>

lemma map_cbor_insert_all:
  assumes "fields_ok E kvs"
  shows "map_cbor (insert_all E kvs) k = ok_or (map_of kvs k) PayloadError"
proof (cases "map_of kvs k")
  case None
  then have "find (\<lambda>(k', _). k' = DText k) (insert_all E kvs) = None"
    by (auto simp: find_None_iff insert_all_fields(1) [OF assms] map_of_eq_None_iff image_iff)
  with None show ?thesis by (simp add: map_cbor_def)
next
  case (Some v)
  have "(DText k, v) \<in> set (insert_all E kvs)"
    using map_of_SomeD [OF Some] by (force simp: insert_all_fields(1) [OF assms])
  then have "find (\<lambda>(k', _). k' = DText k) (insert_all E kvs) \<noteq> None" by (auto simp: find_None_iff)
  then obtain p where p: "find (\<lambda>(k', _). k' = DText k) (insert_all E kvs) = Some p" by blast
  then have "p \<in> set (insert_all E kvs)" "fst p = DText k"
    by (auto simp: find_Some_iff) (metis nth_mem)
  then have "(k, snd p) \<in> set kvs" by (auto simp: insert_all_fields(1) [OF assms])
  with assms Some have "snd p = v" by (auto simp: fields_ok_def dest: map_of_is_SomeI)
  with p Some show ?thesis by (simp add: map_cbor_def)
qed

lemma payload_fields_ok: "ext_ok E \<Longrightarrow> fields_ok E (payload_fields s)"
  by (simp add: fields_ok_def payload_fields_def text_ok_ascii)

lemma parse_payload_fields:
  assumes E: "ext_ok E" and "length (sh_nonce s) = 24"
  shows "parse_payload E (insert_all E (payload_fields s)) = Ok (sh_nonce s, sh_ciphertext s)"
proof -
  note ext = map_extract_insert_all [OF payload_fields_ok [OF E] text_ok_ascii [OF E]]
  have "length (insert_all E (payload_fields s)) = 3"
    by (simp add: insert_all_fields(2) [OF payload_fields_ok [OF E]]) (simp add: payload_fields_def)
  with assms(2) show ?thesis by (simp add: parse_payload_def ext) (simp add: payload_fields_def)
qed

definition share_fields :: "dcbor_ext \<Rightarrow> share \<Rightarrow> (string \<times> dcbor) list" where
  "share_fields E s =
    [(''v'', DUnsigned 1), (''epoch'', DUnsigned (sh_epoch s)),
     (''payload'', DMap (insert_all E (payload_fields s))),
     (''wraps'', DArray (map (\<lambda>w. DMap (insert_all E (wrap_fields w (DUnsigned (wr_epoch w))))) (sh_wraps s))),
     (''targets'', DArray (map (\<lambda>t. DMap (insert_all E (target_fields t))) (sh_targets s))),
     (''recrypt'', DArray (map (\<lambda>c. DMap (insert_all E (capsule_fields c))) (sh_recrypt s)))]"

lemma share_fields_ok: "ext_ok E \<Longrightarrow> fields_ok E (share_fields E s)"
  by (simp add: fields_ok_def share_fields_def text_ok_ascii)

lemma share_ok_members:
  assumes "share_ok C E s"
  shows "w \<in> set (sh_wraps s) \<Longrightarrow> wrap_ok C w" and "t \<in> set (sh_targets s) \<Longrightarrow> target_ok C t"
    and "c \<in> set (sh_recrypt s) \<Longrightarrow> capsule_ok E c" and "length (sh_targets s) = length (sh_wraps s)"
  using assms by (auto simp: share_ok_def list_all2_conv_all_nth in_set_conv_nth entry_ok_def list_all_iff)

lemma collect_Ok_map: "(\<And>x. x \<in> set xs \<Longrightarrow> f x = Ok (g x)) \<Longrightarrow> collect f xs = Ok (map g xs)"
  by (induction xs) simp_all

lemma share_to_map_eq:
  assumes E: "ext_ok E" and s: "share_ok C E s"
  shows "share_to_map E s = Ok (insert_all E (share_fields E s))"
proof -
  have "try_from_data E (wrap_to_cbor E w) = Ok (DMap (insert_all E (wrap_fields w (DUnsigned (wr_epoch w)))))"
    if "w \<in> set (sh_wraps s)" for w
    unfolding wrap_to_cbor_def
    by (rule try_from_data_encoded [OF wf_wrap_fields [OF E share_ok_members(1) [OF s that]]]) simp
  then have "collect (\<lambda>w. map_err DcborError (try_from_data E (wrap_to_cbor E w))) (sh_wraps s) =
    Ok (map (\<lambda>w. DMap (insert_all E (wrap_fields w (DUnsigned (wr_epoch w))))) (sh_wraps s))"
    by (intro collect_Ok_map) simp
  moreover have "try_from_data E (target_cbor E t) = Ok (DMap (insert_all E (target_fields t)))"
    if "t \<in> set (sh_targets s)" for t
    unfolding target_cbor_def by (rule try_from_data_encoded [OF wf_target [OF E share_ok_members(2) [OF s that]]])
  then have "collect (\<lambda>t. map_err DcborError (try_from_data E (target_cbor E t))) (sh_targets s) =
    Ok (map (\<lambda>t. DMap (insert_all E (target_fields t))) (sh_targets s))"
    by (intro collect_Ok_map) simp
  moreover have "try_from_data E (capsule_cbor E c) = Ok (DMap (insert_all E (capsule_fields c)))"
    if "c \<in> set (sh_recrypt s)" for c
    unfolding capsule_cbor_def by (rule try_from_data_encoded [OF wf_capsule [OF E share_ok_members(3) [OF s that]]])
  then have "collect (\<lambda>c. map_err DcborError (try_from_data E (capsule_cbor E c))) (sh_recrypt s) =
    Ok (map (\<lambda>c. DMap (insert_all E (capsule_fields c))) (sh_recrypt s))"
    by (intro collect_Ok_map) simp
  ultimately show ?thesis by (simp add: share_to_map_def share_fields_def)
qed

lemma wf_share_fields:
  assumes E: "ext_ok E" and s: "share_ok C E s"
  shows "wf_dcbor E (DMap (insert_all E (share_fields E s)))"
proof (rule wf_insert_all [OF share_fields_ok [OF E]])
  have "wf_dcbor E (DMap (insert_all E (payload_fields s)))"
    using s by (intro wf_insert_all payload_fields_ok [OF E])
      (auto simp: payload_fields_def share_ok_def PAYLOAD_ALG_def text_ok_ascii [OF E])
  moreover have "length (sh_wraps s) < 2 ^ 64" "length (sh_recrypt s) < 2 ^ 64"
    using s by (simp_all add: share_ok_def)
  ultimately show "wf_dcbor E v" if "(k, v) \<in> set (share_fields E s)" for k v
    using that wf_wrap_fields [OF E share_ok_members(1) [OF s]] wf_target [OF E share_ok_members(2) [OF s]]
      wf_capsule [OF E share_ok_members(3) [OF s]] share_ok_members(4) [OF s]
    by (auto simp: share_fields_def simp del: wf_dcbor.simps(6))
qed (simp add: share_fields_def)

lemma parse_entries:
  assumes E: "ext_ok E" and "list_all2 (entry_ok C epoch) ws ts"
  shows "collect (parse_entry C E epoch)
      (zip (map (\<lambda>w. DMap (insert_all E (wrap_fields w (DUnsigned (wr_epoch w))))) ws)
        (map (\<lambda>t. DMap (insert_all E (target_fields t))) ts)) = Ok (zip ws ts)"
  using assms(2) by (induction rule: list_all2_induct) (simp_all add: parse_entry_fields [OF E])

lemma share_roundtrip:
  assumes E: "ext_ok E" and s: "share_ok C E s"
  shows "\<exists>b. share_to_cbor E s = Ok b \<and> share_from_cbor C E b = Ok s"
proof -
  let ?m = "insert_all E (share_fields E s)"
  note ext = map_extract_insert_all [OF share_fields_ok [OF E] text_ok_ascii [OF E]]
  note mc = map_cbor_insert_all [OF share_fields_ok [OF E]]
  have len: "length ?m = 6"
    by (simp add: insert_all_fields(2) [OF share_fields_ok [OF E]]) (simp add: share_fields_def)
  have look: "map_extract E try_u64 ?m ''v'' = Ok 1" "map_extract E try_u64 ?m ''epoch'' = Ok (sh_epoch s)"
    "map_cbor ?m ''payload'' = Ok (DMap (insert_all E (payload_fields s)))"
    "map_cbor ?m ''wraps'' = Ok (DArray (map (\<lambda>w. DMap (insert_all E (wrap_fields w (DUnsigned (wr_epoch w))))) (sh_wraps s)))"
    "map_cbor ?m ''targets'' = Ok (DArray (map (\<lambda>t. DMap (insert_all E (target_fields t))) (sh_targets s)))"
    "map_cbor ?m ''recrypt'' = Ok (DArray (map (\<lambda>c. DMap (insert_all E (capsule_fields c))) (sh_recrypt s)))"
    by (simp_all add: ext mc) (simp_all add: share_fields_def)
  have caps: "collect (parse_capsule E) (map (\<lambda>c. DMap (insert_all E (capsule_fields c))) (sh_recrypt s)) = Ok (sh_recrypt s)"
    using collect_map_Ok [of "sh_recrypt s" "parse_capsule E" "\<lambda>c. DMap (insert_all E (capsule_fields c))" id]
      parse_capsule_fields [OF E share_ok_members(3) [OF s]] by simp
  have e: "list_all2 (entry_ok C (sh_epoch s)) (sh_wraps s) (sh_targets s)" and n: "length (sh_nonce s) = 24"
    and ne: "sh_targets s \<noteq> [] \<or> sh_recrypt s \<noteq> []"
    using s by (simp_all add: share_ok_def)
  have zip: "zip (sh_wraps s) (sh_targets s) = [] \<longleftrightarrow> sh_targets s = []"
    using share_ok_members(4) [OF s] by auto
  have "share_from_cbor C E (to_cbor_data E (DMap ?m)) = Ok s"
    using ne share_ok_members(4) [OF s]
    unfolding share_from_cbor_def try_from_data_encoded [OF wf_share_fields [OF E s]] bind.simps map_err.simps
    by (auto simp add: len look parse_payload_fields [OF E n] parse_entries [OF E e] caps zip simp del: to_cbor_data.simps)
  then show ?thesis by (simp add: share_to_cbor_def share_to_map_eq [OF E s] del: to_cbor_data.simps)
qed

section \<open>Commitments\<close>

lemma to_be_bytes_inj: "to_be_bytes 8 (a :: u64) = to_be_bytes 8 b \<Longrightarrow> a = b"
  using from_to_be_bytes [of a 8] from_to_be_bytes [of b 8] unat_u64_le(4) [of a] unat_u64_le(4) [of b] by metis

lemma length_prefix_inj:
  fixes p q :: bytes
  assumes "to_be_bytes 8 (word_of_nat (length p) :: u64) @ p @ x = to_be_bytes 8 (word_of_nat (length q) :: u64) @ q @ y"
    and "length p < 2 ^ 64" and "length q < 2 ^ 64"
  shows "p = q \<and> x = y"
proof -
  have "to_be_bytes 8 (word_of_nat (length p) :: u64) = to_be_bytes 8 (word_of_nat (length q) :: u64)" and "p @ x = q @ y"
    using assms(1) by (simp_all add: append_eq_append_conv)
  from to_be_bytes_inj [OF this(1)] have "length p = length q"
    using unat_of_length [OF assms(2)] unat_of_length [OF assms(3)] by metis
  with \<open>p @ x = q @ y\<close> show ?thesis by simp
qed

definition prefixed :: "bytes list \<Rightarrow> bytes" where
  "prefixed parts = concat (map (\<lambda>part. to_be_bytes 8 (word_of_nat (length part) :: u64) @ part) parts)"

lemma prefixed_inj:
  assumes "prefixed ps = prefixed qs" and "length ps = length qs"
    and "\<forall>p \<in> set ps \<union> set qs. length p < 2 ^ 64"
  shows "ps = qs"
  using assms(2,1,3)
proof (induction ps qs rule: list_induct2)
  case (Cons p ps q qs)
  then have "to_be_bytes 8 (word_of_nat (length p) :: u64) @ p @ prefixed ps =
      to_be_bytes 8 (word_of_nat (length q) :: u64) @ q @ prefixed qs" by (simp add: prefixed_def)
  from length_prefix_inj [OF this] Cons show ?case by auto
qed simp

lemma content_binds:
  assumes "CONTENT_DOMAIN @ sh_nonce s @ to_be_bytes 8 (word_of_nat (length (sh_ciphertext s)) :: u64) @ sh_ciphertext s =
      CONTENT_DOMAIN @ sh_nonce s' @ to_be_bytes 8 (word_of_nat (length (sh_ciphertext s')) :: u64) @ sh_ciphertext s'"
    and "length (sh_nonce s) = length (sh_nonce s')"
  shows "sh_nonce s = sh_nonce s' \<and> sh_ciphertext s = sh_ciphertext s'"
  using assms by (simp add: append_eq_append_conv)

definition access_parts :: "dcbor_ext \<Rightarrow> share \<Rightarrow> bytes list" where
  "access_parts E s = map (target_cbor E) (sh_targets s) @ map (capsule_cbor E) (sh_recrypt s)"

lemma access_material_eq:
  "access_material E s = ACCESS_DOMAIN @ to_be_bytes 8 (word_of_nat (length (access_parts E s)) :: u64) @
    prefixed (sort (access_parts E s))"
  by (simp add: access_material_def access_parts_def prefixed_def Let_def)

text \<open>The parts are short enough for their length prefixes.\<close>

definition entries_length :: "dcbor_ext \<Rightarrow> dmap \<Rightarrow> nat" where
  "entries_length E m = sum_list (map (\<lambda>(k, v). length (to_cbor_data E k) + length (to_cbor_data E v)) m)"

lemma entries_length_insert:
  "to_cbor_data E k \<notin> enc_keys E m \<Longrightarrow>
    entries_length E (map_insert E k v m) = length (to_cbor_data E k) + length (to_cbor_data E v) + entries_length E m"
  by (induction m) (auto simp: entries_length_def)

lemma entries_length_insert_all:
  "fields_ok E kvs \<Longrightarrow> entries_length E (insert_all E kvs) =
    sum_list (map (\<lambda>(k, v). length (to_cbor_data E (DText k)) + length (to_cbor_data E v)) kvs)"
proof (induction kvs rule: rev_induct)
  case (snoc p kvs)
  obtain k v where p: "p = (k, v)" by (cases p)
  have ok: "fields_ok E kvs" using snoc.prems by (simp add: p fields_ok_snoc)
  from entries_length_insert [OF insert_all_fresh [OF snoc.prems [unfolded p]], of v] snoc.IH [OF ok]
  show ?case by (simp add: p insert_all_snoc)
qed (simp add: insert_all_def entries_length_def)

lemma length_encode_varint_le: "length (encode_varint m n) \<le> 9"
  by (simp add: encode_varint_eq length_encode_head_le)

lemma length_leaf_le:
  "length (to_cbor_data E (DBytes b)) \<le> 9 + length b"
  "text_ok E s \<Longrightarrow> length (to_cbor_data E (DText s)) \<le> 9 + length s"
  using length_encode_varint_le by (simp_all add: text_ok_def)

lemma length_to_cbor_map: "length (to_cbor_data E (DMap m)) \<le> 9 + entries_length E m"
proof -
  have "length (concat (map (\<lambda>(k, v). to_cbor_data E k @ to_cbor_data E v) m)) = entries_length E m"
    by (induction m) (auto simp: entries_length_def)
  with length_encode_varint_le [of 5 "word_of_nat (length m)"] show ?thesis by simp
qed

lemma length_target_cbor:
  assumes "ext_ok E" and "target_ok C t"
  shows "length (target_cbor E t) < 2 ^ 64"
proof -
  have "length (key_bytes t) \<le> 33" "length (wrap_tag t) \<le> 7" "text_ok E (wrap_tag t)" "text_ok E ''alg''" "text_ok E ''key''"
    using assms by (cases t; simp add: text_ok_ascii)+
  then show ?thesis
    using length_to_cbor_map [of E "insert_all E (target_fields t)"] entries_length_insert_all [OF target_fields_ok [OF assms(1)], of t]
      length_leaf_le(1) [of E "key_bytes t"] length_leaf_le(2) [of E "wrap_tag t"] length_leaf_le(2) [of E "''alg''"]
      length_leaf_le(2) [of E "''key''"]
    by (simp add: target_cbor_def target_fields_def del: to_cbor_data.simps)
qed

lemma length_capsule_cbor:
  assumes "ext_ok E" and "capsule_ok E c"
  shows "length (capsule_cbor E c) < 2 ^ 64"
proof -
  note ascii = text_ok_ascii [OF assms(1)]
  have "length (rc_backend c) + length (rc_recipient c) + length (rc_ciphertext c) < 2 ^ 63" "text_ok E (rc_backend c)"
    using assms(2) by (simp_all add: capsule_ok_def)
  then show ?thesis
    using length_to_cbor_map [of E "insert_all E (capsule_fields c)"] entries_length_insert_all [OF capsule_fields_ok [OF assms(1)], of c]
      length_leaf_le(1) [of E "rc_recipient c"] length_leaf_le(1) [of E "rc_ciphertext c"]
      length_leaf_le(2) [of E "rc_backend c"] length_leaf_le(2) [OF ascii, of "''alg''"]
      length_leaf_le(2) [OF ascii, of "''recrypt-pre''"] length_leaf_le(2) [OF ascii, of "''backend''"]
      length_leaf_le(2) [OF ascii, of "''recipient''"] length_leaf_le(2) [OF ascii, of "''ciphertext''"]
    by (simp add: capsule_cbor_def capsule_fields_def del: to_cbor_data.simps)
qed

lemma length_access_part:
  "ext_ok E \<Longrightarrow> share_ok C E s \<Longrightarrow> p \<in> set (access_parts E s) \<Longrightarrow> length p < 2 ^ 64"
  using length_target_cbor length_capsule_cbor share_ok_members(2,3) by (fastforce simp: access_parts_def)

lemma access_parts_binds:
  assumes E: "ext_ok E" and s: "share_ok C E s" and s': "share_ok C E s'"
    and "mset (access_parts E s) = mset (access_parts E s')"
  shows "mset (sh_targets s) = mset (sh_targets s') \<and> mset (sh_recrypt s) = mset (sh_recrypt s')"
proof -
  define g where "g b = (case try_from_data E b of Ok c \<Rightarrow>
      (case parse_target C E c of Ok t \<Rightarrow> Inl t | Err _ \<Rightarrow> (case parse_capsule E c of Ok d \<Rightarrow> Inr d | Err _ \<Rightarrow> undefined))
    | Err _ \<Rightarrow> undefined)" for b
  have t: "g (target_cbor E t) = Inl t" if "target_ok C t" for t
    unfolding g_def target_cbor_def try_from_data_encoded [OF wf_target [OF E that]] result.case parse_target_fields [OF E that] ..
  have c: "g (capsule_cbor E c) = Inr c" if "capsule_ok E c" for c
    unfolding g_def capsule_cbor_def try_from_data_encoded [OF wf_capsule [OF E that]] result.case
      parse_target_capsule [OF E] parse_capsule_fields [OF E that] ..
  have m: "map g (access_parts E x) = map Inl (sh_targets x) @ map Inr (sh_recrypt x)" if "share_ok C E x" for x
    using share_ok_members(2,3) [OF that] t c by (simp add: access_parts_def)
  have l: "mset ts = image_mset projl (filter_mset isl (mset (map Inl ts @ map Inr cs)))"
    and r: "mset cs = image_mset projr (filter_mset (\<lambda>x. \<not> isl x) (mset (map Inl ts @ map Inr cs)))"
    for ts :: "wrap_public list" and cs :: "recrypt_capsule list"
    by (simp_all add: filter_mset_image_mset image_mset.compositionality comp_def)
  have eq: "mset (map Inl (sh_targets s) @ map Inr (sh_recrypt s)) = mset (map Inl (sh_targets s') @ map Inr (sh_recrypt s'))"
    unfolding m [OF s, symmetric] m [OF s', symmetric] mset_map assms(4) ..
  show ?thesis
    using l [of "sh_targets s" "sh_recrypt s"] r [of "sh_recrypt s" "sh_targets s"]
    unfolding eq l [of "sh_targets s'" "sh_recrypt s'", symmetric] r [of "sh_recrypt s'" "sh_targets s'", symmetric] ..
qed

lemma access_material_binds:
  assumes E: "ext_ok E" and s: "share_ok C E s" and s': "share_ok C E s'"
    and m: "access_material E s = access_material E s'"
  shows "mset (sh_targets s) = mset (sh_targets s') \<and> mset (sh_recrypt s) = mset (sh_recrypt s')"
proof (rule access_parts_binds [OF E s s'])
  have len: "length (access_parts E x) < 2 ^ 64" if "share_ok C E x" for x
    using that share_ok_members(4) [OF that] by (simp add: share_ok_def access_parts_def)
  have n: "to_be_bytes 8 (word_of_nat (length (access_parts E s)) :: u64) =
      to_be_bytes 8 (word_of_nat (length (access_parts E s')) :: u64)"
    and p: "prefixed (sort (access_parts E s)) = prefixed (sort (access_parts E s'))"
    using m by (simp_all add: access_material_eq append_eq_append_conv)
  have "length (access_parts E s) = length (access_parts E s')"
    using to_be_bytes_inj [OF n] unat_of_length [OF len [OF s]] unat_of_length [OF len [OF s']] by metis
  then have "sort (access_parts E s) = sort (access_parts E s')"
    using prefixed_inj [OF p] length_access_part [OF E] s s' by auto
  then show "mset (access_parts E s) = mset (access_parts E s')" by (metis mset_sort)
qed

text \<open>Shares that the operations produce are well formed when their parts are.\<close>

lemma wrap_secret_public_target_ok:
  assumes "kem_ok C" and "wrap_secret_ok C sec" and "wrap_secret_public C sec = Ok pk"
  shows "target_ok C pk"
  using assms wrap_secret_public_cases [OF assms(1,2)]
  by (cases sec) (auto simp: x25519_facts montgomery_facts p256_facts)

lemma share_inv_ok:
  assumes "share_inv C dek s" and "\<And>t. t \<in> set (sh_targets s) \<Longrightarrow> target_ok C t"
    and "\<And>c. c \<in> set (sh_recrypt s) \<Longrightarrow> capsule_ok E c" and "length (sh_nonce s) = 24"
    and "length (sh_ciphertext s) < 2 ^ 64" and "length (sh_wraps s) + length (sh_recrypt s) < 2 ^ 64"
  shows "share_ok C E s"
  using assms
  by (auto simp: share_ok_def share_inv_def entry_ok_def holds_def list_all2_conv_all_nth list_all_iff)

section \<open>Properties\<close>

text \<open>
  C31. A well-formed share is encoded, and parsing the encoding returns the share: epoch, payload,
  every wrap with its target, and every capsule.
\<close>

theorem share_cbor_roundtrip:
  assumes "ext_ok E" and "share_ok C E s"
  shows "\<exists>b. share_to_cbor E s = Ok b \<and> share_from_cbor C E b = Ok s"
  by (rule share_roundtrip [OF assms])

definition demo_share :: share where
  "demo_share = \<lparr>sh_epoch = 9, sh_nonce = replicate 24 1, sh_ciphertext = [1, 2, 3], sh_wraps = [demo_wrap],
    sh_targets = [demo_alice_pk],
    sh_recrypt = [\<lparr>rc_backend = ''lattice'', rc_recipient = [1, 2], rc_ciphertext = [5]\<rparr>]\<rparr>"

lemma demo_share_ok: "share_ok toy_share ascii_ext demo_share"
proof -
  have "wr_alg demo_wrap = ALG_X25519" "wr_recipient demo_wrap = 2 # replicate 31 3" "wr_epoch demo_wrap = 9"
    by (simp_all add: demo_wrap_def)
  moreover have "target_ok toy_share demo_alice_pk" by (simp add: demo_alice_pk_def)
  ultimately show ?thesis
    by (simp add: share_ok_def demo_share_def entry_ok_def capsule_ok_def text_ok_ascii)
qed

theorem share_cbor_roundtrip_witness:
  "\<exists>b. share_to_cbor ascii_ext demo_share = Ok b \<and> share_from_cbor toy_share ascii_ext b = Ok demo_share"
  by (rule share_cbor_roundtrip [OF ascii_ext_ok demo_share_ok])

text \<open>
  The content id and the access commitment identify what they are taken of: two well-formed
  shares with equal ids have the same nonce and ciphertext, and equal commitments mean the same
  targets and capsules in some order. Otherwise the two hashed strings are a Blake3 collision.
\<close>

lemma commitments_bind:
  assumes "ext_ok E" and "share_ok C E s" and "share_ok C E s'"
  shows "(content_id C s = content_id C s' \<longrightarrow>
      (sh_nonce s = sh_nonce s' \<and> sh_ciphertext s = sh_ciphertext s') \<or>
      (\<exists>x y. x = CONTENT_DOMAIN @ sh_nonce s @ to_be_bytes 8 (word_of_nat (length (sh_ciphertext s)) :: u64) @ sh_ciphertext s \<and>
        y = CONTENT_DOMAIN @ sh_nonce s' @ to_be_bytes 8 (word_of_nat (length (sh_ciphertext s')) :: u64) @ sh_ciphertext s' \<and>
        x \<noteq> y \<and> blake3 C x = blake3 C y)) \<and>
    (access_commitment C E s = access_commitment C E s' \<longrightarrow>
      (mset (sh_targets s) = mset (sh_targets s') \<and> mset (sh_recrypt s) = mset (sh_recrypt s')) \<or>
      (access_material E s \<noteq> access_material E s' \<and> blake3 C (access_material E s) = blake3 C (access_material E s')))"
proof (intro conjI impI, goal_cases)
  case 1
  then show ?case
    using content_binds [of s s'] assms(2,3) by (auto simp: content_id_def share_ok_def)
next
  case 2
  with access_material_binds [OF assms(1-3)] show ?case by (auto simp: access_commitment_def)
qed

text \<open>
  The witness: two shares of the same payload for different recipients have different access
  commitments under an injective hash.
\<close>

lemma commitments_bind_witness:
  "content_id (toy_share\<lparr>blake3 := id\<rparr>) demo_share = content_id (toy_share\<lparr>blake3 := id\<rparr>) (demo_share\<lparr>sh_wraps := [], sh_targets := []\<rparr>) \<and>
   access_commitment (toy_share\<lparr>blake3 := id\<rparr>) ascii_ext demo_share \<noteq>
   access_commitment (toy_share\<lparr>blake3 := id\<rparr>) ascii_ext (demo_share\<lparr>sh_wraps := [], sh_targets := []\<rparr>)"
proof -
  have enc: "encapsulate_to (toy_share\<lparr>blake3 := id\<rparr>) t = encapsulate_to toy_share t" for t
    by (cases t) (simp_all add: ed25519_to_x25519_def)
  have w: "wrap_ok (toy_share\<lparr>blake3 := id\<rparr>) w = wrap_ok toy_share w" for w
    by (simp add: wrap_ok_def check_points_def)
  have t: "target_ok (toy_share\<lparr>blake3 := id\<rparr>) t = target_ok toy_share t" for t
    by (cases t) simp_all
  have ok: "share_ok (toy_share\<lparr>blake3 := id\<rparr>) ascii_ext s = share_ok toy_share ascii_ext s" for s
    by (simp add: share_ok_def entry_ok_def [abs_def] enc w t)
  have ok2: "share_ok toy_share ascii_ext (demo_share\<lparr>sh_wraps := [], sh_targets := []\<rparr>)"
    by (simp add: share_ok_def demo_share_def capsule_ok_def text_ok_ascii)
  show ?thesis
    using commitments_bind [OF ascii_ext_ok, of "toy_share\<lparr>blake3 := id\<rparr>" demo_share
        "demo_share\<lparr>sh_wraps := [], sh_targets := []\<rparr>"] ok demo_share_ok ok2
    by (auto simp: content_id_def) (auto simp: demo_share_def)
qed

end
