(* ===== verification/Grant.thy ===== *)
theory Grant
  imports Share_Wire
begin

text \<open>
  Access grants of \<open>identikey-share\<close> (\<open>grant.rs\<close>): a statement signed with Ed25519, and with ML-DSA
  when the signer has such a key, over the content id and the access commitment of a share.
\<close>

section \<open>Data\<close>

definition GRANT_DOMAIN :: bytes where
  "GRANT_DOMAIN = str_bytes (''identikey-share-v1-grant'' @ [CHR 0x0A])"

datatype access_mode = Direct | Recrypt | Either

fun mode_tag :: "access_mode \<Rightarrow> string" where
  "mode_tag Direct = ''direct''"
| "mode_tag Recrypt = ''recrypt''"
| "mode_tag Either = ''either''"

definition mode_from_tag :: "string \<Rightarrow> (share_error, access_mode) result" where
  "mode_from_tag tag =
    (if tag = ''direct'' then Ok Direct
     else if tag = ''recrypt'' then Ok Recrypt
     else if tag = ''either'' then Ok Either
     else Err ModeError)"

datatype pq_policy = Optional | Required

text \<open>The crate's own \<open>PqAlg\<close> has the same parameter sets and tags as the one of \<open>identikey-auth\<close>.\<close>

fun grant_pq_tag :: "pq_alg \<Rightarrow> string" where
  "grant_pq_tag MlDsa44 = ''ml-dsa-44''"
| "grant_pq_tag MlDsa65 = ''ml-dsa-65''"
| "grant_pq_tag MlDsa87 = ''ml-dsa-87''"

definition grant_pq_from_tag :: "string \<Rightarrow> (share_error, pq_alg) result" where
  "grant_pq_from_tag tag =
    (if tag = ''ml-dsa-44'' then Ok MlDsa44
     else if tag = ''ml-dsa-65'' then Ok MlDsa65
     else if tag = ''ml-dsa-87'' then Ok MlDsa87
     else Err SignatureError)"

text \<open>The enum \<open>PqSecret\<close> has one constructor per parameter set.\<close>

datatype pq_secret = PqSecret pq_alg bytes

record grant_keys =
  gk_ed25519 :: bytes
  gk_pq :: "(pq_alg \<times> bytes \<times> pq_secret) option"

definition grant_from_ed25519_seed :: "bytes \<Rightarrow> grant_keys" where
  "grant_from_ed25519_seed seed = \<lparr>gk_ed25519 = seed, gk_pq = None\<rparr>"

definition with_pq :: "share_crypto \<Rightarrow> bytes \<Rightarrow> pq_alg \<Rightarrow> grant_keys \<Rightarrow> (share_error, grant_keys) result" where
  "with_pq C drawn alg keys =
    bind (ok_or (mldsa_keygen C alg drawn) SignatureError) (\<lambda>(pk, sk).
      Ok (keys\<lparr>gk_pq := Some (alg, pk, PqSecret alg sk)\<rparr>))"

definition ed25519_public :: "share_crypto \<Rightarrow> grant_keys \<Rightarrow> bytes" where
  "ed25519_public C keys = ed_public C (gk_ed25519 keys)"

record access_grant =
  ag_content :: bytes
  ag_commitment :: bytes
  ag_epoch :: u64
  ag_mode :: access_mode
  ag_signer :: bytes
  ag_pq_alg :: "pq_alg option"
  ag_pq_pk :: "bytes option"
  ag_ed25519_sig :: bytes
  ag_ml_dsa_sig :: "bytes option"

section \<open>Wire form\<close>

definition signed_fields :: "access_grant \<Rightarrow> (string \<times> dcbor) list" where
  "signed_fields g =
    [(''v'', DUnsigned 1), (''content'', DBytes (ag_content g)), (''commitment'', DBytes (ag_commitment g)),
     (''epoch'', DUnsigned (ag_epoch g)), (''mode'', DText (mode_tag (ag_mode g))),
     (''signer'', DBytes (ag_signer g))] @
    (case (ag_pq_alg g, ag_pq_pk g) of
       (Some alg, Some pk) \<Rightarrow> [(''pq-alg'', DText (grant_pq_tag alg)), (''pq-pk'', DBytes pk)]
     | _ \<Rightarrow> [])"

definition signed_map :: "dcbor_ext \<Rightarrow> access_grant \<Rightarrow> dmap" where
  "signed_map E g = insert_all E (signed_fields g)"

definition grant_fields :: "access_grant \<Rightarrow> (string \<times> dcbor) list" where
  "grant_fields g = signed_fields g @ [(''ed25519-sig'', DBytes (ag_ed25519_sig g))] @
    (case ag_ml_dsa_sig g of Some sig \<Rightarrow> [(''ml-dsa-sig'', DBytes sig)] | None \<Rightarrow> [])"

definition grant_to_map :: "dcbor_ext \<Rightarrow> access_grant \<Rightarrow> dmap" where
  "grant_to_map E g = insert_all E (grant_fields g)"

definition grant_to_cbor :: "dcbor_ext \<Rightarrow> access_grant \<Rightarrow> bytes" where
  "grant_to_cbor E g = to_cbor_data E (DMap (grant_to_map E g))"

definition grant_message :: "dcbor_ext \<Rightarrow> access_grant \<Rightarrow> bytes" where
  "grant_message E g = GRANT_DOMAIN @ to_cbor_data E (DMap (signed_map E g))"

definition pq_parts :: "pq_alg option \<Rightarrow> bytes option \<Rightarrow> bytes option \<Rightarrow> (share_error, nat) result" where
  "pq_parts pq_alg pq_pk ml_dsa_sig =
    (case (pq_alg, pq_pk, ml_dsa_sig) of
       (None, None, None) \<Rightarrow> Ok 0
     | (Some _, Some pk, Some sig) \<Rightarrow> if pk \<noteq> [] \<and> sig \<noteq> [] then Ok 3 else Err SignatureError
     | _ \<Rightarrow> Err SignatureError)"

definition grant_from_cbor :: "dcbor_ext \<Rightarrow> bytes \<Rightarrow> (share_error, access_grant) result" where
  "grant_from_cbor E bs =
    bind (map_err DcborError (try_from_data E bs)) (\<lambda>cbor.
    bind (guard (to_cbor_data E cbor = bs) SignatureError) (\<lambda>_.
    bind (map_err (\<lambda>_. SignatureError) (try_into_map cbor)) (\<lambda>m.
    bind (map_err (\<lambda>_. SignatureError) (map_extract E try_u64 m ''v'')) (\<lambda>version.
    bind (guard (version = 1) SignatureError) (\<lambda>_.
    bind (map_err (\<lambda>_. SignatureError) (map_extract E try_byte_string m ''content'')) (\<lambda>content.
    bind (map_err (\<lambda>_. SignatureError) (map_extract E try_byte_string m ''commitment'')) (\<lambda>commitment.
    bind (map_err (\<lambda>_. SignatureError) (map_extract E try_u64 m ''epoch'')) (\<lambda>epoch.
    bind (map_err (\<lambda>_. SignatureError) (map_extract E try_text m ''mode'')) (\<lambda>mode_tag.
    bind (map_err (\<lambda>_. SignatureError) (map_extract E try_byte_string m ''signer'')) (\<lambda>signer.
    bind (map_err (\<lambda>_. SignatureError) (map_extract E try_byte_string m ''ed25519-sig'')) (\<lambda>ed_sig.
    bind (transpose_opt grant_pq_from_tag (map_get E try_text m ''pq-alg'')) (\<lambda>pq_alg.
    let pq_pk = map_get E try_byte_string m ''pq-pk''; ml_dsa_sig = map_get E try_byte_string m ''ml-dsa-sig'' in
    bind (pq_parts pq_alg pq_pk ml_dsa_sig) (\<lambda>parts.
    bind (guard (length m = 7 + parts) SignatureError) (\<lambda>_.
    bind (guard (length content = 32) SignatureError) (\<lambda>_.
    bind (guard (length commitment = 32) SignatureError) (\<lambda>_.
    bind (guard (length signer = 32) SignatureError) (\<lambda>_.
    bind (guard (length ed_sig = 64) SignatureError) (\<lambda>_.
    bind (mode_from_tag mode_tag) (\<lambda>mode.
    Ok \<lparr>ag_content = content, ag_commitment = commitment, ag_epoch = epoch, ag_mode = mode, ag_signer = signer,
        ag_pq_alg = pq_alg, ag_pq_pk = pq_pk, ag_ed25519_sig = ed_sig, ag_ml_dsa_sig = ml_dsa_sig\<rparr>)))))))))))))))))))"

section \<open>Signing and verifying\<close>

fun sign_pq :: "share_crypto \<Rightarrow> bytes \<Rightarrow> pq_secret \<Rightarrow> bytes \<Rightarrow> (share_error, bytes) result" where
  "sign_pq C drawn (PqSecret alg sk) message = ok_or (mldsa_try_sign C alg drawn sk message) SignatureError"

definition grant_verify_pq ::
    "share_crypto \<Rightarrow> pq_alg \<Rightarrow> bytes \<Rightarrow> bytes \<Rightarrow> bytes \<Rightarrow> (share_error, unit) result" where
  "grant_verify_pq C alg pk message sig =
    bind (guard (length pk = mldsa_pk_len C alg) SignatureError) (\<lambda>_.
    bind (guard (length sig = mldsa_sig_len C alg) SignatureError) (\<lambda>_.
    bind (map_err (\<lambda>_. SignatureError) (mldsa_key C alg pk)) (\<lambda>_.
    if mldsa_verify C alg pk message sig then Ok () else Err SignatureError)))"

definition mode_allowed :: "access_mode \<Rightarrow> share \<Rightarrow> bool" where
  "mode_allowed mode s =
    (case mode of
       Direct \<Rightarrow> has_direct s \<and> \<not> has_recrypt s
     | Recrypt \<Rightarrow> \<not> has_direct s \<and> has_recrypt s
     | Either \<Rightarrow> has_direct s \<and> has_recrypt s)"

definition unsigned_grant ::
    "share_crypto \<Rightarrow> dcbor_ext \<Rightarrow> share \<Rightarrow> grant_keys \<Rightarrow> access_mode \<Rightarrow> pq_alg option \<Rightarrow> bytes option \<Rightarrow>
     bytes option \<Rightarrow> access_grant" where
  "unsigned_grant C E s keys mode pq_alg pq_pk ml_dsa_sig =
    \<lparr>ag_content = content_id C s, ag_commitment = access_commitment C E s, ag_epoch = sh_epoch s, ag_mode = mode,
     ag_signer = ed25519_public C keys, ag_pq_alg = pq_alg, ag_pq_pk = pq_pk,
     ag_ed25519_sig = replicate 64 0, ag_ml_dsa_sig = ml_dsa_sig\<rparr>"

definition grant_access ::
    "share_crypto \<Rightarrow> dcbor_ext \<Rightarrow> bytes \<Rightarrow> share \<Rightarrow> grant_keys \<Rightarrow> access_mode \<Rightarrow> (share_error, access_grant) result" where
  "grant_access C E drawn s keys mode =
    bind (guard (mode_allowed mode s) ModeError) (\<lambda>_.
    bind (case gk_pq keys of
        None \<Rightarrow> Ok (None, None, None)
      | Some (alg, pk, secret) \<Rightarrow>
          (let message = grant_message E (unsigned_grant C E s keys mode (Some alg) (Some pk) None) in
           bind (sign_pq C drawn secret message) (\<lambda>sig. Ok (Some alg, Some pk, Some sig))))
      (\<lambda>(pq_alg, pq_pk, ml_dsa_sig).
    let grant = unsigned_grant C E s keys mode pq_alg pq_pk ml_dsa_sig; message = grant_message E grant in
    Ok (grant\<lparr>ag_ed25519_sig := ed_sign C (gk_ed25519 keys) message\<rparr>)))"

definition verify_grant ::
    "share_crypto \<Rightarrow> dcbor_ext \<Rightarrow> access_grant \<Rightarrow> share \<Rightarrow> pq_policy \<Rightarrow> (share_error, unit) result" where
  "verify_grant C E grant s policy =
    (if ag_content grant \<noteq> content_id C s \<or> ag_commitment grant \<noteq> access_commitment C E s \<or>
        ag_epoch grant \<noteq> sh_epoch s
     then Err GrantMismatch
     else bind (guard (mode_allowed (ag_mode grant) s) ModeError) (\<lambda>_.
       let message = grant_message E grant in
       bind (guard (ed_key_ok C (ag_signer grant)) SignatureError) (\<lambda>_.
       bind (guard (ed_verify_strict C (ag_signer grant) message (ag_ed25519_sig grant)) SignatureError) (\<lambda>_.
       case (ag_ml_dsa_sig grant, ag_pq_alg grant, ag_pq_pk grant) of
         (None, None, None) \<Rightarrow> if policy = Required then Err PqSigRequired else Ok ()
       | (Some sig, Some alg, Some pk) \<Rightarrow> grant_verify_pq C alg pk message sig
       | _ \<Rightarrow> Err SignatureError))))"

end
