(* ===== verification/Grant_Laws.thy ===== *)
theory Grant_Laws
  imports Grant
begin

text \<open>
  Correctness of access grants: a grant verifies against its share after a trip over the wire, its
  signed message determines every signed field, and it is valid for one access set only.
\<close>

section \<open>Well-formed grants\<close>

definition pq_ok :: "access_grant \<Rightarrow> bool" where
  "pq_ok g \<longleftrightarrow>
    (ag_pq_alg g = None \<and> ag_pq_pk g = None \<and> ag_ml_dsa_sig g = None) \<or>
    (\<exists>alg pk sig. ag_pq_alg g = Some alg \<and> ag_pq_pk g = Some pk \<and> ag_ml_dsa_sig g = Some sig \<and>
      pk \<noteq> [] \<and> sig \<noteq> [] \<and> length pk < 2 ^ 64 \<and> length sig < 2 ^ 64)"

definition grant_ok :: "access_grant \<Rightarrow> bool" where
  "grant_ok g \<longleftrightarrow> length (ag_content g) = 32 \<and> length (ag_commitment g) = 32 \<and> length (ag_signer g) = 32 \<and>
    length (ag_ed25519_sig g) = 64 \<and> pq_ok g"

lemma mode_from_mode_tag [simp]: "mode_from_tag (mode_tag m) = Ok m"
  by (cases m) (simp_all add: mode_from_tag_def)

lemma grant_pq_from_pq_tag [simp]: "grant_pq_from_tag (grant_pq_tag a) = Ok a"
  by (cases a) (simp_all add: grant_pq_from_tag_def)

lemma tags_ok: "ext_ok E \<Longrightarrow> text_ok E (mode_tag m)" "ext_ok E \<Longrightarrow> text_ok E (grant_pq_tag a)"
  by (cases m; simp add: text_ok_ascii) (cases a; simp add: text_ok_ascii)

lemma grant_fields_ok: "ext_ok E \<Longrightarrow> fields_ok E (grant_fields g)"
  by (auto simp: fields_ok_def grant_fields_def signed_fields_def text_ok_ascii split: option.splits)

lemma signed_fields_ok: "ext_ok E \<Longrightarrow> fields_ok E (signed_fields g)"
  by (auto simp: fields_ok_def signed_fields_def text_ok_ascii split: option.splits)

lemma wf_grant_fields:
  assumes "ext_ok E" and "grant_ok g"
  shows "wf_dcbor E (DMap (insert_all E (grant_fields g)))"
  using assms tags_ok [OF assms(1)]
  by (intro wf_insert_all grant_fields_ok)
    (auto simp: grant_fields_def signed_fields_def grant_ok_def pq_ok_def split: option.splits)

lemma wf_signed_fields:
  assumes "ext_ok E" and "length (ag_content g) = 32" and "length (ag_commitment g) = 32" and "length (ag_signer g) = 32"
    and "\<forall>pk. ag_pq_pk g = Some pk \<longrightarrow> length pk < 2 ^ 64"
  shows "wf_dcbor E (DMap (insert_all E (signed_fields g)))"
  using assms tags_ok [OF assms(1)]
  by (intro wf_insert_all signed_fields_ok) (auto simp: signed_fields_def split: option.splits)

section \<open>Round trip\<close>

lemma grant_from_to_cbor:
  assumes E: "ext_ok E" and g: "grant_ok g"
  shows "grant_from_cbor E (grant_to_cbor E g) = Ok g"
proof -
  let ?m = "insert_all E (grant_fields g)"
  note ext = map_extract_insert_all [OF grant_fields_ok [OF E] text_ok_ascii [OF E]]
  note get = map_get_insert_all [OF grant_fields_ok [OF E] text_ok_ascii [OF E]]
  have look: "map_extract E try_u64 ?m ''v'' = Ok 1"
    "map_extract E try_byte_string ?m ''content'' = Ok (ag_content g)"
    "map_extract E try_byte_string ?m ''commitment'' = Ok (ag_commitment g)"
    "map_extract E try_u64 ?m ''epoch'' = Ok (ag_epoch g)"
    "map_extract E try_text ?m ''mode'' = Ok (mode_tag (ag_mode g))"
    "map_extract E try_byte_string ?m ''signer'' = Ok (ag_signer g)"
    by (simp_all add: ext) (simp_all add: grant_fields_def signed_fields_def)
  have sig: "map_extract E try_byte_string ?m ''ed25519-sig'' = Ok (ag_ed25519_sig g)"
    by (simp add: ext) (simp add: grant_fields_def signed_fields_def split: option.splits)
  from g consider (none) "ag_pq_alg g = None" "ag_pq_pk g = None" "ag_ml_dsa_sig g = None"
    | (some) alg pk sg where "ag_pq_alg g = Some alg" "ag_pq_pk g = Some pk" "ag_ml_dsa_sig g = Some sg"
      "pk \<noteq> []" "sg \<noteq> []"
    by (auto simp: grant_ok_def pq_ok_def)
  then obtain n where pq: "map_get E try_text ?m ''pq-alg'' = map_option grant_pq_tag (ag_pq_alg g)"
    "map_get E try_byte_string ?m ''pq-pk'' = ag_pq_pk g" "map_get E try_byte_string ?m ''ml-dsa-sig'' = ag_ml_dsa_sig g"
    "pq_parts (ag_pq_alg g) (ag_pq_pk g) (ag_ml_dsa_sig g) = Ok n" "length (grant_fields g) = 7 + n"
  proof cases
    case none
    then show ?thesis
      by (intro that [of 0]) (simp_all add: get, simp_all add: grant_fields_def signed_fields_def pq_parts_def)
  next
    case some
    then show ?thesis
      by (intro that [of 3]) (simp_all add: get, simp_all add: grant_fields_def signed_fields_def pq_parts_def)
  qed
  have len: "length ?m = 7 + n" using pq(5) by (simp add: insert_all_fields(2) [OF grant_fields_ok [OF E]])
  have alg: "transpose_opt grant_pq_from_tag (map_option grant_pq_tag (ag_pq_alg g)) = Ok (ag_pq_alg g)"
    by (cases "ag_pq_alg g") simp_all
  show ?thesis
    using g
    unfolding grant_from_cbor_def grant_to_cbor_def grant_to_map_def
      try_from_data_encoded [OF wf_grant_fields [OF E g]] bind.simps map_err.simps
    by (simp add: look sig pq(1-4) len alg grant_ok_def del: to_cbor_data.simps)
qed

interpretation grant_wire: wire_codec "grant_to_cbor E" "grant_from_cbor E" "\<lambda>g. ext_ok E \<and> grant_ok g" for E
  by unfold_locales (simp add: grant_from_to_cbor)

section \<open>What a signature covers\<close>

lemma signed_map_inj:
  assumes E: "ext_ok E" and "grant_ok g" and "grant_ok g'"
    and "to_cbor_data E (DMap (signed_map E g)) = to_cbor_data E (DMap (signed_map E g'))"
    and k: "text_ok E k"
  shows "map_of (signed_fields g) k = map_of (signed_fields g') k"
proof -
  have wf: "wf_dcbor E (DMap (insert_all E (signed_fields x)))" if "grant_ok x" for x
    using that by (intro wf_signed_fields [OF E]) (auto simp: grant_ok_def pq_ok_def)
  have "insert_all E (signed_fields g) = insert_all E (signed_fields g')"
    using to_cbor_data_inj [OF wf [OF assms(2)] wf [OF assms(3)]] assms(4) by (simp add: signed_map_def)
  then show ?thesis
    using lookup_insert_all [OF signed_fields_ok [OF E] k] by metis
qed

lemma signed_fields_lookup:
  "map_of (signed_fields g) ''content'' = Some (DBytes (ag_content g))"
  "map_of (signed_fields g) ''commitment'' = Some (DBytes (ag_commitment g))"
  "map_of (signed_fields g) ''epoch'' = Some (DUnsigned (ag_epoch g))"
  "map_of (signed_fields g) ''mode'' = Some (DText (mode_tag (ag_mode g)))"
  "map_of (signed_fields g) ''signer'' = Some (DBytes (ag_signer g))"
  "pq_ok g \<Longrightarrow> map_of (signed_fields g) ''pq-alg'' = map_option (\<lambda>a. DText (grant_pq_tag a)) (ag_pq_alg g)"
  "pq_ok g \<Longrightarrow> map_of (signed_fields g) ''pq-pk'' = map_option DBytes (ag_pq_pk g)"
  by (auto simp: signed_fields_def pq_ok_def split: option.splits)

lemma tag_inj: "mode_tag m = mode_tag m' \<longleftrightarrow> m = m'" "grant_pq_tag a = grant_pq_tag b \<longleftrightarrow> a = b"
  by (metis mode_from_mode_tag result.inject(2)) (metis grant_pq_from_pq_tag result.inject(2))

lemma grant_message_fields:
  assumes E: "ext_ok E" and g: "grant_ok g" and g': "grant_ok g'" and eq: "grant_message E g = grant_message E g'"
  shows "ag_content g = ag_content g' \<and> ag_commitment g = ag_commitment g' \<and> ag_epoch g = ag_epoch g' \<and>
    ag_mode g = ag_mode g' \<and> ag_signer g = ag_signer g' \<and> ag_pq_alg g = ag_pq_alg g' \<and> ag_pq_pk g = ag_pq_pk g'"
proof -
  have m: "to_cbor_data E (DMap (signed_map E g)) = to_cbor_data E (DMap (signed_map E g'))"
    using eq unfolding grant_message_def by simp
  note f = signed_map_inj [OF E g g' m text_ok_ascii [OF E]]
  have pq: "pq_ok g" "pq_ok g'" using g g' by (simp_all add: grant_ok_def)
  have "map_option (\<lambda>a. DText (grant_pq_tag a)) (ag_pq_alg g) = map_option (\<lambda>a. DText (grant_pq_tag a)) (ag_pq_alg g')"
    using f [of "''pq-alg''"] by (simp add: signed_fields_lookup pq)
  then have "ag_pq_alg g = ag_pq_alg g'"
    by (cases "ag_pq_alg g"; cases "ag_pq_alg g'") (auto simp: tag_inj)
  moreover have "map_option DBytes (ag_pq_pk g) = map_option DBytes (ag_pq_pk g')"
    using f [of "''pq-pk''"] by (simp add: signed_fields_lookup pq)
  then have "ag_pq_pk g = ag_pq_pk g'" by (cases "ag_pq_pk g"; cases "ag_pq_pk g'") auto
  ultimately show ?thesis
    using f [of "''content''"] f [of "''commitment''"] f [of "''epoch''"] f [of "''mode''"] f [of "''signer''"]
    by (simp add: signed_fields_lookup tag_inj)
qed

section \<open>Granting and verifying\<close>

text \<open>What the grants rely on: signatures verify under the signer's key, and sizes are fixed.\<close>

definition ed_sig_ok :: "share_crypto \<Rightarrow> bool" where
  "ed_sig_ok C \<longleftrightarrow> (\<forall>sk. length sk = 32 \<longrightarrow> length (ed_public C sk) = 32 \<and> ed_key_ok C (ed_public C sk) \<and>
     (\<forall>m. length (ed_sign C sk m) = 64 \<and> ed_verify_strict C (ed_public C sk) m (ed_sign C sk m)))"

definition mldsa_sig_ok :: "share_crypto \<Rightarrow> bool" where
  "mldsa_sig_ok C \<longleftrightarrow> (\<forall>alg drawn pk sk. mldsa_keygen C alg drawn = Some (pk, sk) \<longrightarrow>
     length pk = mldsa_pk_len C alg \<and> mldsa_key C alg pk = Ok () \<and>
     (\<forall>r m sig. mldsa_try_sign C alg r sk m = Some sig \<longrightarrow>
        length sig = mldsa_sig_len C alg \<and> mldsa_verify C alg pk m sig))"

definition grant_crypto_ok :: "share_crypto \<Rightarrow> bool" where
  "grant_crypto_ok C \<longleftrightarrow> ed_sig_ok C \<and> mldsa_sig_ok C \<and> (\<forall>m. length (blake3 C m) = 32) \<and>
    (\<forall>alg. 0 < mldsa_pk_len C alg \<and> mldsa_pk_len C alg < 2 ^ 64 \<and>
      0 < mldsa_sig_len C alg \<and> mldsa_sig_len C alg < 2 ^ 64)"

definition grant_keys_ok :: "share_crypto \<Rightarrow> grant_keys \<Rightarrow> bool" where
  "grant_keys_ok C keys \<longleftrightarrow> length (gk_ed25519 keys) = 32 \<and>
    (\<forall>alg pk secret. gk_pq keys = Some (alg, pk, secret) \<longrightarrow>
      (\<exists>drawn sk. secret = PqSecret alg sk \<and> mldsa_keygen C alg drawn = Some (pk, sk)))"

lemma grant_keys_constructors:
  "length seed = 32 \<Longrightarrow> grant_keys_ok C (grant_from_ed25519_seed seed)"
  "grant_keys_ok C keys \<Longrightarrow> with_pq C drawn alg keys = Ok keys' \<Longrightarrow> grant_keys_ok C keys'"
  by (auto simp: grant_keys_ok_def grant_from_ed25519_seed_def with_pq_def result_simps)

lemma grant_message_sigs [simp]:
  "grant_message E (g\<lparr>ag_ed25519_sig := x\<rparr>) = grant_message E g"
  "grant_message E (unsigned_grant C E' s keys mode a pk (Some sig)) = grant_message E (unsigned_grant C E' s keys mode a pk None)"
  by (simp_all add: grant_message_def signed_map_def signed_fields_def unsigned_grant_def)

lemma grant_access_cases:
  assumes "grant_access C E drawn s keys mode = Ok g"
  obtains (classical) sg where "gk_pq keys = None" and "mode_allowed mode s"
      and "g = (unsigned_grant C E s keys mode None None None)\<lparr>ag_ed25519_sig := sg\<rparr>"
      and "sg = ed_sign C (gk_ed25519 keys) (grant_message E g)"
    | (pq) sg alg pk secret sig where "gk_pq keys = Some (alg, pk, secret)" and "mode_allowed mode s"
      and "g = (unsigned_grant C E s keys mode (Some alg) (Some pk) (Some sig))\<lparr>ag_ed25519_sig := sg\<rparr>"
      and "sg = ed_sign C (gk_ed25519 keys) (grant_message E g)"
      and "sign_pq C drawn secret (grant_message E g) = Ok sig"
proof (cases "gk_pq keys")
  case None
  let ?u = "unsigned_grant C E s keys mode None None None"
  let ?sg = "ed_sign C (gk_ed25519 keys) (grant_message E ?u)"
  have "mode_allowed mode s" and g: "g = ?u\<lparr>ag_ed25519_sig := ?sg\<rparr>"
    using assms None by (auto simp: grant_access_def Let_def result_simps)
  with None show ?thesis by (intro classical [of ?sg]) simp_all
next
  case (Some q)
  obtain alg pk secret where q: "q = (alg, pk, secret)" by (cases q)
  let ?u = "unsigned_grant C E s keys mode (Some alg) (Some pk)"
  let ?sg = "ed_sign C (gk_ed25519 keys) (grant_message E (?u None))"
  from assms Some q obtain sig where "mode_allowed mode s"
    and "sign_pq C drawn secret (grant_message E (?u None)) = Ok sig" and g: "g = (?u (Some sig))\<lparr>ag_ed25519_sig := ?sg\<rparr>"
    by (auto simp: grant_access_def Let_def result_simps)
  with Some q show ?thesis by (intro pq [where sg = ?sg and alg = alg and pk = pk and secret = secret and sig = sig]) simp_all
qed

lemma mldsa_facts:
  assumes "grant_crypto_ok C" and "grant_keys_ok C keys" and "gk_pq keys = Some (alg, pk, secret)"
    and "sign_pq C drawn secret m = Ok sig"
  shows "grant_verify_pq C alg pk m sig = Ok ()" and "pk \<noteq> []" "sig \<noteq> []" "length pk < 2 ^ 64" "length sig < 2 ^ 64"
proof -
  obtain r sk where s: "secret = PqSecret alg sk" and k: "mldsa_keygen C alg r = Some (pk, sk)"
    using assms(2,3) unfolding grant_keys_ok_def by blast
  have sign: "mldsa_try_sign C alg drawn sk m = Some sig" using assms(4) by (simp add: s ok_or_Ok_iff)
  have "mldsa_sig_ok C" using assms(1) by (simp add: grant_crypto_ok_def)
  from this [unfolded mldsa_sig_ok_def, rule_format, OF k] sign
  have pk: "length pk = mldsa_pk_len C alg" "mldsa_key C alg pk = Ok ()"
    and sg: "length sig = mldsa_sig_len C alg" "mldsa_verify C alg pk m sig" by simp_all
  show "grant_verify_pq C alg pk m sig = Ok ()" by (simp add: grant_verify_pq_def pk sg)
  have b: "0 < mldsa_pk_len C alg" "mldsa_pk_len C alg < 2 ^ 64" "0 < mldsa_sig_len C alg" "mldsa_sig_len C alg < 2 ^ 64"
    using assms(1) by (simp_all add: grant_crypto_ok_def)
  show "pk \<noteq> []" "sig \<noteq> []" using b(1,3) pk(1) sg(1) by auto
  show "length pk < 2 ^ 64" "length sig < 2 ^ 64" using b(2,4) pk(1) sg(1) by simp_all
qed

lemma grant_access_correct:
  assumes "grant_crypto_ok C" and "ext_ok E" and "grant_keys_ok C keys"
    and "grant_access C E drawn s keys mode = Ok g"
  shows "grant_from_cbor E (grant_to_cbor E g) = Ok g \<and> verify_grant C E g s Optional = Ok () \<and>
    verify_grant C E g s Required = (if gk_pq keys = None then Err PqSigRequired else Ok ())"
proof -
  have seed: "length (gk_ed25519 keys) = 32" using assms(3) by (simp add: grant_keys_ok_def)
  have hash: "length (blake3 C m) = 32" for m using assms(1) by (simp add: grant_crypto_ok_def)
  have "ed_sig_ok C" using assms(1) by (simp add: grant_crypto_ok_def)
  from this [unfolded ed_sig_ok_def, rule_format, OF seed]
  have ed: "length (ed25519_public C keys) = 32" "ed_key_ok C (ed25519_public C keys)"
    "length (ed_sign C (gk_ed25519 keys) m) = 64"
    "ed_verify_strict C (ed25519_public C keys) m (ed_sign C (gk_ed25519 keys) m)" for m
    by (simp_all add: ed25519_public_def)
  show ?thesis
    using assms(4)
  proof (cases rule: grant_access_cases)
    case (classical sg)
    have "grant_ok g" using ed(1,3) hash
      by (simp add: classical(3) grant_ok_def pq_ok_def unsigned_grant_def content_id_def access_commitment_def)
        (simp add: classical(4) ed(3))
    moreover have "ed_verify_strict C (ed25519_public C keys) (grant_message E g) sg"
      unfolding classical(4) by (rule ed(4))
    ultimately show ?thesis
      using classical(1,2) ed(2) grant_from_to_cbor [OF assms(2), of g]
      by (simp add: verify_grant_def classical(3)) (simp add: unsigned_grant_def)
  next
    case (pq sg alg pk secret sig)
    note q = mldsa_facts [OF assms(1,3) pq(1,5)]
    have "grant_ok g" using ed(1,3) hash q(2-5)
      by (simp add: pq(3) grant_ok_def pq_ok_def unsigned_grant_def content_id_def access_commitment_def)
        (simp add: pq(4) ed(3))
    moreover have "ed_verify_strict C (ed25519_public C keys) (grant_message E g) sg"
      unfolding pq(4) by (rule ed(4))
    ultimately show ?thesis
      using pq(1,2) ed(2) q(1) grant_from_to_cbor [OF assms(2), of g]
      by (simp add: verify_grant_def pq(3)) (simp add: unsigned_grant_def)
  qed
qed

text \<open>
  C13. A grant made for a share survives the wire and verifies against that share; under the policy
  that demands a post-quantum signature it verifies exactly when the signer attached an ML-DSA key.
\<close>

theorem grant_verifies_over_wire:
  assumes "grant_crypto_ok C" and "ext_ok E" and "grant_keys_ok C keys"
    and "grant_access C E drawn s keys mode = Ok g"
  shows "grant_from_cbor E (grant_to_cbor E g) = Ok g \<and> verify_grant C E g s Optional = Ok () \<and>
    verify_grant C E g s Required = (if gk_pq keys = None then Err PqSigRequired else Ok ())"
  by (rule grant_access_correct [OF assms])

lemma toy_grant_crypto_ok [simp]: "grant_crypto_ok toy_share"
proof -
  have "0 < mldsa_pk_len toy_crypto alg \<and> mldsa_pk_len toy_crypto alg < 2 ^ 64 \<and>
      0 < mldsa_sig_len toy_crypto alg \<and> mldsa_sig_len toy_crypto alg < 2 ^ 64" for alg
    by (cases alg) (simp_all add: toy_crypto_def)
  then show ?thesis by (auto simp: grant_crypto_ok_def ed_sig_ok_def mldsa_sig_ok_def)
qed

definition demo_keys :: grant_keys where
  "demo_keys = \<lparr>gk_ed25519 = replicate 32 3, gk_pq = Some (MlDsa44, toy_tag 1312 [4] [], PqSecret MlDsa44 (toy_tag 1312 [4] []))\<rparr>"

lemma demo_keys_ok [simp]: "grant_keys_ok toy_share demo_keys"
  by (auto simp: grant_keys_ok_def demo_keys_def toy_crypto_def intro!: exI [of _ "[4]"])

lemma demo_grant_Ok: "\<exists>g. grant_access toy_share ascii_ext [] demo_share demo_keys Either = Ok g"
  by (simp add: grant_access_def demo_keys_def mode_allowed_def has_direct_def has_recrypt_def demo_share_def Let_def)

theorem grant_verifies_over_wire_witness:
  "\<exists>g. grant_access toy_share ascii_ext [] demo_share demo_keys Either = Ok g \<and>
    grant_from_cbor ascii_ext (grant_to_cbor ascii_ext g) = Ok g \<and>
    verify_grant toy_share ascii_ext g demo_share Required = Ok ()"
proof -
  obtain g where g: "grant_access toy_share ascii_ext [] demo_share demo_keys Either = Ok g"
    using demo_grant_Ok by blast
  from grant_verifies_over_wire [OF toy_grant_crypto_ok ascii_ext_ok demo_keys_ok g] g
  show ?thesis by (auto simp: demo_keys_def)
qed

text \<open>
  The signed message determines every signed field, the post-quantum algorithm and key among
  them: a signature over a grant with an ML-DSA key is not a signature over the grant stripped of it.
\<close>

lemma grant_message_binds:
  assumes "ext_ok E" and "grant_ok g" and "grant_ok g'" and "grant_message E g = grant_message E g'"
  shows "ag_content g = ag_content g' \<and> ag_commitment g = ag_commitment g' \<and> ag_epoch g = ag_epoch g' \<and>
    ag_mode g = ag_mode g' \<and> ag_signer g = ag_signer g' \<and> ag_pq_alg g = ag_pq_alg g' \<and> ag_pq_pk g = ag_pq_pk g'"
  by (rule grant_message_fields [OF assms])

definition demo_grant :: access_grant where
  "demo_grant = \<lparr>ag_content = replicate 32 1, ag_commitment = replicate 32 2, ag_epoch = 9, ag_mode = Either,
    ag_signer = replicate 32 3, ag_pq_alg = Some MlDsa44, ag_pq_pk = Some [4], ag_ed25519_sig = replicate 64 5,
    ag_ml_dsa_sig = Some [6]\<rparr>"

definition stripped :: "access_grant \<Rightarrow> access_grant" where
  "stripped g = g\<lparr>ag_pq_alg := None, ag_pq_pk := None, ag_ml_dsa_sig := None\<rparr>"

lemma grant_message_binds_witness: "grant_message ascii_ext demo_grant \<noteq> grant_message ascii_ext (stripped demo_grant)"
proof
  assume eq: "grant_message ascii_ext demo_grant = grant_message ascii_ext (stripped demo_grant)"
  have "grant_ok demo_grant" "grant_ok (stripped demo_grant)"
    by (simp_all add: grant_ok_def pq_ok_def demo_grant_def stripped_def)
  from grant_message_binds [OF ascii_ext_ok this eq] show False by (simp add: demo_grant_def stripped_def)
qed

text \<open>The sealed share of the example before and after Bob is added.\<close>

lemma demo_alice_target: "target_ok toy_share demo_alice_pk" "target_ok toy_share demo_bob_pk"
  by (rule wrap_secret_public_target_ok [OF toy_kem_ok demo_secrets(1,5)],
      rule wrap_secret_public_target_ok [OF toy_kem_ok demo_secrets(2,6)])

lemma demo_seal_share:
  assumes "demo_seal = Ok s"
  shows "sh_recrypt s = [\<lparr>rc_backend = ''lattice'', rc_recipient = [1, 2], rc_ciphertext = replicate 32 8\<rparr>]"
    and "length (sh_nonce s) = 24" and "length (sh_ciphertext s) = 18" and "length (sh_wraps s) = 1"
proof -
  have inv: "share_inv toy_share (drawn_dek demo_sdraw) s" by (rule seal_mixed_inv [OF toy_kem_ok demo_draws assms])
  then show "length (sh_wraps s) = 1" using demo_seal_targets [OF assms] by (auto simp: share_inv_def dest: list_all2_lengthD)
qed (use assms in \<open>auto simp: seal_mixed_def seal_capsules_def Let_def result_simps toy_kem_def demo_rp_def
      encrypt_payload_def list_all2_Cons1 split: if_splits\<close>, simp add: demo_sdraw_def)

lemma demo_shares_ok:
  assumes "demo_seal = Ok s" and "demo_add s = Ok s'"
  shows "share_ok toy_share ascii_ext s" and "share_ok toy_share ascii_ext s'"
proof -
  note d = demo_seal_share [OF assms(1)] and t = demo_seal_targets [OF assms(1)]
  have inv: "share_inv toy_share (drawn_dek demo_sdraw) s" by (rule seal_mixed_inv [OF toy_kem_ok demo_draws assms(1)])
  note a = add_recipient_inv [OF toy_kem_ok inv demo_secrets(1,4) demo_draw_ok(1) assms(2)]
  have cap: "capsule_ok ascii_ext c" if "c \<in> set (sh_recrypt s)" for c
    using that by (simp add: d(1) capsule_ok_def text_ok_ascii)
  show "share_ok toy_share ascii_ext s"
    using t d cap demo_alice_target by (intro share_inv_ok [OF inv]) auto
  have "length (sh_wraps s') = 2"
    using assms(2) d(4) by (auto simp: add_recipient_def result_simps split: if_splits)
  then show "share_ok toy_share ascii_ext s'"
    using t d cap demo_alice_target a by (intro share_inv_ok [OF a(1)]) auto
qed

lemma demo_share_grant:
  assumes "demo_seal = Ok s"
  shows "\<exists>g. grant_access toy_share ascii_ext [] s demo_keys Either = Ok g \<and> verify_grant toy_share ascii_ext g s Required = Ok ()"
proof -
  have "\<exists>g. grant_access toy_share ascii_ext [] s demo_keys Either = Ok g"
    using demo_seal_share(1) [OF assms] demo_seal_targets [OF assms]
    by (simp add: grant_access_def demo_keys_def mode_allowed_def has_direct_def has_recrypt_def Let_def)
  then obtain g where g: "grant_access toy_share ascii_ext [] s demo_keys Either = Ok g" by blast
  with grant_access_correct [OF toy_grant_crypto_ok ascii_ext_ok demo_keys_ok g] show ?thesis by (auto simp: demo_keys_def)
qed

lemma toy_access_hash:
  assumes "length (access_parts E s) = n" and "n < 256"
  shows "hd (toy_hash (access_material E s)) = word_of_nat n"
proof -
  have "length ACCESS_DOMAIN = 26" by (simp add: ACCESS_DOMAIN_def)
  moreover have "unat (word_of_nat n :: u64) = n" using assms(2) by (simp add: unat_of_nat)
  then have "to_be_bytes 8 (word_of_nat n :: u64) = nat_to_be 7 (n div 256) @ [word_of_nat n]"
    using assms(2) nat_to_be.simps(2) [of 7 n] by (simp add: to_be_bytes_def)
  ultimately show ?thesis by (simp add: toy_hash_def access_material_eq assms(1))
qed

section \<open>A grant is for one access set\<close>

definition content_material :: "share \<Rightarrow> bytes" where
  "content_material s = CONTENT_DOMAIN @ sh_nonce s @
    to_be_bytes 8 (word_of_nat (length (sh_ciphertext s)) :: u64) @ sh_ciphertext s"

lemma verify_grant_commitments:
  assumes "verify_grant C E g s policy = Ok ()"
  shows "ag_content g = content_id C s" and "ag_commitment g = access_commitment C E s" and "ag_epoch g = sh_epoch s"
  using assms by (auto simp: verify_grant_def split: if_splits)

lemma access_commitment_binds:
  assumes "ext_ok E" and "share_ok C E s" and "share_ok C E s'" and "access_commitment C E s = access_commitment C E s'"
  shows "(mset (sh_targets s) = mset (sh_targets s') \<and> mset (sh_recrypt s) = mset (sh_recrypt s')) \<or>
    (access_material E s \<noteq> access_material E s' \<and> blake3 C (access_material E s) = blake3 C (access_material E s'))"
  using access_material_binds [OF assms(1-3)] assms(4) by (auto simp: access_commitment_def)

text \<open>
  C12. A grant that verifies against two shares was made for one payload, one epoch and one set of
  recipients: the shares have the same ciphertext, epoch, targets and capsules, unless the hashed
  contents or access sets of the two are a Blake3 collision.
\<close>

theorem grant_is_for_one_access_set:
  assumes "ext_ok E" and "share_ok C E s" and "share_ok C E s'"
    and "verify_grant C E g s policy = Ok ()" and "verify_grant C E g s' policy' = Ok ()"
  shows "sh_epoch s = sh_epoch s' \<and>
    (sh_nonce s = sh_nonce s' \<and> sh_ciphertext s = sh_ciphertext s' \<or>
      content_material s \<noteq> content_material s' \<and> blake3 C (content_material s) = blake3 C (content_material s')) \<and>
    (mset (sh_targets s) = mset (sh_targets s') \<and> mset (sh_recrypt s) = mset (sh_recrypt s') \<or>
      access_material E s \<noteq> access_material E s' \<and> blake3 C (access_material E s) = blake3 C (access_material E s'))"
proof -
  note c = verify_grant_commitments [OF assms(4)] verify_grant_commitments [OF assms(5)]
  have "access_commitment C E s = access_commitment C E s'" "blake3 C (content_material s) = blake3 C (content_material s')"
    using c by (simp_all add: content_id_def content_material_def)
  with c(3,6) access_commitment_binds [OF assms(1-3)] content_binds [of s s'] assms(2,3)
  show ?thesis by (auto simp: content_material_def share_ok_def)
qed

definition two_capsules :: "bool \<Rightarrow> share" where
  "two_capsules swap = demo_share\<lparr>sh_recrypt :=
    (let c = \<lparr>rc_backend = ''lattice'', rc_recipient = [1], rc_ciphertext = [5]\<rparr>;
         d = \<lparr>rc_backend = ''lattice'', rc_recipient = [2], rc_ciphertext = [6]\<rparr>
     in if swap then [d, c] else [c, d])\<rparr>"

text \<open>The witness: the order of the capsules does not matter to the grant.\<close>

theorem grant_is_for_one_access_set_witness:
  "\<exists>g. verify_grant toy_share ascii_ext g (two_capsules False) Required = Ok () \<and>
    verify_grant toy_share ascii_ext g (two_capsules True) Required = Ok () \<and>
    sh_epoch (two_capsules False) = sh_epoch (two_capsules True)"
proof -
  let ?s = "two_capsules False" and ?s' = "two_capsules True"
  have ok: "share_ok toy_share ascii_ext ?s" "share_ok toy_share ascii_ext ?s'"
    using demo_share_ok by (simp_all add: share_ok_def two_capsules_def demo_share_def capsule_ok_def text_ok_ascii)
  have "\<exists>g. grant_access toy_share ascii_ext [] ?s demo_keys Either = Ok g"
    by (simp add: grant_access_def demo_keys_def mode_allowed_def has_direct_def has_recrypt_def Let_def)
      (simp add: two_capsules_def demo_share_def)
  then obtain g where g: "grant_access toy_share ascii_ext [] ?s demo_keys Either = Ok g" by blast
  have v: "verify_grant toy_share ascii_ext g ?s Required = Ok ()"
    using grant_access_correct [OF toy_grant_crypto_ok ascii_ext_ok demo_keys_ok g] by (auto simp: demo_keys_def)
  have "mset (access_parts ascii_ext ?s) = mset (access_parts ascii_ext ?s')"
    by (simp add: access_parts_def two_capsules_def)
  then have "sort (access_parts ascii_ext ?s) = sort (access_parts ascii_ext ?s')"
    by (metis properties_for_sort sorted_sort mset_sort)
  moreover have "length (access_parts ascii_ext ?s) = length (access_parts ascii_ext ?s')"
    by (simp add: access_parts_def two_capsules_def)
  ultimately have "access_commitment toy_share ascii_ext ?s = access_commitment toy_share ascii_ext ?s'"
    by (simp add: access_commitment_def access_material_eq)
  moreover have "content_id toy_share ?s = content_id toy_share ?s'" "sh_epoch ?s = sh_epoch ?s'"
    by (simp_all add: content_id_def two_capsules_def)
  moreover have "mode_allowed m ?s = mode_allowed m ?s'" for m
    by (cases m) (simp_all add: mode_allowed_def has_direct_def has_recrypt_def two_capsules_def)
  ultimately have "verify_grant toy_share ascii_ext g ?s' Required = verify_grant toy_share ascii_ext g ?s Required"
    by (simp add: verify_grant_def)
  with v grant_is_for_one_access_set [OF ascii_ext_ok ok v, of Required] show ?thesis by metis
qed

text \<open>
  Adding a recipient invalidates the grants of the share: a grant that verified before is refused
  with \<open>GrantMismatch\<close> for the new share, unless the two access sets are a Blake3 collision.
\<close>

lemma grant_refused_after_add:
  assumes "ext_ok E" and "share_ok C E s" and "share_ok C E s'" and "add_recipient C r s opener pk = Ok s'"
    and "verify_grant C E g s policy = Ok ()"
    and "access_material E s = access_material E s' \<or> blake3 C (access_material E s) \<noteq> blake3 C (access_material E s')"
  shows "verify_grant C E g s' policy' = Err GrantMismatch"
proof -
  have "sh_targets s' = sh_targets s @ [pk]"
    using assms(4) by (auto simp: add_recipient_def result_simps split: if_splits)
  then have "mset (sh_targets s) \<noteq> mset (sh_targets s')" by (metis length_append_singleton n_not_Suc_n size_mset)
  with access_commitment_binds [OF assms(1-3)] assms(6)
  have "access_commitment C E s \<noteq> access_commitment C E s'" by blast
  with verify_grant_commitments(2) [OF assms(5)] show ?thesis by (simp add: verify_grant_def)
qed

lemma grant_refused_after_add_witness:
  "\<exists>s s' g. demo_seal = Ok s \<and> demo_add s = Ok s' \<and> verify_grant toy_share ascii_ext g s Required = Ok () \<and>
    verify_grant toy_share ascii_ext g s' Required = Err GrantMismatch"
proof -
  obtain s s' where s: "demo_seal = Ok s" and s': "demo_add s = Ok s'" using demo_seal_Ok demo_add_Ok by blast
  obtain g where g: "verify_grant toy_share ascii_ext g s Required = Ok ()" using demo_share_grant [OF s] by blast
  have "length (access_parts ascii_ext s) = 2" "length (access_parts ascii_ext s') = 3"
    using s' demo_seal_targets [OF s] demo_seal_share(1) [OF s]
    by (auto simp: access_parts_def add_recipient_def result_simps split: if_splits)
  then have "hd (toy_hash (access_material ascii_ext s)) \<noteq> hd (toy_hash (access_material ascii_ext s'))"
    by (simp add: toy_access_hash)
  then have n: "access_material ascii_ext s = access_material ascii_ext s' \<or>
    blake3 toy_share (access_material ascii_ext s) \<noteq> blake3 toy_share (access_material ascii_ext s')" by auto
  have "verify_grant toy_share ascii_ext g s' Required = Err GrantMismatch"
    by (rule grant_refused_after_add [OF ascii_ext_ok demo_shares_ok [OF s s'] s' g n])
  with s s' g show ?thesis by blast
qed

end
