(* ===== verification/Admit.thy ===== *)
theory Admit
  imports Prelude
begin

text \<open>
  The admission protocol (\<open>identikey-admit\<close>: \<open>attestation.rs\<close>, \<open>envelope.rs\<close>, \<open>verdict.rs\<close>,
  \<open>lib.rs\<close>, \<open>error.rs\<close>). JSON values belong to another crate: the accessors the code calls are
  the fields of a record.
\<close>

section \<open>JSON and errors\<close>

text \<open>
  \<open>js_object\<close> is \<open>as_object\<close>, \<open>js_get\<close> the lookup in an object and \<open>js_str\<close> is \<open>as_str\<close>.
  \<open>js_number\<close> is the pattern \<open>Value::Number\<close> and \<open>js_u64\<close> the method \<open>as_u64\<close> of a number. The
  last three fields build a value, as the macro \<open>json!\<close> does, and \<open>js_parse\<close> is \<open>from_slice\<close>.
\<close>

record ('v, 'o, 'n) json_api =
  js_object :: "'v \<Rightarrow> 'o option"
  js_get :: "'o \<Rightarrow> string \<Rightarrow> 'v option"
  js_str :: "'v \<Rightarrow> string option"
  js_number :: "'v \<Rightarrow> 'n option"
  js_u64 :: "'n \<Rightarrow> u64 option"
  js_parse :: "bytes \<Rightarrow> 'v option"
  js_of_str :: "string \<Rightarrow> 'v"
  js_of_u64 :: "u64 \<Rightarrow> 'v"
  js_of_fields :: "(string \<times> 'v) list \<Rightarrow> 'v"

datatype admit_error =
    NotAnObject
  | MissingAttestation
  | MissingField string
  | EmptyVmId
  | InvalidEpoch
  | UnsupportedVersion u64
  | UnknownVerdict string

section \<open>Attestations\<close>

record vm_attestation =
  va_vm_id :: string
  va_epoch :: u64

definition vm_attestation_new :: "string \<Rightarrow> u64 \<Rightarrow> (admit_error, vm_attestation) result" where
  "vm_attestation_new vm_id epoch =
    (if vm_id = [] then Err EmptyVmId else Ok \<lparr>va_vm_id = vm_id, va_epoch = epoch\<rparr>)"

definition vm_attestation_from_value ::
  "('v, 'o, 'n) json_api \<Rightarrow> 'v \<Rightarrow> (admit_error, vm_attestation) result" where
  "vm_attestation_from_value J v =
    bind (ok_or (js_object J v) NotAnObject) (\<lambda>obj.
    bind (ok_or (Option.bind (js_get J obj ''vm_id'') (js_str J)) (MissingField ''vm_id'')) (\<lambda>vm_id.
    bind (if vm_id = [] then Err EmptyVmId else Ok ()) (\<lambda>_.
    bind (case Option.bind (js_get J obj ''epoch'') (js_number J) of
            Some n \<Rightarrow> ok_or (js_u64 J n) InvalidEpoch
          | None \<Rightarrow> Err InvalidEpoch) (\<lambda>epoch.
    Ok \<lparr>va_vm_id = vm_id, va_epoch = epoch\<rparr>))))"

definition vm_attestation_from_payload ::
  "('v, 'o, 'n) json_api \<Rightarrow> 'v \<Rightarrow> (admit_error, vm_attestation) result" where
  "vm_attestation_from_payload J payload =
    bind (ok_or (js_object J payload) NotAnObject) (\<lambda>obj.
    bind (ok_or (js_get J obj ''attestation'') MissingAttestation) (\<lambda>att.
    vm_attestation_from_value J att))"

definition vm_attestation_to_value :: "('v, 'o, 'n) json_api \<Rightarrow> vm_attestation \<Rightarrow> 'v" where
  "vm_attestation_to_value J a =
    js_of_fields J [(''vm_id'', js_of_str J (va_vm_id a)), (''epoch'', js_of_u64 J (va_epoch a))]"

definition vm_attestation_valid_for :: "vm_attestation \<Rightarrow> string \<Rightarrow> bool" where
  "vm_attestation_valid_for a vm_id = (va_vm_id a = vm_id)"

section \<open>Envelopes\<close>

definition ENVELOPE_VERSION :: u32 where
  "ENVELOPE_VERSION = 1"

record admit_envelope =
  ae_version :: u32
  ae_attestation :: vm_attestation

definition admit_envelope_new :: "vm_attestation \<Rightarrow> admit_envelope" where
  "admit_envelope_new a = \<lparr>ae_version = ENVELOPE_VERSION, ae_attestation = a\<rparr>"

definition envelope_version :: "('v, 'o, 'n) json_api \<Rightarrow> 'o \<Rightarrow> (admit_error, u32) result" where
  "envelope_version J obj =
    (case js_get J obj ''version'' of
       None \<Rightarrow> Ok ENVELOPE_VERSION
     | Some v \<Rightarrow>
         (case js_number J v of
            Some n \<Rightarrow>
              bind (ok_or (js_u64 J n) (UnsupportedVersion 0)) (\<lambda>ver.
              if ver \<noteq> ucast ENVELOPE_VERSION then Err (UnsupportedVersion ver) else Ok ENVELOPE_VERSION)
          | None \<Rightarrow> Err (UnsupportedVersion 0)))"

definition admit_envelope_from_value ::
  "('v, 'o, 'n) json_api \<Rightarrow> 'v \<Rightarrow> (admit_error, admit_envelope) result" where
  "admit_envelope_from_value J v =
    bind (ok_or (js_object J v) NotAnObject) (\<lambda>obj.
    bind (envelope_version J obj) (\<lambda>version.
    bind (vm_attestation_from_payload J v) (\<lambda>att.
    Ok \<lparr>ae_version = version, ae_attestation = att\<rparr>)))"

definition admit_envelope_from_slice ::
  "('v, 'o, 'n) json_api \<Rightarrow> bytes \<Rightarrow> (admit_error, admit_envelope) result" where
  "admit_envelope_from_slice J bs =
    bind (ok_or (js_parse J bs) NotAnObject) (admit_envelope_from_value J)"

definition admit_envelope_to_value :: "('v, 'o, 'n) json_api \<Rightarrow> admit_envelope \<Rightarrow> 'v" where
  "admit_envelope_to_value J e =
    js_of_fields J [(''version'', js_of_u64 J (ucast (ae_version e))),
      (''attestation'', vm_attestation_to_value J (ae_attestation e))]"

definition admit_envelope_valid_for :: "admit_envelope \<Rightarrow> string \<Rightarrow> bool" where
  "admit_envelope_valid_for e vm_id \<longleftrightarrow>
    ae_version e = ENVELOPE_VERSION \<and> vm_attestation_valid_for (ae_attestation e) vm_id"

definition thaw_allowed :: "('v, 'o, 'n) json_api \<Rightarrow> string \<Rightarrow> 'v \<Rightarrow> bool" where
  "thaw_allowed J vm_id payload =
    (case vm_attestation_from_payload J payload of
       Ok att \<Rightarrow> vm_attestation_valid_for att vm_id
     | Err _ \<Rightarrow> False)"

definition attestation_of :: "('v, 'o, 'n) json_api \<Rightarrow> 'v \<Rightarrow> (admit_error, vm_attestation) result" where
  "attestation_of J payload = vm_attestation_from_payload J payload"

section \<open>Verdicts\<close>

datatype verdict = Deny | Drop | ReplyHere | Deliver

fun verdict_as_str :: "verdict \<Rightarrow> string" where
  "verdict_as_str Deny = ''deny''"
| "verdict_as_str Drop = ''drop''"
| "verdict_as_str ReplyHere = ''reply-here''"
| "verdict_as_str Deliver = ''deliver''"

definition verdict_parse :: "string \<Rightarrow> (admit_error, verdict) result" where
  "verdict_parse s =
    (if s = ''deny'' then Ok Deny
     else if s = ''drop'' then Ok Drop
     else if s = ''reply-here'' then Ok ReplyHere
     else if s = ''deliver'' then Ok Deliver
     else Err (UnknownVerdict s))"

lemma verdict_parse_Ok_iff: "verdict_parse s = Ok v \<longleftrightarrow> verdict_as_str v = s"
  by (cases v) (auto simp: verdict_parse_def)

section \<open>What is admitted\<close>

text \<open>The documented behaviour of the JSON crate that the writers rely on.\<close>

definition json_ok :: "('v, 'o, 'n) json_api \<Rightarrow> bool" where
  "json_ok J \<longleftrightarrow>
    (\<forall>s. js_str J (js_of_str J s) = Some s) \<and>
    (\<forall>n. \<exists>k. js_number J (js_of_u64 J n) = Some k \<and> js_u64 J k = Some n) \<and>
    (\<forall>kvs. distinct (map fst kvs) \<longrightarrow>
      (\<exists>obj. js_object J (js_of_fields J kvs) = Some obj \<and> js_get J obj = map_of kvs))"

definition version_absent_or_1 :: "('v, 'o, 'n) json_api \<Rightarrow> 'v \<Rightarrow> bool" where
  "version_absent_or_1 J v \<longleftrightarrow>
    (\<exists>obj. js_object J v = Some obj \<and>
      (case js_get J obj ''version'' of None \<Rightarrow> True
       | Some w \<Rightarrow> Option.bind (js_number J w) (js_u64 J) = Some 1))"

lemma thaw_allowed_iff:
  "thaw_allowed J vm_id payload \<longleftrightarrow> (\<exists>a. vm_attestation_from_payload J payload = Ok a \<and> va_vm_id a = vm_id)"
  by (simp add: thaw_allowed_def vm_attestation_valid_for_def split: result.splits)

lemma from_value_Ok_iff:
  "vm_attestation_from_value J v = Ok a \<longleftrightarrow>
    (\<exists>obj w x n. js_object J v = Some obj \<and> js_get J obj ''vm_id'' = Some w \<and> js_str J w = Some (va_vm_id a) \<and>
      va_vm_id a \<noteq> [] \<and> js_get J obj ''epoch'' = Some x \<and> js_number J x = Some n \<and> js_u64 J n = Some (va_epoch a))"
  by (cases a; cases "js_object J v")
    (auto simp: vm_attestation_from_value_def result_simps bind_eq_Some_conv split: option.splits if_splits)

lemma envelope_version_Ok_iff:
  "js_object J v = Some obj \<Longrightarrow>
    envelope_version J obj = Ok n \<longleftrightarrow> version_absent_or_1 J v \<and> n = ENVELOPE_VERSION"
  by (auto simp: envelope_version_def version_absent_or_1_def ENVELOPE_VERSION_def result_simps bind_eq_Some_conv
      split: option.splits if_splits)

lemma to_value_from_value:
  assumes "json_ok J" and "va_vm_id a \<noteq> []"
  shows "vm_attestation_from_value J (vm_attestation_to_value J a) = Ok a"
proof -
  let ?kvs = "[(''vm_id'', js_of_str J (va_vm_id a)), (''epoch'', js_of_u64 J (va_epoch a))]"
  have "distinct (map fst ?kvs)" by simp
  then obtain obj where "js_object J (js_of_fields J ?kvs) = Some obj" "js_get J obj = map_of ?kvs"
    using assms(1) unfolding json_ok_def by blast
  moreover obtain k where "js_number J (js_of_u64 J (va_epoch a)) = Some k" "js_u64 J k = Some (va_epoch a)"
    using assms(1) unfolding json_ok_def by blast
  moreover have "js_str J (js_of_str J (va_vm_id a)) = Some (va_vm_id a)" using assms(1) by (simp add: json_ok_def)
  ultimately show ?thesis using assms(2) by (simp add: from_value_Ok_iff vm_attestation_to_value_def)
qed

lemma envelope_valid_iff:
  "(\<exists>e. admit_envelope_from_value J v = Ok e \<and> admit_envelope_valid_for e vm) \<longleftrightarrow>
    thaw_allowed J vm v \<and> version_absent_or_1 J v"
proof (cases "js_object J v")
  case (Some obj)
  then show ?thesis
    by (auto simp: admit_envelope_from_value_def result_simps envelope_version_Ok_iff thaw_allowed_iff
        admit_envelope_valid_for_def vm_attestation_valid_for_def)
qed (simp add: admit_envelope_from_value_def version_absent_or_1_def)

lemma no_empty_vm: "\<not> thaw_allowed J [] v"
  by (auto simp: thaw_allowed_iff vm_attestation_from_payload_def result_simps from_value_Ok_iff)

lemma written_envelope_read:
  assumes J: "json_ok J" and a: "va_vm_id a \<noteq> []"
  defines "v \<equiv> admit_envelope_to_value J (admit_envelope_new a)"
  shows "admit_envelope_from_value J v = Ok (admit_envelope_new a) \<and> (thaw_allowed J vm v \<longleftrightarrow> vm = va_vm_id a)"
proof -
  let ?kvs = "[(''version'', js_of_u64 J 1), (''attestation'', vm_attestation_to_value J a)]"
  have v: "v = js_of_fields J ?kvs"
    by (simp add: v_def admit_envelope_to_value_def admit_envelope_new_def ENVELOPE_VERSION_def)
  have "distinct (map fst ?kvs)" by simp
  then obtain obj where obj: "js_object J v = Some obj" "js_get J obj = map_of ?kvs"
    using J unfolding v json_ok_def by blast
  obtain k where "js_number J (js_of_u64 J 1) = Some k" "js_u64 J k = Some 1"
    using J unfolding json_ok_def by blast
  then have ver: "envelope_version J obj = Ok ENVELOPE_VERSION"
    by (simp add: envelope_version_def obj(2) ENVELOPE_VERSION_def)
  have "vm_attestation_from_payload J v = Ok a"
    using to_value_from_value [OF J a] by (simp add: vm_attestation_from_payload_def obj)
  then show ?thesis
    by (auto simp: admit_envelope_from_value_def obj(1) ver admit_envelope_new_def thaw_allowed_iff)
qed

text \<open>
  C40. The two entry points of the admission check agree on everything but the version. The strict
  parser yields an envelope that is valid for a machine exactly when \<open>thaw_allowed\<close> accepts the
  payload for it and the version is absent or 1; nothing is admitted for the empty machine name; and
  an envelope that the crate writes is read back, and admitted for its own machine only.
\<close>

theorem admission_exact:
  "((\<exists>e. admit_envelope_from_value J v = Ok e \<and> admit_envelope_valid_for e vm) \<longleftrightarrow>
      thaw_allowed J vm v \<and> version_absent_or_1 J v) \<and>
   \<not> thaw_allowed J [] v \<and>
   (json_ok J \<and> va_vm_id a \<noteq> [] \<longrightarrow>
     admit_envelope_from_value J (admit_envelope_to_value J (admit_envelope_new a)) = Ok (admit_envelope_new a) \<and>
     (thaw_allowed J vm (admit_envelope_to_value J (admit_envelope_new a)) \<longleftrightarrow> vm = va_vm_id a))"
  using envelope_valid_iff [of J v vm] no_empty_vm [of J v] written_envelope_read [of J a vm] by blast

text \<open>A JSON crate for the witness: a value is a string, a number or a list of fields.\<close>

datatype toy_json = ToyStr string | ToyNum u64 | ToyObj "(string \<times> toy_json) list"

definition toy_json_api :: "(toy_json, (string \<times> toy_json) list, u64) json_api" where
  "toy_json_api =
    \<lparr>js_object = (\<lambda>v. case v of ToyObj kvs \<Rightarrow> Some kvs | _ \<Rightarrow> None),
     js_get = map_of,
     js_str = (\<lambda>v. case v of ToyStr s \<Rightarrow> Some s | _ \<Rightarrow> None),
     js_number = (\<lambda>v. case v of ToyNum n \<Rightarrow> Some n | _ \<Rightarrow> None),
     js_u64 = Some, js_parse = (\<lambda>_. None), js_of_str = ToyStr, js_of_u64 = ToyNum, js_of_fields = ToyObj\<rparr>"

lemma toy_json_ok: "json_ok toy_json_api"
  by (simp add: json_ok_def toy_json_api_def)

theorem admission_exact_witness:
  "admit_envelope_from_value toy_json_api
      (ToyObj [(''version'', ToyNum 1), (''attestation'', ToyObj [(''vm_id'', ToyStr ''vm-1''), (''epoch'', ToyNum 7)])]) =
    Ok \<lparr>ae_version = 1, ae_attestation = \<lparr>va_vm_id = ''vm-1'', va_epoch = 7\<rparr>\<rparr>"
proof -
  let ?a = "\<lparr>va_vm_id = ''vm-1'', va_epoch = 7\<rparr>"
  have "admit_envelope_from_value toy_json_api (admit_envelope_to_value toy_json_api (admit_envelope_new ?a)) =
      Ok (admit_envelope_new ?a)"
    using admission_exact [of toy_json_api "ToyNum 0" "''vm-1''" ?a] toy_json_ok by simp
  then show ?thesis
    by (simp add: admit_envelope_to_value_def admit_envelope_new_def vm_attestation_to_value_def toy_json_api_def
        ENVELOPE_VERSION_def)
qed

end
