(* ===== verification/Gordian.thy ===== *)
theory Gordian
  imports Dcbor_Laws "HOL-Library.Countable" "HOL-Library.Multiset"
begin

text \<open>
  The interface to Gordian envelopes. The envelope type is that of the crate \<open>bc_envelope\<close>; the
  operations that the secrets, the wallet and the log call are the fields of a record, over an
  arbitrary type of envelopes, and \<open>gordian_ok\<close> is what the crate documents of them. The leaves of
  an envelope are values of the vendored codec.
\<close>

section \<open>Operations\<close>

text \<open>
  \<open>ev_new\<close> makes a leaf. \<open>ev_try_leaf\<close> returns the value of an envelope that is a leaf,
  \<open>ev_extract\<close> the value that \<open>extract_subject\<close> converts. \<open>ev_object_for\<close> and \<open>ev_extract_for\<close> fail
  unless exactly one assertion has the predicate, \<open>ev_extract_optional_for\<close> also allows none.
\<close>

record 'e gordian =
  ev_new :: "dcbor \<Rightarrow> 'e"
  ev_new_assertion :: "'e \<Rightarrow> 'e \<Rightarrow> 'e"
  ev_add_assertion :: "'e \<Rightarrow> 'e \<Rightarrow> 'e \<Rightarrow> 'e"
  ev_add_assertion_envelope :: "'e \<Rightarrow> 'e \<Rightarrow> 'e option"
  ev_subject :: "'e \<Rightarrow> 'e"
  ev_assertions :: "'e \<Rightarrow> 'e list"
  ev_as_predicate :: "'e \<Rightarrow> 'e option"
  ev_as_object :: "'e \<Rightarrow> 'e option"
  ev_try_leaf :: "'e \<Rightarrow> dcbor option"
  ev_extract :: "'e \<Rightarrow> dcbor option"
  ev_object_for :: "'e \<Rightarrow> string \<Rightarrow> 'e option"
  ev_extract_for :: "'e \<Rightarrow> string \<Rightarrow> dcbor option"
  ev_extract_optional_for :: "'e \<Rightarrow> string \<Rightarrow> dcbor option option"
  ev_digest :: "'e \<Rightarrow> bytes"
  ev_wrap :: "'e \<Rightarrow> 'e"
  ev_try_unwrap :: "'e \<Rightarrow> 'e option"
  ev_to_cbor_data :: "'e \<Rightarrow> bytes"
  ev_try_from_cbor_data :: "bytes \<Rightarrow> 'e option"

definition ev_text :: "('e, 'x) gordian_scheme \<Rightarrow> string \<Rightarrow> 'e" where
  "ev_text G s = ev_new G (DText s)"

text \<open>The conversion of a CBOR value to \<open>u32\<close>, with the cast of negative numbers.\<close>

fun try_u32 :: "dcbor \<Rightarrow> (dcbor_error, u32) result" where
  "try_u32 (DUnsigned n) = (if n > 0xFFFFFFFF then Err OutOfRange else Ok (ucast n))"
| "try_u32 (DNegative n) = (if n > 0xFFFFFFFF then Err OutOfRange else Ok (- 1 - ucast n))"
| "try_u32 _ = Err WrongType"

fun try_into_tagged_value :: "dcbor \<Rightarrow> (dcbor_error, u64 \<times> dcbor) result" where
  "try_into_tagged_value (DTagged t v) = Ok (t, v)"
| "try_into_tagged_value _ = Err WrongType"

text \<open>The typed result of an extraction: a failed lookup and a failed conversion are one error.\<close>

definition extract_as :: "(dcbor \<Rightarrow> (dcbor_error, 'a) result) \<Rightarrow> dcbor option \<Rightarrow> 'a option" where
  "extract_as conv m = Option.bind m (\<lambda>v. case conv v of Ok x \<Rightarrow> Some x | Err _ \<Rightarrow> None)"

text \<open>
  Two loops that several decoders share: adding the preserved assertions on encoding, and collecting
  the assertions whose predicate is not known on decoding.
\<close>

primrec add_unknown :: "('e, 'x) gordian_scheme \<Rightarrow> 'err \<Rightarrow> ('e \<times> 'e) list \<Rightarrow> 'e \<Rightarrow> ('err, 'e) result" where
  "add_unknown G err [] e = Ok e"
| "add_unknown G err (po # pos) e =
    bind (ok_or (ev_add_assertion_envelope G e (ev_new_assertion G (fst po) (snd po))) err) (add_unknown G err pos)"

definition known_digests :: "('e, 'x) gordian_scheme \<Rightarrow> string list \<Rightarrow> bytes list" where
  "known_digests G preds = map (\<lambda>p. ev_digest G (ev_text G p)) preds"

fun collect_unknown :: "('e, 'x) gordian_scheme \<Rightarrow> bytes list \<Rightarrow> 'e list \<Rightarrow> ('e \<times> 'e) list" where
  "collect_unknown G known [] = []"
| "collect_unknown G known (a # as) =
    (case (ev_as_predicate G a, ev_as_object G a) of
       (Some p, Some ob) \<Rightarrow>
         if ev_digest G p \<notin> set known then (p, ob) # collect_unknown G known as else collect_unknown G known as
     | _ \<Rightarrow> collect_unknown G known as)"

section \<open>Documented behaviour\<close>

text \<open>
  A leaf has no assertions and is its own subject. An added assertion is kept unless its digest is
  present, and the order of additions does not matter. Wrapping makes an envelope the subject of a
  new one. Lookups select by the digest of the predicate.
\<close>

definition with_predicate :: "('e, 'x) gordian_scheme \<Rightarrow> 'e \<Rightarrow> string \<Rightarrow> 'e list" where
  "with_predicate G e k =
    filter (\<lambda>a. map_option (ev_digest G) (ev_as_predicate G a) = Some (ev_digest G (ev_text G k))) (ev_assertions G e)"

definition gordian_ok :: "('e, 'x) gordian_scheme \<Rightarrow> bool" where
  "gordian_ok G \<longleftrightarrow>
    (\<forall>c. ev_subject G (ev_new G c) = ev_new G c \<and> ev_assertions G (ev_new G c) = [] \<and>
      ev_try_leaf G (ev_new G c) = Some c \<and> ev_extract G (ev_new G c) = Some c \<and>
      ev_try_unwrap G (ev_new G c) = None) \<and>
    (\<forall>p ob. ev_as_predicate G (ev_new_assertion G p ob) = Some p \<and> ev_as_object G (ev_new_assertion G p ob) = Some ob) \<and>
    (\<forall>e p ob. ev_add_assertion_envelope G e (ev_new_assertion G p ob) = Some (ev_add_assertion G e p ob) \<and>
      ev_subject G (ev_add_assertion G e p ob) = ev_subject G e \<and>
      ev_try_unwrap G (ev_add_assertion G e p ob) = ev_try_unwrap G e \<and>
      (ev_digest G (ev_new_assertion G p ob) \<notin> ev_digest G ` set (ev_assertions G e) \<longrightarrow>
        mset (ev_assertions G (ev_add_assertion G e p ob)) = add_mset (ev_new_assertion G p ob) (mset (ev_assertions G e)))) \<and>
    (\<forall>e p ob p' ob'. ev_digest G (ev_new_assertion G p ob) \<noteq> ev_digest G (ev_new_assertion G p' ob') \<longrightarrow>
      ev_add_assertion G (ev_add_assertion G e p ob) p' ob' = ev_add_assertion G (ev_add_assertion G e p' ob') p ob) \<and>
    (\<forall>e. ev_try_unwrap G (ev_wrap G e) = Some e \<and> ev_assertions G (ev_wrap G e) = [] \<and>
      ev_subject G (ev_wrap G e) = ev_wrap G e) \<and>
    (\<forall>e k. ev_object_for G e k = (case with_predicate G e k of [a] \<Rightarrow> ev_as_object G a | _ \<Rightarrow> None) \<and>
      ev_extract_for G e k = Option.bind (ev_object_for G e k) (ev_extract G) \<and>
      ev_extract_optional_for G e k =
        (case with_predicate G e k of [] \<Rightarrow> Some None
         | [a] \<Rightarrow> map_option Some (Option.bind (ev_as_object G a) (ev_extract G)) | _ \<Rightarrow> None))"

section \<open>Consequences\<close>

text \<open>Two facts on lists that are read in another order than they were written.\<close>

lemma mset_map_reorder:
  assumes "mset xs = mset (map f ys)"
  shows "\<exists>zs. xs = map f zs \<and> mset zs = mset ys"
  using assms
proof (induction xs arbitrary: ys)
  case (Cons x xs)
  then have "x \<in> set (map f ys)" by (metis list.set_intros(1) set_mset_mset)
  then obtain y as bs where y: "f y = x" "ys = as @ y # bs" by (auto simp: in_set_conv_decomp)
  with Cons.prems have "mset xs = mset (map f (as @ bs))" by simp
  from Cons.IH [OF this] obtain zs where "xs = map f zs" "mset zs = mset (as @ bs)" by blast
  with y show ?case by (intro exI [of _ "y # zs"]) simp
qed simp

lemma mset_concat_map: "mset xs = mset ys \<Longrightarrow> mset (concat (map f xs)) = mset (concat (map f ys))"
  by (simp add: mset_concat comp_def flip: sum_mset_sum_list)

text \<open>What an envelope holds, as predicates and objects in any order.\<close>

definition holds :: "('e, 'x) gordian_scheme \<Rightarrow> 'e \<Rightarrow> dcbor \<Rightarrow> ('e \<times> 'e) list \<Rightarrow> bool" where
  "holds G e c pos \<longleftrightarrow> ev_subject G e = ev_new G c \<and> ev_try_unwrap G e = None \<and>
    mset (ev_assertions G e) = mset (map (\<lambda>(p, ob). ev_new_assertion G p ob) pos)"

definition distinct_assertions :: "('e, 'x) gordian_scheme \<Rightarrow> ('e \<times> 'e) list \<Rightarrow> bool" where
  "distinct_assertions G pos \<longleftrightarrow> distinct (map (\<lambda>(p, ob). ev_digest G (ev_new_assertion G p ob)) pos)"

definition objects_for :: "('e, 'x) gordian_scheme \<Rightarrow> ('e \<times> 'e) list \<Rightarrow> string \<Rightarrow> 'e list" where
  "objects_for G pos k = map snd (filter (\<lambda>(p, ob). ev_digest G p = ev_digest G (ev_text G k)) pos)"

lemma holds_new: "gordian_ok G \<Longrightarrow> holds G (ev_new G c) c []"
  by (simp add: gordian_ok_def holds_def)

lemma holds_add:
  assumes "gordian_ok G" and "holds G e c pos" and "distinct_assertions G (pos @ [(p, ob)])"
  shows "holds G (ev_add_assertion G e p ob) c (pos @ [(p, ob)])"
proof -
  have "set (ev_assertions G e) = set (map (\<lambda>(p, ob). ev_new_assertion G p ob) pos)"
    using assms(2) by (metis holds_def set_mset_mset)
  then have "ev_digest G (ev_new_assertion G p ob) \<notin> ev_digest G ` set (ev_assertions G e)"
    using assms(3) by (auto simp: distinct_assertions_def)
  then show ?thesis using assms(1,2) by (simp add: gordian_ok_def holds_def)
qed

lemma distinct_assertions_take: "distinct_assertions G (pos @ pos') \<Longrightarrow> distinct_assertions G pos"
  by (simp add: distinct_assertions_def)

definition add_all :: "('e, 'x) gordian_scheme \<Rightarrow> ('e \<times> 'e) list \<Rightarrow> 'e \<Rightarrow> 'e" where
  "add_all G pos e = fold (\<lambda>(p, ob) e. ev_add_assertion G e p ob) pos e"

lemma add_all_holds:
  assumes "gordian_ok G" and "holds G e c pos" and "distinct_assertions G (pos @ qs)"
  shows "holds G (add_all G qs e) c (pos @ qs)"
  using assms(2,3)
proof (induction qs arbitrary: e pos)
  case (Cons q qs)
  obtain p ob where q: "q = (p, ob)" by (cases q)
  have "holds G (ev_add_assertion G e p ob) c (pos @ [(p, ob)])"
    using holds_add [OF assms(1) Cons.prems(1)] Cons.prems(2) distinct_assertions_take [of G "pos @ [q]" qs]
    by (simp add: q)
  from Cons.IH [OF this] Cons.prems(2) show ?case by (simp add: q add_all_def)
qed (simp add: add_all_def)

text \<open>The order in which assertions are added does not matter.\<close>

lemma gordian_commute:
  assumes "gordian_ok G" and "ev_digest G (ev_new_assertion G p ob) \<noteq> ev_digest G (ev_new_assertion G p' ob')"
  shows "ev_add_assertion G (ev_add_assertion G e p ob) p' ob' = ev_add_assertion G (ev_add_assertion G e p' ob') p ob"
proof -
  from assms(1) have "\<forall>e p ob p' ob'. ev_digest G (ev_new_assertion G p ob) \<noteq> ev_digest G (ev_new_assertion G p' ob') \<longrightarrow>
      ev_add_assertion G (ev_add_assertion G e p ob) p' ob' = ev_add_assertion G (ev_add_assertion G e p' ob') p ob"
    unfolding gordian_ok_def by (elim conjE)
  with assms(2) show ?thesis by blast
qed

lemma add_all_commute:
  assumes "gordian_ok G" and "distinct_assertions G ((p, ob) # qs)"
  shows "add_all G qs (ev_add_assertion G e p ob) = ev_add_assertion G (add_all G qs e) p ob"
  using assms(2)
proof (induction qs arbitrary: e)
  case (Cons q qs)
  obtain p' ob' where q: "q = (p', ob')" by (cases q)
  have "ev_add_assertion G (ev_add_assertion G e p ob) p' ob' = ev_add_assertion G (ev_add_assertion G e p' ob') p ob"
    using Cons.prems by (intro gordian_commute [OF assms(1)]) (simp add: distinct_assertions_def q)
  moreover have "distinct_assertions G ((p, ob) # qs)" using Cons.prems by (simp add: distinct_assertions_def)
  ultimately show ?case using Cons.IH by (simp add: add_all_def q)
qed (simp add: add_all_def)

lemma add_all_perm:
  assumes "gordian_ok G" and "mset qs = mset rs" and "distinct_assertions G rs"
  shows "add_all G qs e = add_all G rs e"
  using assms(2,3)
proof (induction qs arbitrary: rs e)
  case (Cons q qs)
  obtain p ob where q: "q = (p, ob)" by (cases q)
  from Cons.prems(1) obtain as bs where rs: "rs = as @ q # bs" by (metis list.set_intros(1) set_mset_mset split_list)
  then have ms: "mset qs = mset (as @ bs)" using Cons.prems(1) by simp
  have d: "distinct_assertions G (as @ bs)" "distinct_assertions G ((p, ob) # as)"
    using Cons.prems(2) by (auto simp: rs q distinct_assertions_def)
  have "add_all G (q # qs) e = add_all G (as @ bs) (ev_add_assertion G e p ob)"
    using Cons.IH [OF ms d(1)] by (simp add: add_all_def q)
  also have "\<dots> = add_all G bs (ev_add_assertion G (add_all G as e) p ob)"
    using add_all_commute [OF assms(1) d(2)] by (simp add: add_all_def)
  also have "\<dots> = add_all G rs e" by (simp add: add_all_def rs q)
  finally show ?case .
qed simp

lemma add_unknown_all:
  assumes "gordian_ok G"
  shows "add_unknown G err us e = Ok (add_all G us e)"
proof (induction us arbitrary: e)
  case (Cons u us)
  have "ev_add_assertion_envelope G e (ev_new_assertion G (fst u) (snd u)) = Some (ev_add_assertion G e (fst u) (snd u))"
    using assms by (simp add: gordian_ok_def)
  with Cons.IH show ?case by (simp add: add_all_def case_prod_beta)
qed (simp add: add_all_def)

lemma collect_unknown_append: "collect_unknown G known (as @ bs) = collect_unknown G known as @ collect_unknown G known bs"
  by (induction as) (auto split: option.splits)

lemma collect_unknown_mset:
  "mset as = mset bs \<Longrightarrow> mset (collect_unknown G known as) = mset (collect_unknown G known bs)"
proof (induction as arbitrary: bs)
  case (Cons a as)
  then obtain xs ys where bs: "bs = xs @ a # ys" by (metis list.set_intros(1) set_mset_mset split_list)
  with Cons.prems have "mset as = mset (xs @ ys)" by simp
  from Cons.IH [OF this] show ?case by (auto simp: bs collect_unknown_append split: option.splits)
qed simp

lemma unknown_of_holds:
  assumes "gordian_ok G" and "holds G e c pos"
  shows "mset (collect_unknown G known (ev_assertions G e)) = mset (filter (\<lambda>(p, ob). ev_digest G p \<notin> set known) pos)"
proof -
  have "collect_unknown G known (map (\<lambda>(p, ob). ev_new_assertion G p ob) xs) =
      filter (\<lambda>(p, ob). ev_digest G p \<notin> set known) xs" for xs
    using assms(1) by (induction xs) (auto simp: gordian_ok_def)
  with collect_unknown_mset [of "ev_assertions G e"] assms(2) show ?thesis by (metis holds_def)
qed

lemma with_predicate_holds:
  assumes "gordian_ok G" and "holds G e c pos"
  shows "mset (with_predicate G e k) =
    mset (map (\<lambda>(p, ob). ev_new_assertion G p ob) (filter (\<lambda>(p, ob). ev_digest G p = ev_digest G (ev_text G k)) pos))"
proof -
  let ?P = "\<lambda>a. map_option (ev_digest G) (ev_as_predicate G a) = Some (ev_digest G (ev_text G k))"
  have "mset (with_predicate G e k) = filter_mset ?P (mset (map (\<lambda>(p, ob). ev_new_assertion G p ob) pos))"
    using assms(2) by (simp add: with_predicate_def holds_def)
  also have "\<dots> = mset (filter ?P (map (\<lambda>(p, ob). ev_new_assertion G p ob) pos))" by simp
  also have "filter ?P (map (\<lambda>(p, ob). ev_new_assertion G p ob) pos) =
      map (\<lambda>(p, ob). ev_new_assertion G p ob) (filter (\<lambda>(p, ob). ev_digest G p = ev_digest G (ev_text G k)) pos)"
    using assms(1) by (induction pos) (auto simp: gordian_ok_def)
  finally show ?thesis .
qed

lemma lookup_one:
  assumes "gordian_ok G" and "holds G e c pos" and "objects_for G pos k = [ob]"
  shows "ev_object_for G e k = Some ob" and "ev_extract_for G e k = ev_extract G ob"
    and "ev_extract_optional_for G e k = map_option Some (ev_extract G ob)"
proof -
  from assms(3) obtain p where "filter (\<lambda>(p, ob). ev_digest G p = ev_digest G (ev_text G k)) pos = [(p, ob)]"
    by (auto simp: objects_for_def)
  with with_predicate_holds [OF assms(1,2), of k] have w: "with_predicate G e k = [ev_new_assertion G p ob]"
    by simp
  have ob: "ev_as_object G (ev_new_assertion G p ob) = Some ob" using assms(1) by (simp add: gordian_ok_def)
  show o1: "ev_object_for G e k = Some ob" using assms(1) w ob by (simp add: gordian_ok_def)
  show "ev_extract_for G e k = ev_extract G ob" using assms(1) o1 by (simp add: gordian_ok_def)
  show "ev_extract_optional_for G e k = map_option Some (ev_extract G ob)"
    using assms(1) w ob by (simp add: gordian_ok_def)
qed

lemma lookup_none:
  assumes "gordian_ok G" and "holds G e c pos" and "objects_for G pos k = []"
  shows "ev_extract_optional_for G e k = Some None"
proof -
  have "filter (\<lambda>(p, ob). ev_digest G p = ev_digest G (ev_text G k)) pos = []"
    using assms(3) by (simp add: objects_for_def)
  with with_predicate_holds [OF assms(1,2), of k] have "mset (with_predicate G e k) = {#}"
    by (simp only: list.map mset.simps)
  then have "with_predicate G e k = []" by simp
  then show ?thesis using assms(1) by (simp add: gordian_ok_def)
qed

lemma objects_for_simps [simp]:
  "objects_for G [] k = []"
  "objects_for G ((p, ob) # pos) k =
    (if ev_digest G p = ev_digest G (ev_text G k) then ob # objects_for G pos k else objects_for G pos k)"
  "objects_for G (pos @ pos') k = objects_for G pos k @ objects_for G pos' k"
  by (simp_all add: objects_for_def)

lemma objects_for_unknown:
  "k \<in> set preds \<Longrightarrow> (\<And>p ob. (p, ob) \<in> set us \<Longrightarrow> ev_digest G p \<notin> set (known_digests G preds)) \<Longrightarrow>
    objects_for G us k = []"
  by (auto simp: objects_for_def known_digests_def filter_empty_conv)

lemma known_digest_eq:
  assumes "distinct (known_digests G preds)" and "k \<in> set preds" and "k' \<in> set preds"
  shows "ev_digest G (ev_text G k) = ev_digest G (ev_text G k') \<longleftrightarrow> k = k'"
  using assms by (auto simp: known_digests_def distinct_map dest: inj_onD)

section \<open>An instance\<close>

text \<open>
  Envelopes as trees. Digest and encoding number the tree, which is an injective map into byte
  strings; it stands for a digest without collisions.
\<close>

datatype toy_env = ToyLeaf dcbor | ToyNode toy_env "toy_env list" | ToyAssertion toy_env toy_env | ToyWrapped toy_env

instance simple :: countable
  by countable_datatype

instance dcbor :: countable
  by countable_datatype

instance toy_env :: countable
  by countable_datatype

definition toy_code :: "toy_env \<Rightarrow> bytes" where
  "toy_code e = replicate (to_nat e) 0"

fun toy_subject :: "toy_env \<Rightarrow> toy_env" where
  "toy_subject (ToyNode s as) = s"
| "toy_subject e = e"

fun toy_assertions :: "toy_env \<Rightarrow> toy_env list" where
  "toy_assertions (ToyNode s as) = as"
| "toy_assertions e = []"

definition toy_add :: "toy_env \<Rightarrow> toy_env \<Rightarrow> toy_env" where
  "toy_add e a = (if a \<in> set (toy_assertions e) then e else ToyNode (toy_subject e) (insort_key to_nat a (toy_assertions e)))"

fun toy_leaf :: "toy_env \<Rightarrow> dcbor option" where
  "toy_leaf (ToyLeaf c) = Some c"
| "toy_leaf e = None"

fun toy_unwrap :: "toy_env \<Rightarrow> toy_env option" where
  "toy_unwrap (ToyWrapped e) = Some e"
| "toy_unwrap e = None"

fun toy_parts :: "toy_env \<Rightarrow> (toy_env \<times> toy_env) option" where
  "toy_parts (ToyAssertion p ob) = Some (p, ob)"
| "toy_parts e = None"

definition toy_with :: "toy_env \<Rightarrow> string \<Rightarrow> toy_env list" where
  "toy_with e k = filter (\<lambda>a. map_option fst (toy_parts (toy_subject a)) = Some (ToyLeaf (DText k))) (toy_assertions e)"

definition toy_object :: "toy_env \<Rightarrow> toy_env option" where
  "toy_object a = map_option snd (toy_parts (toy_subject a))"

definition toy_gordian :: "toy_env gordian" where
  "toy_gordian = \<lparr>
    ev_new = ToyLeaf, ev_new_assertion = ToyAssertion,
    ev_add_assertion = (\<lambda>e p ob. toy_add e (ToyAssertion p ob)),
    ev_add_assertion_envelope = (\<lambda>e a. Some (toy_add e a)),
    ev_subject = toy_subject, ev_assertions = toy_assertions,
    ev_as_predicate = (\<lambda>a. map_option fst (toy_parts (toy_subject a))),
    ev_as_object = toy_object,
    ev_try_leaf = toy_leaf, ev_extract = (\<lambda>e. toy_leaf (toy_subject e)),
    ev_object_for = (\<lambda>e k. case toy_with e k of [a] \<Rightarrow> toy_object a | _ \<Rightarrow> None),
    ev_extract_for = (\<lambda>e k. Option.bind (case toy_with e k of [a] \<Rightarrow> toy_object a | _ \<Rightarrow> None)
      (\<lambda>e. toy_leaf (toy_subject e))),
    ev_extract_optional_for = (\<lambda>e k. case toy_with e k of [] \<Rightarrow> Some None
      | [a] \<Rightarrow> map_option Some (Option.bind (toy_object a) (\<lambda>e. toy_leaf (toy_subject e))) | _ \<Rightarrow> None),
    ev_digest = toy_code, ev_wrap = ToyWrapped, ev_try_unwrap = (\<lambda>e. toy_unwrap (toy_subject e)),
    ev_to_cbor_data = toy_code, ev_try_from_cbor_data = (\<lambda>b. Some (from_nat (length b)))\<rparr>"

lemma toy_gordian_simps [simp]:
  "ev_digest toy_gordian = toy_code" "ev_text toy_gordian s = ToyLeaf (DText s)" "ev_new toy_gordian = ToyLeaf"
  "ev_new_assertion toy_gordian = ToyAssertion" "ev_to_cbor_data toy_gordian = toy_code"
  "ev_try_from_cbor_data toy_gordian = (\<lambda>b. Some (from_nat (length b)))"
  by (simp_all add: toy_gordian_def ev_text_def)

lemma toy_code_eq [simp]: "toy_code a = toy_code b \<longleftrightarrow> a = b"
  by (simp add: toy_code_def)

lemma toy_code_mem: "toy_code a \<in> toy_code ` A \<longleftrightarrow> a \<in> A"
  by auto

lemma toy_read_back [simp]: "from_nat (length (toy_code e)) = e"
  by (simp add: toy_code_def)

lemma toy_gordian_ok: "gordian_ok toy_gordian"
proof -
  have "map_option toy_code x = Some (toy_code y) \<longleftrightarrow> x = Some y" for x y by auto
  then have w: "with_predicate toy_gordian e k = toy_with e k" for e k
    by (simp add: with_predicate_def toy_with_def toy_gordian_def ev_text_def)
  have "toy_unwrap (toy_subject (toy_add e a)) = toy_unwrap (toy_subject e)" for e a
    by (cases e) (auto simp: toy_add_def)
  moreover have "toy_subject (toy_add e a) = toy_subject e" for e a by (simp add: toy_add_def)
  moreover have "a \<notin> set (toy_assertions e) \<Longrightarrow> mset (toy_assertions (toy_add e a)) = add_mset a (mset (toy_assertions e))"
    for e a by (simp add: toy_add_def)
  moreover have "(p = p' \<longrightarrow> ob \<noteq> ob') \<longrightarrow> toy_add (toy_add e (ToyAssertion p ob)) (ToyAssertion p' ob') =
      toy_add (toy_add e (ToyAssertion p' ob')) (ToyAssertion p ob)" for e p ob p' ob'
    by (auto simp: toy_add_def set_insort_key insort_key_left_comm)
  ultimately show ?thesis
    unfolding gordian_ok_def w by (simp add: toy_gordian_def toy_object_def toy_code_mem cong: list.case_cong) blast
qed

end
