(* ===== verification/Hlc.thy ===== *)
theory Hlc
  imports Prelude
begin

text \<open>
  The hybrid logical clock and the op record of \<open>identikey-log\<close> (\<open>hlc.rs\<close>, \<open>op.rs\<close>). Signatures are
  objects of another crate, so a signed op is a record over an arbitrary type of signatures.
\<close>

section \<open>The clock\<close>

datatype hlc = Hlc (hlc_l: u64) (hlc_c: u64)

text \<open>The derived order: lexicographic on \<open>l\<close>, then \<open>c\<close>.\<close>

instantiation hlc :: linorder
begin

definition less_eq_hlc :: "hlc \<Rightarrow> hlc \<Rightarrow> bool" where
  "less_eq_hlc a b \<longleftrightarrow> hlc_l a < hlc_l b \<or> (hlc_l a = hlc_l b \<and> hlc_c a \<le> hlc_c b)"

definition less_hlc :: "hlc \<Rightarrow> hlc \<Rightarrow> bool" where
  "less_hlc a b \<longleftrightarrow> hlc_l a < hlc_l b \<or> (hlc_l a = hlc_l b \<and> hlc_c a < hlc_c b)"

instance
  by standard (auto simp: less_eq_hlc_def less_hlc_def hlc.expand)

end

definition hlc_new :: "u64 \<Rightarrow> u64 \<Rightarrow> hlc" where
  "hlc_new l c = Hlc l c"

definition hlc_default :: hlc where
  "hlc_default = Hlc 0 0"

definition advance :: "u64 \<Rightarrow> u64 \<Rightarrow> hlc" where
  "advance local_wall_ms last_l = Hlc (saturating_add_u64 (max local_wall_ms last_l) 1) 0"

definition hlc_next :: "hlc \<Rightarrow> u64 \<Rightarrow> hlc" where
  "hlc_next h local_wall_ms = advance local_wall_ms (hlc_l h)"

definition hlc_observe :: "hlc \<Rightarrow> hlc \<Rightarrow> hlc" where
  "hlc_observe h other = (if hlc_l other > hlc_l h then Hlc (hlc_l other) (hlc_c h) else h)"

definition concurrent_with :: "hlc \<Rightarrow> hlc \<Rightarrow> bool" where
  "concurrent_with h other = (h = other)"

section \<open>Ops\<close>

text \<open>The error type of the crate. The texts of foreign errors are not kept.\<close>

datatype log_error =
    CborError
  | EnvelopeError
  | MissingField string
  | InvalidValue string
  | UnsupportedFormatVersion u64
  | WrongType string
  | WrongTag u64 u64
  | EmptyKind
  | BadLength nat nat
  | NonCanonicalBody
  | UnknownPredicate string
  | InvalidKey string
  | InvalidSig string
  | BadSignature
  | Unsigned
  | PqDangling
  | PqUnavailable
  | PqUnsupportedLevel u64

definition OP_TYPE :: string where
  "OP_TYPE = ''ball.action''"

definition FORMAT_VERSION :: u64 where
  "FORMAT_VERSION = 4"

record op =
  op_kind :: string
  op_body :: "bytes option"
  op_hlc :: hlc
  op_actor :: bytes
  op_parent_hashes :: "bytes list"
  op_deps :: "bytes list"
  op_nacks :: "bytes list"
  op_target_fp :: "bytes option"
  op_timestamp :: "u64 option"

definition op_new :: "string \<Rightarrow> bytes \<Rightarrow> hlc \<Rightarrow> op" where
  "op_new kind actor h =
    \<lparr>op_kind = kind, op_body = None, op_hlc = h, op_actor = actor, op_parent_hashes = [], op_deps = [],
     op_nacks = [], op_target_fp = None, op_timestamp = None\<rparr>"

definition with_body :: "op \<Rightarrow> bytes \<Rightarrow> op" where
  "with_body p body = p\<lparr>op_body := Some body\<rparr>"

definition with_parents :: "op \<Rightarrow> bytes list \<Rightarrow> op" where
  "with_parents p parents = p\<lparr>op_parent_hashes := parents\<rparr>"

definition with_deps :: "op \<Rightarrow> bytes list \<Rightarrow> op" where
  "with_deps p deps = p\<lparr>op_deps := deps\<rparr>"

definition with_nacks :: "op \<Rightarrow> bytes list \<Rightarrow> op" where
  "with_nacks p nacks = p\<lparr>op_nacks := nacks\<rparr>"

definition with_target_fp :: "op \<Rightarrow> bytes \<Rightarrow> op" where
  "with_target_fp p fp = p\<lparr>op_target_fp := Some fp\<rparr>"

definition with_timestamp :: "op \<Rightarrow> u64 \<Rightarrow> op" where
  "with_timestamp p secs = p\<lparr>op_timestamp := Some secs\<rparr>"

definition op_validate :: "op \<Rightarrow> (log_error, unit) result" where
  "op_validate p = (if op_kind p = [] then Err EmptyKind else Ok ())"

record 'sig signed_op =
  so_op :: op
  so_signatures :: "'sig list"
  so_elided :: nat

definition signed_op_new :: "op \<Rightarrow> 'sig list \<Rightarrow> 'sig signed_op" where
  "signed_op_new p signatures = \<lparr>so_op = p, so_signatures = signatures, so_elided = 0\<rparr>"

definition is_signed :: "'sig signed_op \<Rightarrow> bool" where
  "is_signed s \<longleftrightarrow> so_signatures s \<noteq> []"

definition has_elisions :: "'sig signed_op \<Rightarrow> bool" where
  "has_elisions s \<longleftrightarrow> so_elided s > 0"

section \<open>An author's history\<close>

text \<open>
  An author issues events, with the wall clock at that moment, and observes the readings of peers.
  \<open>history\<close> is the clock afterwards with every reading seen so far, the latest first.
\<close>

datatype clock_event = Emit u64 | Hear hlc

fun clock_step :: "hlc \<times> hlc list \<Rightarrow> clock_event \<Rightarrow> hlc \<times> hlc list" where
  "clock_step (h, seen) (Emit wall) = (hlc_next h wall, hlc_next h wall # seen)"
| "clock_step (h, seen) (Hear other) = (hlc_observe h other, other # seen)"

definition history :: "clock_event list \<Rightarrow> hlc \<times> hlc list" where
  "history es = foldl clock_step (hlc_default, []) es"

lemma unat_advance: "unat (hlc_l (advance w l)) = min (max (unat w) (unat l) + 1) (2 ^ 64 - 1)"
  by (simp add: advance_def unat_saturating_add max_def word_le_nat_alt)

lemma history_dominates:
  "history es = (h, seen) \<Longrightarrow> x \<in> set seen \<Longrightarrow> hlc_l x \<le> hlc_l h"
proof (induction es arbitrary: h seen x rule: rev_induct)
  case Nil
  then show ?case by (simp add: history_def)
next
  case (snoc e es)
  obtain h0 seen0 where p: "history es = (h0, seen0)" by (cases "history es")
  have st: "clock_step (h0, seen0) e = (h, seen)" using snoc.prems(1) p by (simp add: history_def)
  show ?case
  proof (cases e)
    case (Emit wall)
    have "hlc_l h0 \<le> hlc_l (hlc_next h0 wall)"
      using unsigned_less [of "hlc_l h0", where ?'a = nat]
      by (simp add: hlc_next_def word_le_nat_alt unat_advance)
    with Emit st snoc.IH [OF p] snoc.prems(2) show ?thesis by fastforce
  next
    case (Hear other)
    have "hlc_l h0 \<le> hlc_l (hlc_observe h0 other)" "hlc_l other \<le> hlc_l (hlc_observe h0 other)"
      by (auto simp: hlc_observe_def not_less)
    with Hear st snoc.IH [OF p] snoc.prems(2) show ?thesis by fastforce
  qed
qed

text \<open>
  C37. A reading that an author issues is greater than every reading issued or observed before it,
  by its \<open>l\<close> component alone, unless the wall clock or the last \<open>l\<close> has reached the 64-bit maximum.
\<close>

theorem issued_reading_is_latest:
  assumes "history es = (h, seen)" and "x \<in> set seen" and "unat wall < 2 ^ 64 - 1" and "unat (hlc_l h) < 2 ^ 64 - 1"
  shows "hlc_l x < hlc_l (hlc_next h wall) \<and> x < hlc_next h wall \<and> hlc_c (hlc_next h wall) = 0"
proof -
  have "hlc_l h < hlc_l (hlc_next h wall)"
    using assms(3,4) by (simp add: hlc_next_def word_less_nat_alt unat_advance)
  with history_dominates [OF assms(1,2)] have "hlc_l x < hlc_l (hlc_next h wall)" by simp
  then show ?thesis by (simp add: less_hlc_def hlc_next_def advance_def)
qed

theorem issued_reading_is_latest_witness:
  "Hlc 50 3 < hlc_next (Hlc 50 0) 10"
proof -
  have "history [Emit 1, Hear (Hlc 50 3)] = (Hlc 50 0, [Hlc 50 3, Hlc 2 0])"
    by (simp add: history_def hlc_default_def hlc_next_def advance_def hlc_observe_def saturating_add_u64_def)
  from issued_reading_is_latest [OF this, of "Hlc 50 3" 10] show ?thesis by simp
qed

text \<open>
  At the 64-bit maximum the counter saturates: the reading issued next is equal to the one before,
  so the claim that an advance always increases \<open>l\<close> fails there.
\<close>

lemma advance_saturates:
  "hlc_l (hlc_next h wall) > hlc_l h \<longleftrightarrow> unat (hlc_l h) < 2 ^ 64 - 1"
  using unsigned_less [of "hlc_l h", where ?'a = nat]
  by (auto simp: hlc_next_def word_less_nat_alt unat_advance)

end
