(* ===== verification/Log_Codec.thy ===== *)
theory Log_Codec
  imports Gordian Hlc "HOL-Library.List_Lexorder"
begin

text \<open>
  The wire codec of the log (\<open>identikey-log\<close>, \<open>codec.rs\<close>): ops as Gordian envelopes and back. The
  signature type and the known value \<open>'signed'\<close> belong to other crates and extend the interface to
  envelopes.
\<close>

section \<open>Operations\<close>

text \<open>
  \<open>ev_signed\<close> is the envelope of the known value; \<open>ev_is_signed\<close> tells whether the subject of a
  predicate is that value. \<open>ev_signature\<close> is a signature as an object and \<open>ev_extract_signature\<close>
  the conversion back. \<open>ev_add_salt\<close> adds a salt assertion of drawn bytes.
\<close>

record ('e, 'sig) log_gordian = "'e gordian" +
  ev_signed :: 'e
  ev_is_signed :: "'e \<Rightarrow> bool"
  ev_signature :: "'sig \<Rightarrow> 'e"
  ev_extract_signature :: "'e \<Rightarrow> 'sig option"
  ev_add_salt :: "bytes \<Rightarrow> 'e \<Rightarrow> 'e"

definition TAG_EPOCH_TIME :: u64 where "TAG_EPOCH_TIME = 1"
definition TAG_MLDSA_SIGNATURE :: u64 where "TAG_MLDSA_SIGNATURE = 40105"
definition PRED_DEPS :: string where "PRED_DEPS = ''deps''"
definition PRED_NACKS :: string where "PRED_NACKS = ''nacks''"
definition PRED_TARGET_FP :: string where "PRED_TARGET_FP = ''target-fp''"
definition PRED_TIMESTAMP :: string where "PRED_TIMESTAMP = ''timestamp''"

definition assert_canonical :: "dcbor_ext \<Rightarrow> bytes \<Rightarrow> (log_error, unit) result" where
  "assert_canonical E bs =
    bind (map_err (\<lambda>_. NonCanonicalBody) (try_from_data E bs)) (\<lambda>cbor.
    if to_cbor_data E cbor \<noteq> bs then Err NonCanonicalBody else Ok ())"

definition core_fields :: "op \<Rightarrow> (string \<times> dcbor) list" where
  "core_fields p =
    [(''hlc'', DArray [DUnsigned (hlc_l (op_hlc p)), DUnsigned (hlc_c (op_hlc p))])] @
    (case op_body p of None \<Rightarrow> [] | Some body \<Rightarrow> [(''body'', DBytes body)]) @
    [(''kind'', DText (op_kind p)), (''type'', DText OP_TYPE), (''actor'', DBytes (op_actor p)),
     (''parent-hashes'', DArray (map DBytes (op_parent_hashes p))), (''format-version'', DUnsigned FORMAT_VERSION)]"

text \<open>The loops and options of the assertions, one addition each.\<close>

definition op_attributes :: "op \<Rightarrow> (string \<times> dcbor) list" where
  "op_attributes p =
    map (\<lambda>d. (PRED_DEPS, DBytes d)) (op_deps p) @ map (\<lambda>n. (PRED_NACKS, DBytes n)) (op_nacks p) @
    (case op_target_fp p of None \<Rightarrow> [] | Some fp \<Rightarrow> [(PRED_TARGET_FP, DBytes fp)]) @
    (case op_timestamp p of None \<Rightarrow> [] | Some ts \<Rightarrow> [(PRED_TIMESTAMP, DTagged TAG_EPOCH_TIME (DUnsigned ts))])"

definition op_to_envelope ::
  "('e, 'x) gordian_scheme \<Rightarrow> dcbor_ext \<Rightarrow> op \<Rightarrow> (log_error, 'e) result" where
  "op_to_envelope G E p =
    bind (op_validate p) (\<lambda>_.
    bind (case op_body p of None \<Rightarrow> Ok () | Some body \<Rightarrow> assert_canonical E body) (\<lambda>_.
    Ok (fold (\<lambda>(label, v) e. ev_add_assertion G e (ev_text G label) (ev_new G v)) (op_attributes p)
      (ev_new G (DMap (insert_all E (core_fields p)))))))"

definition to_signed_envelope ::
  "('e, 'sig, 'x) log_gordian_scheme \<Rightarrow> dcbor_ext \<Rightarrow> 'sig signed_op \<Rightarrow> (log_error, 'e) result" where
  "to_signed_envelope G E s =
    bind (op_to_envelope G E (so_op s)) (\<lambda>inner.
    if so_signatures s = [] then Ok inner
    else Ok (fold (\<lambda>sig e. ev_add_assertion G e (ev_signed G) (ev_signature G sig)) (so_signatures s) (ev_wrap G inner)))"

text \<open>Salting draws bytes for each assertion; the draws are an argument.\<close>

primrec salt_loop ::
  "('e, 'sig, 'x) log_gordian_scheme \<Rightarrow> (nat \<Rightarrow> bytes) \<Rightarrow> 'e list \<Rightarrow> nat \<Rightarrow> 'e \<Rightarrow> (log_error, 'e) result" where
  "salt_loop G draws [] k e = Ok e"
| "salt_loop G draws (a # as) k e =
    bind (ok_or (ev_add_assertion_envelope G e (ev_add_salt G (draws k) a)) EnvelopeError) (salt_loop G draws as (Suc k))"

definition salt_assertions ::
  "('e, 'sig, 'x) log_gordian_scheme \<Rightarrow> (nat \<Rightarrow> bytes) \<Rightarrow> 'e \<Rightarrow> (log_error, 'e) result" where
  "salt_assertions G draws envelope = salt_loop G draws (ev_assertions G envelope) 0 (ev_subject G envelope)"

definition log_encode :: "('e, 'x) gordian_scheme \<Rightarrow> dcbor_ext \<Rightarrow> op \<Rightarrow> (log_error, bytes) result" where
  "log_encode G E p = bind (op_to_envelope G E p) (\<lambda>e. Ok (ev_to_cbor_data G e))"

definition encode_signed ::
  "('e, 'sig, 'x) log_gordian_scheme \<Rightarrow> dcbor_ext \<Rightarrow> 'sig signed_op \<Rightarrow> (log_error, bytes) result" where
  "encode_signed G E s = bind (to_signed_envelope G E s) (\<lambda>e. Ok (ev_to_cbor_data G e))"

definition content_hash ::
  "(bytes \<Rightarrow> bytes) \<Rightarrow> ('e, 'x) gordian_scheme \<Rightarrow> dcbor_ext \<Rightarrow> op \<Rightarrow> (log_error, bytes) result" where
  "content_hash h G E p = bind (log_encode G E p) (\<lambda>bs. Ok (h bs))"

section \<open>Decoding\<close>

fun expect_tag :: "dcbor \<Rightarrow> u64 \<Rightarrow> (log_error, dcbor) result" where
  "expect_tag (DTagged tag item) expected = (if tag = expected then Ok item else Err (WrongTag expected tag))"
| "expect_tag _ expected = Err (InvalidValue ''expected a tagged value'')"

fun into_array :: "dcbor \<Rightarrow> (log_error, dcbor list) result" where
  "into_array (DArray items) = Ok items"
| "into_array _ = Err (InvalidValue ''expected an array'')"

fun into_text :: "dcbor \<Rightarrow> (log_error, string) result" where
  "into_text (DText s) = Ok s"
| "into_text _ = Err (InvalidValue ''expected a text string'')"

fun into_bytes :: "dcbor \<Rightarrow> (log_error, bytes) result" where
  "into_bytes (DBytes b) = Ok b"
| "into_bytes _ = Err (InvalidValue ''expected a byte string'')"

fun into_uint :: "dcbor \<Rightarrow> (log_error, u64) result" where
  "into_uint (DUnsigned n) = Ok n"
| "into_uint _ = Err (InvalidValue ''expected an unsigned integer'')"

definition hash32 :: "bytes \<Rightarrow> (log_error, bytes) result" where
  "hash32 bs = (if length bs = 32 then Ok bs else Err (BadLength 32 (length bs)))"

definition core_field :: "dcbor_ext \<Rightarrow> dmap \<Rightarrow> string \<Rightarrow> (log_error, dcbor) result" where
  "core_field E core k = ok_or (map_lookup E core (DText k)) (MissingField k)"

definition core_map :: "('e, 'x) gordian_scheme \<Rightarrow> 'e \<Rightarrow> (log_error, dmap) result" where
  "core_map G inner =
    bind (ok_or (ev_try_leaf G (ev_subject G inner)) EnvelopeError) (\<lambda>cbor.
    case cbor of DMap m \<Rightarrow> Ok m | _ \<Rightarrow> Err (InvalidValue ''subject is not a map''))"

definition decode_core :: "dcbor_ext \<Rightarrow> dmap \<Rightarrow> (log_error, op) result" where
  "decode_core E core =
    bind (bind (core_field E core ''format-version'') into_uint) (\<lambda>version.
    if version \<noteq> FORMAT_VERSION then Err (UnsupportedFormatVersion version)
    else bind (bind (core_field E core ''type'') into_text) (\<lambda>ty.
    if ty \<noteq> OP_TYPE then Err (WrongType ty)
    else bind (bind (core_field E core ''kind'') into_text) (\<lambda>kind.
    if kind = [] then Err EmptyKind
    else bind (bind (core_field E core ''hlc'') into_array) (\<lambda>clock.
    if length clock \<noteq> 2 then Err (InvalidValue ''hlc must be [l, c]'')
    else bind (case map_lookup E core (DText ''body'') of
        Some b \<Rightarrow> bind (into_bytes b) (\<lambda>b. bind (assert_canonical E b) (\<lambda>_. Ok (Some b)))
      | None \<Rightarrow> Ok None) (\<lambda>body.
    bind (into_uint (clock ! 0)) (\<lambda>l.
    bind (into_uint (clock ! 1)) (\<lambda>c.
    bind (bind (bind (core_field E core ''actor'') into_bytes) hash32) (\<lambda>actor.
    bind (bind (core_field E core ''parent-hashes'') into_array) (\<lambda>items.
    bind (collect (\<lambda>p. bind (into_bytes p) hash32) items) (\<lambda>parents.
    Ok \<lparr>op_kind = kind, op_body = body, op_hlc = hlc_new l c, op_actor = actor, op_parent_hashes = parents,
        op_deps = [], op_nacks = [], op_target_fp = None, op_timestamp = None\<rparr>))))))))))"

definition apply_attribute :: "string \<Rightarrow> dcbor \<Rightarrow> op \<Rightarrow> (log_error, op) result" where
  "apply_attribute label v p =
    (if label = PRED_DEPS then bind (bind (into_bytes v) hash32) (\<lambda>d. Ok (p\<lparr>op_deps := op_deps p @ [d]\<rparr>))
     else if label = PRED_NACKS then bind (bind (into_bytes v) hash32) (\<lambda>n. Ok (p\<lparr>op_nacks := op_nacks p @ [n]\<rparr>))
     else if label = PRED_TARGET_FP then bind (bind (into_bytes v) hash32) (\<lambda>fp. Ok (p\<lparr>op_target_fp := Some fp\<rparr>))
     else if label = PRED_TIMESTAMP then
       bind (bind (expect_tag v TAG_EPOCH_TIME) into_uint) (\<lambda>ts. Ok (p\<lparr>op_timestamp := Some ts\<rparr>))
     else Err (UnknownPredicate label))"

text \<open>The loop over the assertions of the inner envelope; the number counts the elided ones.\<close>

primrec read_attributes :: "('e, 'x) gordian_scheme \<Rightarrow> 'e list \<Rightarrow> op \<times> nat \<Rightarrow> (log_error, op \<times> nat) result" where
  "read_attributes G [] st = Ok st"
| "read_attributes G (a # as) st =
    (case ev_as_predicate G a of
       None \<Rightarrow> read_attributes G as (fst st, snd st + 1)
     | Some predicate \<Rightarrow>
         bind (ok_or (ev_as_object G a) (InvalidValue ''assertion without an object'')) (\<lambda>object.
         bind (ok_or (extract_as try_text (ev_extract G predicate)) (InvalidValue ''assertion predicate is not text'')) (\<lambda>label.
         bind (ok_or (ev_try_leaf G object) EnvelopeError) (\<lambda>v.
         bind (apply_attribute label v (fst st)) (\<lambda>p. read_attributes G as (p, snd st))))))"

definition is_mldsa_signature_object :: "('e, 'x) gordian_scheme \<Rightarrow> 'e \<Rightarrow> bool" where
  "is_mldsa_signature_object G object =
    (case ev_try_leaf G (ev_subject G object) of
       Some (DTagged tag _) \<Rightarrow> tag = TAG_MLDSA_SIGNATURE
     | _ \<Rightarrow> False)"

primrec read_signatures ::
  "('e, 'sig, 'x) log_gordian_scheme \<Rightarrow> 'e list \<Rightarrow> 'sig list \<times> nat \<Rightarrow> (log_error, 'sig list \<times> nat) result" where
  "read_signatures G [] st = Ok st"
| "read_signatures G (a # as) st =
    (case ev_as_predicate G a of
       None \<Rightarrow> read_signatures G as (fst st, snd st + 1)
     | Some predicate \<Rightarrow>
         if \<not> ev_is_signed G predicate then
           Err (UnknownPredicate (''non-'' @ [CHR 0x27] @ ''signed'' @ [CHR 0x27] @ '' assertion on a wrapped op''))
         else
           bind (ok_or (ev_as_object G a) (InvalidValue ''assertion without an object'')) (\<lambda>object.
           bind (ok_or (ev_extract_signature G object)
             (if is_mldsa_signature_object G object then PqUnavailable
              else InvalidValue ([CHR 0x27] @ ''signed'' @ [CHR 0x27] @ '' object is not a Signature''))) (\<lambda>sig.
           read_signatures G as (fst st @ [sig], snd st))))"

definition log_from_envelope ::
  "('e, 'sig, 'x) log_gordian_scheme \<Rightarrow> dcbor_ext \<Rightarrow> 'e \<Rightarrow> (log_error, 'sig signed_op) result" where
  "log_from_envelope G E e =
    (let (inner, outer_assertions) = (case ev_try_unwrap G e of
         Some inner \<Rightarrow> (inner, ev_assertions G e) | None \<Rightarrow> (e, [])) in
     bind (core_map G inner) (\<lambda>core.
     bind (decode_core E core) (\<lambda>p.
     bind (read_attributes G (ev_assertions G inner) (p, 0)) (\<lambda>(p, elided).
     let p = p\<lparr>op_deps := sort (op_deps p), op_nacks := sort (op_nacks p)\<rparr> in
     bind (read_signatures G outer_assertions ([], elided)) (\<lambda>(signatures, elided).
     Ok \<lparr>so_op = p, so_signatures = signatures, so_elided = elided\<rparr>)))))"

definition log_decode ::
  "('e, 'sig, 'x) log_gordian_scheme \<Rightarrow> dcbor_ext \<Rightarrow> bytes \<Rightarrow> (log_error, 'sig signed_op) result" where
  "log_decode G E bs = bind (ok_or (ev_try_from_cbor_data G bs) EnvelopeError) (log_from_envelope G E)"

end
