(* ===== verification/Log_Sign.thy ===== *)
theory Log_Sign
  imports Log_Codec
begin

text \<open>
  Signing and verification of ops (\<open>identikey-log\<close>, \<open>sign.rs\<close>). The signature schemes are fields of a
  record; \<open>pqcrypto\<close> is the build feature under which the signature type has an ML-DSA case.
\<close>

section \<open>Operations\<close>

text \<open>
  An author's key is its seed: \<open>lc_public\<close> is the public key and \<open>lc_sign\<close> the signature.
  \<open>lc_verify\<close> checks with an Ed25519 key. \<open>lc_mldsa\<close> is the case \<open>Signature::MLDSA\<close> with its level
  and bytes. The last fields are the ML-DSA-87 functions and sizes of \<open>fips204\<close>.
\<close>

record 'sig log_crypto =
  lc_public :: "bytes \<Rightarrow> bytes"
  lc_sign :: "bytes \<Rightarrow> bytes \<Rightarrow> 'sig option"
  lc_verify :: "bytes \<Rightarrow> 'sig \<Rightarrow> bytes \<Rightarrow> bool"
  lc_mldsa :: "'sig \<Rightarrow> (u64 \<times> bytes) option"
  lc_mldsa87_level :: u64
  lc_mldsa87_pk_len :: nat
  lc_mldsa87_sig_len :: nat
  lc_mldsa87_pk_ok :: "bytes \<Rightarrow> bool"
  lc_mldsa87_verify :: "bytes \<Rightarrow> bytes \<Rightarrow> bytes \<Rightarrow> bytes \<Rightarrow> bool"

text \<open>The public key that a caller supplies out of band.\<close>

datatype signing_public_key = MldsaKey bytes | OtherKey bytes

definition author_from_seed :: "bytes \<Rightarrow> bytes" where
  "author_from_seed seed = seed"

definition author_actor :: "'sig log_crypto \<Rightarrow> bytes \<Rightarrow> bytes" where
  "author_actor C author = lc_public C author"

definition raw_sign ::
  "'sig log_crypto \<Rightarrow> ('e, 'x) gordian_scheme \<Rightarrow> bytes \<Rightarrow> 'e \<Rightarrow> (log_error, 'sig) result" where
  "raw_sign C G author envelope =
    ok_or (lc_sign C author (ev_digest G (ev_wrap G envelope))) EnvelopeError"

definition author_sign ::
  "'sig log_crypto \<Rightarrow> ('e, 'x) gordian_scheme \<Rightarrow> dcbor_ext \<Rightarrow> bytes \<Rightarrow> op \<Rightarrow> (log_error, 'sig signed_op) result" where
  "author_sign C G E author p =
    bind (op_to_envelope G E p) (\<lambda>e.
    bind (raw_sign C G author e) (\<lambda>signature.
    Ok (signed_op_new p [signature])))"

definition counter_sign ::
  "'sig log_crypto \<Rightarrow> ('e, 'x) gordian_scheme \<Rightarrow> dcbor_ext \<Rightarrow> bytes \<Rightarrow> 'sig signed_op \<Rightarrow> (log_error, 'sig signed_op) result" where
  "counter_sign C G E author s =
    bind (op_to_envelope G E (so_op s)) (\<lambda>e.
    bind (raw_sign C G author e) (\<lambda>signature.
    Ok (s\<lparr>so_signatures := so_signatures s @ [signature]\<rparr>)))"

definition verify_ml_dsa_87 :: "'sig log_crypto \<Rightarrow> bytes \<Rightarrow> bytes \<Rightarrow> bytes \<Rightarrow> (log_error, unit) result" where
  "verify_ml_dsa_87 C public_key msg sig =
    (if length public_key \<noteq> lc_mldsa87_pk_len C then Err (InvalidKey ''ml-dsa-87'')
     else if length sig \<noteq> lc_mldsa87_sig_len C then Err (InvalidSig ''ml-dsa-87'')
     else if \<not> lc_mldsa87_pk_ok C public_key then Err (InvalidKey ''ml-dsa-87'')
     else if lc_mldsa87_verify C public_key msg sig [] then Ok () else Err BadSignature)"

primrec verify_signatures ::
  "bool \<Rightarrow> 'sig log_crypto \<Rightarrow> 'sig list \<Rightarrow> bytes \<Rightarrow> bytes \<Rightarrow> signing_public_key option \<Rightarrow> (log_error, unit) result" where
  "verify_signatures pqcrypto C [] digest actor pq = Ok ()"
| "verify_signatures pqcrypto C (sig # sigs) digest actor pq =
    bind (case (pqcrypto, lc_mldsa C sig) of
        (True, Some (level, sig_bytes)) \<Rightarrow>
          bind (ok_or pq PqDangling) (\<lambda>key.
          bind (case key of MldsaKey pk \<Rightarrow> Ok pk | OtherKey _ \<Rightarrow> Err (InvalidKey ''ml-dsa-87'')) (\<lambda>pk.
          if level \<noteq> lc_mldsa87_level C then Err (PqUnsupportedLevel level)
          else Ok (is_ok (verify_ml_dsa_87 C pk digest sig_bytes))))
      | _ \<Rightarrow> Ok (lc_verify C actor sig digest)) (\<lambda>good.
    if \<not> good then Err BadSignature else verify_signatures pqcrypto C sigs digest actor pq)"

definition verify_with_pq_key ::
  "bool \<Rightarrow> 'sig log_crypto \<Rightarrow> ('e, 'x) gordian_scheme \<Rightarrow> dcbor_ext \<Rightarrow> 'sig signed_op \<Rightarrow> signing_public_key option \<Rightarrow>
   (log_error, unit) result" where
  "verify_with_pq_key pqcrypto C G E s pq =
    (if \<not> is_signed s then Err Unsigned
     else bind (op_to_envelope G E (so_op s)) (\<lambda>e.
       verify_signatures pqcrypto C (so_signatures s) (ev_digest G (ev_wrap G e)) (op_actor (so_op s)) pq))"

definition verify_op ::
  "bool \<Rightarrow> 'sig log_crypto \<Rightarrow> ('e, 'x) gordian_scheme \<Rightarrow> dcbor_ext \<Rightarrow> 'sig signed_op \<Rightarrow> (log_error, unit) result" where
  "verify_op pqcrypto C G E s = verify_with_pq_key pqcrypto C G E s None"

definition signatures_of ::
  "('e, 'sig, 'x) log_gordian_scheme \<Rightarrow> dcbor_ext \<Rightarrow> 'e \<Rightarrow> (log_error, 'sig list) result" where
  "signatures_of G E e = bind (log_from_envelope G E e) (\<lambda>s. Ok (so_signatures s))"

definition verify_envelope_with_pq_key ::
  "bool \<Rightarrow> 'sig log_crypto \<Rightarrow> ('e, 'sig, 'x) log_gordian_scheme \<Rightarrow> dcbor_ext \<Rightarrow> 'e \<Rightarrow> bytes \<Rightarrow> signing_public_key option \<Rightarrow>
   (log_error, unit) result" where
  "verify_envelope_with_pq_key pqcrypto C G E e actor pq =
    bind (signatures_of G E e) (\<lambda>signatures.
    if signatures = [] then Err Unsigned
    else verify_signatures pqcrypto C signatures (ev_digest G (ev_subject G e)) actor pq)"

definition verify_envelope ::
  "bool \<Rightarrow> 'sig log_crypto \<Rightarrow> ('e, 'sig, 'x) log_gordian_scheme \<Rightarrow> dcbor_ext \<Rightarrow> 'e \<Rightarrow> bytes \<Rightarrow> (log_error, unit) result" where
  "verify_envelope pqcrypto C G E e actor = verify_envelope_with_pq_key pqcrypto C G E e actor None"

definition decode_and_verify ::
  "bool \<Rightarrow> (bytes \<Rightarrow> bytes) \<Rightarrow> 'sig log_crypto \<Rightarrow> ('e, 'sig, 'x) log_gordian_scheme \<Rightarrow> dcbor_ext \<Rightarrow> bytes \<Rightarrow>
   (log_error, 'sig signed_op \<times> bytes) result" where
  "decode_and_verify pqcrypto h C G E bs =
    bind (ok_or (ev_try_from_cbor_data G bs) EnvelopeError) (\<lambda>e.
    bind (log_from_envelope G E e) (\<lambda>s.
    bind (verify_envelope pqcrypto C G E e (op_actor (so_op s))) (\<lambda>_.
    bind (content_hash h G E (so_op s)) (\<lambda>hash.
    Ok (s, hash)))))"

section \<open>The WebAssembly host\<close>

text \<open>
  \<open>wasm.rs\<close>: the only import of the module is the host's random source, which both versions of \<open>getrandom\<close> reach, and its
  verifier answers with a number. \<open>ik_log_alloc\<close> only hands out memory.
\<close>

definition host_fill :: "(nat \<Rightarrow> 'h \<Rightarrow> bytes \<times> 'h) \<Rightarrow> bytes \<Rightarrow> 'h \<Rightarrow> bytes \<times> 'h" where
  "host_fill getRandomBytes dest host = (if dest = [] then (dest, host) else getRandomBytes (length dest) host)"

definition gr02 :: "(nat \<Rightarrow> 'h \<Rightarrow> bytes \<times> 'h) \<Rightarrow> bytes \<Rightarrow> 'h \<Rightarrow> (unit, unit) result \<times> bytes \<times> 'h" where
  "gr02 getRandomBytes dest host = (Ok (), host_fill getRandomBytes dest host)"

definition getrandom_v03_custom :: "(nat \<Rightarrow> 'h \<Rightarrow> bytes \<times> 'h) \<Rightarrow> bytes \<Rightarrow> 'h \<Rightarrow> (unit, unit) result \<times> bytes \<times> 'h" where
  "getrandom_v03_custom getRandomBytes dest host = (Ok (), host_fill getRandomBytes dest host)"

definition ik_log_verify ::
  "bool \<Rightarrow> (bytes \<Rightarrow> bytes) \<Rightarrow> 'sig log_crypto \<Rightarrow> ('e, 'sig, 'x) log_gordian_scheme \<Rightarrow> dcbor_ext \<Rightarrow> bytes \<Rightarrow> 32 word" where
  "ik_log_verify pqcrypto h C G E bs = (case decode_and_verify pqcrypto h C G E bs of Ok _ \<Rightarrow> 1 | Err _ \<Rightarrow> 0)"

end
