(* ===== verification/Log_Laws.thy ===== *)
theory Log_Laws
  imports Log_Sign
begin

text \<open>
  Laws of the log: an op survives its envelope, with repeated links in sorted order, and a signed op
  verifies after a trip over the wire, where its content hash is the one its author computed.
\<close>

section \<open>Encoding\<close>

definition op_ok :: "dcbor_ext \<Rightarrow> op \<Rightarrow> bool" where
  "op_ok E p \<longleftrightarrow> op_kind p \<noteq> [] \<and> length (op_actor p) = 32 \<and>
    (\<forall>d \<in> set (op_parent_hashes p) \<union> set (op_deps p) \<union> set (op_nacks p) \<union> set_option (op_target_fp p). length d = 32) \<and>
    (\<forall>b \<in> set_option (op_body p). assert_canonical E b = Ok ())"

definition attribute_pairs :: "('e, 'x) gordian_scheme \<Rightarrow> (string \<times> dcbor) list \<Rightarrow> ('e \<times> 'e) list" where
  "attribute_pairs G lvs = map (\<lambda>(l, v). (ev_text G l, ev_new G v)) lvs"

definition core_envelope :: "('e, 'x) gordian_scheme \<Rightarrow> dcbor_ext \<Rightarrow> op \<Rightarrow> 'e" where
  "core_envelope G E p = ev_new G (DMap (insert_all E (core_fields p)))"

lemma op_to_envelope_all:
  assumes "op_ok E p"
  shows "op_to_envelope G E p = Ok (add_all G (attribute_pairs G (op_attributes p)) (core_envelope G E p))"
proof -
  have "fold (\<lambda>(label, v) e. ev_add_assertion G e (ev_text G label) (ev_new G v)) lvs e = add_all G (attribute_pairs G lvs) e"
    for lvs e by (induction lvs arbitrary: e) (auto simp: add_all_def attribute_pairs_def)
  then show ?thesis
    using assms by (auto simp: op_to_envelope_def op_ok_def op_validate_def core_envelope_def split: option.splits)
qed

definition op_core :: "op \<Rightarrow> op" where
  "op_core p = p\<lparr>op_deps := [], op_nacks := [], op_target_fp := None, op_timestamp := None\<rparr>"

lemma core_fields_ok: "ext_ok E \<Longrightarrow> fields_ok E (core_fields p)"
  by (cases "op_body p") (simp_all add: fields_ok_def core_fields_def text_ok_ascii ascii_def)

lemma core_lookup:
  assumes "ext_ok E" and "text_ok E k"
  shows "map_lookup E (insert_all E (core_fields p)) (DText k) = map_of (core_fields p) k"
  by (rule lookup_insert_all [OF core_fields_ok [OF assms(1)] assms(2)])

lemma decode_core_fields:
  assumes "ext_ok E" and "op_ok E p"
  shows "decode_core E (insert_all E (core_fields p)) = Ok (op_core p)"
proof -
  have look: "map_lookup E (insert_all E (core_fields p)) (DText k) = map_of (core_fields p) k"
    if "k \<in> {''format-version'', ''type'', ''kind'', ''hlc'', ''body'', ''actor'', ''parent-hashes''}" for k
    using that assms(1) by (intro core_lookup) (auto simp: text_ok_ascii ascii_def)
  have parents: "collect (\<lambda>x. bind (into_bytes x) hash32) (map DBytes (op_parent_hashes p)) = Ok (op_parent_hashes p)"
    using assms(2) collect_map_Ok [of "op_parent_hashes p" "\<lambda>x. bind (into_bytes x) hash32" DBytes id]
    by (simp add: op_ok_def hash32_def)
  have "op_core p = \<lparr>op_kind = op_kind p, op_body = op_body p, op_hlc = hlc_new (hlc_l (op_hlc p)) (hlc_c (op_hlc p)),
      op_actor = op_actor p, op_parent_hashes = op_parent_hashes p, op_deps = [], op_nacks = [], op_target_fp = None,
      op_timestamp = None\<rparr>"
    by (simp add: op_core_def hlc_new_def)
  moreover have "map_of (core_fields p) ''format-version'' = Some (DUnsigned FORMAT_VERSION)"
    "map_of (core_fields p) ''type'' = Some (DText OP_TYPE)" "map_of (core_fields p) ''kind'' = Some (DText (op_kind p))"
    "map_of (core_fields p) ''hlc'' = Some (DArray [DUnsigned (hlc_l (op_hlc p)), DUnsigned (hlc_c (op_hlc p))])"
    "map_of (core_fields p) ''body'' = map_option DBytes (op_body p)"
    "map_of (core_fields p) ''actor'' = Some (DBytes (op_actor p))"
    "map_of (core_fields p) ''parent-hashes'' = Some (DArray (map DBytes (op_parent_hashes p)))"
    by (cases "op_body p"; simp add: core_fields_def)+
  ultimately show ?thesis
    using assms(2) parents
    by (cases "op_body p") (simp_all add: decode_core_def core_field_def look op_ok_def hash32_def)
qed

section \<open>Reading the attributes in any order\<close>

datatype attribute = Dep bytes | Nack bytes | Target bytes | Stamp u64

fun attribute_entry :: "attribute \<Rightarrow> string \<times> dcbor" where
  "attribute_entry (Dep d) = (PRED_DEPS, DBytes d)"
| "attribute_entry (Nack d) = (PRED_NACKS, DBytes d)"
| "attribute_entry (Target d) = (PRED_TARGET_FP, DBytes d)"
| "attribute_entry (Stamp n) = (PRED_TIMESTAMP, DTagged TAG_EPOCH_TIME (DUnsigned n))"

definition attributes_of :: "op \<Rightarrow> attribute list" where
  "attributes_of p = map Dep (op_deps p) @ map Nack (op_nacks p) @
    (case op_target_fp p of None \<Rightarrow> [] | Some d \<Rightarrow> [Target d]) @
    (case op_timestamp p of None \<Rightarrow> [] | Some n \<Rightarrow> [Stamp n])"

fun attribute_ok :: "attribute \<Rightarrow> bool" where
  "attribute_ok (Stamp n) = True"
| "attribute_ok (Dep d) = (length d = 32)"
| "attribute_ok (Nack d) = (length d = 32)"
| "attribute_ok (Target d) = (length d = 32)"

fun put_attribute :: "attribute \<Rightarrow> op \<Rightarrow> op" where
  "put_attribute (Dep d) p = p\<lparr>op_deps := op_deps p @ [d]\<rparr>"
| "put_attribute (Nack d) p = p\<lparr>op_nacks := op_nacks p @ [d]\<rparr>"
| "put_attribute (Target d) p = p\<lparr>op_target_fp := Some d\<rparr>"
| "put_attribute (Stamp n) p = p\<lparr>op_timestamp := Some n\<rparr>"

lemma op_attributes_entries: "op_attributes p = map attribute_entry (attributes_of p)"
  by (simp add: op_attributes_def attributes_of_def comp_def split: option.splits)

lemma predicates_differ:
  "PRED_NACKS \<noteq> PRED_DEPS" "PRED_TARGET_FP \<noteq> PRED_DEPS" "PRED_TIMESTAMP \<noteq> PRED_DEPS"
  "PRED_TARGET_FP \<noteq> PRED_NACKS" "PRED_TIMESTAMP \<noteq> PRED_NACKS" "PRED_TIMESTAMP \<noteq> PRED_TARGET_FP"
  by (simp_all add: PRED_DEPS_def PRED_NACKS_def PRED_TARGET_FP_def PRED_TIMESTAMP_def)

lemma apply_attribute_put:
  "attribute_ok a \<Longrightarrow> apply_attribute (fst (attribute_entry a)) (snd (attribute_entry a)) p = Ok (put_attribute a p)"
  by (cases a; simp add: apply_attribute_def hash32_def predicates_differ)

lemma read_attributes_put:
  assumes "gordian_ok G" and "\<forall>a \<in> set as. attribute_ok a"
  shows "read_attributes G (map (\<lambda>(q, ob). ev_new_assertion G q ob) (attribute_pairs G (map attribute_entry as))) (p, n) =
    Ok (fold put_attribute as p, n)"
  using assms(2)
proof (induction as arbitrary: p)
  case (Cons a as)
  obtain l v where a: "attribute_entry a = (l, v)" by (cases "attribute_entry a")
  have "apply_attribute l v p = Ok (put_attribute a p)" using apply_attribute_put [of a p] Cons.prems by (simp add: a)
  with Cons assms(1) show ?case by (simp add: attribute_pairs_def a gordian_ok_def ev_text_def extract_as_def)
qed (simp add: attribute_pairs_def)

fun dep_of :: "attribute \<Rightarrow> bytes list" where
  "dep_of (Dep d) = [d]" | "dep_of _ = []"

fun nack_of :: "attribute \<Rightarrow> bytes list" where
  "nack_of (Nack d) = [d]" | "nack_of _ = []"

fun target_of :: "attribute \<Rightarrow> bytes list" where
  "target_of (Target d) = [d]" | "target_of _ = []"

fun stamp_of :: "attribute \<Rightarrow> u64 list" where
  "stamp_of (Stamp n) = [n]" | "stamp_of _ = []"

lemma fold_put_attribute:
  "fold put_attribute as p = p\<lparr>op_deps := op_deps p @ concat (map dep_of as), op_nacks := op_nacks p @ concat (map nack_of as),
    op_target_fp := foldl (\<lambda>_. Some) (op_target_fp p) (concat (map target_of as)),
    op_timestamp := foldl (\<lambda>_. Some) (op_timestamp p) (concat (map stamp_of as))\<rparr>"
proof (induction as arbitrary: p)
  case (Cons a as)
  then show ?case by (cases a; simp)
qed simp

lemma attributes_parts:
  "concat (map dep_of (attributes_of p)) = op_deps p" "concat (map nack_of (attributes_of p)) = op_nacks p"
  "concat (map target_of (attributes_of p)) = (case op_target_fp p of None \<Rightarrow> [] | Some d \<Rightarrow> [d])"
  "concat (map stamp_of (attributes_of p)) = (case op_timestamp p of None \<Rightarrow> [] | Some n \<Rightarrow> [n])"
proof -
  have "concat (map dep_of (map Dep ds)) = ds" "concat (map dep_of (map Nack ds)) = []"
    "concat (map nack_of (map Dep ds)) = []" "concat (map nack_of (map Nack ds)) = ds"
    "concat (map target_of (map Dep ds)) = []" "concat (map target_of (map Nack ds)) = []"
    "concat (map stamp_of (map Dep ds)) = []" "concat (map stamp_of (map Nack ds)) = []" for ds
    by (induction ds) simp_all
  then show "concat (map dep_of (attributes_of p)) = op_deps p" "concat (map nack_of (attributes_of p)) = op_nacks p"
    "concat (map target_of (attributes_of p)) = (case op_target_fp p of None \<Rightarrow> [] | Some d \<Rightarrow> [d])"
    "concat (map stamp_of (attributes_of p)) = (case op_timestamp p of None \<Rightarrow> [] | Some n \<Rightarrow> [n])"
    by (simp only: attributes_of_def map_append concat_append; cases "op_target_fp p"; cases "op_timestamp p"; simp)+
qed

definition sorted_op :: "op \<Rightarrow> op" where
  "sorted_op p = p\<lparr>op_deps := sort (op_deps p), op_nacks := sort (op_nacks p)\<rparr>"

lemma mset_option_list: "mset xs = mset (case z of None \<Rightarrow> [] | Some d \<Rightarrow> [d]) \<Longrightarrow> foldl (\<lambda>_. Some) None xs = z"
  by (cases z) auto

lemma sort_eq_of_mset: "mset xs = mset ys \<Longrightarrow> sort xs = sort (ys :: 'a::linorder list)"
  by (metis mset_sort properties_for_sort sorted_sort)

lemma attributes_in_any_order:
  assumes "mset as = mset (attributes_of p)"
  shows "(fold put_attribute as (op_core p))\<lparr>op_deps := sort (op_deps (fold put_attribute as (op_core p))),
    op_nacks := sort (op_nacks (fold put_attribute as (op_core p)))\<rparr> = sorted_op p"
proof -
  note m = mset_concat_map [OF assms]
  have "sort (concat (map dep_of as)) = sort (op_deps p)" "sort (concat (map nack_of as)) = sort (op_nacks p)"
    using sort_eq_of_mset [OF m [of dep_of]] sort_eq_of_mset [OF m [of nack_of]] by (simp_all only: attributes_parts)
  moreover have "foldl (\<lambda>_. Some) None (concat (map target_of as)) = op_target_fp p"
    using m [of target_of] by (intro mset_option_list) (simp only: attributes_parts)
  moreover have "foldl (\<lambda>_. Some) None (concat (map stamp_of as)) = op_timestamp p"
    using m [of stamp_of] by (intro mset_option_list) (simp only: attributes_parts)
  ultimately show ?thesis by (simp add: fold_put_attribute op_core_def sorted_op_def)
qed

section \<open>The round trip\<close>

definition log_ok :: "('e, 'sig, 'x) log_gordian_scheme \<Rightarrow> bool" where
  "log_ok G \<longleftrightarrow> ev_is_signed G (ev_signed G) \<and> (\<forall>sig. ev_extract_signature G (ev_signature G sig) = Some sig)"

definition signature_pairs :: "('e, 'sig, 'x) log_gordian_scheme \<Rightarrow> 'sig list \<Rightarrow> ('e \<times> 'e) list" where
  "signature_pairs G sigs = map (\<lambda>sig. (ev_signed G, ev_signature G sig)) sigs"

definition log_digests_ok :: "('e, 'sig, 'x) log_gordian_scheme \<Rightarrow> 'sig signed_op \<Rightarrow> bool" where
  "log_digests_ok G s \<longleftrightarrow> distinct_assertions G (attribute_pairs G (op_attributes (so_op s))) \<and>
    distinct_assertions G (signature_pairs G (so_signatures s))"

lemma inner_holds:
  assumes "gordian_ok G" and "op_ok E p" and "distinct_assertions G (attribute_pairs G (op_attributes p))"
  shows "\<exists>e. op_to_envelope G E p = Ok e \<and>
    holds G e (DMap (insert_all E (core_fields p))) (attribute_pairs G (op_attributes p))"
  using add_all_holds [OF assms(1) holds_new [OF assms(1)], of "attribute_pairs G (op_attributes p)"] assms(3)
  by (simp add: op_to_envelope_all [OF assms(2)] core_envelope_def)

lemma attributes_valid: "op_ok E p \<Longrightarrow> a \<in> set (attributes_of p) \<Longrightarrow> attribute_ok a"
  by (auto simp: op_ok_def attributes_of_def split: option.splits)

lemma inner_decoded:
  assumes "gordian_ok G" and "ext_ok E" and "op_ok E p"
    and "holds G e (DMap (insert_all E (core_fields p))) (attribute_pairs G (op_attributes p))"
  shows "\<exists>q. bind (core_map G e) (\<lambda>core. bind (decode_core E core) (\<lambda>r. read_attributes G (ev_assertions G e) (r, 0))) =
      Ok (q, 0) \<and> q\<lparr>op_deps := sort (op_deps q), op_nacks := sort (op_nacks q)\<rparr> = sorted_op p"
proof -
  let ?f = "\<lambda>a. ev_new_assertion G (ev_text G (fst (attribute_entry a))) (ev_new G (snd (attribute_entry a)))"
  have f: "map (\<lambda>(q, ob). ev_new_assertion G q ob) (attribute_pairs G (map attribute_entry as)) = map ?f as" for as
    by (simp add: attribute_pairs_def case_prod_beta comp_def)
  have "mset (ev_assertions G e) = mset (map ?f (attributes_of p))"
    using assms(4) by (simp only: holds_def op_attributes_entries f)
  then obtain as where as: "ev_assertions G e = map ?f as" "mset as = mset (attributes_of p)" using mset_map_reorder by blast
  have "\<forall>a \<in> set as. attribute_ok a" using attributes_valid [OF assms(3)] mset_eq_setD [OF as(2)] by blast
  from read_attributes_put [OF assms(1) this, of "op_core p" 0]
  have "read_attributes G (ev_assertions G e) (op_core p, 0) = Ok (fold put_attribute as (op_core p), 0)"
    by (simp only: as(1) f)
  moreover have "core_map G e = Ok (insert_all E (core_fields p))"
    using assms(1,4) by (simp add: core_map_def holds_def gordian_ok_def)
  ultimately show ?thesis
    using decode_core_fields [OF assms(2,3)] attributes_in_any_order [OF as(2)] by simp
qed

lemma read_signatures_all:
  assumes "gordian_ok G" and "log_ok G"
  shows "read_signatures G (map (\<lambda>sig. ev_new_assertion G (ev_signed G) (ev_signature G sig)) sigs) (done, n) = Ok (done @ sigs, n)"
proof (induction sigs arbitrary: "done")
  case (Cons sig sigs)
  have "ev_as_predicate G (ev_new_assertion G (ev_signed G) (ev_signature G sig)) = Some (ev_signed G)"
    "ev_as_object G (ev_new_assertion G (ev_signed G) (ev_signature G sig)) = Some (ev_signature G sig)"
    using assms(1) by (simp_all add: gordian_ok_def)
  with Cons assms(2) show ?case by (simp add: log_ok_def)
qed simp

lemma wrapper_holds:
  assumes "gordian_ok G" and "distinct_assertions G qs"
  shows "ev_try_unwrap G (add_all G qs (ev_wrap G e)) = Some e \<and> ev_subject G (add_all G qs (ev_wrap G e)) = ev_wrap G e \<and>
    mset (ev_assertions G (add_all G qs (ev_wrap G e))) = mset (map (\<lambda>(p, ob). ev_new_assertion G p ob) qs)"
  using assms(2)
proof (induction qs rule: rev_induct)
  case Nil
  then show ?case using assms(1) by (simp add: add_all_def gordian_ok_def)
next
  case (snoc q qs)
  obtain p ob where q: "q = (p, ob)" by (cases q)
  let ?e = "add_all G qs (ev_wrap G e)"
  have ih: "ev_try_unwrap G ?e = Some e" "ev_subject G ?e = ev_wrap G e"
    "mset (ev_assertions G ?e) = mset (map (\<lambda>(p, ob). ev_new_assertion G p ob) qs)"
    using snoc by (auto simp: distinct_assertions_def)
  have "set (ev_assertions G ?e) = set (map (\<lambda>(p, ob). ev_new_assertion G p ob) qs)" using mset_eq_setD [OF ih(3)] .
  then have "ev_digest G (ev_new_assertion G p ob) \<notin> ev_digest G ` set (ev_assertions G ?e)"
    using snoc.prems by (auto simp: distinct_assertions_def q)
  moreover have "add_all G (qs @ [q]) (ev_wrap G e) = ev_add_assertion G ?e p ob" by (simp add: add_all_def q)
  ultimately show ?case using ih assms(1) by (simp add: gordian_ok_def q)
qed

lemma log_roundtrip:
  assumes "gordian_ok G" and "log_ok G" and "ext_ok E" and "op_ok E (so_op s)" and "log_digests_ok G s"
  shows "\<exists>e sigs. to_signed_envelope G E s = Ok e \<and> mset sigs = mset (so_signatures s) \<and>
    log_from_envelope G E e = Ok \<lparr>so_op = sorted_op (so_op s), so_signatures = sigs, so_elided = 0\<rparr> \<and>
    (so_signatures s \<noteq> [] \<longrightarrow> (\<exists>inner. op_to_envelope G E (so_op s) = Ok inner \<and> ev_subject G e = ev_wrap G inner))"
proof -
  have d: "distinct_assertions G (attribute_pairs G (op_attributes (so_op s)))"
    "distinct_assertions G (signature_pairs G (so_signatures s))"
    using assms(5) by (simp_all add: log_digests_ok_def)
  obtain inner where inner: "op_to_envelope G E (so_op s) = Ok inner"
      "holds G inner (DMap (insert_all E (core_fields (so_op s)))) (attribute_pairs G (op_attributes (so_op s)))"
    using inner_holds [OF assms(1,4) d(1)] by blast
  obtain q where "bind (core_map G inner) (\<lambda>core. bind (decode_core E core) (\<lambda>r.
      read_attributes G (ev_assertions G inner) (r, 0))) = Ok (q, 0)"
    and q: "q\<lparr>op_deps := sort (op_deps q), op_nacks := sort (op_nacks q)\<rparr> = sorted_op (so_op s)"
    using inner_decoded [OF assms(1,3,4) inner(2)] by blast
  then obtain core r where read: "core_map G inner = Ok core" "decode_core E core = Ok r"
      "read_attributes G (ev_assertions G inner) (r, 0) = Ok (q, 0)"
    by (auto simp: result_simps)
  show ?thesis
  proof (cases "so_signatures s = []")
    case True
    have "ev_try_unwrap G inner = None" using inner(2) by (simp add: holds_def)
    then show ?thesis using True inner(1) read q
      by (intro exI [of _ inner] exI [of _ "[]"]) (simp add: to_signed_envelope_def log_from_envelope_def Let_def)
  next
    case False
    let ?pairs = "signature_pairs G (so_signatures s)"
    let ?e = "add_all G ?pairs (ev_wrap G inner)"
    note w = wrapper_holds [OF assms(1) d(2), of inner]
    have "fold (\<lambda>sig e. ev_add_assertion G e (ev_signed G) (ev_signature G sig)) sigs e = add_all G (signature_pairs G sigs) e"
      for sigs e by (induction sigs arbitrary: e) (auto simp: add_all_def signature_pairs_def)
    then have enc: "to_signed_envelope G E s = Ok ?e" using False inner(1) by (simp add: to_signed_envelope_def)
    have "mset (ev_assertions G ?e) = mset (map (\<lambda>sig. ev_new_assertion G (ev_signed G) (ev_signature G sig)) (so_signatures s))"
      using w by (simp add: signature_pairs_def comp_def)
    then obtain sigs where sigs: "ev_assertions G ?e = map (\<lambda>sig. ev_new_assertion G (ev_signed G) (ev_signature G sig)) sigs"
        "mset sigs = mset (so_signatures s)"
      using mset_map_reorder by blast
    have "log_from_envelope G E ?e = Ok \<lparr>so_op = sorted_op (so_op s), so_signatures = sigs, so_elided = 0\<rparr>"
      using w read q read_signatures_all [OF assms(1,2), of sigs "[]" 0]
      by (simp add: log_from_envelope_def sigs(1) Let_def)
    moreover have "ev_subject G ?e = ev_wrap G inner" using w by blast
    ultimately show ?thesis using enc sigs(2) inner(1) by (intro exI [of _ ?e] exI [of _ sigs]) simp
  qed
qed

lemma sorted_op_envelope:
  assumes "gordian_ok G" and "op_ok E p" and "distinct_assertions G (attribute_pairs G (op_attributes p))"
  shows "op_to_envelope G E (sorted_op p) = op_to_envelope G E p"
proof -
  have ok: "op_ok E (sorted_op p)" using assms(2) by (simp add: op_ok_def sorted_op_def)
  have perm: "mset (attribute_pairs G (op_attributes (sorted_op p))) = mset (attribute_pairs G (op_attributes p))"
    by (simp add: attribute_pairs_def op_attributes_def sorted_op_def)
  have "core_envelope G E (sorted_op p) = core_envelope G E p"
    by (simp add: core_envelope_def core_fields_def sorted_op_def)
  with add_all_perm [OF assms(1) perm assms(3)] show ?thesis
    by (simp only: op_to_envelope_all [OF ok] op_to_envelope_all [OF assms(2)])
qed

section \<open>Signed ops over the wire\<close>

text \<open>What the signature scheme promises of an author's own signatures.\<close>

definition author_ok :: "'sig log_crypto \<Rightarrow> bool" where
  "author_ok C \<longleftrightarrow> (\<forall>seed d sig. lc_sign C seed d = Some sig \<longrightarrow>
    lc_verify C (lc_public C seed) sig d \<and> lc_mldsa C sig = None)"

lemma verify_signatures_None_iff:
  "verify_signatures pqcrypto C sigs d actor None = Ok () \<longleftrightarrow>
    (\<forall>sig \<in> set sigs. \<not> (pqcrypto \<and> lc_mldsa C sig \<noteq> None) \<and> lc_verify C actor sig d)"
proof (induction sigs)
  case (Cons sig sigs)
  then show ?case by (cases pqcrypto; cases "lc_mldsa C sig") auto
qed simp

lemma signed_op_arrives:
  assumes "gordian_ok G" and "log_ok G" and "ext_ok E" and "author_ok C" and "op_ok E p"
    and "op_actor p = author_actor C (author_from_seed seed)" and "author_sign C G E (author_from_seed seed) p = Ok s"
    and "distinct_assertions G (attribute_pairs G (op_attributes p))"
    and "\<And>e. to_signed_envelope G E s = Ok e \<Longrightarrow> ev_try_from_cbor_data G (ev_to_cbor_data G e) = Some e"
  shows "\<exists>bs hash. encode_signed G E s = Ok bs \<and> content_hash h G E p = Ok hash \<and>
    decode_and_verify pqcrypto h C G E bs = Ok (s\<lparr>so_op := sorted_op p\<rparr>, hash)"
proof -
  obtain inner sig where s: "op_to_envelope G E p = Ok inner" "lc_sign C seed (ev_digest G (ev_wrap G inner)) = Some sig"
      "s = \<lparr>so_op = p, so_signatures = [sig], so_elided = 0\<rparr>"
    using assms(7) by (auto simp: author_sign_def raw_sign_def signed_op_new_def author_from_seed_def result_simps)
  have "log_digests_ok G s" using assms(8) by (simp add: log_digests_ok_def s(3) signature_pairs_def distinct_assertions_def)
  from log_roundtrip [OF assms(1-3) _ this] assms(5) s(1,3) obtain e where
    e: "to_signed_envelope G E s = Ok e" "log_from_envelope G E e = Ok (s\<lparr>so_op := sorted_op p\<rparr>)"
      "ev_subject G e = ev_wrap G inner"
    by auto
  have "lc_verify C (op_actor p) sig (ev_digest G (ev_wrap G inner))" "lc_mldsa C sig = None"
    using assms(4,6) s(2) by (auto simp: author_ok_def author_actor_def author_from_seed_def)
  then have "verify_envelope pqcrypto C G E e (op_actor p) = Ok ()"
    using e by (simp add: verify_envelope_def verify_envelope_with_pq_key_def signatures_of_def s(3) verify_signatures_None_iff
        del: verify_signatures.simps)
  moreover have "content_hash h G E (sorted_op p) = content_hash h G E p"
    by (simp add: content_hash_def log_encode_def sorted_op_envelope [OF assms(1,5,8)])
  moreover have "op_actor (sorted_op p) = op_actor p" by (simp add: sorted_op_def)
  ultimately show ?thesis
    using e(1,2) assms(9) [OF e(1)] s(1)
    by (simp add: encode_signed_def decode_and_verify_def content_hash_def log_encode_def)
qed

text \<open>
  C20. An op that its author signs arrives: its encoding decodes and verifies in every build, the op is
  the author's with its repeated links sorted, nothing counts as elided, and the content hash the
  receiver computes is the author's own.
\<close>

theorem signed_op_over_wire:
  assumes "gordian_ok G" and "log_ok G" and "ext_ok E" and "author_ok C" and "op_ok E p"
    and "op_actor p = author_actor C (author_from_seed seed)" and "author_sign C G E (author_from_seed seed) p = Ok s"
    and "distinct_assertions G (attribute_pairs G (op_attributes p))"
    and "\<And>e. to_signed_envelope G E s = Ok e \<Longrightarrow> ev_try_from_cbor_data G (ev_to_cbor_data G e) = Some e"
  shows "\<exists>bs hash. encode_signed G E s = Ok bs \<and> content_hash h G E p = Ok hash \<and>
    decode_and_verify pqcrypto h C G E bs = Ok (s\<lparr>so_op := sorted_op p\<rparr>, hash)"
  using assms by (rule signed_op_arrives)

text \<open>
  C21. Whatever \<open>decode_and_verify\<close> accepts carries at least one signature, and every signature it
  carries is the actor's over the digest of the signed envelope: no post-quantum signature is taken
  on trust, because no key for it is supplied.
\<close>

theorem decode_and_verify_sound:
  assumes "decode_and_verify pqcrypto h C G E bs = Ok (s, hash)"
  shows "\<exists>e. ev_try_from_cbor_data G bs = Some e \<and> log_from_envelope G E e = Ok s \<and> so_signatures s \<noteq> [] \<and>
    (\<forall>sig \<in> set (so_signatures s). lc_verify C (op_actor (so_op s)) sig (ev_digest G (ev_subject G e)) \<and>
      \<not> (pqcrypto \<and> lc_mldsa C sig \<noteq> None)) \<and> content_hash h G E (so_op s) = Ok hash"
  using assms
  by (auto simp: decode_and_verify_def verify_envelope_def verify_envelope_with_pq_key_def signatures_of_def result_simps
      verify_signatures_None_iff split: if_splits)

section \<open>An instance\<close>

definition toy_signed :: toy_env where
  "toy_signed = ToyLeaf (DSimple SNull)"

definition toy_log_ext :: "(toy_env, bytes) log_gordian" where
  "toy_log_ext = gordian.extend toy_gordian
    \<lparr>ev_signed = toy_signed, ev_is_signed = (\<lambda>e. toy_subject e = toy_signed),
     ev_signature = (\<lambda>sig. ToyLeaf (DTagged 7 (DBytes sig))),
     ev_extract_signature = (\<lambda>e. case e of ToyLeaf (DTagged t (DBytes sig)) \<Rightarrow> Some sig | _ \<Rightarrow> None),
     ev_add_salt = (\<lambda>r e. toy_add e (ToyAssertion toy_signed (ToyLeaf (DBytes r))))\<rparr>"

lemma toy_log_parts:
  "ev_digest toy_log_ext = toy_code" "ev_text toy_log_ext s = ToyLeaf (DText s)" "ev_new toy_log_ext = ToyLeaf"
  "ev_new_assertion toy_log_ext = ToyAssertion" "ev_to_cbor_data toy_log_ext = toy_code"
  "ev_try_from_cbor_data toy_log_ext = (\<lambda>b. Some (from_nat (length b)))"
  by (simp_all add: toy_log_ext_def gordian.defs toy_gordian_def ev_text_def)

lemma toy_log_same:
  "ev_new toy_log_ext = ev_new toy_gordian" "ev_new_assertion toy_log_ext = ev_new_assertion toy_gordian"
  "ev_add_assertion toy_log_ext = ev_add_assertion toy_gordian"
  "ev_add_assertion_envelope toy_log_ext = ev_add_assertion_envelope toy_gordian"
  "ev_subject toy_log_ext = ev_subject toy_gordian" "ev_assertions toy_log_ext = ev_assertions toy_gordian"
  "ev_as_predicate toy_log_ext = ev_as_predicate toy_gordian"
  "ev_as_object toy_log_ext = ev_as_object toy_gordian" "ev_try_leaf toy_log_ext = ev_try_leaf toy_gordian"
  "ev_extract toy_log_ext = ev_extract toy_gordian" "ev_object_for toy_log_ext = ev_object_for toy_gordian"
  "ev_extract_for toy_log_ext = ev_extract_for toy_gordian"
  "ev_extract_optional_for toy_log_ext = ev_extract_optional_for toy_gordian"
  "ev_digest toy_log_ext = ev_digest toy_gordian" "ev_wrap toy_log_ext = ev_wrap toy_gordian"
  "ev_try_unwrap toy_log_ext = ev_try_unwrap toy_gordian"
  by (simp_all add: toy_log_ext_def gordian.defs)

lemma toy_log_gordian_ok: "gordian_ok toy_log_ext"
proof -
  have wp: "with_predicate toy_log_ext = with_predicate toy_gordian"
    by (intro ext) (simp only: with_predicate_def ev_text_def toy_log_same)
  show ?thesis using toy_gordian_ok unfolding gordian_ok_def toy_log_same wp .
qed

lemma toy_log_ok: "log_ok toy_log_ext"
  by (simp add: log_ok_def toy_log_ext_def gordian.defs toy_signed_def)

definition toy_log_crypto :: "bytes log_crypto" where
  "toy_log_crypto = \<lparr>lc_public = id, lc_sign = (\<lambda>seed d. Some (seed @ d)), lc_verify = (\<lambda>pk sig d. sig = pk @ d),
    lc_mldsa = (\<lambda>_. None), lc_mldsa87_level = 5, lc_mldsa87_pk_len = 2592, lc_mldsa87_sig_len = 4627,
    lc_mldsa87_pk_ok = (\<lambda>_. True), lc_mldsa87_verify = (\<lambda>pk m sig c. sig = m)\<rparr>"

definition demo_op :: op where
  "demo_op = with_timestamp (with_deps (op_new ''chat.note.add'' (replicate 32 1) (Hlc 7 0))
    [replicate 32 3, replicate 32 2]) 99"

lemma demo_op_ok: "op_ok ascii_ext demo_op"
  by (simp add: op_ok_def demo_op_def with_timestamp_def with_deps_def op_new_def)

lemma demo_op_digests: "distinct_assertions toy_log_ext (attribute_pairs toy_log_ext (op_attributes demo_op))"
  by (simp add: distinct_assertions_def attribute_pairs_def op_attributes_def demo_op_def with_timestamp_def with_deps_def
      op_new_def toy_log_parts PRED_DEPS_def PRED_TIMESTAMP_def)

lemma demo_op_arrives:
  "author_ok toy_log_crypto"
  "op_actor demo_op = author_actor toy_log_crypto (author_from_seed (replicate 32 1))"
  "\<exists>s. author_sign toy_log_crypto toy_log_ext ascii_ext (author_from_seed (replicate 32 1)) demo_op = Ok s"
proof -
  show "author_ok toy_log_crypto" by (simp add: author_ok_def toy_log_crypto_def)
  show "op_actor demo_op = author_actor toy_log_crypto (author_from_seed (replicate 32 1))"
    by (simp add: toy_log_crypto_def author_actor_def author_from_seed_def demo_op_def with_timestamp_def with_deps_def op_new_def)
  show "\<exists>s. author_sign toy_log_crypto toy_log_ext ascii_ext (author_from_seed (replicate 32 1)) demo_op = Ok s"
    by (simp add: author_sign_def op_to_envelope_all [OF demo_op_ok] raw_sign_def toy_log_crypto_def)
qed

lemma sorted_demo_op: "sorted_op demo_op = demo_op\<lparr>op_deps := [replicate 32 2, replicate 32 3]\<rparr>"
proof -
  have "(2 :: u8) < 3" by simp
  then have "(2 :: u8) # replicate 31 2 < 3 # replicate 31 3" by (simp only: Cons_less_Cons simp_thms)
  moreover have "replicate 32 x = x # replicate 31 x" for x :: u8 by (simp flip: replicate_Suc)
  ultimately have "replicate 32 2 < (replicate 32 3 :: bytes)" by simp
  then have "sort [replicate 32 3, replicate 32 2 :: bytes] = [replicate 32 2, replicate 32 3]"
    by (simp add: insort_is_Cons)
  then show ?thesis by (simp add: sorted_op_def demo_op_def with_timestamp_def with_deps_def op_new_def)
qed

theorem signed_op_over_wire_witness:
  "\<exists>s bs hash. author_sign toy_log_crypto toy_log_ext ascii_ext (replicate 32 1) demo_op = Ok s \<and>
    encode_signed toy_log_ext ascii_ext s = Ok bs \<and>
    decode_and_verify True rev toy_log_crypto toy_log_ext ascii_ext bs =
      Ok (s\<lparr>so_op := demo_op\<lparr>op_deps := [replicate 32 2, replicate 32 3]\<rparr>\<rparr>, hash)"
proof -
  obtain s where s: "author_sign toy_log_crypto toy_log_ext ascii_ext (author_from_seed (replicate 32 1)) demo_op = Ok s"
    using demo_op_arrives(3) by blast
  from sorted_demo_op signed_op_over_wire [OF toy_log_gordian_ok toy_log_ok ascii_ext_ok demo_op_arrives(1) demo_op_ok demo_op_arrives(2) s
      demo_op_digests, of rev True] s
  show ?thesis by (auto simp: toy_log_parts author_from_seed_def)
qed

theorem decode_and_verify_sound_witness:
  "\<exists>bs s hash e. decode_and_verify True rev toy_log_crypto toy_log_ext ascii_ext bs = Ok (s, hash) \<and>
    so_signatures s \<noteq> [] \<and> ev_try_from_cbor_data toy_log_ext bs = Some e \<and>
    (\<forall>sig \<in> set (so_signatures s). sig = op_actor (so_op s) @ toy_code (ev_subject toy_log_ext e))"
proof -
  obtain s where s: "author_sign toy_log_crypto toy_log_ext ascii_ext (author_from_seed (replicate 32 1)) demo_op = Ok s"
    using demo_op_arrives(3) by blast
  obtain bs t hash where d: "decode_and_verify True rev toy_log_crypto toy_log_ext ascii_ext bs = Ok (t, hash)"
    using signed_op_arrives [OF toy_log_gordian_ok toy_log_ok ascii_ext_ok demo_op_arrives(1) demo_op_ok demo_op_arrives(2) s
        demo_op_digests, of rev True] by (auto simp: toy_log_parts)
  from decode_and_verify_sound [OF d] d show ?thesis
    by (auto simp: toy_log_parts toy_log_crypto_def)
qed

end
