(* ===== verification/Os.thy ===== *)
theory Os
  imports Prelude
begin

text \<open>
  What the wallet uses of the standard library and of the operating system: paths
  (\<open>std::path\<close>), environment variables (\<open>std::env::var\<close>), files (\<open>std::fs\<close>), the clock and the random
  generator. The world is a record that every call takes and returns. Input and output may
  fail: which calls fail is part of the world.
\<close>

section \<open>Paths\<close>

text \<open>
  A \<open>PathBuf\<close> is its text. The components are those of \<open>Path::components\<close> on Unix: repeated
  separators and inner \<open>.\<close> are dropped.
\<close>

datatype component = RootDir | CurDir | ParentDir | Normal string

type_synonym path = string

fun split_slash :: "string \<Rightarrow> string list" where
  "split_slash [] = [[]]"
| "split_slash (c # cs) =
    (if c = CHR ''/'' then [] # split_slash cs
     else case split_slash cs of [] \<Rightarrow> [[c]] | p # ps \<Rightarrow> (c # p) # ps)"

definition component_of :: "string \<Rightarrow> component" where
  "component_of s = (if s = ''..'' then ParentDir else Normal s)"

definition path_components :: "path \<Rightarrow> component list" where
  "path_components p =
    (let pieces = split_slash p;
         start = (if take 1 p = ''/'' then [RootDir] else if hd pieces = ''.'' then [CurDir] else [])
     in start @ map component_of (filter (\<lambda>s. s \<noteq> [] \<and> s \<noteq> ''.'') pieces))"

fun component_text :: "component \<Rightarrow> string" where
  "component_text RootDir = []"
| "component_text CurDir = ''.''"
| "component_text ParentDir = ''..''"
| "component_text (Normal s) = s"

fun join_slash :: "string list \<Rightarrow> string" where
  "join_slash [] = []"
| "join_slash [s] = s"
| "join_slash (s # t # ss) = s @ ''/'' @ join_slash (t # ss)"

definition path_render :: "component list \<Rightarrow> path" where
  "path_render cs = (if cs = [RootDir] then ''/'' else join_slash (map component_text cs))"

text \<open>\<open>Path::parent\<close>, given by its components: equality of paths is equality of components.\<close>

definition path_parent :: "path \<Rightarrow> path option" where
  "path_parent p =
    (case rev (path_components p) of
       [] \<Rightarrow> None
     | RootDir # cs \<Rightarrow> None
     | c # cs \<Rightarrow> Some (path_render (rev cs)))"

definition path_file_name :: "path \<Rightarrow> string option" where
  "path_file_name p = (case rev (path_components p) of Normal s # cs \<Rightarrow> Some s | _ \<Rightarrow> None)"

definition path_join :: "path \<Rightarrow> string \<Rightarrow> path" where
  "path_join p s =
    (if take 1 s = ''/'' then s
     else if p = [] \<or> last p = CHR ''/'' then p @ s
     else p @ ''/'' @ s)"

section \<open>The world\<close>

text \<open>
  A file is named by its components without \<open>.\<close>; relative names are relative to the working
  directory. Links are not modelled: two different names are two different files.
\<close>

type_synonym node_key = "component list"

definition node_key :: "path \<Rightarrow> node_key" where
  "node_key p = filter (\<lambda>c. c \<noteq> CurDir) (path_components p)"

text \<open>A file has its permission bits and its contents.\<close>

datatype node = Directory | File nat bytes

datatype io_call =
    CreateDir node_key
  | OpenFile node_key
  | WriteAll node_key
  | SyncAll node_key
  | RenameFile node_key node_key
  | ReadFile node_key

datatype env_var = NotPresent | NotUnicode | EnvValue string

text \<open>
  \<open>os_written\<close> is how many bytes reach a file before its \<open>write_all\<close> fails; \<open>os_mode\<close> gives the
  permission bits of a file that is created without asking for any; \<open>os_rng\<close> holds the bytes that
  will be drawn; \<open>os_clock\<close> is \<open>None\<close> when the clock stands before 1970. What belongs to other crates (keychain, terminal) is
  \<open>os_outside\<close>.
\<close>

record 'k os =
  os_env :: "string \<Rightarrow> env_var"
  os_nodes :: "node_key \<rightharpoonup> node"
  os_fault :: "io_call \<Rightarrow> bool"
  os_written :: nat
  os_mode :: nat
  os_rng :: "nat \<Rightarrow> u8"
  os_clock :: "u64 option"
  os_outside :: 'k

datatype io_error = IoFailed io_call | InvalidInput

text \<open>\<open>?\<close> for calls that change the world.\<close>

definition then_io :: "('e, 'a) result \<times> 's \<Rightarrow> ('a \<Rightarrow> 's \<Rightarrow> ('e, 'b) result \<times> 's) \<Rightarrow> ('e, 'b) result \<times> 's" where
  "then_io r f = (case r of (Err e, s) \<Rightarrow> (Err e, s) | (Ok x, s) \<Rightarrow> f x s)"

definition env_value :: "'k os \<Rightarrow> string \<Rightarrow> string option" where
  "env_value s v = (case os_env s v of EnvValue x \<Rightarrow> Some x | _ \<Rightarrow> None)"

definition fill_bytes :: "nat \<Rightarrow> 'k os \<Rightarrow> bytes \<times> 'k os" where
  "fill_bytes n s = (map (os_rng s) [0..<n], s\<lparr>os_rng := \<lambda>i. os_rng s (i + n)\<rparr>)"

definition is_directory :: "'k os \<Rightarrow> node_key \<Rightarrow> bool" where
  "is_directory s k \<longleftrightarrow> (\<forall>c \<in> set k. c = RootDir \<or> c = ParentDir) \<or> os_nodes s k = Some Directory"

definition path_exists :: "'k os \<Rightarrow> path \<Rightarrow> bool" where
  "path_exists s p \<longleftrightarrow> is_directory s (node_key p) \<or> os_nodes s (node_key p) \<noteq> None"

definition io_fail :: "io_call \<Rightarrow> 'k os \<Rightarrow> (io_error, 'a) result \<times> 'k os" where
  "io_fail c s = (Err (IoFailed c), s)"

definition fs_read :: "path \<Rightarrow> 'k os \<Rightarrow> (io_error, bytes) result" where
  "fs_read p s =
    (if os_fault s (ReadFile (node_key p)) then Err (IoFailed (ReadFile (node_key p)))
     else case os_nodes s (node_key p) of
         Some (File m bs) \<Rightarrow> Ok bs
       | _ \<Rightarrow> Err (IoFailed (ReadFile (node_key p))))"

definition create_dir :: "node_key \<Rightarrow> 'k os \<Rightarrow> (io_error, unit) result \<times> 'k os" where
  "create_dir k s =
    (if is_directory s k then (Ok (), s)
     else if os_fault s (CreateDir k) \<or> os_nodes s k \<noteq> None then io_fail (CreateDir k) s
     else (Ok (), s\<lparr>os_nodes := (os_nodes s)(k \<mapsto> Directory)\<rparr>))"

primrec create_dirs :: "node_key list \<Rightarrow> 'k os \<Rightarrow> (io_error, unit) result \<times> 'k os" where
  "create_dirs [] s = (Ok (), s)"
| "create_dirs (k # ks) s = then_io (create_dir k s) (\<lambda>_. create_dirs ks)"

definition create_dir_all :: "path \<Rightarrow> 'k os \<Rightarrow> (io_error, unit) result \<times> 'k os" where
  "create_dir_all p s = (let k = node_key p in create_dirs (map (\<lambda>n. take (Suc n) k) [0..<length k]) s)"

text \<open>
  \<open>OpenOptions\<close> with \<open>write\<close>, \<open>create\<close> and \<open>truncate\<close>: an existing file keeps its permission bits, a
  new one gets those that were asked for.
\<close>

definition open_truncate :: "nat \<Rightarrow> node_key \<Rightarrow> 'k os \<Rightarrow> (io_error, unit) result \<times> 'k os" where
  "open_truncate mode k s =
    (if os_fault s (OpenFile k) \<or> \<not> is_directory s (butlast k) \<or> is_directory s k then io_fail (OpenFile k) s
     else let m = (case os_nodes s k of Some (File m bs) \<Rightarrow> m | _ \<Rightarrow> mode)
       in (Ok (), s\<lparr>os_nodes := (os_nodes s)(k \<mapsto> File m [])\<rparr>))"

definition put_contents :: "node_key \<Rightarrow> bytes \<Rightarrow> 'k os \<Rightarrow> 'k os" where
  "put_contents k bs s =
    (case os_nodes s k of Some (File m old) \<Rightarrow> s\<lparr>os_nodes := (os_nodes s)(k \<mapsto> File m bs)\<rparr> | _ \<Rightarrow> s)"

definition write_all :: "node_key \<Rightarrow> bytes \<Rightarrow> 'k os \<Rightarrow> (io_error, unit) result \<times> 'k os" where
  "write_all k bs s =
    (if os_fault s (WriteAll k) then io_fail (WriteAll k) (put_contents k (take (os_written s) bs) s)
     else (Ok (), put_contents k bs s))"

definition sync_all :: "node_key \<Rightarrow> 'k os \<Rightarrow> (io_error, unit) result \<times> 'k os" where
  "sync_all k s = (if os_fault s (SyncAll k) then io_fail (SyncAll k) s else (Ok (), s))"

definition fs_rename :: "node_key \<Rightarrow> node_key \<Rightarrow> 'k os \<Rightarrow> (io_error, unit) result \<times> 'k os" where
  "fs_rename k k' s =
    (if os_fault s (RenameFile k k') \<or> is_directory s k' \<or> os_nodes s k = None then io_fail (RenameFile k k') s
     else (Ok (), s\<lparr>os_nodes := (os_nodes s)(k := None, k' := os_nodes s k)\<rparr>))"

section \<open>Laws\<close>

lemma then_io_Ok_iff [result_simps]: "then_io r f = (Ok y, s') \<longleftrightarrow> (\<exists>x s. r = (Ok x, s) \<and> f x s = (Ok y, s'))"
  by (auto simp: then_io_def split: prod.splits result.splits)

lemma then_io_simps [simp]: "then_io (Ok x, s) f = f x s" "then_io (Err e, s) f = (Err e, s)"
  by (simp_all add: then_io_def)

lemma fill_bytes_length: "fill_bytes n s = (bs, s') \<Longrightarrow> length bs = n"
  by (auto simp: fill_bytes_def)

text \<open>Splitting at the separator.\<close>

lemma split_slash_nonempty [simp]: "split_slash s \<noteq> []"
  by (induction s) (auto split: list.splits)

lemma split_slash_plain: "CHR ''/'' \<notin> set s \<Longrightarrow> split_slash s = [s]"
  by (induction s) auto

lemma split_slash_append: "split_slash (p @ CHR ''/'' # s) = split_slash p @ split_slash s"
  by (induction p) (auto split: list.splits)

lemma split_slash_pieces: "t \<in> set (split_slash s) \<Longrightarrow> CHR ''/'' \<notin> set t"
  by (induction s arbitrary: t) (auto split: list.splits if_splits)

lemma join_slash_snoc: "ss \<noteq> [] \<Longrightarrow> join_slash (ss @ [t]) = join_slash ss @ ''/'' @ t"
  by (induction ss rule: join_slash.induct) auto

lemma split_join:
  assumes "\<And>t. t \<in> set ss \<Longrightarrow> CHR ''/'' \<notin> set t" and "ss \<noteq> []"
  shows "split_slash (join_slash ss) = ss"
  using assms
proof (induction ss rule: join_slash.induct)
  case (3 s t ss)
  then show ?case by (simp add: split_slash_append split_slash_plain)
qed (auto simp: split_slash_plain)

text \<open>Components in their normal form, and the two directions between them and their text.\<close>

definition plain_component :: "component \<Rightarrow> bool" where
  "plain_component c \<longleftrightarrow> (case c of
     Normal s \<Rightarrow> s \<noteq> [] \<and> s \<noteq> ''.'' \<and> s \<noteq> ''..'' \<and> CHR ''/'' \<notin> set s | ParentDir \<Rightarrow> True | _ \<Rightarrow> False)"

definition normal_path :: "component list \<Rightarrow> bool" where
  "normal_path cs \<longleftrightarrow> (case cs of [] \<Rightarrow> True
     | c # ds \<Rightarrow> (c = RootDir \<or> c = CurDir \<or> plain_component c) \<and> list_all plain_component ds)"

lemma plain_component_text:
  "plain_component c \<Longrightarrow> component_text c \<noteq> [] \<and> component_text c \<noteq> ''.'' \<and> CHR ''/'' \<notin> set (component_text c) \<and>
    component_of (component_text c) = c"
  by (cases c) (auto simp: plain_component_def component_of_def)

lemma plain_component_of: "s \<noteq> [] \<Longrightarrow> s \<noteq> ''.'' \<Longrightarrow> CHR ''/'' \<notin> set s \<Longrightarrow> plain_component (component_of s)"
  by (simp add: plain_component_def component_of_def)

lemma normal_path_components: "normal_path (path_components p)"
proof -
  let ?ps = "filter (\<lambda>s. s \<noteq> [] \<and> s \<noteq> ''.'') (split_slash p)"
  have "list_all plain_component (map component_of ?ps)"
    using split_slash_pieces [of _ p] by (auto simp: list_all_iff intro: plain_component_of)
  then show ?thesis
    by (auto simp: path_components_def normal_path_def Let_def split: list.splits)
qed

lemma normal_path_butlast: "normal_path (cs @ [c]) \<Longrightarrow> normal_path cs"
  by (cases cs) (auto simp: normal_path_def)

lemma plain_pieces:
  assumes "list_all plain_component cs"
  shows "filter (\<lambda>s. s \<noteq> [] \<and> s \<noteq> ''.'') (map component_text cs) = map component_text cs"
    and "map component_of (map component_text cs) = cs"
  using assms plain_component_text by (induction cs) auto

lemma take_join_slash: "s \<noteq> [] \<Longrightarrow> take 1 (join_slash (s # ss)) = take 1 s"
  by (cases ss; cases s) auto

lemma components_render:
  assumes "normal_path cs"
  shows "path_components (path_render cs) = cs"
proof (cases cs)
  case Nil
  then show ?thesis by (simp add: path_render_def path_components_def)
next
  case (Cons c ds)
  have ds: "list_all plain_component ds" using assms Cons by (simp add: normal_path_def)
  then have no_slash: "CHR ''/'' \<notin> set (component_text d)" if "d \<in> set ds" for d
    using that plain_component_text by (auto simp: list_all_iff)
  have c: "c = RootDir \<or> c = CurDir \<or> plain_component c" using assms Cons by (simp add: normal_path_def)
  show ?thesis
  proof (cases "cs = [RootDir]")
    case True
    then show ?thesis by (simp add: path_render_def path_components_def)
  next
    case False
    have "CHR ''/'' \<notin> set (component_text c)" using c plain_component_text [of c] by auto
    then have split: "split_slash (path_render cs) = component_text c # map component_text ds"
      using False no_slash split_join [of "component_text c # map component_text ds"] Cons by (auto simp: path_render_def)
    show ?thesis
    proof (cases "c = RootDir")
      case True
      then obtain d es where "ds = d # es" using False Cons by (cases ds) auto
      then have "take 1 (path_render cs) = ''/''" using Cons True by (simp add: path_render_def)
      then show ?thesis using split plain_pieces [OF ds] True Cons by (simp add: path_components_def)
    next
      case not_root: False
      then have ct: "component_text c \<noteq> []" "CHR ''/'' \<notin> set (component_text c)"
        using c plain_component_text [of c] by auto
      have "take 1 (path_render cs) = take 1 (component_text c)"
        using take_join_slash [OF ct(1)] Cons False by (simp add: path_render_def)
      moreover have "take 1 (component_text c) \<noteq> ''/''" using ct by (cases "component_text c") auto
      ultimately show ?thesis
        using split plain_pieces [OF ds] Cons c not_root plain_component_text [of c]
        by (auto simp: path_components_def)
    qed
  qed
qed

text \<open>A plain name joined to a directory is its last component.\<close>

lemma components_join:
  assumes "CHR ''/'' \<notin> set t" and "t \<noteq> []" and "t \<noteq> ''.''" and "t \<noteq> ''..''" and "d \<noteq> []"
  shows "path_components (path_join d t) = path_components d @ [Normal t]"
proof -
  have t: "take 1 t \<noteq> ''/''" using assms(1,2) by (cases t) auto
  have hd: "hd (split_slash (e @ CHR ''/'' # u)) = hd (split_slash e)" for e u by (simp add: split_slash_append)
  have start: "take 1 (e @ CHR ''/'' # u) = take 1 e" if "e \<noteq> []" for e u :: string using that by (cases e) simp_all
  have step: "path_components (e @ CHR ''/'' # t) = path_components e @ [Normal t]" if "e \<noteq> []" for e
    using assms(1-4) hd start [OF that] by (simp add: path_components_def split_slash_append split_slash_plain component_of_def)
  show ?thesis
  proof (cases "last d = CHR ''/''")
    case False
    with t assms(5) step [of d] show ?thesis by (simp add: path_join_def)
  next
    case True
    then obtain e where e: "d = e @ ''/''" using assms(5) append_butlast_last_id by metis
    have "path_components (e @ ''/'') @ [Normal t] = path_components (e @ CHR ''/'' # t)"
    proof (cases "e = []")
      case True
      then show ?thesis using assms(1-4) by (simp add: path_components_def split_slash_plain component_of_def)
    next
      case False
      have "path_components (e @ ''/'') = path_components e"
        using hd [of e "[]"] start [OF False, of "[]"] by (simp add: path_components_def split_slash_append)
      with step [OF False] show ?thesis by simp
    qed
    with True t assms(5) e show ?thesis by (simp add: path_join_def)
  qed
qed

text \<open>Creating directories only adds directories, all of them prefixes of the path.\<close>

definition only_adds_directories :: "node_key list \<Rightarrow> 'k os \<Rightarrow> 'k os \<Rightarrow> bool" where
  "only_adds_directories ks s s' \<longleftrightarrow> s' = s\<lparr>os_nodes := os_nodes s'\<rparr> \<and>
    (\<forall>k. os_nodes s' k = os_nodes s k \<or> k \<in> set ks \<and> os_nodes s k = None \<and> os_nodes s' k = Some Directory)"

lemma create_dir_adds: "create_dir k s = (r, s') \<Longrightarrow> only_adds_directories [k] s s'"
  by (auto simp: create_dir_def io_fail_def only_adds_directories_def split: if_splits)

lemma only_adds_trans:
  assumes "only_adds_directories ks s s1" and "only_adds_directories ls s1 s2"
  shows "only_adds_directories (ks @ ls) s s2"
proof -
  have "os_nodes s2 k = os_nodes s k \<or> k \<in> set (ks @ ls) \<and> os_nodes s k = None \<and> os_nodes s2 k = Some Directory" for k
    using assms unfolding only_adds_directories_def by (metis Un_iff set_append)
  moreover have "s2 = s\<lparr>os_nodes := os_nodes s2\<rparr>"
    using assms unfolding only_adds_directories_def by (cases s; cases s1; cases s2) auto
  ultimately show ?thesis by (simp add: only_adds_directories_def)
qed

lemma create_dirs_adds: "create_dirs ks s = (r, s') \<Longrightarrow> only_adds_directories ks s s'"
proof (induction ks arbitrary: s)
  case (Cons k ks)
  obtain r1 s1 where c: "create_dir k s = (r1, s1)" by fastforce
  note a = create_dir_adds [OF c]
  show ?case
  proof (cases r1)
    case (Err e)
    with Cons.prems c have "s' = s1" by simp
    with a show ?thesis by (auto simp: only_adds_directories_def)
  next
    case (Ok u)
    with Cons.prems c have "create_dirs ks s1 = (r, s')" by simp
    from only_adds_trans [OF a Cons.IH [OF this]] show ?thesis by simp
  qed
qed (simp add: only_adds_directories_def)

lemma create_dir_all_adds:
  assumes "create_dir_all p s = (r, s')"
  shows "s' = s\<lparr>os_nodes := os_nodes s'\<rparr>"
    and "os_nodes s' k = os_nodes s k \<or> os_nodes s k = None \<and> os_nodes s' k = Some Directory"
    and "length k > length (node_key p) \<Longrightarrow> os_nodes s' k = os_nodes s k"
  using create_dirs_adds [OF assms [unfolded create_dir_all_def Let_def]]
  by (auto simp: only_adds_directories_def)

text \<open>Nothing is made when all directories on the way are there.\<close>

lemma create_dirs_there: "list_all (is_directory s) ks \<Longrightarrow> create_dirs ks s = (Ok (), s)"
  by (induction ks) (simp_all add: create_dir_def)

lemma create_dir_all_there:
  assumes "\<And>n. n \<le> length (node_key p) \<Longrightarrow> is_directory s (take n (node_key p))"
  shows "create_dir_all p s = (Ok (), s)"
  unfolding create_dir_all_def Let_def by (rule create_dirs_there) (simp add: list_all_iff assms)

end
