(* ===== verification/Secret.thy ===== *)
theory Secret
  imports Prelude "HOL-Library.List_Lexorder" "HOL-Library.Char_ord"
begin

text \<open>
  The sealed secrets of \<open>identikey-secret\<close> (\<open>record.rs\<close>, \<open>store.rs\<close>): ids, records, the public
  commitment and the in-memory store. Blake3, the function \<open>h\<close>, and the drawn bytes are
  arguments. Envelopes are objects of another crate: a record keeps its unknown assertions as pairs
  of an arbitrary type, and the two functions that read and write envelopes are not modelled here.
\<close>

section \<open>Records\<close>

datatype secret_error = BadId | BadLabel | BadValue | EnvelopeError | Duplicate

definition MAX_VALUE_LEN :: nat where
  "MAX_VALUE_LEN = 64 * 1024"

definition COMMIT_DOMAIN :: bytes where
  "COMMIT_DOMAIN = str_bytes ''identikey-secret-v1'' @ [0x0A]"

definition is_ascii_alphanumeric :: "u8 \<Rightarrow> bool" where
  "is_ascii_alphanumeric b \<longleftrightarrow> (0x30 \<le> b \<and> b \<le> 0x39) \<or> (0x41 \<le> b \<and> b \<le> 0x5A) \<or> (0x61 \<le> b \<and> b \<le> 0x7A)"

definition is_path_safe :: "string \<Rightarrow> bool" where
  "is_path_safe raw =
    (let bs = str_bytes raw in
     if bs = [] \<or> length bs > 64 \<or> raw = ''.'' \<or> raw = ''..'' then False
     else list_all (\<lambda>b. is_ascii_alphanumeric b \<or> b \<in> {0x2E, 0x5F, 0x2D}) bs)"

definition secret_id_new :: "string \<Rightarrow> (secret_error, string) result" where
  "secret_id_new raw = (if \<not> is_path_safe raw then Err BadId else Ok raw)"

record secret_commitment =
  sc_salt :: bytes
  sc_commitment :: bytes

record secret_meta =
  sm_id :: string
  sm_label :: string
  sm_created_at :: u64
  sm_commitment :: secret_commitment

record 'e sealed_secret =
  ss_id :: string
  ss_label :: string
  ss_created_at :: u64
  ss_salt :: bytes
  ss_value :: bytes
  ss_unknown :: "('e \<times> 'e) list"

definition check_label :: "string \<Rightarrow> (secret_error, unit) result" where
  "check_label label =
    (if label = [] \<or> length label > 128 \<or> CHR 0x00 \<in> set label \<or> CHR ''/'' \<in> set label
     then Err BadLabel else Ok ())"

definition check_value :: "bytes \<Rightarrow> (secret_error, unit) result" where
  "check_value val = (if val = [] \<or> length val > MAX_VALUE_LEN then Err BadValue else Ok ())"

definition HEX :: string where
  "HEX = ''0123456789abcdef''"

definition hex_id :: "bytes \<Rightarrow> string" where
  "hex_id bs = concat (map (\<lambda>b. [HEX ! unat (drop_bit 4 b), HEX ! unat (and b 0xF)]) bs)"

text \<open>The two draws of \<open>generate\<close>: 16 bytes for the id, then 32 bytes of salt.\<close>

record secret_draw =
  sd_id :: bytes
  sd_salt :: bytes

definition draw_ok :: "secret_draw \<Rightarrow> bool" where
  "draw_ok r \<longleftrightarrow> length (sd_id r) = 16 \<and> length (sd_salt r) = 32"

definition secret_generate ::
  "secret_draw \<Rightarrow> string \<Rightarrow> bytes \<Rightarrow> u64 \<Rightarrow> (secret_error, 'e sealed_secret) result" where
  "secret_generate r label val created_at =
    bind (check_label label) (\<lambda>_.
    bind (check_value val) (\<lambda>_.
    Ok \<lparr>ss_id = hex_id (sd_id r), ss_label = label, ss_created_at = created_at, ss_salt = sd_salt r,
        ss_value = val, ss_unknown = []\<rparr>))"

definition commitment :: "(bytes \<Rightarrow> bytes) \<Rightarrow> bytes \<Rightarrow> bytes \<Rightarrow> bytes" where
  "commitment h salt val = h (COMMIT_DOMAIN @ salt @ val)"

definition secret_commitment_of :: "(bytes \<Rightarrow> bytes) \<Rightarrow> 'e sealed_secret \<Rightarrow> secret_commitment" where
  "secret_commitment_of h s = \<lparr>sc_salt = ss_salt s, sc_commitment = commitment h (ss_salt s) (ss_value s)\<rparr>"

definition secret_meta_of :: "(bytes \<Rightarrow> bytes) \<Rightarrow> 'e sealed_secret \<Rightarrow> secret_meta" where
  "secret_meta_of h s =
    \<lparr>sm_id = ss_id s, sm_label = ss_label s, sm_created_at = ss_created_at s,
     sm_commitment = secret_commitment_of h s\<rparr>"

section \<open>The store\<close>

text \<open>A \<open>BTreeMap\<close> is the list of its entries in key order.\<close>

fun bt_insert :: "'k::linorder \<Rightarrow> 'v \<Rightarrow> ('k \<times> 'v) list \<Rightarrow> ('k \<times> 'v) list" where
  "bt_insert k v [] = [(k, v)]"
| "bt_insert k v ((k', v') # m) =
    (if k < k' then (k, v) # (k', v') # m
     else if k = k' then (k, v) # m
     else (k', v') # bt_insert k v m)"

definition bt_remove :: "'k \<Rightarrow> ('k \<times> 'v) list \<Rightarrow> ('k \<times> 'v) list" where
  "bt_remove k m = filter (\<lambda>e. fst e \<noteq> k) m"

type_synonym 'e secret_store = "(string \<times> 'e sealed_secret) list"

definition store_new :: "'e secret_store" where
  "store_new = []"

definition store_iter :: "'e secret_store \<Rightarrow> 'e sealed_secret list" where
  "store_iter st = map snd st"

definition insert_sealed :: "'e secret_store \<Rightarrow> 'e sealed_secret \<Rightarrow> (secret_error, 'e secret_store) result" where
  "insert_sealed st secret =
    (if map_of st (ss_id secret) \<noteq> None then Err Duplicate else Ok (bt_insert (ss_id secret) secret st))"

definition store_insert ::
  "'e secret_store \<Rightarrow> secret_draw \<Rightarrow> string \<Rightarrow> bytes \<Rightarrow> u64 \<Rightarrow> (secret_error, string \<times> 'e secret_store) result" where
  "store_insert st r label val created_at =
    bind (secret_generate r label val created_at) (\<lambda>secret.
    bind (insert_sealed st secret) (\<lambda>st'.
    Ok (ss_id secret, st')))"

definition store_get :: "'e secret_store \<Rightarrow> string \<Rightarrow> 'e sealed_secret option" where
  "store_get st i = map_of st i"

definition store_list :: "(bytes \<Rightarrow> bytes) \<Rightarrow> 'e secret_store \<Rightarrow> secret_meta list" where
  "store_list h st = map (\<lambda>e. secret_meta_of h (snd e)) st"

definition store_remove :: "'e secret_store \<Rightarrow> string \<Rightarrow> bool \<times> 'e secret_store" where
  "store_remove st i = (map_of st i \<noteq> None, bt_remove i st)"

section \<open>Laws of ids and commitments\<close>

lemma hex_digit_safe:
  assumes "n < 16"
  shows "is_ascii_alphanumeric (byte_of_char (HEX ! n))" and "HEX ! n \<noteq> CHR ''.''"
proof -
  have "n \<in> {0..<16}" using assms by simp
  then have "n \<in> set [0..<16]" by (simp only: set_upt)
  moreover have "list_all (\<lambda>n. is_ascii_alphanumeric (byte_of_char (HEX ! n)) \<and> HEX ! n \<noteq> CHR ''.'') [0..<16]"
    by code_simp
  ultimately show "is_ascii_alphanumeric (byte_of_char (HEX ! n))" "HEX ! n \<noteq> CHR ''.''"
    by (auto simp: list_all_iff)
qed

lemma nibbles: "unat (drop_bit 4 b) < 16" "unat (and b 0xF) < 16" for b :: u8
proof -
  show "unat (drop_bit 4 b) < 16"
    using unsigned_less [of b, where ?'a = nat] by (simp add: drop_bit_eq_div unat_div)
  have "and b 0xF \<le> (0xF :: u8)" by (rule word_and_le1)
  then show "unat (and b 0xF) < 16" by (simp add: word_le_nat_alt)
qed

lemma nibbles_eq: "drop_bit 4 a = drop_bit 4 b \<Longrightarrow> and a 0xF = and b 0xF \<Longrightarrow> a = (b :: u8)"
proof -
  assume "drop_bit 4 a = drop_bit 4 b" and "and a 0xF = and b 0xF"
  moreover have "and x 0xF = take_bit 4 x" for x :: u8
    by (simp add: take_bit_eq_mask mask_eq_exp_minus_1)
  ultimately show "a = b" by (metis bits_ident)
qed

lemma hex_eq_iff: "i < 16 \<Longrightarrow> j < 16 \<Longrightarrow> HEX ! i = HEX ! j \<longleftrightarrow> i = j"
  by (rule nth_eq_iff_index_eq) (simp_all add: HEX_def)

lemma length_hex_id: "length (hex_id bs) = 2 * length bs"
  by (induction bs) (simp_all add: hex_id_def)

lemma hex_id_Cons: "hex_id (b # bs) = HEX ! unat (drop_bit 4 b) # HEX ! unat (and b 0xF) # hex_id bs"
  by (simp only: hex_id_def list.map concat.simps append.simps)

lemma hex_id_inj: "hex_id as = hex_id bs \<Longrightarrow> as = bs"
proof (induction as arbitrary: bs)
  case Nil
  then show ?case by (cases bs) (simp_all add: hex_id_def)
next
  case (Cons a as)
  then obtain b bs' where bs: "bs = b # bs'" using length_hex_id [of "a # as"] length_hex_id [of bs] by (cases bs) simp_all
  have eq: "HEX ! unat (drop_bit 4 a) = HEX ! unat (drop_bit 4 b)"
      "HEX ! unat (and a 0xF) = HEX ! unat (and b 0xF)" "hex_id as = hex_id bs'"
    using Cons.prems unfolding bs hex_id_Cons by (simp_all only: list.inject)
  have "unat (drop_bit 4 a) = unat (drop_bit 4 b)" using eq(1) hex_eq_iff [OF nibbles(1) nibbles(1)] by blast
  moreover have "unat (and a 0xF) = unat (and b 0xF)" using eq(2) hex_eq_iff [OF nibbles(2) nibbles(2)] by blast
  ultimately have "a = b" using nibbles_eq [of a b] by (simp only: word_unat_eq_iff)
  moreover have "as = bs'" by (rule Cons.IH [OF eq(3)])
  ultimately show ?case by (simp only: bs)
qed

lemma hex_id_path_safe:
  assumes "length bs = 16"
  shows "is_path_safe (hex_id bs)"
proof -
  have "is_ascii_alphanumeric (byte_of_char c)" if "c \<in> set (hex_id bs)" for c
    using that by (auto simp: hex_id_def intro!: hex_digit_safe nibbles)
  then have "list_all (\<lambda>b. is_ascii_alphanumeric b \<or> b \<in> {0x2E, 0x5F, 0x2D}) (str_bytes (hex_id bs))"
    by (auto simp: list_all_iff str_bytes_def)
  moreover have "length (hex_id bs) = 32" using assms by (simp add: length_hex_id)
  ultimately show ?thesis by (auto simp: is_path_safe_def Let_def str_bytes_def)
qed

lemma secret_generate_Ok_iff:
  "secret_generate r label val t = Ok s \<longleftrightarrow>
    check_label label = Ok () \<and> check_value val = Ok () \<and>
    s = \<lparr>ss_id = hex_id (sd_id r), ss_label = label, ss_created_at = t, ss_salt = sd_salt r,
        ss_value = val, ss_unknown = []\<rparr>"
  by (auto simp: secret_generate_def result_simps)

text \<open>The public commitment fixes salt and value, up to an explicit collision of the hash.\<close>

lemma commitment_binds:
  assumes "length salt = length salt'" and "commitment h salt val = commitment h salt' val'"
  shows "salt = salt' \<and> val = val' \<or>
    (\<exists>x y. x \<noteq> y \<and> h x = h y \<and> x = COMMIT_DOMAIN @ salt @ val \<and> y = COMMIT_DOMAIN @ salt' @ val')"
  using assms by (auto simp: commitment_def)

section \<open>The store refines a finite map\<close>

text \<open>The interface: a state machine with outputs implements another through an abstraction.\<close>

locale step_refinement =
  fixes cstep :: "'s \<Rightarrow> 'i \<Rightarrow> 'o \<times> 's" and astep :: "'t \<Rightarrow> 'i \<Rightarrow> 'o \<times> 't"
    and abs :: "'s \<Rightarrow> 't" and inv :: "'s \<Rightarrow> bool"
  assumes step_inv: "inv s \<Longrightarrow> inv (snd (cstep s i))"
    and step_abs: "inv s \<Longrightarrow> astep (abs s) i = (fst (cstep s i), abs (snd (cstep s i)))"

fun run_steps :: "('s \<Rightarrow> 'i \<Rightarrow> 'o \<times> 's) \<Rightarrow> 's \<Rightarrow> 'i list \<Rightarrow> 'o list \<times> 's" where
  "run_steps step s [] = ([], s)"
| "run_steps step s (i # is) =
    (let (out, s') = step s i; (outs, s'') = run_steps step s' is in (out # outs, s''))"

context step_refinement
begin

lemma run_abs:
  "inv s \<Longrightarrow> run_steps astep (abs s) is = (fst (run_steps cstep s is), abs (snd (run_steps cstep s is)))"
proof (induction "is" arbitrary: s)
  case (Cons i "is")
  then show ?case using step_inv [of s i] step_abs [of s i] by (simp add: case_prod_beta)
qed simp

lemma run_inv: "inv s \<Longrightarrow> inv (snd (run_steps cstep s is))"
proof (induction "is" arbitrary: s)
  case (Cons i "is")
  then show ?case using step_inv [of s i] by (simp add: case_prod_beta)
qed simp

end

text \<open>The operations of the trait and of the encoder, and what each returns.\<close>

datatype 'e store_call =
    Insert secret_draw string bytes u64
  | InsertSealed "'e sealed_secret"
  | Get string
  | Listing
  | Remove string

datatype 'e store_reply =
    Inserted "(secret_error, string) result"
  | Sealed "(secret_error, unit) result"
  | Got "'e sealed_secret option"
  | Listed "secret_meta list"
  | Removed bool

fun store_step :: "(bytes \<Rightarrow> bytes) \<Rightarrow> 'e secret_store \<Rightarrow> 'e store_call \<Rightarrow> 'e store_reply \<times> 'e secret_store" where
  "store_step h st (Insert r label val t) =
    (case store_insert st r label val t of Err e \<Rightarrow> (Inserted (Err e), st) | Ok (i, st') \<Rightarrow> (Inserted (Ok i), st'))"
| "store_step h st (InsertSealed s) =
    (case insert_sealed st s of Err e \<Rightarrow> (Sealed (Err e), st) | Ok st' \<Rightarrow> (Sealed (Ok ()), st'))"
| "store_step h st (Get i) = (Got (store_get st i), st)"
| "store_step h st Listing = (Listed (store_list h st), st)"
| "store_step h st (Remove i) = (case store_remove st i of (b, st') \<Rightarrow> (Removed b, st'))"

text \<open>The specification: a map from ids to records; a listing shows every record once, by id.\<close>

fun spec_step :: "(bytes \<Rightarrow> bytes) \<Rightarrow> (string \<rightharpoonup> 'e sealed_secret) \<Rightarrow> 'e store_call \<Rightarrow>
    'e store_reply \<times> (string \<rightharpoonup> 'e sealed_secret)" where
  "spec_step h m (Insert r label val t) =
    (if check_label label \<noteq> Ok () then (Inserted (Err BadLabel), m)
     else if check_value val \<noteq> Ok () then (Inserted (Err BadValue), m)
     else if hex_id (sd_id r) \<in> dom m then (Inserted (Err Duplicate), m)
     else (Inserted (Ok (hex_id (sd_id r))), m(hex_id (sd_id r) \<mapsto>
       \<lparr>ss_id = hex_id (sd_id r), ss_label = label, ss_created_at = t, ss_salt = sd_salt r,
        ss_value = val, ss_unknown = []\<rparr>)))"
| "spec_step h m (InsertSealed s) =
    (if ss_id s \<in> dom m then (Sealed (Err Duplicate), m) else (Sealed (Ok ()), m(ss_id s \<mapsto> s)))"
| "spec_step h m (Get i) = (Got (m i), m)"
| "spec_step h m Listing =
    (Listed (map (\<lambda>i. secret_meta_of h (the (m i))) (sorted_list_of_set (dom m))), m)"
| "spec_step h m (Remove i) = (Removed (i \<in> dom m), m(i := None))"

definition store_inv :: "'e secret_store \<Rightarrow> bool" where
  "store_inv st \<longleftrightarrow> sorted (map fst st) \<and> distinct (map fst st) \<and> (\<forall>(i, s) \<in> set st. ss_id s = i)"

lemma set_bt_insert: "set (map fst (bt_insert k v m)) = insert k (set (map fst m))"
  by (induction k v m rule: bt_insert.induct) auto

lemma map_of_bt_insert: "sorted (map fst m) \<Longrightarrow> map_of (bt_insert k v m) = (map_of m)(k \<mapsto> v)"
  by (induction k v m rule: bt_insert.induct) (auto simp: fun_eq_iff)

lemma sorted_bt_insert:
  "sorted (map fst m) \<Longrightarrow> distinct (map fst m) \<Longrightarrow>
    sorted (map fst (bt_insert k v m)) \<and> distinct (map fst (bt_insert k v m))"
proof (induction k v m rule: bt_insert.induct)
  case (2 k v k' v' m)
  have "set (map fst (bt_insert k v m)) = insert k (set (map fst m))" by (rule set_bt_insert)
  with 2 show ?case by (fastforce simp: less_imp_le)
qed simp

lemma set_bt_insert_subset: "set (bt_insert k v m) \<subseteq> insert (k, v) (set m)"
  by (induction k v m rule: bt_insert.induct) auto

lemma store_inv_insert: "store_inv st \<Longrightarrow> ss_id s = i \<Longrightarrow> store_inv (bt_insert i s st)"
  using sorted_bt_insert [of st i s] set_bt_insert_subset [of i s st] by (fastforce simp: store_inv_def)

lemma map_of_filter_key: "map_of (filter (\<lambda>e. fst e \<noteq> k) m) = (map_of m)(k := None)"
  by (induction m) (auto simp: fun_eq_iff)

lemma store_inv_remove: "store_inv st \<Longrightarrow> store_inv (bt_remove i st)"
  by (auto simp: store_inv_def bt_remove_def sorted_filter distinct_map_filter)

lemma list_by_key:
  assumes "sorted (map fst m)" and "distinct (map fst m)"
  shows "map (\<lambda>i. f (the (map_of m i))) (sorted_list_of_set (dom (map_of m))) = map (\<lambda>e. f (snd e)) m"
proof -
  have "sorted_list_of_set (dom (map_of m)) = map fst m"
    using assms by (simp add: dom_map_of_conv_image_fst sorted_list_of_set.idem_if_sorted_distinct flip: set_map)
  moreover have "map (\<lambda>i. f (the (map_of m i))) (map fst m) = map (\<lambda>e. f (snd e)) m"
    using assms(2) by auto
  ultimately show ?thesis by simp
qed

lemma dom_iff_lookup: "i \<in> dom (map_of st) \<longleftrightarrow> map_of st i \<noteq> None"
  by (simp add: dom_def)

interpretation store: step_refinement "store_step h" "spec_step h" map_of store_inv for h
proof
  fix st :: "'a secret_store" and c :: "'a store_call"
  assume inv: "store_inv st"
  have srt: "sorted (map fst st)" "distinct (map fst st)" using inv by (simp_all add: store_inv_def)
  show "store_inv (snd (store_step h st c))"
    by (cases c) (use inv in \<open>auto simp: store_insert_def insert_sealed_def store_remove_def store_inv_insert
        store_inv_remove result_simps secret_generate_Ok_iff split: result.splits prod.splits if_splits\<close>)
  show "spec_step h (map_of st) c = (fst (store_step h st c), map_of (snd (store_step h st c)))"
  proof (cases c)
    case (Insert r label val t)
    then show ?thesis
      using srt by (auto simp: store_insert_def insert_sealed_def secret_generate_def map_of_bt_insert dom_iff_lookup
          check_label_def check_value_def)
  next
    case (InsertSealed s)
    then show ?thesis using srt by (auto simp: insert_sealed_def map_of_bt_insert dom_iff_lookup)
  next
    case Listing
    then show ?thesis using list_by_key [OF srt, of "secret_meta_of h"] by (simp add: store_list_def)
  qed (simp_all add: store_get_def store_remove_def bt_remove_def map_of_filter_key dom_iff_lookup)
qed

text \<open>
  C36. The in-memory secret store refines a finite map: on every sequence of insertions of new and of
  sealed records, reads, listings and removals, every reply is the one of the map, where a refused
  insertion changes nothing and a listing shows each record once, in the order of the ids.
\<close>

theorem secret_store_refines_map:
  "fst (run_steps (store_step h) store_new calls) = fst (run_steps (spec_step h) Map.empty calls)"
proof -
  have "store_inv store_new" by (simp add: store_inv_def store_new_def)
  from store.run_abs [OF this, of h calls] show ?thesis by (simp add: store_new_def)
qed

end
