(* ===== verification/Secret_Codec.thy ===== *)
theory Secret_Codec
  imports Secret Gordian
begin

text \<open>
  The envelope of a sealed secret (\<open>identikey-secret\<close>, \<open>record.rs\<close>: \<open>to_envelope\<close>, \<open>from_envelope\<close>
  and their helpers), over the interface to Gordian envelopes.
\<close>

section \<open>Operations\<close>

definition SECRET_TYPE :: string where
  "SECRET_TYPE = ''identikey.sealed-secret''"

definition SECRET_FORMAT_VERSION :: u32 where
  "SECRET_FORMAT_VERSION = 1"

definition KNOWN :: "string list" where
  "KNOWN = [''label'', ''created'', ''salt'', ''value'']"

definition secret_subject :: "dcbor_ext \<Rightarrow> 'e sealed_secret \<Rightarrow> dmap" where
  "secret_subject E s = insert_all E
    [(''type'', DText SECRET_TYPE), (''format-version'', DUnsigned (ucast SECRET_FORMAT_VERSION)), (''id'', DText (ss_id s))]"

definition secret_to_envelope ::
  "('e, 'x) gordian_scheme \<Rightarrow> dcbor_ext \<Rightarrow> 'e sealed_secret \<Rightarrow> (secret_error, 'e) result" where
  "secret_to_envelope G E s =
    (let envelope = ev_new G (DMap (secret_subject E s));
         envelope = ev_add_assertion G envelope (ev_text G ''label'') (ev_text G (ss_label s));
         created = DTagged 1 (DUnsigned (ss_created_at s));
         envelope = ev_add_assertion G envelope (ev_text G ''created'') (ev_new G created);
         envelope = ev_add_assertion G envelope (ev_text G ''salt'') (ev_new G (DBytes (ss_salt s)));
         envelope = ev_add_assertion G envelope (ev_text G ''value'') (ev_new G (DBytes (ss_value s)))
     in add_unknown G EnvelopeError (ss_unknown s) envelope)"

definition secret_created_at :: "('e, 'x) gordian_scheme \<Rightarrow> 'e \<Rightarrow> (secret_error, u64) result" where
  "secret_created_at G e =
    bind (ok_or (ev_object_for G e ''created'') EnvelopeError) (\<lambda>obj.
    bind (ok_or (ev_try_leaf G obj) EnvelopeError) (\<lambda>cbor.
    bind (map_err (\<lambda>_. EnvelopeError) (try_into_tagged_value cbor)) (\<lambda>(tag, v).
    map_err (\<lambda>_. EnvelopeError) (try_u64 v))))"

definition secret_from_envelope ::
  "('e, 'x) gordian_scheme \<Rightarrow> dcbor_ext \<Rightarrow> 'e \<Rightarrow> (secret_error, 'e sealed_secret) result" where
  "secret_from_envelope G E e =
    bind (ok_or (ev_try_leaf G (ev_subject G e)) EnvelopeError) (\<lambda>subject_cbor.
    bind (map_err (\<lambda>_. EnvelopeError) (try_into_map subject_cbor)) (\<lambda>subject.
    bind (ok_or (map_get E try_text subject ''type'') EnvelopeError) (\<lambda>ty.
    if ty \<noteq> SECRET_TYPE then Err EnvelopeError
    else bind (ok_or (map_get E try_u32 subject ''format-version'') EnvelopeError) (\<lambda>version.
    if version \<noteq> SECRET_FORMAT_VERSION then Err EnvelopeError
    else bind (ok_or (map_get E try_text subject ''id'') EnvelopeError) (\<lambda>id_text.
    bind (secret_id_new id_text) (\<lambda>i.
    bind (ok_or (extract_as try_text (ev_extract_for G e ''label'')) EnvelopeError) (\<lambda>label.
    bind (check_label label) (\<lambda>_.
    bind (secret_created_at G e) (\<lambda>created_at.
    bind (ok_or (extract_as try_byte_string (ev_extract_for G e ''salt'')) EnvelopeError) (\<lambda>salt.
    if length salt \<noteq> 32 then Err EnvelopeError
    else bind (ok_or (extract_as try_byte_string (ev_extract_for G e ''value'')) EnvelopeError) (\<lambda>val.
    bind (check_value val) (\<lambda>_.
    Ok \<lparr>ss_id = i, ss_label = label, ss_created_at = created_at, ss_salt = salt, ss_value = val,
        ss_unknown = collect_unknown G (known_digests G KNOWN) (ev_assertions G e)\<rparr>))))))))))))"

section \<open>Laws\<close>

text \<open>A record as \<open>generate\<close> makes it and as the decoder accepts it.\<close>

definition secret_ok :: "'e sealed_secret \<Rightarrow> bool" where
  "secret_ok s \<longleftrightarrow> is_path_safe (ss_id s) \<and> check_label (ss_label s) = Ok () \<and> check_value (ss_value s) = Ok () \<and>
    length (ss_salt s) = 32"

lemma generated_secret_ok: "draw_ok r \<Longrightarrow> secret_generate r label val t = Ok s \<Longrightarrow> secret_ok s"
  by (auto simp: secret_ok_def draw_ok_def secret_generate_Ok_iff hex_id_path_safe)

definition secret_assertions :: "('e, 'x) gordian_scheme \<Rightarrow> 'e sealed_secret \<Rightarrow> ('e \<times> 'e) list" where
  "secret_assertions G s =
    [(ev_text G ''label'', ev_text G (ss_label s)),
     (ev_text G ''created'', ev_new G (DTagged 1 (DUnsigned (ss_created_at s)))),
     (ev_text G ''salt'', ev_new G (DBytes (ss_salt s))),
     (ev_text G ''value'', ev_new G (DBytes (ss_value s)))] @ ss_unknown s"

text \<open>
  No two digests clash: those of the known predicates, those of the assertions, and a preserved
  assertion is none with a known predicate.
\<close>

definition secret_digests_ok :: "('e, 'x) gordian_scheme \<Rightarrow> 'e sealed_secret \<Rightarrow> bool" where
  "secret_digests_ok G s \<longleftrightarrow> distinct (known_digests G KNOWN) \<and> distinct_assertions G (secret_assertions G s) \<and>
    (\<forall>(p, ob) \<in> set (ss_unknown s). ev_digest G p \<notin> set (known_digests G KNOWN))"

lemma secret_to_envelope_holds:
  assumes "gordian_ok G" and "secret_digests_ok G s"
  shows "\<exists>e. secret_to_envelope G E s = Ok e \<and> holds G e (DMap (secret_subject E s)) (secret_assertions G s)"
proof -
  let ?c = "DMap (secret_subject E s)"
  have "secret_to_envelope G E s = Ok (add_all G (secret_assertions G s) (ev_new G ?c))"
    by (simp add: secret_to_envelope_def add_unknown_all [OF assms(1)] secret_assertions_def add_all_def Let_def)
  moreover have "holds G (add_all G (secret_assertions G s) (ev_new G ?c)) ?c (secret_assertions G s)"
    using add_all_holds [OF assms(1) holds_new [OF assms(1)]] assms(2) by (simp add: secret_digests_ok_def)
  ultimately show ?thesis by blast
qed

lemma secret_subject_lookup:
  assumes "ext_ok E"
  shows "map_get E try_text (secret_subject E s) ''type'' = Some SECRET_TYPE"
    and "map_get E try_u32 (secret_subject E s) ''format-version'' = Some SECRET_FORMAT_VERSION"
    and "map_get E try_text (secret_subject E s) ''id'' = Some (ss_id s)"
proof -
  have t: "text_ok E ''type''" "text_ok E ''format-version''" "text_ok E ''id''"
    using assms by (simp_all add: text_ok_ascii ascii_def)
  then have "fields_ok E [(''type'', x), (''format-version'', y), (''id'', z)]" for x y z
    by (simp add: fields_ok_def)
  from lookup_insert_all [OF this] t show "map_get E try_text (secret_subject E s) ''type'' = Some SECRET_TYPE"
    "map_get E try_u32 (secret_subject E s) ''format-version'' = Some SECRET_FORMAT_VERSION"
    "map_get E try_text (secret_subject E s) ''id'' = Some (ss_id s)"
    by (simp_all add: map_get_def secret_subject_def SECRET_FORMAT_VERSION_def)
qed

lemma secret_lookups:
  assumes "gordian_ok G" and "secret_digests_ok G s" and "holds G e c (secret_assertions G s)"
  shows "ev_extract_for G e ''label'' = Some (DText (ss_label s))"
    and "ev_object_for G e ''created'' = Some (ev_new G (DTagged 1 (DUnsigned (ss_created_at s))))"
    and "ev_extract_for G e ''salt'' = Some (DBytes (ss_salt s))"
    and "ev_extract_for G e ''value'' = Some (DBytes (ss_value s))"
proof -
  have un: "objects_for G (ss_unknown s) k = []" if "k \<in> set KNOWN" for k
    using objects_for_unknown [OF that, of "ss_unknown s" G] assms(2) by (auto simp: secret_digests_ok_def)
  have d: "distinct (known_digests G KNOWN)" using assms(2) by (simp add: secret_digests_ok_def)
  have ex: "ev_extract G (ev_new G v) = Some v" for v using assms(1) by (simp add: gordian_ok_def)
  note look = lookup_one [OF assms(1,3)]
  have "objects_for G (secret_assertions G s) ''label'' = [ev_text G (ss_label s)]"
    "objects_for G (secret_assertions G s) ''created'' = [ev_new G (DTagged 1 (DUnsigned (ss_created_at s)))]"
    "objects_for G (secret_assertions G s) ''salt'' = [ev_new G (DBytes (ss_salt s))]"
    "objects_for G (secret_assertions G s) ''value'' = [ev_new G (DBytes (ss_value s))]"
    using un d by (simp_all add: secret_assertions_def KNOWN_def known_digests_def eq_commute)
  from look(2) [OF this(1)] look(1) [OF this(2)] look(2) [OF this(3)] look(2) [OF this(4)] ex
  show "ev_extract_for G e ''label'' = Some (DText (ss_label s))"
    "ev_object_for G e ''created'' = Some (ev_new G (DTagged 1 (DUnsigned (ss_created_at s))))"
    "ev_extract_for G e ''salt'' = Some (DBytes (ss_salt s))"
    "ev_extract_for G e ''value'' = Some (DBytes (ss_value s))"
    by (simp_all add: ev_text_def)
qed

lemma secret_from_holding:
  assumes "gordian_ok G" and "ext_ok E" and "secret_ok s" and "secret_digests_ok G s"
    and "holds G e (DMap (secret_subject E s)) (secret_assertions G s)"
  shows "\<exists>us. secret_from_envelope G E e = Ok (s\<lparr>ss_unknown := us\<rparr>) \<and> mset us = mset (ss_unknown s)"
proof -
  let ?us = "collect_unknown G (known_digests G KNOWN) (ev_assertions G e)"
  have leaf: "ev_try_leaf G (ev_subject G e) = Some (DMap (secret_subject E s))"
    using assms(1,5) by (simp add: holds_def gordian_ok_def)
  have created: "secret_created_at G e = Ok (ss_created_at s)"
    using assms(1) secret_lookups(2) [OF assms(1,4,5)] by (simp add: secret_created_at_def gordian_ok_def)
  have "secret_from_envelope G E e = Ok (s\<lparr>ss_unknown := ?us\<rparr>)"
    using assms(3) leaf created secret_lookups [OF assms(1,4,5)]
    by (simp add: secret_from_envelope_def secret_subject_lookup [OF assms(2)] extract_as_def secret_id_new_def secret_ok_def)
  moreover have "filter (\<lambda>(p, ob). ev_digest G p \<notin> set (known_digests G KNOWN)) (secret_assertions G s) = ss_unknown s"
    using assms(4) by (auto simp: secret_assertions_def secret_digests_ok_def known_digests_def KNOWN_def filter_id_conv)
  with unknown_of_holds [OF assms(1,5), of "known_digests G KNOWN"] have "mset ?us = mset (ss_unknown s)" by simp
  ultimately show ?thesis by blast
qed

text \<open>
  A sealed secret that its envelope carries is decoded to the same id, label, time, salt and
  value, and the assertions the decoder does not know are all kept, in the order of the envelope.
\<close>

lemma secret_envelope_roundtrip:
  assumes "gordian_ok G" and "ext_ok E" and "secret_ok s" and "secret_digests_ok G s"
  shows "\<exists>e us. secret_to_envelope G E s = Ok e \<and> secret_from_envelope G E e = Ok (s\<lparr>ss_unknown := us\<rparr>) \<and>
    mset us = mset (ss_unknown s)"
  using secret_to_envelope_holds [OF assms(1,4), of E] secret_from_holding [OF assms] by blast

definition demo_secret :: "toy_env sealed_secret" where
  "demo_secret = \<lparr>ss_id = ''pat'', ss_label = ''github'', ss_created_at = 20, ss_salt = replicate 32 7,
    ss_value = [1, 2, 3], ss_unknown = [(ToyLeaf (DText ''note''), ToyLeaf (DText ''desk''))]\<rparr>"

lemma demo_secret_ok: "secret_ok demo_secret" "secret_digests_ok toy_gordian demo_secret"
proof -
  have "is_path_safe ''pat''" by code_simp
  then show "secret_ok demo_secret"
    by (simp add: secret_ok_def demo_secret_def check_label_def check_value_def MAX_VALUE_LEN_def)
  show "secret_digests_ok toy_gordian demo_secret"
    by (simp add: secret_digests_ok_def demo_secret_def secret_assertions_def distinct_assertions_def KNOWN_def known_digests_def)
qed

lemma secret_envelope_roundtrip_witness:
  "\<exists>e. secret_to_envelope toy_gordian ascii_ext demo_secret = Ok e \<and>
    secret_from_envelope toy_gordian ascii_ext e = Ok demo_secret"
proof -
  have one: "us = ss_unknown demo_secret" if "mset us = mset (ss_unknown demo_secret)" for us
    using that by (simp add: demo_secret_def)
  then have "demo_secret\<lparr>ss_unknown := us\<rparr> = demo_secret" if "mset us = mset (ss_unknown demo_secret)" for us
    using that by simp
  with secret_envelope_roundtrip [OF toy_gordian_ok ascii_ext_ok demo_secret_ok] show ?thesis by metis
qed

end
