(* ===== verification/Base58.thy ===== *)
theory Base58
  imports Prelude "HOL-Library.While_Combinator"
begin

text \<open>
  The base58 encoder of \<open>identikey-wallet\<close> (\<open>basic.rs\<close>), which prints fingerprints. Digits are kept
  little-endian in bytes and the carry in 32 bits, as in the source.
\<close>

section \<open>The encoder\<close>

definition ALPHABET :: string where
  "ALPHABET = ''123456789ABCDEFGHJKLMNPQRSTUVWXYZabcdefghijkmnopqrstuvwxyz''"

text \<open>The loop over the digits: multiply by 256 and add the carry.\<close>

fun carry_digits :: "u32 \<Rightarrow> u8 list \<Rightarrow> u8 list \<times> u32" where
  "carry_digits carry [] = ([], carry)"
| "carry_digits carry (digit # digits) =
    (let carry = carry + push_bit 8 (ucast digit);
         (digits', carry') = carry_digits (carry div 58) digits
     in (ucast (carry mod 58) # digits', carry'))"

text \<open>The loop \<open>while carry > 0\<close>.\<close>

function push_carry :: "u32 \<Rightarrow> u8 list" where
  "push_carry carry = (if carry > 0 then ucast (carry mod 58) # push_carry (carry div 58) else [])"
  by auto

termination
proof (relation "measure unat")
  show "wf (measure unat)" by simp
  fix carry :: u32 assume "0 < carry"
  then show "(carry div 58, carry) \<in> measure unat" by (simp add: word_less_nat_alt unat_div)
qed

declare push_carry.simps [simp del]

definition add_byte :: "u8 list \<Rightarrow> u8 \<Rightarrow> u8 list" where
  "add_byte digits byte = (let (digits', carry) = carry_digits (ucast byte) digits in digits' @ push_carry carry)"

definition bs58_digits :: "bytes \<Rightarrow> u8 list" where
  "bs58_digits bs = foldl add_byte [] bs"

definition bs58_encode :: "bytes \<Rightarrow> string" where
  "bs58_encode bs =
    (let digits = bs58_digits bs; leading_zeros = length (takeWhile (\<lambda>b. b = 0) bs)
     in replicate leading_zeros (CHR ''1'') @ map (\<lambda>d. ALPHABET ! unat d) (rev digits))"

section \<open>What the digits mean\<close>

primrec digits_value :: "u8 list \<Rightarrow> nat" where
  "digits_value [] = 0"
| "digits_value (d # ds) = unat d + 58 * digits_value ds"

lemma digits_value_append: "digits_value (ds @ es) = digits_value ds + 58 ^ length ds * digits_value es"
  by (induction ds) (auto simp: algebra_simps)

definition base58_digits :: "u8 list \<Rightarrow> bool" where
  "base58_digits ds \<longleftrightarrow> (\<forall>d \<in> set ds. unat d < 58)"

text \<open>With a carry below 256 nothing overflows: the 32-bit sum stays below 2 to the 14.\<close>

lemma unat_numeral_58: "unat (58 :: u32) = 58"
  by simp

lemma carry_digits_step:
  assumes "unat (carry :: u32) < 256" and "unat (d :: u8) < 58"
  defines "c \<equiv> carry + push_bit 8 (ucast d)"
  shows "unat c = unat carry + 256 * unat d" and "unat (c div 58) < 256"
    and "unat (ucast (c mod 58) :: u8) = unat c mod 58"
proof -
  have "unat (push_bit 8 (ucast d :: u32)) = 256 * unat d"
    using assms(2) by (simp add: push_bit_eq_mult unat_word_ariths unsigned_ucast_eq take_bit_eq_mod)
  then show c: "unat c = unat carry + 256 * unat d"
    using assms(1,2) by (simp add: c_def unat_word_ariths)
  show "unat (c div 58) < 256" using c assms(1,2) by (simp add: unat_div)
  have "unat c mod 58 < 256" by (rule order_less_trans [of _ 58]) simp_all
  then show "unat (ucast (c mod 58) :: u8) = unat c mod 58"
    by (simp add: unsigned_ucast_eq take_bit_eq_mod unat_mod)
qed

lemma carry_digits_value:
  assumes "carry_digits carry ds = (ds', carry')" and "unat carry < 256" and "base58_digits ds"
  shows "digits_value ds' + 58 ^ length ds * unat carry' = 256 * digits_value ds + unat carry \<and>
    unat carry' < 256 \<and> base58_digits ds' \<and> length ds' = length ds"
  using assms
proof (induction ds arbitrary: carry ds')
  case Nil
  then show ?case by (simp add: base58_digits_def)
next
  case (Cons d ds)
  let ?c = "carry + push_bit 8 (ucast d)"
  obtain es where es: "carry_digits (?c div 58) ds = (es, carry')" and ds': "ds' = ucast (?c mod 58) # es"
    using Cons.prems(1) by (auto simp: Let_def split: prod.splits)
  have "unat d < 58" "base58_digits ds" using Cons.prems(3) by (simp_all add: base58_digits_def)
  note st = carry_digits_step [OF Cons.prems(2) this(1)]
  from Cons.IH [OF es st(2) \<open>base58_digits ds\<close>] have ih:
    "digits_value es + 58 ^ length ds * unat carry' = 256 * digits_value ds + unat (?c div 58)"
    "unat carry' < 256" "base58_digits es" "length es = length ds" by auto
  have "digits_value ds' + 58 ^ length (d # ds) * unat carry' =
      unat ?c mod 58 + 58 * (digits_value es + 58 ^ length ds * unat carry')"
    by (simp add: ds' st(3) algebra_simps)
  also have "\<dots> = 256 * digits_value (d # ds) + unat carry"
    by (simp add: ih(1) unat_div st(1))
  finally show ?case using ih st(3) by (simp add: ds' base58_digits_def)
qed

lemma push_carry_value:
  "digits_value (push_carry c) = unat c \<and> base58_digits (push_carry c) \<and> (push_carry c \<noteq> [] \<longrightarrow> last (push_carry c) \<noteq> 0)"
proof (induction c rule: push_carry.induct)
  case (1 c)
  have m: "unat (ucast (c mod 58) :: u8) = unat c mod 58"
  proof -
    have "unat c mod 58 < 256" by (rule order_less_trans [of _ 58]) simp_all
    then show ?thesis by (simp add: unsigned_ucast_eq take_bit_eq_mod unat_mod)
  qed
  show ?case
  proof (cases "c > 0")
    case True
    note ih = 1 [OF True]
    have nz: "last (push_carry c) \<noteq> 0"
    proof (cases "push_carry (c div 58) = []")
      case True
      then have "c div 58 = 0" by (simp add: push_carry.simps [of "c div 58"] word_gt_0 split: if_splits)
      then have "unat c div 58 = 0" by (metis unat_0 unat_div unat_numeral_58)
      then have "unat c < 58" by simp
      with \<open>c > 0\<close> m True show ?thesis
        by (auto simp: push_carry.simps [of c] word_unat_eq_iff word_less_nat_alt)
    next
      case False
      with ih True show ?thesis by (simp add: push_carry.simps [of c])
    qed
    have "digits_value (push_carry c) = unat c"
      using ih m True by (simp add: push_carry.simps [of c] unat_div)
    moreover have "base58_digits (push_carry c)"
      using ih m True by (simp add: push_carry.simps [of c] base58_digits_def)
    ultimately show ?thesis using nz by simp
  next
    case False
    then have "c = 0" by (simp add: word_gt_0)
    moreover have "push_carry 0 = []" by (simp add: push_carry.simps [of 0])
    ultimately show ?thesis by (simp add: base58_digits_def)
  qed
qed

text \<open>
  One byte more: the value is shifted by a byte, the digits stay in range, and no leading (here last)
  digit is 0.
\<close>

definition canonical_digits :: "u8 list \<Rightarrow> bool" where
  "canonical_digits ds \<longleftrightarrow> base58_digits ds \<and> (ds \<noteq> [] \<longrightarrow> last ds \<noteq> 0)"

lemma digits_value_0: "digits_value ds = 0 \<Longrightarrow> ds \<noteq> [] \<Longrightarrow> last ds = 0"
  by (induction ds) (auto simp: unat_eq_0)

lemma digits_value_less: "base58_digits ds \<Longrightarrow> digits_value ds < 58 ^ length ds"
  by (induction ds) (fastforce simp: base58_digits_def)+

lemma digits_value_last: "ds \<noteq> [] \<Longrightarrow> last ds \<noteq> 0 \<Longrightarrow> 58 ^ (length ds - 1) \<le> digits_value ds"
proof (induction ds)
  case (Cons d ds)
  show ?case
  proof (cases ds)
    case Nil
    with Cons.prems show ?thesis by (simp add: unat_gt_0 Suc_le_eq)
  next
    case (Cons e es)
    with Cons.IH Cons.prems have "58 ^ (length ds - 1) \<le> digits_value ds" by simp
    with \<open>ds = e # es\<close> show ?thesis by simp
  qed
qed simp

lemma add_byte_value:
  assumes "canonical_digits ds"
  shows "digits_value (add_byte ds b) = 256 * digits_value ds + unat b" and "canonical_digits (add_byte ds b)"
proof -
  obtain es c where es: "carry_digits (ucast b) ds = (es, c)" by (cases "carry_digits (ucast b) ds")
  have ub: "unat (ucast b :: u32) = unat b" "unat (ucast b :: u32) < 256"
    using unsigned_less [of b, where ?'a = nat] by (simp_all add: unsigned_ucast_eq take_bit_eq_mod)
  have v: "digits_value es + 58 ^ length ds * unat c = 256 * digits_value ds + unat b"
      "base58_digits es" "length es = length ds"
    using carry_digits_value [OF es ub(2)] assms ub(1) by (auto simp: canonical_digits_def)
  have add: "add_byte ds b = es @ push_carry c" by (simp add: add_byte_def es)
  show val: "digits_value (add_byte ds b) = 256 * digits_value ds + unat b"
    using v push_carry_value [of c] by (simp add: add digits_value_append)
  have "base58_digits (add_byte ds b)" using v push_carry_value [of c] by (auto simp: add base58_digits_def)
  moreover have "last (add_byte ds b) \<noteq> 0" if "add_byte ds b \<noteq> []"
  proof (cases "push_carry c = []")
    case False
    with push_carry_value [of c] show ?thesis by (simp add: add)
  next
    case True
    then have "es \<noteq> []" "ds \<noteq> []" using that v(3) by (auto simp: add)
    have "unat c = 0" using push_carry_value [of c] True by simp
    then have "digits_value es = 256 * digits_value ds + unat b" using v(1) by simp
    moreover have "58 ^ (length ds - 1) \<le> digits_value ds"
      using assms \<open>ds \<noteq> []\<close> by (intro digits_value_last) (auto simp: canonical_digits_def)
    ultimately have big: "58 ^ (length es - 1) \<le> digits_value es" using v(3) by simp
    show ?thesis
    proof
      assume "last (add_byte ds b) = 0"
      then have "es = butlast es @ [0]" using True \<open>es \<noteq> []\<close> by (simp add: add) (metis append_butlast_last_id)
      then have "digits_value es = digits_value (butlast es)"
        by (metis add.right_neutral digits_value.simps digits_value_append mult_0_right unat_0)
      moreover have "base58_digits (butlast es)" using v(2) by (auto simp: base58_digits_def dest: in_set_butlastD)
      ultimately show False using digits_value_less [of "butlast es"] big by simp
    qed
  qed
  ultimately show "canonical_digits (add_byte ds b)" by (simp add: canonical_digits_def)
qed

lemma bs58_digits_value: "digits_value (bs58_digits bs) = be_to_nat bs \<and> canonical_digits (bs58_digits bs)"
proof (induction bs rule: rev_induct)
  case Nil
  then show ?case by (simp add: bs58_digits_def canonical_digits_def base58_digits_def)
next
  case (snoc b bs)
  then show ?case
    using add_byte_value [of "bs58_digits bs" b] by (simp add: bs58_digits_def be_to_nat_snoc)
qed

section \<open>Decoding\<close>

text \<open>The standard reading of a base58 text: leading ones are zero bytes, the rest is one number.\<close>

definition alphabet_index :: "char \<Rightarrow> nat" where
  "alphabet_index c = length (takeWhile (\<lambda>a. a \<noteq> c) ALPHABET)"

fun minimal_be :: "nat \<Rightarrow> bytes" where
  "minimal_be n = (if n = 0 then [] else minimal_be (n div 256) @ [word_of_nat (n mod 256)])"

declare minimal_be.simps [simp del]

definition bs58_decode :: "string \<Rightarrow> bytes" where
  "bs58_decode s =
    (let ones = length (takeWhile (\<lambda>c. c = CHR ''1'') s)
     in replicate ones 0 @ minimal_be (foldl (\<lambda>n c. 58 * n + alphabet_index c) 0 (drop ones s)))"

lemma minimal_be_snoc:
  "be_to_nat bs * 256 + unat b \<noteq> 0 \<Longrightarrow> minimal_be (be_to_nat (bs @ [b])) = minimal_be (be_to_nat bs) @ [b]"
  using unsigned_less [of b, where ?'a = nat]
  by (subst minimal_be.simps) (simp add: be_to_nat_snoc)

lemma minimal_be_of_be: "(bs = [] \<or> hd bs \<noteq> 0) \<Longrightarrow> minimal_be (be_to_nat bs) = bs \<and> (bs \<noteq> [] \<longrightarrow> be_to_nat bs \<noteq> 0)"
proof (induction bs rule: rev_induct)
  case Nil
  then show ?case by (simp add: minimal_be.simps)
next
  case (snoc b bs)
  have ih: "minimal_be (be_to_nat bs) = bs" "bs \<noteq> [] \<longrightarrow> be_to_nat bs \<noteq> 0"
    using snoc by (cases bs; auto)+
  have "be_to_nat bs * 256 + unat b \<noteq> 0"
    using ih(2) snoc.prems by (cases "bs = []") (auto simp: unat_eq_0)
  then show ?case using minimal_be_snoc [of bs b] ih(1) by (simp add: be_to_nat_snoc)
qed

lemma takeWhile_nth_distinct: "distinct xs \<Longrightarrow> i < length xs \<Longrightarrow> length (takeWhile (\<lambda>a. a \<noteq> xs ! i) xs) = i"
proof (induction xs arbitrary: i)
  case (Cons x xs)
  then show ?case by (cases i) auto
qed simp

lemma alphabet_props: "length ALPHABET = 58" "distinct ALPHABET" "ALPHABET ! 0 = CHR ''1''"
  by (simp_all add: ALPHABET_def)

lemma alphabet_index_nth: "i < 58 \<Longrightarrow> alphabet_index (ALPHABET ! i) = i"
  by (simp add: alphabet_index_def takeWhile_nth_distinct alphabet_props)

lemma read_digits:
  "base58_digits ds \<Longrightarrow>
    foldl (\<lambda>n c. 58 * n + alphabet_index c) 0 (map (\<lambda>d. ALPHABET ! unat d) (rev ds)) = digits_value ds"
  by (induction ds) (auto simp: base58_digits_def alphabet_index_nth)

lemma ones_of_encoding:
  assumes "canonical_digits ds"
  shows "takeWhile (\<lambda>c. c = CHR ''1'') (replicate n (CHR ''1'') @ map (\<lambda>d. ALPHABET ! unat d) (rev ds)) = replicate n (CHR ''1'')"
proof (cases "ds = []")
  case False
  then obtain e es where "rev ds = e # es" "e = last ds" by (cases "rev ds") (auto simp: hd_rev [symmetric])
  moreover from this have "e \<noteq> 0" "unat e < 58"
    using assms False by (auto simp: canonical_digits_def base58_digits_def)
  then have "ALPHABET ! unat e \<noteq> ALPHABET ! 0"
    by (subst nth_eq_iff_index_eq [OF alphabet_props(2)]) (simp_all add: alphabet_props(1) unat_eq_0)
  ultimately have "takeWhile (\<lambda>c. c = CHR ''1'') (map (\<lambda>d. ALPHABET ! unat d) (rev ds)) = []"
    unfolding \<open>rev ds = e # es\<close> by (simp add: alphabet_props)
  then show ?thesis by (simp add: takeWhile_append)
qed simp

text \<open>
  Decoding the base58 text of any byte string returns the byte string: the 32-bit carry never
  overflows, the leading zero bytes are kept as leading ones, and so distinct fingerprints are
  printed differently.
\<close>

lemma bs58_roundtrip: "bs58_decode (bs58_encode bs) = bs"
proof -
  let ?z = "takeWhile (\<lambda>b. b = 0) bs" and ?r = "dropWhile (\<lambda>b. b = 0) bs"
  have z: "?z = replicate (length ?z) 0" by (rule replicate_length_same [symmetric]) (auto dest: set_takeWhileD)
  have r: "?r = [] \<or> hd ?r \<noteq> 0" using hd_dropWhile [of "\<lambda>b. b = 0" bs] by auto
  have "be_to_nat bs = be_to_nat ?r"
    by (metis be_to_nat_leading_zeros takeWhile_dropWhile_id z)
  with minimal_be_of_be [OF r] have m: "minimal_be (be_to_nat bs) = ?r" by simp
  note d = bs58_digits_value [of bs]
  have "bs58_decode (bs58_encode bs) = replicate (length ?z) 0 @ minimal_be (digits_value (bs58_digits bs))"
    using d by (simp add: bs58_decode_def bs58_encode_def Let_def ones_of_encoding read_digits canonical_digits_def)
  with d m show ?thesis by (metis takeWhile_dropWhile_id z)
qed

section \<open>The loops end, within the allocation\<close>

text \<open>One round of \<open>while carry > 0\<close>: push a digit, divide the carry.\<close>

definition carry_round :: "u8 list \<times> u32 \<Rightarrow> u8 list \<times> u32" where
  "carry_round = (\<lambda>(digits, carry). (digits @ [ucast (carry mod 58)], carry div 58))"

lemma carry_loop: "while_option (\<lambda>(digits, carry). carry > 0) carry_round (digits, carry) = Some (digits @ push_carry carry, 0)"
proof (induction carry arbitrary: digits rule: push_carry.induct)
  case (1 carry)
  show ?case
  proof (cases "carry > 0")
    case True
    then show ?thesis
      using 1 [OF True] by (subst while_option_unfold) (simp add: carry_round_def push_carry.simps [of carry])
  next
    case False
    then have "carry = 0" by (simp add: word_gt_0)
    then show ?thesis by (subst while_option_unfold) (simp add: push_carry.simps [of 0])
  qed
qed

text \<open>A byte adds at most 1.38 digits, since 256 to the 100 is below 58 to the 138.\<close>

lemma digits_of_value:
  assumes "canonical_digits ds" and "digits_value ds < 256 ^ n"
  shows "length ds \<le> n * 138 div 100 + 1"
proof (rule ccontr)
  assume "\<not> ?thesis"
  then have l: "138 * n \<le> 100 * (length ds - 1)" and ne: "ds \<noteq> []" by auto
  have "(58 :: nat) ^ (length ds - 1) < 256 ^ n"
    using digits_value_last [OF ne] assms ne by (simp add: canonical_digits_def)
  then have "((58 :: nat) ^ (length ds - 1)) ^ 100 < (256 ^ n) ^ 100" by (rule power_strict_mono) simp_all
  also have "((256 :: nat) ^ n) ^ 100 = (256 ^ 100) ^ n" by (simp only: power_mult [symmetric] mult.commute)
  also have "((256 :: nat) ^ 100) ^ n \<le> (58 ^ 138) ^ n" by (rule power_mono) simp_all
  also have "\<dots> = (58 :: nat) ^ (138 * n)" by (rule power_mult [symmetric])
  also have "\<dots> \<le> 58 ^ (100 * (length ds - 1))" by (rule power_increasing [OF l]) simp
  also have "\<dots> = ((58 :: nat) ^ (length ds - 1)) ^ 100" by (subst mult.commute) (rule power_mult)
  finally show False by simp
qed

text \<open>
  C38. The base58 encoder terminates within its allocation: the loop that pushes the carry, run round by round, ends for every 32-bit
  carry and every digit vector with the digits of the model and carry 0, and the digits of a byte string never
  outgrow the capacity that was reserved for them.
\<close>

theorem bs58_loops_end:
  "while_option (\<lambda>(digits, carry). carry > 0) carry_round (digits, carry) = Some (digits @ push_carry carry, 0) \<and>
   length (bs58_digits bs) \<le> length bs * 138 div 100 + 1"
  using carry_loop digits_of_value [of "bs58_digits bs" "length bs"] bs58_digits_value [of bs] be_to_nat_less [of bs] by simp

end
