(* ===== verification/Identity.thy ===== *)
theory Identity
  imports Secret_Codec Base58
begin

text \<open>
  The built-in identity of \<open>identikey-wallet\<close> (\<open>basic.rs\<close>) and the trait \<open>WalletIdentity\<close> of
  \<open>envelope.rs\<close>, over the interface to Gordian envelopes. Blake3 is the argument \<open>h\<close>.
\<close>

section \<open>Errors and records\<close>

text \<open>
  The wallet reports errors as texts. Each text is a constructor; the texts of foreign errors inside
  them are not kept.
\<close>

datatype wallet_error =
    SubjectNotLeaf
  | SubjectNotMap
  | SubjectMissing string
  | WrongSubjectType string
  | UnsupportedFormatVersion u32
  | FingerprintLength
  | MissingAssertion string
  | CreatedNotLeaf
  | CreatedNotTagged
  | CreatedNotInteger
  | HalfPqKeyPair
  | FingerprintMismatch
  | UnknownAssertion
  | SealedSecretError secret_error
  | DuplicateIdentity string
  | EnvelopeParse
  | SaltTooShort
  | FileTooShort
  | BadMagic
  | V1Rejected string
  | UnsupportedWalletVersion u8
  | EncryptionFailed
  | DecryptionFailed
  | KeyDerivationFailed

record key_pair =
  kp_public :: bytes
  kp_secret :: bytes

record 'e basic_identity =
  bi_created_at :: u64
  bi_fingerprint :: bytes
  bi_ed25519 :: key_pair
  bi_ml_dsa :: "key_pair option"
  bi_unknown :: "('e \<times> 'e) list"

definition IDENTITY_TYPE :: string where
  "IDENTITY_TYPE = ''identikey.identity''"

definition IDENTITY_FORMAT_VERSION :: u32 where
  "IDENTITY_FORMAT_VERSION = 1"

definition IDENTITY_PREDICATES :: "string list" where
  "IDENTITY_PREDICATES = [''created'', ''ed25519-public'', ''ed25519-secret'', ''ml-dsa-public'', ''ml-dsa-secret'', ''name'']"

definition basic_identity_new :: "(bytes \<Rightarrow> bytes) \<Rightarrow> u64 \<Rightarrow> bytes \<Rightarrow> bytes \<Rightarrow> 'e basic_identity" where
  "basic_identity_new h created_at ed25519_public ed25519_secret =
    \<lparr>bi_created_at = created_at, bi_fingerprint = h ed25519_public,
     bi_ed25519 = \<lparr>kp_public = ed25519_public, kp_secret = ed25519_secret\<rparr>, bi_ml_dsa = None, bi_unknown = []\<rparr>"

definition fingerprint_b58 :: "'e basic_identity \<Rightarrow> string" where
  "fingerprint_b58 i = bs58_encode (bi_fingerprint i)"

section \<open>The codec\<close>

definition identity_subject :: "dcbor_ext \<Rightarrow> 'e basic_identity \<Rightarrow> dmap" where
  "identity_subject E i = insert_all E
    [(''type'', DText IDENTITY_TYPE), (''format-version'', DUnsigned (ucast IDENTITY_FORMAT_VERSION)),
     (''fingerprint'', DBytes (bi_fingerprint i))]"

definition identity_to_envelope ::
  "(bytes \<Rightarrow> bytes) \<Rightarrow> ('e, 'x) gordian_scheme \<Rightarrow> dcbor_ext \<Rightarrow> 'e basic_identity \<Rightarrow> string \<Rightarrow> (wallet_error, 'e) result" where
  "identity_to_envelope h G E i name =
    (if bi_fingerprint i \<noteq> h (kp_public (bi_ed25519 i)) then Err FingerprintMismatch
     else
       let envelope = ev_new G (DMap (identity_subject E i));
           created = DTagged 1 (DUnsigned (bi_created_at i));
           envelope = ev_add_assertion G envelope (ev_text G ''created'') (ev_new G created);
           envelope = ev_add_assertion G envelope (ev_text G ''ed25519-public'') (ev_new G (DBytes (kp_public (bi_ed25519 i))));
           envelope = ev_add_assertion G envelope (ev_text G ''ed25519-secret'') (ev_new G (DBytes (kp_secret (bi_ed25519 i))));
           envelope = (case bi_ml_dsa i of
               None \<Rightarrow> envelope
             | Some kp \<Rightarrow>
                 ev_add_assertion G
                   (ev_add_assertion G envelope (ev_text G ''ml-dsa-public'') (ev_new G (DBytes (kp_public kp))))
                   (ev_text G ''ml-dsa-secret'') (ev_new G (DBytes (kp_secret kp))));
           envelope = ev_add_assertion G envelope (ev_text G ''name'') (ev_text G name)
       in add_unknown G UnknownAssertion (bi_unknown i) envelope)"

definition identity_created_at :: "('e, 'x) gordian_scheme \<Rightarrow> 'e \<Rightarrow> (wallet_error, u64) result" where
  "identity_created_at G e =
    bind (ok_or (ev_object_for G e ''created'') (MissingAssertion ''created'')) (\<lambda>obj.
    bind (ok_or (ev_try_leaf G obj) CreatedNotLeaf) (\<lambda>cbor.
    bind (map_err (\<lambda>_. CreatedNotTagged) (try_into_tagged_value cbor)) (\<lambda>(tag, v).
    map_err (\<lambda>_. CreatedNotInteger) (try_u64 v))))"

text \<open>An optional byte string; a failed lookup or conversion counts as absent.\<close>

definition optional_bytes :: "('e, 'x) gordian_scheme \<Rightarrow> 'e \<Rightarrow> string \<Rightarrow> bytes option" where
  "optional_bytes G e k =
    (case ev_extract_optional_for G e k of
       Some (Some v) \<Rightarrow> extract_as try_byte_string (Some v)
     | _ \<Rightarrow> None)"

definition pq_key_pair :: "bytes option \<Rightarrow> bytes option \<Rightarrow> (wallet_error, key_pair option) result" where
  "pq_key_pair public secret =
    (case (public, secret) of
       (Some p, Some s) \<Rightarrow> Ok (Some \<lparr>kp_public = p, kp_secret = s\<rparr>)
     | (None, None) \<Rightarrow> Ok None
     | _ \<Rightarrow> Err HalfPqKeyPair)"

definition identity_from_envelope ::
  "(bytes \<Rightarrow> bytes) \<Rightarrow> ('e, 'x) gordian_scheme \<Rightarrow> dcbor_ext \<Rightarrow> 'e \<Rightarrow> (wallet_error, string \<times> 'e basic_identity) result" where
  "identity_from_envelope h G E e =
    bind (ok_or (ev_try_leaf G (ev_subject G e)) SubjectNotLeaf) (\<lambda>subject_cbor.
    bind (map_err (\<lambda>_. SubjectNotMap) (try_into_map subject_cbor)) (\<lambda>subject.
    bind (ok_or (map_get E try_text subject ''type'') (SubjectMissing ''type'')) (\<lambda>ty.
    if ty \<noteq> IDENTITY_TYPE then Err (WrongSubjectType ty)
    else bind (ok_or (map_get E try_u32 subject ''format-version'') (SubjectMissing ''format-version'')) (\<lambda>version.
    if version \<noteq> IDENTITY_FORMAT_VERSION then Err (UnsupportedFormatVersion version)
    else bind (ok_or (map_get E try_byte_string subject ''fingerprint'') (SubjectMissing ''fingerprint'')) (\<lambda>fingerprint.
    if length fingerprint \<noteq> 32 then Err FingerprintLength
    else bind (ok_or (extract_as try_text (ev_extract_for G e ''name'')) (MissingAssertion ''name'')) (\<lambda>name.
    bind (identity_created_at G e) (\<lambda>created_at.
    bind (ok_or (extract_as try_byte_string (ev_extract_for G e ''ed25519-public'')) (MissingAssertion ''ed25519-public''))
      (\<lambda>ed25519_public.
    bind (ok_or (extract_as try_byte_string (ev_extract_for G e ''ed25519-secret'')) (MissingAssertion ''ed25519-secret''))
      (\<lambda>ed25519_secret.
    bind (pq_key_pair (optional_bytes G e ''ml-dsa-public'') (optional_bytes G e ''ml-dsa-secret'')) (\<lambda>ml_dsa.
    if fingerprint \<noteq> h ed25519_public then Err FingerprintMismatch
    else Ok (name, \<lparr>bi_created_at = created_at, bi_fingerprint = fingerprint,
        bi_ed25519 = \<lparr>kp_public = ed25519_public, kp_secret = ed25519_secret\<rparr>, bi_ml_dsa = ml_dsa,
        bi_unknown = collect_unknown G (known_digests G IDENTITY_PREDICATES) (ev_assertions G e)\<rparr>)))))))))))"

section \<open>The round trip\<close>

definition identity_assertions :: "('e, 'x) gordian_scheme \<Rightarrow> string \<Rightarrow> 'e basic_identity \<Rightarrow> ('e \<times> 'e) list" where
  "identity_assertions G name i =
    [(ev_text G ''created'', ev_new G (DTagged 1 (DUnsigned (bi_created_at i)))),
     (ev_text G ''ed25519-public'', ev_new G (DBytes (kp_public (bi_ed25519 i)))),
     (ev_text G ''ed25519-secret'', ev_new G (DBytes (kp_secret (bi_ed25519 i))))] @
    (case bi_ml_dsa i of None \<Rightarrow> []
     | Some kp \<Rightarrow> [(ev_text G ''ml-dsa-public'', ev_new G (DBytes (kp_public kp))),
                  (ev_text G ''ml-dsa-secret'', ev_new G (DBytes (kp_secret kp)))]) @
    [(ev_text G ''name'', ev_text G name)] @ bi_unknown i"

definition identity_ok :: "(bytes \<Rightarrow> bytes) \<Rightarrow> 'e basic_identity \<Rightarrow> bool" where
  "identity_ok h i \<longleftrightarrow> bi_fingerprint i = h (kp_public (bi_ed25519 i)) \<and> length (bi_fingerprint i) = 32"

definition identity_digests_ok :: "('e, 'x) gordian_scheme \<Rightarrow> string \<Rightarrow> 'e basic_identity \<Rightarrow> bool" where
  "identity_digests_ok G name i \<longleftrightarrow> distinct (known_digests G IDENTITY_PREDICATES) \<and>
    distinct_assertions G (identity_assertions G name i) \<and>
    (\<forall>(p, ob) \<in> set (bi_unknown i). ev_digest G p \<notin> set (known_digests G IDENTITY_PREDICATES))"

lemma identity_to_envelope_holds:
  assumes "gordian_ok G" and "identity_ok h i" and "identity_digests_ok G name i"
  shows "\<exists>e. identity_to_envelope h G E i name = Ok e \<and>
    holds G e (DMap (identity_subject E i)) (identity_assertions G name i)"
proof -
  let ?c = "DMap (identity_subject E i)"
  have "identity_to_envelope h G E i name = Ok (add_all G (identity_assertions G name i) (ev_new G ?c))"
    using assms(2)
    by (simp add: identity_to_envelope_def identity_ok_def add_unknown_all [OF assms(1)] identity_assertions_def add_all_def
        Let_def split: option.splits)
  moreover have "holds G (add_all G (identity_assertions G name i) (ev_new G ?c)) ?c (identity_assertions G name i)"
    using add_all_holds [OF assms(1) holds_new [OF assms(1)]] assms(3) by (simp add: identity_digests_ok_def)
  ultimately show ?thesis by blast
qed

lemma identity_subject_lookup:
  assumes "ext_ok E"
  shows "map_get E try_text (identity_subject E i) ''type'' = Some IDENTITY_TYPE"
    and "map_get E try_u32 (identity_subject E i) ''format-version'' = Some IDENTITY_FORMAT_VERSION"
    and "map_get E try_byte_string (identity_subject E i) ''fingerprint'' = Some (bi_fingerprint i)"
proof -
  have t: "text_ok E ''type''" "text_ok E ''format-version''" "text_ok E ''fingerprint''"
    using assms by (simp_all add: text_ok_ascii ascii_def)
  then have "fields_ok E [(''type'', x), (''format-version'', y), (''fingerprint'', z)]" for x y z
    by (simp add: fields_ok_def)
  from lookup_insert_all [OF this] t show "map_get E try_text (identity_subject E i) ''type'' = Some IDENTITY_TYPE"
    "map_get E try_u32 (identity_subject E i) ''format-version'' = Some IDENTITY_FORMAT_VERSION"
    "map_get E try_byte_string (identity_subject E i) ''fingerprint'' = Some (bi_fingerprint i)"
    by (simp_all add: map_get_def identity_subject_def IDENTITY_FORMAT_VERSION_def)
qed

lemma identity_objects:
  assumes "identity_digests_ok G name i"
  shows "objects_for G (identity_assertions G name i) ''created'' = [ev_new G (DTagged 1 (DUnsigned (bi_created_at i)))]"
    and "objects_for G (identity_assertions G name i) ''ed25519-public'' = [ev_new G (DBytes (kp_public (bi_ed25519 i)))]"
    and "objects_for G (identity_assertions G name i) ''ed25519-secret'' = [ev_new G (DBytes (kp_secret (bi_ed25519 i)))]"
    and "objects_for G (identity_assertions G name i) ''name'' = [ev_text G name]"
    and "objects_for G (identity_assertions G name i) ''ml-dsa-public'' =
      (case bi_ml_dsa i of None \<Rightarrow> [] | Some kp \<Rightarrow> [ev_new G (DBytes (kp_public kp))])"
    and "objects_for G (identity_assertions G name i) ''ml-dsa-secret'' =
      (case bi_ml_dsa i of None \<Rightarrow> [] | Some kp \<Rightarrow> [ev_new G (DBytes (kp_secret kp))])"
proof -
  have un: "objects_for G (bi_unknown i) k = []" if "k \<in> set IDENTITY_PREDICATES" for k
    using objects_for_unknown [OF that, of "bi_unknown i" G] assms by (auto simp: identity_digests_ok_def)
  have d: "distinct (known_digests G IDENTITY_PREDICATES)" using assms by (simp add: identity_digests_ok_def)
  have mem: "''created'' \<in> set IDENTITY_PREDICATES" "''ed25519-public'' \<in> set IDENTITY_PREDICATES"
    "''ed25519-secret'' \<in> set IDENTITY_PREDICATES" "''ml-dsa-public'' \<in> set IDENTITY_PREDICATES"
    "''ml-dsa-secret'' \<in> set IDENTITY_PREDICATES" "''name'' \<in> set IDENTITY_PREDICATES"
    by (simp_all add: IDENTITY_PREDICATES_def)
  note facts = identity_assertions_def known_digest_eq [OF d] mem un
  show "objects_for G (identity_assertions G name i) ''created'' = [ev_new G (DTagged 1 (DUnsigned (bi_created_at i)))]"
    "objects_for G (identity_assertions G name i) ''ed25519-public'' = [ev_new G (DBytes (kp_public (bi_ed25519 i)))]"
    "objects_for G (identity_assertions G name i) ''ed25519-secret'' = [ev_new G (DBytes (kp_secret (bi_ed25519 i)))]"
    "objects_for G (identity_assertions G name i) ''name'' = [ev_text G name]"
    "objects_for G (identity_assertions G name i) ''ml-dsa-public'' =
      (case bi_ml_dsa i of None \<Rightarrow> [] | Some kp \<Rightarrow> [ev_new G (DBytes (kp_public kp))])"
    "objects_for G (identity_assertions G name i) ''ml-dsa-secret'' =
      (case bi_ml_dsa i of None \<Rightarrow> [] | Some kp \<Rightarrow> [ev_new G (DBytes (kp_secret kp))])"
    by (cases "bi_ml_dsa i"; simp add: facts)+
qed

lemma optional_bytes_holds:
  assumes "gordian_ok G" and "holds G e c pos"
    and "objects_for G pos k = (case kp of None \<Rightarrow> [] | Some x \<Rightarrow> [ev_new G (DBytes (f x))])"
  shows "optional_bytes G e k = map_option f kp"
proof (cases kp)
  case None
  with lookup_none [OF assms(1,2), of k] assms(3) show ?thesis by (simp add: optional_bytes_def)
next
  case (Some x)
  with lookup_one(3) [OF assms(1,2), of k "ev_new G (DBytes (f x))"] assms(1,3) show ?thesis
    by (simp add: optional_bytes_def extract_as_def gordian_ok_def)
qed

lemma identity_from_holding:
  assumes "gordian_ok G" and "ext_ok E" and "identity_ok h i" and "identity_digests_ok G name i"
    and "holds G e (DMap (identity_subject E i)) (identity_assertions G name i)"
  shows "\<exists>us. identity_from_envelope h G E e = Ok (name, i\<lparr>bi_unknown := us\<rparr>) \<and> mset us = mset (bi_unknown i)"
proof -
  let ?us = "collect_unknown G (known_digests G IDENTITY_PREDICATES) (ev_assertions G e)"
  note look = lookup_one [OF assms(1,5)] and objs = identity_objects [OF assms(4)]
  have leaf: "ev_try_leaf G (ev_subject G e) = Some (DMap (identity_subject E i))"
    using assms(1,5) by (simp add: holds_def gordian_ok_def)
  have ex: "ev_extract G (ev_new G v) = Some v" "ev_try_leaf G (ev_new G v) = Some v" for v
    using assms(1) by (simp_all add: gordian_ok_def)
  have fp: "bi_fingerprint i = h (kp_public (bi_ed25519 i))" "length (h (kp_public (bi_ed25519 i))) = 32"
    using assms(3) by (auto simp: identity_ok_def)
  have created: "identity_created_at G e = Ok (bi_created_at i)"
    using look(1) [OF objs(1)] ex by (simp add: identity_created_at_def)
  have pq: "pq_key_pair (optional_bytes G e ''ml-dsa-public'') (optional_bytes G e ''ml-dsa-secret'') = Ok (bi_ml_dsa i)"
    using optional_bytes_holds [OF assms(1,5) objs(5)] optional_bytes_holds [OF assms(1,5) objs(6)]
    by (simp add: pq_key_pair_def split: option.splits)
  have "identity_from_envelope h G E e = Ok (name, i\<lparr>bi_unknown := ?us\<rparr>)"
    using fp leaf created pq look(2) [OF objs(2)] look(2) [OF objs(3)] look(2) [OF objs(4)] ex
    by (simp add: identity_from_envelope_def identity_subject_lookup [OF assms(2)] extract_as_def ev_text_def)
  moreover have "filter (\<lambda>(p, ob). ev_digest G p \<notin> set (known_digests G IDENTITY_PREDICATES)) (identity_assertions G name i) =
      bi_unknown i"
    using assms(4) by (auto simp: identity_assertions_def identity_digests_ok_def known_digests_def IDENTITY_PREDICATES_def
        filter_id_conv split: option.splits)
  with unknown_of_holds [OF assms(1,5), of "known_digests G IDENTITY_PREDICATES"]
  have "mset ?us = mset (bi_unknown i)" by simp
  ultimately show ?thesis by blast
qed

definition same_identity :: "'e basic_identity \<Rightarrow> 'e basic_identity \<Rightarrow> bool" where
  "same_identity i j \<longleftrightarrow> (\<exists>us. j = i\<lparr>bi_unknown := us\<rparr> \<and> mset us = mset (bi_unknown i))"

lemma identity_roundtrip:
  assumes "gordian_ok G" and "ext_ok E" and "identity_ok h i" and "identity_digests_ok G name i"
  shows "\<exists>e j. identity_to_envelope h G E i name = Ok e \<and> identity_from_envelope h G E e = Ok (name, j) \<and> same_identity i j"
proof -
  obtain e where "identity_to_envelope h G E i name = Ok e"
      "holds G e (DMap (identity_subject E i)) (identity_assertions G name i)"
    using identity_to_envelope_holds [OF assms(1,3,4), of E] by blast
  with identity_from_holding [OF assms] show ?thesis unfolding same_identity_def by blast
qed

text \<open>A wallet never holds an identity whose fingerprint is not that of its key.\<close>

lemma decoded_fingerprint:
  "identity_from_envelope h G E e = Ok (name, i) \<Longrightarrow> identity_ok h i"
  by (auto simp: identity_from_envelope_def identity_ok_def result_simps split: if_splits)

section \<open>The trait\<close>

text \<open>
  What the container relies on: the trait asks that decoding an encoded identity returns its name
  and the identity, which for the built-in type holds up to the order of the preserved assertions.
\<close>

locale wallet_identity =
  fixes id_to :: "'i \<Rightarrow> string \<Rightarrow> (wallet_error, 'e) result"
    and id_from :: "'e \<Rightarrow> (wallet_error, string \<times> 'i) result"
    and id_ok :: "string \<Rightarrow> 'i \<Rightarrow> bool"
    and id_same :: "'i \<Rightarrow> 'i \<Rightarrow> bool"
  assumes from_to: "id_ok name i \<Longrightarrow> \<exists>e j. id_to i name = Ok e \<and> id_from e = Ok (name, j) \<and> id_same i j"

definition basic_ok ::
  "(bytes \<Rightarrow> bytes) \<Rightarrow> ('e, 'x) gordian_scheme \<Rightarrow> dcbor_ext \<Rightarrow> string \<Rightarrow> 'e basic_identity \<Rightarrow> bool" where
  "basic_ok h G E name i \<longleftrightarrow> gordian_ok G \<and> ext_ok E \<and> identity_ok h i \<and> identity_digests_ok G name i"

interpretation basic: wallet_identity
  "identity_to_envelope h G E" "identity_from_envelope h G E" "basic_ok h G E" same_identity for h G E
  by unfold_locales (rule identity_roundtrip; simp add: basic_ok_def)

end
