(* ===== verification/Wallet.thy ===== *)
theory Wallet
  imports Identity
begin

text \<open>
  The wallet container (\<open>identikey-wallet\<close>, \<open>envelope.rs\<close>) and its encrypted file (\<open>format.rs\<close>). The
  identity type is a parameter, as in the source: its two conversions are arguments. The AEAD and the
  password hash are arguments too.
\<close>

section \<open>The container\<close>

record wallet_params =
  wp_wallet_type :: string
  wp_format_version :: u32
  wp_keychain_service :: string
  wp_env_password :: string
  wp_env_key :: string
  wp_env_no_keychain :: string
  wp_v1_rejection_msg :: string
  wp_dir_qualifier :: string
  wp_dir_organization :: string
  wp_dir_application :: string
  wp_wallet_file_name :: string

definition IDENTIKEY_PARAMS :: wallet_params where
  "IDENTIKEY_PARAMS = \<lparr>
    wp_wallet_type = ''identikey.wallet'', wp_format_version = 2, wp_keychain_service = ''identikey'',
    wp_env_password = ''IDENTIKEY_WALLET_PASSWORD'', wp_env_key = ''IDENTIKEY_WALLET_KEY'',
    wp_env_no_keychain = ''IDENTIKEY_NO_KEYCHAIN'',
    wp_v1_rejection_msg =
      ''Wallet format v1 is no longer supported. Create a new wallet with `ikey identity new`.'',
    wp_dir_qualifier = ''io'', wp_dir_organization = ''identikey'', wp_dir_application = ''identikey'',
    wp_wallet_file_name = ''wallet.ikeyw''\<rparr>"

text \<open>
  The \<open>HashMap\<close> of identities is kept as the entries in key order: the code sorts the names before
  it uses them, so the order of the hash table is never seen.
\<close>

record ('i, 'e) wallet_data =
  wd_identities :: "(string \<times> 'i) list"
  wd_active_identity :: "string option"
  wd_secrets :: "'e secret_store"
  wd_unknown :: "('e \<times> 'e) list"

definition wallet_data_new :: "('i, 'e) wallet_data" where
  "wallet_data_new = \<lparr>wd_identities = [], wd_active_identity = None, wd_secrets = store_new, wd_unknown = []\<rparr>"

definition WALLET_PREDICATES :: "string list" where
  "WALLET_PREDICATES = [''active-identity'', ''identity'', ''sealed-secret'']"

definition wallet_subject :: "dcbor_ext \<Rightarrow> wallet_params \<Rightarrow> dmap" where
  "wallet_subject E params = insert_all E
    [(''type'', DText (wp_wallet_type params)), (''format-version'', DUnsigned (ucast (wp_format_version params)))]"

primrec add_identities ::
  "('e, 'x) gordian_scheme \<Rightarrow> ('i \<Rightarrow> string \<Rightarrow> (wallet_error, 'e) result) \<Rightarrow> (string \<times> 'i) list \<Rightarrow> 'e \<Rightarrow> (wallet_error, 'e) result" where
  "add_identities G id_to [] e = Ok e"
| "add_identities G id_to (ni # nis) e =
    bind (id_to (snd ni) (fst ni)) (\<lambda>id_envelope.
    add_identities G id_to nis (ev_add_assertion G e (ev_text G ''identity'') id_envelope))"

primrec add_secrets ::
  "('e, 'x) gordian_scheme \<Rightarrow> dcbor_ext \<Rightarrow> 'e sealed_secret list \<Rightarrow> 'e \<Rightarrow> (wallet_error, 'e) result" where
  "add_secrets G E [] e = Ok e"
| "add_secrets G E (secret # secrets) e =
    bind (map_err SealedSecretError (secret_to_envelope G E secret)) (\<lambda>object.
    add_secrets G E secrets (ev_add_assertion G e (ev_text G ''sealed-secret'') object))"

definition wallet_to_envelope ::
  "('e, 'x) gordian_scheme \<Rightarrow> dcbor_ext \<Rightarrow> ('i \<Rightarrow> string \<Rightarrow> (wallet_error, 'e) result) \<Rightarrow>
   ('i, 'e) wallet_data \<Rightarrow> wallet_params \<Rightarrow> (wallet_error, 'e) result" where
  "wallet_to_envelope G E id_to w params =
    (let envelope = ev_new G (DMap (wallet_subject E params));
         envelope = (case wd_active_identity w of
             None \<Rightarrow> envelope
           | Some active \<Rightarrow> ev_add_assertion G envelope (ev_text G ''active-identity'') (ev_text G active))
     in bind (add_identities G id_to (sort_key fst (wd_identities w)) envelope) (\<lambda>envelope.
        bind (add_secrets G E (store_iter (wd_secrets w)) envelope) (\<lambda>envelope.
        add_unknown G UnknownAssertion (wd_unknown w) envelope)))"

text \<open>The state of the decoding loop: identities, secrets and unknown assertions so far.\<close>

type_synonym ('i, 'e) wallet_parts = "(string \<times> 'i) list \<times> 'e secret_store \<times> ('e \<times> 'e) list"

definition read_assertion ::
  "('e, 'x) gordian_scheme \<Rightarrow> dcbor_ext \<Rightarrow> ('e \<Rightarrow> (wallet_error, string \<times> 'i) result) \<Rightarrow> 'e \<Rightarrow>
   ('i, 'e) wallet_parts \<Rightarrow> (wallet_error, ('i, 'e) wallet_parts) result" where
  "read_assertion G E id_from a = (\<lambda>(identities, secrets, unknown).
    case (ev_as_predicate G a, ev_as_object G a) of
      (Some p, Some ob) \<Rightarrow>
        if ev_digest G p \<notin> set (known_digests G WALLET_PREDICATES) then Ok (identities, secrets, unknown @ [(p, ob)])
        else (case extract_as try_text (ev_try_leaf G p) of
            None \<Rightarrow> Ok (identities, secrets, unknown)
          | Some pred_str \<Rightarrow>
              if pred_str = ''sealed-secret'' then
                bind (map_err SealedSecretError (secret_from_envelope G E ob)) (\<lambda>secret.
                bind (map_err SealedSecretError (insert_sealed secrets secret)) (\<lambda>secrets'.
                Ok (identities, secrets', unknown)))
              else if pred_str \<noteq> ''identity'' then Ok (identities, secrets, unknown)
              else bind (id_from ob) (\<lambda>(name, i).
                if map_of identities name \<noteq> None then Err (DuplicateIdentity name)
                else Ok (bt_insert name i identities, secrets, unknown)))
    | _ \<Rightarrow> Ok (identities, secrets, unknown))"

primrec read_assertions ::
  "('e, 'x) gordian_scheme \<Rightarrow> dcbor_ext \<Rightarrow> ('e \<Rightarrow> (wallet_error, string \<times> 'i) result) \<Rightarrow> 'e list \<Rightarrow>
   ('i, 'e) wallet_parts \<Rightarrow> (wallet_error, ('i, 'e) wallet_parts) result" where
  "read_assertions G E id_from [] parts = Ok parts"
| "read_assertions G E id_from (a # as) parts =
    bind (read_assertion G E id_from a parts) (read_assertions G E id_from as)"

definition wallet_from_envelope ::
  "('e, 'x) gordian_scheme \<Rightarrow> dcbor_ext \<Rightarrow> ('e \<Rightarrow> (wallet_error, string \<times> 'i) result) \<Rightarrow> 'e \<Rightarrow> wallet_params \<Rightarrow>
   (wallet_error, ('i, 'e) wallet_data) result" where
  "wallet_from_envelope G E id_from e params =
    bind (ok_or (ev_try_leaf G (ev_subject G e)) SubjectNotLeaf) (\<lambda>subject_cbor.
    bind (map_err (\<lambda>_. SubjectNotMap) (try_into_map subject_cbor)) (\<lambda>subject.
    bind (ok_or (map_get E try_text subject ''type'') (SubjectMissing ''type'')) (\<lambda>ty.
    if ty \<noteq> wp_wallet_type params then Err (WrongSubjectType ty)
    else bind (ok_or (map_get E try_u32 subject ''format-version'') (SubjectMissing ''format-version'')) (\<lambda>version.
    if version \<noteq> wp_format_version params then Err (UnsupportedFormatVersion version)
    else
      let active = (case ev_extract_optional_for G e ''active-identity'' of
            Some (Some v) \<Rightarrow> extract_as try_text (Some v) | _ \<Rightarrow> None)
      in bind (read_assertions G E id_from (ev_assertions G e) ([], store_new, [])) (\<lambda>(identities, secrets, unknown).
         Ok \<lparr>wd_identities = identities, wd_active_identity = active, wd_secrets = secrets, wd_unknown = unknown\<rparr>)))))"

definition to_envelope ::
  "('e, 'x) gordian_scheme \<Rightarrow> dcbor_ext \<Rightarrow> ('i \<Rightarrow> string \<Rightarrow> (wallet_error, 'e) result) \<Rightarrow>
   ('i, 'e) wallet_data \<Rightarrow> wallet_params \<Rightarrow> (wallet_error, bytes) result" where
  "to_envelope G E id_to w params =
    bind (wallet_to_envelope G E id_to w params) (\<lambda>envelope. Ok (ev_to_cbor_data G envelope))"

definition from_envelope ::
  "('e, 'x) gordian_scheme \<Rightarrow> dcbor_ext \<Rightarrow> ('e \<Rightarrow> (wallet_error, string \<times> 'i) result) \<Rightarrow> bytes \<Rightarrow> wallet_params \<Rightarrow>
   (wallet_error, ('i, 'e) wallet_data) result" where
  "from_envelope G E id_from bs params =
    bind (ok_or (ev_try_from_cbor_data G bs) EnvelopeParse) (\<lambda>envelope.
    wallet_from_envelope G E id_from envelope params)"

section \<open>The file\<close>

definition MAGIC :: bytes where
  "MAGIC = str_bytes ''IKEYW''"

definition WALLET_VERSION :: u8 where
  "WALLET_VERSION = 2"

text \<open>XChaCha20-Poly1305 without associated data, and Argon2id with the parameters of the source.\<close>

record wallet_crypto =
  wc_encrypt :: "bytes \<Rightarrow> bytes \<Rightarrow> bytes \<Rightarrow> bytes option"
  wc_decrypt :: "bytes \<Rightarrow> bytes \<Rightarrow> bytes \<Rightarrow> bytes option"
  wc_argon2id :: "nat \<Rightarrow> nat \<Rightarrow> nat \<Rightarrow> bytes \<Rightarrow> bytes \<Rightarrow> bytes option"

definition check_version :: "u8 \<Rightarrow> wallet_params \<Rightarrow> (wallet_error, unit) result" where
  "check_version version params =
    (if version = 1 then Err (V1Rejected (wp_v1_rejection_msg params))
     else if version \<noteq> WALLET_VERSION then Err (UnsupportedWalletVersion version)
     else Ok ())"

definition extract_salt :: "bytes \<Rightarrow> wallet_params \<Rightarrow> (wallet_error, bytes) result" where
  "extract_salt data params =
    (if length data < 5 + 1 + 32 then Err SaltTooShort
     else if take 5 data \<noteq> MAGIC then Err BadMagic
     else bind (check_version (data ! 5) params) (\<lambda>_. Ok (take 32 (drop 6 data))))"

definition ARGON2_M_COST :: nat where "ARGON2_M_COST = 65536"
definition ARGON2_T_COST :: nat where "ARGON2_T_COST = 3"
definition ARGON2_P_COST :: nat where "ARGON2_P_COST = 4"

definition derive_key :: "wallet_crypto \<Rightarrow> string \<Rightarrow> bytes \<Rightarrow> (wallet_error, bytes) result" where
  "derive_key W password salt =
    ok_or (wc_argon2id W ARGON2_M_COST ARGON2_T_COST ARGON2_P_COST (str_bytes password) salt) KeyDerivationFailed"

definition decrypt_wallet_with_key ::
  "wallet_crypto \<Rightarrow> ('e, 'x) gordian_scheme \<Rightarrow> dcbor_ext \<Rightarrow> ('e \<Rightarrow> (wallet_error, string \<times> 'i) result) \<Rightarrow>
   bytes \<Rightarrow> bytes \<Rightarrow> wallet_params \<Rightarrow> (wallet_error, ('i, 'e) wallet_data) result" where
  "decrypt_wallet_with_key W G E id_from data key params =
    (if length data < 5 + 1 + 32 + 24 + 16 then Err FileTooShort
     else if take 5 data \<noteq> MAGIC then Err BadMagic
     else bind (check_version (data ! 5) params) (\<lambda>_.
       let nonce = take 24 (drop 38 data); ciphertext = drop 62 data in
       bind (ok_or (wc_decrypt W key nonce ciphertext) DecryptionFailed) (\<lambda>plaintext.
       from_envelope G E id_from plaintext params)))"

definition encrypt_wallet_with_key_nonce ::
  "wallet_crypto \<Rightarrow> ('e, 'x) gordian_scheme \<Rightarrow> dcbor_ext \<Rightarrow> ('i \<Rightarrow> string \<Rightarrow> (wallet_error, 'e) result) \<Rightarrow>
   ('i, 'e) wallet_data \<Rightarrow> bytes \<Rightarrow> bytes \<Rightarrow> bytes \<Rightarrow> wallet_params \<Rightarrow> (wallet_error, bytes) result" where
  "encrypt_wallet_with_key_nonce W G E id_to w key salt nonce params =
    bind (to_envelope G E id_to w params) (\<lambda>plaintext.
    bind (ok_or (wc_encrypt W key nonce plaintext) EncryptionFailed) (\<lambda>ciphertext.
    Ok (MAGIC @ [WALLET_VERSION] @ salt @ nonce @ ciphertext)))"

text \<open>The nonce that the random generator draws is the last argument.\<close>

definition encrypt_wallet_with_key ::
  "wallet_crypto \<Rightarrow> ('e, 'x) gordian_scheme \<Rightarrow> dcbor_ext \<Rightarrow> ('i \<Rightarrow> string \<Rightarrow> (wallet_error, 'e) result) \<Rightarrow>
   ('i, 'e) wallet_data \<Rightarrow> bytes \<Rightarrow> bytes \<Rightarrow> wallet_params \<Rightarrow> bytes \<Rightarrow> (wallet_error, bytes) result" where
  "encrypt_wallet_with_key W G E id_to w key salt params drawn =
    encrypt_wallet_with_key_nonce W G E id_to w key salt drawn params"

end
