(* ===== verification/Credential.thy ===== *)
theory Credential
  imports Os Wallet
begin

text \<open>
  Where the wallet key is cached (\<open>identikey-wallet\<close>, \<open>credential.rs\<close>): the macOS keychain, the
  keyring of Linux and Windows, an environment variable, or memory. The keychain and keyring crates,
  Base64, Blake3 and \<open>canonicalize\<close> are operations of a record.
\<close>

section \<open>What the providers call\<close>

datatype target_os = MacOs | Linux | Windows | OtherUnix | OtherOs

datatype keyring_error = NoEntry | KeyringFailure

text \<open>
  \<open>cx_entry\<close> says whether \<open>keyring::Entry::new\<close> succeeds. Reads do not change the world; a write may
  change it even when it fails. \<open>cx_prompt\<close> is \<open>dialoguer::Password\<close> and \<open>cx_data_dir\<close> is \<open>ProjectDirs\<close>;
  \<open>storage.rs\<close> uses them.
\<close>

record 'k cred_ext =
  cx_target :: target_os
  cx_hash :: "bytes \<Rightarrow> bytes"
  cx_canonicalize :: "(node_key \<rightharpoonup> node) \<Rightarrow> path \<Rightarrow> path option"
  cx_b64_encode :: "bytes \<Rightarrow> string"
  cx_b64_decode :: "string \<Rightarrow> bytes option"
  cx_set_generic :: "string \<Rightarrow> string \<Rightarrow> bytes \<Rightarrow> 'k \<Rightarrow> (int, unit) result \<times> 'k"
  cx_get_generic :: "string \<Rightarrow> string \<Rightarrow> 'k \<Rightarrow> (int, bytes) result"
  cx_delete_generic :: "string \<Rightarrow> string \<Rightarrow> 'k \<Rightarrow> (int, unit) result \<times> 'k"
  cx_entry :: "string \<Rightarrow> string \<Rightarrow> 'k \<Rightarrow> bool"
  cx_set_password :: "string \<Rightarrow> string \<Rightarrow> string \<Rightarrow> 'k \<Rightarrow> (keyring_error, unit) result \<times> 'k"
  cx_get_password :: "string \<Rightarrow> string \<Rightarrow> 'k \<Rightarrow> (keyring_error, string) result"
  cx_delete_credential :: "string \<Rightarrow> string \<Rightarrow> 'k \<Rightarrow> (keyring_error, unit) result \<times> 'k"
  cx_prompt :: "string \<Rightarrow> 'k \<Rightarrow> string option \<times> 'k"
  cx_data_dir :: "string \<Rightarrow> string \<Rightarrow> string \<Rightarrow> path option"

datatype credential_error =
    KeychainStore int
  | KeychainNotUtf8
  | KeychainEncoding
  | KeychainLength nat
  | KeychainFailed int
  | KeychainClear int
  | KeyringFailed
  | KeyringStore
  | KeyringEncoding
  | KeyringLength nat
  | KeyringClear
  | EnvEncoding string
  | EnvLength string nat
  | EnvUnreadable string

section \<open>The providers\<close>

definition account_name_for_wallet :: "'k cred_ext \<Rightarrow> 'k os \<Rightarrow> path \<Rightarrow> string" where
  "account_name_for_wallet X s wallet_path =
    (let canonical = (case cx_canonicalize X (os_nodes s) wallet_path of None \<Rightarrow> wallet_path | Some c \<Rightarrow> c);
         hash = cx_hash X (str_bytes canonical)
     in ''wallet-key-'' @ take 16 (hex_id hash))"

definition LEGACY_ACCOUNT_NAME :: string where
  "LEGACY_ACCOUNT_NAME = ''wallet-key''"

text \<open>The implementors of \<open>CredentialProvider\<close>: service and account, the name of a variable, or the cell.\<close>

datatype provider =
    MacOSKeychainProvider string string
  | KeyringProvider string string
  | EnvProvider string
  | MemoryProvider "bytes option"

definition macos_new :: "'k cred_ext \<Rightarrow> 'k os \<Rightarrow> path \<Rightarrow> string \<Rightarrow> provider" where
  "macos_new X s wallet_path service_name = MacOSKeychainProvider service_name (account_name_for_wallet X s wallet_path)"

definition macos_legacy :: "string \<Rightarrow> provider" where
  "macos_legacy service_name = MacOSKeychainProvider service_name LEGACY_ACCOUNT_NAME"

definition macos_store_key ::
  "'k cred_ext \<Rightarrow> string \<Rightarrow> string \<Rightarrow> bytes \<Rightarrow> 'k os \<Rightarrow> (credential_error, unit) result \<times> 'k os" where
  "macos_store_key X service account key s =
    (let encoded = cx_b64_encode X key;
         outside = snd (cx_delete_generic X service account (os_outside s));
         (r, outside') = cx_set_generic X service account (str_bytes encoded) outside
     in (map_err KeychainStore r, s\<lparr>os_outside := outside'\<rparr>))"

definition macos_get_key ::
  "'k cred_ext \<Rightarrow> string \<Rightarrow> string \<Rightarrow> 'k os \<Rightarrow> (credential_error, bytes option) result" where
  "macos_get_key X service account s =
    (case cx_get_generic X service account (os_outside s) of
       Ok data \<Rightarrow>
         bind (ok_or (from_utf8 data) KeychainNotUtf8) (\<lambda>encoded.
         bind (ok_or (cx_b64_decode X encoded) KeychainEncoding) (\<lambda>bs.
         if length bs \<noteq> 32 then Err (KeychainLength (length bs)) else Ok (Some bs)))
     | Err code \<Rightarrow> if code = -25300 then Ok None else Err (KeychainFailed code))"

definition macos_clear_key ::
  "'k cred_ext \<Rightarrow> string \<Rightarrow> string \<Rightarrow> 'k os \<Rightarrow> (credential_error, unit) result \<times> 'k os" where
  "macos_clear_key X service account s =
    (let (r, outside') = cx_delete_generic X service account (os_outside s)
     in (case r of
           Ok _ \<Rightarrow> Ok ()
         | Err code \<Rightarrow> if code = -25300 then Ok () else Err (KeychainClear code), s\<lparr>os_outside := outside'\<rparr>))"

definition keyring_new :: "'k cred_ext \<Rightarrow> 'k os \<Rightarrow> path \<Rightarrow> string \<Rightarrow> provider" where
  "keyring_new X s wallet_path service_name = KeyringProvider service_name (account_name_for_wallet X s wallet_path)"

definition keyring_legacy :: "string \<Rightarrow> provider" where
  "keyring_legacy service_name = KeyringProvider service_name LEGACY_ACCOUNT_NAME"

definition keyring_entry :: "'k cred_ext \<Rightarrow> string \<Rightarrow> string \<Rightarrow> 'k os \<Rightarrow> (credential_error, unit) result" where
  "keyring_entry X service account s = guard (cx_entry X service account (os_outside s)) KeyringFailed"

definition keyring_store_key ::
  "'k cred_ext \<Rightarrow> string \<Rightarrow> string \<Rightarrow> bytes \<Rightarrow> 'k os \<Rightarrow> (credential_error, unit) result \<times> 'k os" where
  "keyring_store_key X service account key s =
    then_io (keyring_entry X service account s, s) (\<lambda>_ s.
      let (r, outside') = cx_set_password X service account (cx_b64_encode X key) (os_outside s)
      in (map_err (\<lambda>_. KeyringStore) r, s\<lparr>os_outside := outside'\<rparr>))"

definition keyring_get_key ::
  "'k cred_ext \<Rightarrow> string \<Rightarrow> string \<Rightarrow> 'k os \<Rightarrow> (credential_error, bytes option) result" where
  "keyring_get_key X service account s =
    bind (keyring_entry X service account s) (\<lambda>_.
    case cx_get_password X service account (os_outside s) of
      Ok encoded \<Rightarrow>
        bind (ok_or (cx_b64_decode X encoded) KeyringEncoding) (\<lambda>bs.
        if length bs \<noteq> 32 then Err (KeyringLength (length bs)) else Ok (Some bs))
    | Err NoEntry \<Rightarrow> Ok None
    | Err _ \<Rightarrow> Err KeyringFailed)"

definition keyring_clear_key ::
  "'k cred_ext \<Rightarrow> string \<Rightarrow> string \<Rightarrow> 'k os \<Rightarrow> (credential_error, unit) result \<times> 'k os" where
  "keyring_clear_key X service account s =
    then_io (keyring_entry X service account s, s) (\<lambda>_ s.
      let (r, outside') = cx_delete_credential X service account (os_outside s)
      in (case r of Ok _ \<Rightarrow> Ok () | Err NoEntry \<Rightarrow> Ok () | Err _ \<Rightarrow> Err KeyringClear, s\<lparr>os_outside := outside'\<rparr>))"

definition keyring_name :: "'k cred_ext \<Rightarrow> string" where
  "keyring_name X =
    (case cx_target X of Linux \<Rightarrow> ''Secret Service'' | Windows \<Rightarrow> ''Windows Credential Manager'' | _ \<Rightarrow> ''Keyring'')"

definition env_get_key :: "'k cred_ext \<Rightarrow> string \<Rightarrow> 'k os \<Rightarrow> (credential_error, bytes option) result" where
  "env_get_key X var_name s =
    (case os_env s var_name of
       EnvValue encoded \<Rightarrow>
         bind (ok_or (cx_b64_decode X encoded) (EnvEncoding var_name)) (\<lambda>bs.
         if length bs \<noteq> 32 then Err (EnvLength var_name (length bs)) else Ok (Some bs))
     | NotPresent \<Rightarrow> Ok None
     | NotUnicode \<Rightarrow> Err (EnvUnreadable var_name))"

definition env_is_available :: "string \<Rightarrow> 'k os \<Rightarrow> bool" where
  "env_is_available var_name s = (env_value s var_name \<noteq> None)"

definition memory_new :: provider where
  "memory_new = MemoryProvider None"

definition memory_with_key :: "bytes \<Rightarrow> provider" where
  "memory_with_key key = MemoryProvider (Some key)"

section \<open>The trait\<close>

text \<open>A call through \<open>dyn CredentialProvider\<close>. The cell of the memory provider is part of the provider.\<close>

fun store_key ::
  "'k cred_ext \<Rightarrow> provider \<Rightarrow> bytes \<Rightarrow> 'k os \<Rightarrow> (credential_error, unit) result \<times> provider \<times> 'k os" where
  "store_key X (MacOSKeychainProvider service account) key s =
    (let (r, s') = macos_store_key X service account key s in (r, MacOSKeychainProvider service account, s'))"
| "store_key X (KeyringProvider service account) key s =
    (let (r, s') = keyring_store_key X service account key s in (r, KeyringProvider service account, s'))"
| "store_key X (EnvProvider var_name) key s = (Ok (), EnvProvider var_name, s)"
| "store_key X (MemoryProvider cell) key s = (Ok (), MemoryProvider (Some key), s)"

fun get_key :: "'k cred_ext \<Rightarrow> provider \<Rightarrow> 'k os \<Rightarrow> (credential_error, bytes option) result" where
  "get_key X (MacOSKeychainProvider service account) s = macos_get_key X service account s"
| "get_key X (KeyringProvider service account) s = keyring_get_key X service account s"
| "get_key X (EnvProvider var_name) s = env_get_key X var_name s"
| "get_key X (MemoryProvider cell) s = Ok cell"

fun clear_key ::
  "'k cred_ext \<Rightarrow> provider \<Rightarrow> 'k os \<Rightarrow> (credential_error, unit) result \<times> provider \<times> 'k os" where
  "clear_key X (MacOSKeychainProvider service account) s =
    (let (r, s') = macos_clear_key X service account s in (r, MacOSKeychainProvider service account, s'))"
| "clear_key X (KeyringProvider service account) s =
    (let (r, s') = keyring_clear_key X service account s in (r, KeyringProvider service account, s'))"
| "clear_key X (EnvProvider var_name) s = (Ok (), EnvProvider var_name, s)"
| "clear_key X (MemoryProvider cell) s = (Ok (), MemoryProvider None, s)"

fun is_available :: "'k cred_ext \<Rightarrow> provider \<Rightarrow> 'k os \<Rightarrow> bool" where
  "is_available X (MacOSKeychainProvider service account) s = True"
| "is_available X (KeyringProvider service account) s = is_ok (keyring_entry X service account s)"
| "is_available X (EnvProvider var_name) s = env_is_available var_name s"
| "is_available X (MemoryProvider cell) s = True"

fun provider_name :: "'k cred_ext \<Rightarrow> provider \<Rightarrow> string" where
  "provider_name X (MacOSKeychainProvider service account) = ''macOS Keychain''"
| "provider_name X (KeyringProvider service account) = keyring_name X"
| "provider_name X (EnvProvider var_name) = ''Environment Variable''"
| "provider_name X (MemoryProvider cell) = ''Memory''"

definition default_provider_for :: "'k cred_ext \<Rightarrow> 'k os \<Rightarrow> path \<Rightarrow> wallet_params \<Rightarrow> provider" where
  "default_provider_for X s wallet_path params =
    (if env_value s (wp_env_no_keychain params) \<noteq> None then memory_new
     else
       let env = EnvProvider (wp_env_key params)
       in if is_available X env s then env
          else (case cx_target X of
              MacOs \<Rightarrow> macos_new X s wallet_path (wp_keychain_service params)
            | Windows \<Rightarrow> keyring_new X s wallet_path (wp_keychain_service params)
            | Linux \<Rightarrow>
                let keyring = keyring_new X s wallet_path (wp_keychain_service params)
                in if is_available X keyring s then keyring else memory_new
            | OtherUnix \<Rightarrow> memory_new
            | OtherOs \<Rightarrow> memory_new))"

definition legacy_provider :: "'k cred_ext \<Rightarrow> wallet_params \<Rightarrow> provider" where
  "legacy_provider X params =
    (if cx_target X = MacOs then macos_legacy (wp_keychain_service params)
     else keyring_legacy (wp_keychain_service params))"

end
