(* ===== verification/Storage.thy ===== *)
theory Storage
  imports Credential
begin

text \<open>
  The wallet on disk (\<open>identikey-wallet\<close>, \<open>storage.rs\<close>): loading, saving, the secrets it holds and
  the replacement of its file. The world of \<open>Os\<close> and the credential provider are taken and returned.
\<close>

section \<open>What the wallet is built from\<close>

text \<open>
  The arguments of the model in one record: the parameters of the container (its cryptography,
  envelopes and identity type), the application's constants, and the operations of other crates.
\<close>

record ('i, 'e, 'k) wallet_app =
  ap_crypto :: wallet_crypto
  ap_gordian :: "'e gordian"
  ap_dcbor :: dcbor_ext
  ap_id_to :: "'i \<Rightarrow> string \<Rightarrow> (wallet_error, 'e) result"
  ap_id_from :: "'e \<Rightarrow> (wallet_error, string \<times> 'i) result"
  ap_params :: wallet_params
  ap_ext :: "'k cred_ext"

record ('i, 'e) wallet =
  wl_data :: "('i, 'e) wallet_data"
  wl_path :: path
  wl_key :: bytes
  wl_salt :: bytes

datatype storage_error =
    PromptFailed
  | PasswordsDoNotMatch
  | NoHomeDirectory
  | ReadFailed io_error
  | WriteFailed io_error
  | ParentFailed io_error
  | FormatError wallet_error
  | WrongPassword wallet_error
  | SecretFailed secret_error

definition app_decrypt :: "('i, 'e, 'k) wallet_app \<Rightarrow> bytes \<Rightarrow> bytes \<Rightarrow> (wallet_error, ('i, 'e) wallet_data) result" where
  "app_decrypt A encrypted key =
    decrypt_wallet_with_key (ap_crypto A) (ap_gordian A) (ap_dcbor A) (ap_id_from A) encrypted key (ap_params A)"

definition app_encrypt ::
  "('i, 'e, 'k) wallet_app \<Rightarrow> ('i, 'e) wallet_data \<Rightarrow> bytes \<Rightarrow> bytes \<Rightarrow> bytes \<Rightarrow> (wallet_error, bytes) result" where
  "app_encrypt A w key salt nonce =
    encrypt_wallet_with_key (ap_crypto A) (ap_gordian A) (ap_dcbor A) (ap_id_to A) w key salt (ap_params A) nonce"

section \<open>Passwords\<close>

definition interact :: "'k cred_ext \<Rightarrow> string \<Rightarrow> 'k os \<Rightarrow> (storage_error, string) result \<times> 'k os" where
  "interact X prompt s =
    (let (typed, outside') = cx_prompt X prompt (os_outside s) in (ok_or typed PromptFailed, s\<lparr>os_outside := outside'\<rparr>))"

definition get_password :: "'k cred_ext \<Rightarrow> string \<Rightarrow> string \<Rightarrow> 'k os \<Rightarrow> (storage_error, string) result \<times> 'k os" where
  "get_password X prompt env_var s =
    (case env_value s env_var of Some password \<Rightarrow> (Ok password, s) | None \<Rightarrow> interact X prompt s)"

definition get_password_with_confirm :: "'k cred_ext \<Rightarrow> string \<Rightarrow> 'k os \<Rightarrow> (storage_error, string) result \<times> 'k os" where
  "get_password_with_confirm X env_var s =
    (case env_value s env_var of
       Some password \<Rightarrow> (Ok password, s)
     | None \<Rightarrow>
         then_io (interact X ''New wallet password'' s) (\<lambda>pass1 s.
         then_io (interact X ''Confirm password'' s) (\<lambda>pass2 s.
         if pass1 \<noteq> pass2 then (Err PasswordsDoNotMatch, s) else (Ok pass1, s))))"

section \<open>Replacing a file\<close>

definition tmp_name :: "string \<Rightarrow> string" where
  "tmp_name file_name = ''.'' @ file_name @ ''.tmp''"

text \<open>The permission bits \<open>0o600\<close> are 384; they are asked for on every Unix.\<close>

definition secret_mode :: "'k cred_ext \<Rightarrow> 'k os \<Rightarrow> nat" where
  "secret_mode X s = (if cx_target X \<in> {MacOs, Linux, OtherUnix} then 384 else os_mode s)"

definition write_secret_file :: "'k cred_ext \<Rightarrow> path \<Rightarrow> bytes \<Rightarrow> 'k os \<Rightarrow> (io_error, unit) result \<times> 'k os" where
  "write_secret_file X p contents s =
    then_io (case path_parent p of
        Some parent \<Rightarrow> if parent \<noteq> [] then create_dir_all parent s else (Ok (), s)
      | None \<Rightarrow> (Ok (), s)) (\<lambda>_ s.
    let dir = (case path_parent p of Some parent \<Rightarrow> if parent \<noteq> [] then parent else ''.'' | None \<Rightarrow> ''.'')
    in case path_file_name p of
         None \<Rightarrow> (Err InvalidInput, s)
       | Some file_name \<Rightarrow>
           let tmp = node_key (path_join dir (tmp_name file_name))
           in then_io (open_truncate (secret_mode X s) tmp s) (\<lambda>_ s.
              then_io (write_all tmp contents s) (\<lambda>_ s.
              then_io (sync_all tmp s) (\<lambda>_ s.
              fs_rename tmp (node_key p) s))))"

section \<open>Loading and saving\<close>

definition default_path :: "'k cred_ext \<Rightarrow> wallet_params \<Rightarrow> (storage_error, path) result" where
  "default_path X p =
    bind (ok_or (cx_data_dir X (wp_dir_qualifier p) (wp_dir_organization p) (wp_dir_application p)) NoHomeDirectory)
      (\<lambda>data_dir. Ok (path_join data_dir (wp_wallet_file_name p)))"

definition resolve_path :: "'k cred_ext \<Rightarrow> wallet_params \<Rightarrow> path option \<Rightarrow> (storage_error, path) result" where
  "resolve_path X params override_path =
    (case override_path of Some p \<Rightarrow> Ok p | None \<Rightarrow> default_path X params)"

text \<open>The cached key, when there is one and it opens the file.\<close>

definition cached_wallet ::
  "('i, 'e, 'k) wallet_app \<Rightarrow> provider \<Rightarrow> bytes \<Rightarrow> 'k os \<Rightarrow> (('i, 'e) wallet_data \<times> bytes) option" where
  "cached_wallet A provider encrypted s =
    (case get_key (ap_ext A) provider s of
       Ok (Some key) \<Rightarrow> (case app_decrypt A encrypted key of Ok data \<Rightarrow> Some (data, key) | Err _ \<Rightarrow> None)
     | _ \<Rightarrow> None)"

text \<open>The state of these calls is the provider with the world.\<close>

type_synonym 'k session = "provider \<times> 'k os"

definition unlock_wallet ::
  "('i, 'e, 'k) wallet_app \<Rightarrow> bytes \<Rightarrow> bytes \<Rightarrow> 'k session \<Rightarrow> (storage_error, ('i, 'e) wallet_data \<times> bytes) result \<times> 'k session" where
  "unlock_wallet A encrypted salt = (\<lambda>(provider, s).
    let (r, s) = get_password (ap_ext A) ''Wallet password'' (wp_env_password (ap_params A)) s
    in then_io (r, provider, s) (\<lambda>password ps.
       then_io (map_err FormatError (derive_key (ap_crypto A) password salt), ps) (\<lambda>key ps.
       then_io (map_err WrongPassword (app_decrypt A encrypted key), ps) (\<lambda>data ps.
       (Ok (data, key), snd (store_key (ap_ext A) (fst ps) key (snd ps)))))))"

definition load_with_provider ::
  "('i, 'e, 'k) wallet_app \<Rightarrow> path option \<Rightarrow> 'k session \<Rightarrow> (storage_error, ('i, 'e) wallet) result \<times> 'k session" where
  "load_with_provider A override_path ps0 =
    then_io (resolve_path (ap_ext A) (ap_params A) override_path, ps0) (\<lambda>p (provider, s).
    if \<not> path_exists s p then
      let (salt, s) = fill_bytes 32 s
      in (Ok \<lparr>wl_data = wallet_data_new, wl_path = p, wl_key = replicate 32 0, wl_salt = salt\<rparr>, provider, s)
    else
      then_io (map_err ReadFailed (fs_read p s), provider, s) (\<lambda>encrypted ps.
      then_io (map_err FormatError (extract_salt encrypted (ap_params A)), ps) (\<lambda>salt ps.
      then_io (case cached_wallet A (fst ps) encrypted (snd ps) of
          Some found \<Rightarrow> (Ok found, ps)
        | None \<Rightarrow> unlock_wallet A encrypted salt ps) (\<lambda>(data, key) ps.
      (Ok \<lparr>wl_data = data, wl_path = p, wl_key = key, wl_salt = salt\<rparr>, ps)))))"

definition load ::
  "('i, 'e, 'k) wallet_app \<Rightarrow> path option \<Rightarrow> 'k os \<Rightarrow> (storage_error, ('i, 'e) wallet) result \<times> 'k os" where
  "load A override_path s =
    (case resolve_path (ap_ext A) (ap_params A) override_path of
       Err e \<Rightarrow> (Err e, s)
     | Ok p \<Rightarrow>
         let provider = default_provider_for (ap_ext A) s p (ap_params A);
             (r, provider, s) = load_with_provider A override_path (provider, s)
         in (r, s))"

definition new_key ::
  "('i, 'e, 'k) wallet_app \<Rightarrow> ('i, 'e) wallet \<times> 'k session \<Rightarrow> (storage_error, unit) result \<times> ('i, 'e) wallet \<times> 'k session" where
  "new_key A = (\<lambda>(w, provider, s).
    let (r, s) = get_password_with_confirm (ap_ext A) (wp_env_password (ap_params A)) s
    in then_io (r, w, provider, s) (\<lambda>password (w, provider, s).
       let (salt, s) = fill_bytes 32 s
       in then_io (map_err FormatError (derive_key (ap_crypto A) password salt), w, provider, s) (\<lambda>key (w, provider, s).
          (Ok (), w\<lparr>wl_key := key, wl_salt := salt\<rparr>, snd (store_key (ap_ext A) provider key s)))))"

definition write_wallet ::
  "('i, 'e, 'k) wallet_app \<Rightarrow> ('i, 'e) wallet \<Rightarrow> 'k os \<Rightarrow> (storage_error, unit) result \<times> 'k os" where
  "write_wallet A w s =
    (let (nonce, s) = fill_bytes 24 s
     in then_io (map_err FormatError (app_encrypt A (wl_data w) (wl_key w) (wl_salt w) nonce), s) (\<lambda>encrypted s.
        then_io (case path_parent (wl_path w) of
            Some parent \<Rightarrow> map_prod (map_err ParentFailed) id (create_dir_all parent s)
          | None \<Rightarrow> (Ok (), s)) (\<lambda>_ s.
        map_prod (map_err WriteFailed) id (write_secret_file (ap_ext A) (wl_path w) encrypted s))))"

definition save_with_provider ::
  "('i, 'e, 'k) wallet_app \<Rightarrow> bool \<Rightarrow> ('i, 'e) wallet \<times> 'k session \<Rightarrow> (storage_error, unit) result \<times> ('i, 'e) wallet \<times> 'k session" where
  "save_with_provider A is_new ws =
    then_io (if is_new then new_key A ws else (Ok (), ws)) (\<lambda>_ (w, provider, s).
    let (r, s) = write_wallet A w s in (r, w, provider, s))"

definition save ::
  "('i, 'e, 'k) wallet_app \<Rightarrow> bool \<Rightarrow> ('i, 'e) wallet \<times> 'k os \<Rightarrow> (storage_error, unit) result \<times> ('i, 'e) wallet \<times> 'k os" where
  "save A is_new = (\<lambda>(w, s).
    let provider = default_provider_for (ap_ext A) s (wl_path w) (ap_params A);
        (r, w, provider, s) = save_with_provider A is_new (w, provider, s)
    in (r, w, s))"

section \<open>Secrets of the wallet\<close>

definition insert_secret ::
  "string \<Rightarrow> bytes \<Rightarrow> ('i, 'e) wallet \<times> 'k os \<Rightarrow> (storage_error, string) result \<times> ('i, 'e) wallet \<times> 'k os" where
  "insert_secret label val = (\<lambda>(w, s).
    let created_at = (case os_clock s of Some t \<Rightarrow> t | None \<Rightarrow> 0);
        (id_bytes, s1) = fill_bytes 16 s;
        (salt, s2) = fill_bytes 32 s1
    in case store_insert (wd_secrets (wl_data w)) \<lparr>sd_id = id_bytes, sd_salt = salt\<rparr> label val created_at of
         Err e \<Rightarrow> (Err (SecretFailed e), w, if e = Duplicate then s2 else s)
       | Ok (i, secrets) \<Rightarrow> (Ok i, w\<lparr>wl_data := (wl_data w)\<lparr>wd_secrets := secrets\<rparr>\<rparr>, s2))"

definition wallet_secret :: "('i, 'e) wallet \<Rightarrow> string \<Rightarrow> 'e sealed_secret option" where
  "wallet_secret w i = store_get (wd_secrets (wl_data w)) i"

definition wallet_secret_meta :: "(bytes \<Rightarrow> bytes) \<Rightarrow> ('i, 'e) wallet \<Rightarrow> secret_meta list" where
  "wallet_secret_meta h w = store_list h (wd_secrets (wl_data w))"

definition remove_secret :: "('i, 'e) wallet \<Rightarrow> string \<Rightarrow> bool \<times> ('i, 'e) wallet" where
  "remove_secret w i =
    (let (present, secrets) = store_remove (wd_secrets (wl_data w)) i
     in (present, w\<lparr>wl_data := (wl_data w)\<lparr>wd_secrets := secrets\<rparr>\<rparr>))"

definition is_new_wallet :: "('i, 'e) wallet \<Rightarrow> bool" where
  "is_new_wallet w = (wd_identities (wl_data w) = [])"

definition from_parts :: "('i, 'e) wallet_data \<Rightarrow> path \<Rightarrow> bytes \<Rightarrow> bytes \<Rightarrow> ('i, 'e) wallet" where
  "from_parts data p key salt = \<lparr>wl_data = data, wl_path = p, wl_key = key, wl_salt = salt\<rparr>"

end
