(* ===== verification/Credential_Laws.thy ===== *)
theory Credential_Laws
  imports Credential
begin

text \<open>
  Laws of the key cache. The trait is an interface with the contract of a single cell; the memory
  provider keeps it as it is, the keychain and keyring providers keep it when the operating system keeps the contract
  of its secret service.
\<close>

section \<open>The contract\<close>

locale key_cache =
  fixes put :: "'p \<Rightarrow> 'v \<Rightarrow> 's \<Rightarrow> ('e, unit) result \<times> 'p \<times> 's"
    and get :: "'p \<Rightarrow> 's \<Rightarrow> ('e, 'v option) result"
    and clear :: "'p \<Rightarrow> 's \<Rightarrow> ('e, unit) result \<times> 'p \<times> 's"
    and ok :: "'p \<Rightarrow> bool" and value_ok :: "'v \<Rightarrow> bool"
  assumes put_get: "ok p \<Longrightarrow> value_ok v \<Longrightarrow> put p v s = (Ok (), p', s') \<Longrightarrow> get p' s' = Ok (Some v)"
    and clear_get: "ok p \<Longrightarrow> clear p s = (Ok (), p', s') \<Longrightarrow> get p' s' = Ok None"
    and put_ok: "ok p \<Longrightarrow> put p v s = (r, p', s') \<Longrightarrow> ok p'"
    and clear_ok: "ok p \<Longrightarrow> clear p s = (r, p', s') \<Longrightarrow> ok p'"

datatype 'v cache_call = Put 'v | Clear

text \<open>What a cell holds after a call, and after a sequence of calls.\<close>

fun cell_after :: "'v cache_call \<Rightarrow> 'v option" where
  "cell_after (Put v) = Some v"
| "cell_after Clear = None"

fun call_ok :: "('v \<Rightarrow> bool) \<Rightarrow> 'v cache_call \<Rightarrow> bool" where
  "call_ok value_ok (Put v) = value_ok v"
| "call_ok value_ok Clear = True"

primrec cache_run ::
  "('p \<Rightarrow> 'v \<Rightarrow> 's \<Rightarrow> ('e, unit) result \<times> 'p \<times> 's) \<Rightarrow> ('p \<Rightarrow> 's \<Rightarrow> ('e, unit) result \<times> 'p \<times> 's) \<Rightarrow>
   'v cache_call list \<Rightarrow> 'p \<times> 's \<Rightarrow> ('e, unit) result \<times> 'p \<times> 's" where
  "cache_run put clear [] ps = (Ok (), ps)"
| "cache_run put clear (c # cs) ps =
    then_io (case c of Put v \<Rightarrow> put (fst ps) v (snd ps) | Clear \<Rightarrow> clear (fst ps) (snd ps)) (\<lambda>_. cache_run put clear cs)"

context key_cache
begin

lemma call_effect:
  assumes "ok (fst ps)" and "call_ok value_ok c"
    and "(case c of Put v \<Rightarrow> put (fst ps) v (snd ps) | Clear \<Rightarrow> clear (fst ps) (snd ps)) = (Ok (), ps')"
  shows "ok (fst ps') \<and> get (fst ps') (snd ps') = Ok (cell_after c)"
proof (cases c)
  case (Put v)
  with assms show ?thesis
    using put_ok [of "fst ps" v "snd ps" "Ok ()" "fst ps'" "snd ps'"] put_get [of "fst ps" v "snd ps" "fst ps'" "snd ps'"] by simp
next
  case Clear
  with assms show ?thesis
    using clear_ok [of "fst ps" "snd ps" "Ok ()" "fst ps'" "snd ps'"] clear_get [of "fst ps" "snd ps" "fst ps'" "snd ps'"] by simp
qed

lemma run_effect:
  assumes "ok (fst ps)" and "list_all (call_ok value_ok) cs" and "cs \<noteq> []"
    and "cache_run put clear cs ps = (Ok (), ps')"
  shows "get (fst ps') (snd ps') = Ok (cell_after (last cs))"
  using assms
proof (induction cs arbitrary: ps)
  case (Cons c cs)
  then obtain ps1 where s: "(case c of Put v \<Rightarrow> put (fst ps) v (snd ps) | Clear \<Rightarrow> clear (fst ps) (snd ps)) = (Ok (), ps1)"
      "cache_run put clear cs ps1 = (Ok (), ps')"
    by (auto simp: result_simps)
  have e: "ok (fst ps1) \<and> get (fst ps1) (snd ps1) = Ok (cell_after c)"
    using call_effect [OF _ _ s(1)] Cons.prems by simp
  show ?case
  proof (cases "cs = []")
    case True with e s(2) show ?thesis by simp
  next
    case False with Cons.IH [of ps1] e s(2) Cons.prems show ?thesis by simp
  qed
qed simp

end

section \<open>The contract of the secret services\<close>

definition base64_ok :: "'k cred_ext \<Rightarrow> bool" where
  "base64_ok X \<longleftrightarrow> (\<forall>b. cx_b64_decode X (cx_b64_encode X b) = Some b \<and> valid_text (cx_b64_encode X b))"

text \<open>An entry that was set is read back, one that was deleted is not found, and other entries stay.\<close>

definition keychain_ok :: "'k cred_ext \<Rightarrow> bool" where
  "keychain_ok X \<longleftrightarrow>
    (\<forall>sv ac v o1 o2. cx_set_generic X sv ac v o1 = (Ok (), o2) \<longrightarrow> cx_get_generic X sv ac o2 = Ok v) \<and>
    (\<forall>sv ac r o1 o2. cx_delete_generic X sv ac o1 = (r, o2) \<and> r \<in> {Ok (), Err (-25300)} \<longrightarrow>
      cx_get_generic X sv ac o2 = Err (-25300)) \<and>
    (\<forall>sv ac sv' ac' v o1. (sv, ac) \<noteq> (sv', ac') \<longrightarrow>
      cx_get_generic X sv' ac' (snd (cx_set_generic X sv ac v o1)) = cx_get_generic X sv' ac' o1 \<and>
      cx_get_generic X sv' ac' (snd (cx_delete_generic X sv ac o1)) = cx_get_generic X sv' ac' o1)"

definition keyring_ok :: "'k cred_ext \<Rightarrow> bool" where
  "keyring_ok X \<longleftrightarrow>
    (\<forall>sv ac v o1 o2. cx_set_password X sv ac v o1 = (Ok (), o2) \<longrightarrow> cx_get_password X sv ac o2 = Ok v) \<and>
    (\<forall>sv ac r o1 o2. cx_delete_credential X sv ac o1 = (r, o2) \<and> r \<in> {Ok (), Err NoEntry} \<longrightarrow>
      cx_get_password X sv ac o2 = Err NoEntry) \<and>
    (\<forall>sv ac sv' ac' v o1. (sv, ac) \<noteq> (sv', ac') \<longrightarrow>
      cx_get_password X sv' ac' (snd (cx_set_password X sv ac v o1)) = cx_get_password X sv' ac' o1 \<and>
      cx_get_password X sv' ac' (snd (cx_delete_credential X sv ac o1)) = cx_get_password X sv' ac' o1) \<and>
    (\<forall>sv ac sv' ac' v o1. cx_entry X sv' ac' (snd (cx_set_password X sv ac v o1)) = cx_entry X sv' ac' o1 \<and>
      cx_entry X sv' ac' (snd (cx_delete_credential X sv ac o1)) = cx_entry X sv' ac' o1)"

lemma keychain_set: "keychain_ok X \<Longrightarrow> cx_set_generic X sv ac v o1 = (Ok (), o2) \<Longrightarrow> cx_get_generic X sv ac o2 = Ok v"
  by (simp add: keychain_ok_def)

lemma keychain_delete:
  "keychain_ok X \<Longrightarrow> cx_delete_generic X sv ac o1 = (r, o2) \<Longrightarrow> r \<in> {Ok (), Err (-25300)} \<Longrightarrow>
    cx_get_generic X sv ac o2 = Err (-25300)"
  unfolding keychain_ok_def by metis

lemma keychain_other:
  assumes "keychain_ok X" and "(sv, ac) \<noteq> (sv', ac')"
  shows "cx_get_generic X sv' ac' (snd (cx_set_generic X sv ac v o1)) = cx_get_generic X sv' ac' o1"
    and "cx_get_generic X sv' ac' (snd (cx_delete_generic X sv ac o1)) = cx_get_generic X sv' ac' o1"
  using assms by (simp_all add: keychain_ok_def)

lemma keyring_set: "keyring_ok X \<Longrightarrow> cx_set_password X sv ac v o1 = (Ok (), o2) \<Longrightarrow> cx_get_password X sv ac o2 = Ok v"
  by (simp add: keyring_ok_def)

lemma keyring_delete:
  "keyring_ok X \<Longrightarrow> cx_delete_credential X sv ac o1 = (r, o2) \<Longrightarrow> r \<in> {Ok (), Err NoEntry} \<Longrightarrow>
    cx_get_password X sv ac o2 = Err NoEntry"
  unfolding keyring_ok_def by metis

lemma keyring_other:
  assumes "keyring_ok X" and "(sv, ac) \<noteq> (sv', ac')"
  shows "cx_get_password X sv' ac' (snd (cx_set_password X sv ac v o1)) = cx_get_password X sv' ac' o1"
    and "cx_get_password X sv' ac' (snd (cx_delete_credential X sv ac o1)) = cx_get_password X sv' ac' o1"
  using assms by (simp_all add: keyring_ok_def)

lemma keyring_entries:
  assumes "keyring_ok X"
  shows "cx_entry X sv' ac' (snd (cx_set_password X sv ac v o1)) = cx_entry X sv' ac' o1"
    and "cx_entry X sv' ac' (snd (cx_delete_credential X sv ac o1)) = cx_entry X sv' ac' o1"
  using assms by (simp_all add: keyring_ok_def)

text \<open>The providers that cache: all but the environment variable, which nothing can set.\<close>

fun caching :: "'k cred_ext \<Rightarrow> provider \<Rightarrow> bool" where
  "caching X (MacOSKeychainProvider service account) = (base64_ok X \<and> keychain_ok X)"
| "caching X (KeyringProvider service account) = (base64_ok X \<and> keyring_ok X)"
| "caching X (EnvProvider var_name) = False"
| "caching X (MemoryProvider cell) = True"

text \<open>Calls stay with the provider they are made on.\<close>

fun same_slot :: "provider \<Rightarrow> provider \<Rightarrow> bool" where
  "same_slot (MemoryProvider a) (MemoryProvider b) = True"
| "same_slot p q = (p = q)"

lemma macos_put_get:
  assumes "base64_ok X" and "keychain_ok X" and "length key = 32"
    and "macos_store_key X service account key s = (Ok (), s')"
  shows "macos_get_key X service account s' = Ok (Some key)"
proof -
  let ?o = "snd (cx_delete_generic X service account (os_outside s))"
  obtain r o2 where set: "cx_set_generic X service account (str_bytes (cx_b64_encode X key)) ?o = (r, o2)" by fastforce
  with assms(4) have s': "r = Ok ()" "s' = s\<lparr>os_outside := o2\<rparr>"
    by (auto simp: macos_store_key_def result_simps)
  have "cx_get_generic X service account o2 = Ok (str_bytes (cx_b64_encode X key))"
    using keychain_set [OF assms(2)] set s'(1) by simp
  with s'(2) assms(1,3) show ?thesis by (simp add: macos_get_key_def base64_ok_def)
qed

lemma macos_clear_get:
  assumes "keychain_ok X" and "macos_clear_key X service account s = (Ok (), s')"
  shows "macos_get_key X service account s' = Ok None"
proof -
  obtain r o2 where del: "cx_delete_generic X service account (os_outside s) = (r, o2)" by fastforce
  with assms(2) have s': "r \<in> {Ok (), Err (-25300)}" "s' = s\<lparr>os_outside := o2\<rparr>"
    by (auto simp: macos_clear_key_def split: result.splits if_splits)
  have "cx_get_generic X service account o2 = Err (-25300)"
    by (rule keychain_delete [OF assms(1) del s'(1)])
  with s'(2) show ?thesis by (simp add: macos_get_key_def)
qed

lemma keyring_put_get:
  assumes "base64_ok X" and "keyring_ok X" and "length key = 32"
    and "keyring_store_key X service account key s = (Ok (), s')"
  shows "keyring_get_key X service account s' = Ok (Some key)"
proof -
  obtain r o2 where set: "cx_set_password X service account (cx_b64_encode X key) (os_outside s) = (r, o2)" by fastforce
  with assms(4) have s': "r = Ok ()" "s' = s\<lparr>os_outside := o2\<rparr>" "cx_entry X service account (os_outside s)"
    by (auto simp: keyring_store_key_def keyring_entry_def result_simps)
  have "cx_get_password X service account o2 = Ok (cx_b64_encode X key)"
    using keyring_set [OF assms(2)] set s'(1) by simp
  moreover have "cx_entry X service account o2"
    using keyring_entries(1) [OF assms(2), of service account service account _ "os_outside s"] set s'(3) by (metis snd_conv)
  ultimately show ?thesis using s'(2) assms(1,3) by (simp add: keyring_get_key_def keyring_entry_def base64_ok_def)
qed

lemma keyring_clear_get:
  assumes "keyring_ok X" and "keyring_clear_key X service account s = (Ok (), s')"
  shows "keyring_get_key X service account s' = Ok None"
proof -
  obtain r o2 where del: "cx_delete_credential X service account (os_outside s) = (r, o2)" by fastforce
  with assms(2) have s': "r \<in> {Ok (), Err NoEntry}" "s' = s\<lparr>os_outside := o2\<rparr>" "cx_entry X service account (os_outside s)"
    by (auto simp: keyring_clear_key_def keyring_entry_def result_simps split: result.splits keyring_error.splits)
  have "cx_get_password X service account o2 = Err NoEntry"
    by (rule keyring_delete [OF assms(1) del s'(1)])
  moreover have "cx_entry X service account o2"
    using keyring_entries(2) [OF assms(1), of service account service account "os_outside s"] del s'(3) by simp
  ultimately show ?thesis using s'(2) by (simp add: keyring_get_key_def keyring_entry_def)
qed

lemma store_same_slot: "store_key X p key s = (r, p', s') \<Longrightarrow> same_slot p p'"
  by (cases p) (auto split: prod.splits)

lemma clear_same_slot: "clear_key X p s = (r, p', s') \<Longrightarrow> same_slot p p'"
  by (cases p) (auto split: prod.splits)

lemma same_slot_caching: "same_slot p q \<Longrightarrow> caching X p \<Longrightarrow> caching X q"
  by (cases p; cases q) auto

interpretation credential: key_cache "store_key X" "get_key X" "clear_key X" "caching X" "\<lambda>key. length key = 32" for X
proof unfold_locales
  fix p key s p' s'
  assume "caching X p" "length key = 32" "store_key X p key s = (Ok (), p', s')"
  then show "get_key X p' s' = Ok (Some key)"
    by (cases p) (auto split: prod.splits intro: macos_put_get keyring_put_get)
next
  fix p s p' s'
  assume "caching X p" "clear_key X p s = (Ok (), p', s')"
  then show "get_key X p' s' = Ok None"
    by (cases p) (auto split: prod.splits intro: macos_clear_get keyring_clear_get)
next
  fix p key s r p' s'
  assume "caching X p" "store_key X p key s = (r, p', s')"
  then show "caching X p'" using store_same_slot same_slot_caching by blast
next
  fix p s r p' s'
  assume "caching X p" "clear_key X p s = (r, p', s')"
  then show "caching X p'" using clear_same_slot same_slot_caching by blast
qed

text \<open>
  C15. A provider that caches behaves like a single cell: after any sequence of stored and cleared keys
  that all succeeded, what it returns is what the last call left, the key that was stored or nothing.
  Assumed is that the secret service of the system reads back what was set and that Base64 decodes
  what it encoded.
\<close>

theorem cache_is_a_cell:
  assumes "caching X p" and "cs \<noteq> []" and "list_all (call_ok (\<lambda>key. length key = 32)) cs"
    and "cache_run (store_key X) (clear_key X) cs (p, s) = (Ok (), p', s')"
  shows "get_key X p' s' = Ok (cell_after (last cs))"
  using credential.run_effect [of X "(p, s)" cs "(p', s')"] assms by simp

section \<open>Wallets do not share entries\<close>

text \<open>The account of a wallet is the first 64 bits of the hash of its path.\<close>

definition wallet_hash :: "'k cred_ext \<Rightarrow> 'k os \<Rightarrow> path \<Rightarrow> bytes" where
  "wallet_hash X s p = cx_hash X (str_bytes (case cx_canonicalize X (os_nodes s) p of None \<Rightarrow> p | Some c \<Rightarrow> c))"

lemma take_hex_id: "take (2 * n) (hex_id bs) = hex_id (take n bs)"
proof (induction bs arbitrary: n)
  case (Cons b bs)
  then show ?case by (cases n) (simp_all add: hex_id_Cons hex_id_def [of "[]"])
qed (simp add: hex_id_def)

lemma account_name_eq_iff:
  "account_name_for_wallet X s p = account_name_for_wallet X s' p' \<longleftrightarrow>
    take 8 (wallet_hash X s p) = take 8 (wallet_hash X s' p')"
  using take_hex_id [of 8] hex_id_inj [of "take 8 (wallet_hash X s p)" "take 8 (wallet_hash X s' p')"]
  by (auto simp: account_name_for_wallet_def wallet_hash_def Let_def)

fun slot :: "provider \<Rightarrow> (string \<times> string) option" where
  "slot (MacOSKeychainProvider service account) = Some (service, account)"
| "slot (KeyringProvider service account) = Some (service, account)"
| "slot _ = None"

fun same_service :: "provider \<Rightarrow> provider \<Rightarrow> bool" where
  "same_service (MacOSKeychainProvider _ _) (MacOSKeychainProvider _ _) = True"
| "same_service (KeyringProvider _ _) (KeyringProvider _ _) = True"
| "same_service _ _ = False"

lemma macos_other:
  assumes "keychain_ok X" and "(sv, ac) \<noteq> (sv', ac')"
  shows "macos_get_key X sv' ac' (snd (macos_store_key X sv ac key s)) = macos_get_key X sv' ac' s"
    and "macos_get_key X sv' ac' (snd (macos_clear_key X sv ac s)) = macos_get_key X sv' ac' s"
  using keychain_other [OF assms] by (simp_all add: macos_get_key_def macos_store_key_def macos_clear_key_def case_prod_beta Let_def)

lemma keyring_other_entry:
  assumes "keyring_ok X" and "(sv, ac) \<noteq> (sv', ac')"
  shows "keyring_get_key X sv' ac' (snd (keyring_store_key X sv ac key s)) = keyring_get_key X sv' ac' s"
    and "keyring_get_key X sv' ac' (snd (keyring_clear_key X sv ac s)) = keyring_get_key X sv' ac' s"
  using keyring_other [OF assms] keyring_entries [OF assms(1)]
  by (simp_all add: keyring_get_key_def keyring_store_key_def keyring_clear_key_def keyring_entry_def guard_def
      case_prod_beta Let_def)

lemma other_slot_unchanged:
  assumes "caching X p" and "same_service p q" and "slot p \<noteq> slot q"
  shows "store_key X p key s = (r, p', s') \<Longrightarrow> get_key X q s' = get_key X q s"
    and "clear_key X p s = (r, p', s') \<Longrightarrow> get_key X q s' = get_key X q s"
proof -
  consider (keychain) sv ac sv' ac' where "p = MacOSKeychainProvider sv ac" "q = MacOSKeychainProvider sv' ac'"
    | (keyring) sv ac sv' ac' where "p = KeyringProvider sv ac" "q = KeyringProvider sv' ac'"
    using assms(2) by (cases p; cases q) auto
  then have "(store_key X p key s = (r, p', s') \<longrightarrow> get_key X q s' = get_key X q s) \<and>
    (clear_key X p s = (r, p', s') \<longrightarrow> get_key X q s' = get_key X q s)"
  proof cases
    case keychain
    with assms macos_other [of X sv ac sv' ac'] show ?thesis by (auto simp: case_prod_beta)
  next
    case keyring
    with assms keyring_other_entry [of X sv ac sv' ac'] show ?thesis by (auto simp: case_prod_beta)
  qed
  then show "store_key X p key s = (r, p', s') \<Longrightarrow> get_key X q s' = get_key X q s"
    and "clear_key X p s = (r, p', s') \<Longrightarrow> get_key X q s' = get_key X q s" by blast+
qed

text \<open>
  Two wallets do not overwrite each other's cached key: when the providers that are chosen for them keep entries in
  the same secret service, storing or clearing the key of one leaves what is cached for the other as
  it was, unless the hashes of the two paths agree in their first 64 bits.
\<close>

lemma wallets_do_not_share_entries:
  assumes "default_provider_for X s p params = provider" and "default_provider_for X s q params = other"
    and "caching X provider" and "slot provider \<noteq> None"
    and "store_key X provider key t = (r, provider', t') \<or> clear_key X provider t = (r, provider', t')"
  shows "get_key X other t' = get_key X other t \<or> take 8 (wallet_hash X s p) = take 8 (wallet_hash X s q)"
proof (cases "take 8 (wallet_hash X s p) = take 8 (wallet_hash X s q)")
  case False
  then have ne: "account_name_for_wallet X s p \<noteq> account_name_for_wallet X s q" by (simp add: account_name_eq_iff)
  have "other = memory_new \<or> same_service provider other \<and> slot provider \<noteq> slot other"
    using assms(1,2,4) ne
    by (auto simp: default_provider_for_def memory_new_def macos_new_def keyring_new_def keyring_entry_def Let_def guard_def
        split: if_splits target_os.splits)
  then show ?thesis using assms(5) other_slot_unchanged [OF assms(3)] by (auto simp: memory_new_def)
qed simp

section \<open>An instance\<close>

text \<open>A secret service that is a map from entries to values, and an encoding by two letters per byte.\<close>

definition toy_letters :: "u8 \<Rightarrow> string" where
  "toy_letters b = [char_of (65 + unat b div 16), char_of (65 + unat b mod 16)]"

fun toy_unletter :: "string \<Rightarrow> bytes option" where
  "toy_unletter [] = Some []"
| "toy_unletter [c] = None"
| "toy_unletter (c # d # cs) =
    (case toy_unletter cs of None \<Rightarrow> None
     | Some bs \<Rightarrow> Some (word_of_nat ((of_char c - 65) * 16 + (of_char d - 65)) # bs))"

type_synonym toy_service = "string \<times> string \<Rightarrow> string option"

definition toy_ext :: "target_os \<Rightarrow> toy_service cred_ext" where
  "toy_ext target = \<lparr>cx_target = target, cx_hash = (\<lambda>bs. bs),
    cx_canonicalize = (\<lambda>nodes p. if nodes (node_key p) = None then None else Some (CHR ''/'' # p)),
    cx_b64_encode = (\<lambda>bs. concat (map toy_letters bs)), cx_b64_decode = toy_unletter,
    cx_set_generic = (\<lambda>sv ac v m. (Ok (), m((sv, ac) \<mapsto> map char_of_byte v))),
    cx_get_generic = (\<lambda>sv ac m. case m (sv, ac) of None \<Rightarrow> Err (-25300) | Some v \<Rightarrow> Ok (str_bytes v)),
    cx_delete_generic = (\<lambda>sv ac m. (Ok (), m((sv, ac) := None))),
    cx_entry = (\<lambda>sv ac m. True),
    cx_set_password = (\<lambda>sv ac v m. (Ok (), m((sv, ac) \<mapsto> v))),
    cx_get_password = (\<lambda>sv ac m. case m (sv, ac) of None \<Rightarrow> Err NoEntry | Some v \<Rightarrow> Ok v),
    cx_delete_credential = (\<lambda>sv ac m. (Ok (), m((sv, ac) := None))),
    cx_prompt = (\<lambda>prompt m. (None, m)), cx_data_dir = (\<lambda>q org app. Some ''/home/me'')\<rparr>"

lemma toy_unletter_letters: "toy_unletter (toy_letters b @ cs) = map_option (\<lambda>bs. b # bs) (toy_unletter cs)"
proof -
  have b: "unat b div 16 < 16" using unsigned_less [of b, where ?'a = nat] by simp
  then have "(of_char (char_of (65 + unat b div 16)) :: nat) = 65 + unat b div 16"
    "(of_char (char_of (65 + unat b mod 16)) :: nat) = 65 + unat b mod 16" by simp_all
  then show ?thesis by (simp add: toy_letters_def mult.commute split: option.splits)
qed

lemma toy_letters_text: "valid_text (toy_letters b @ cs) = valid_text cs"
proof -
  have "unat b div 16 < 16" using unsigned_less [of b, where ?'a = nat] by simp
  moreover have "byte_of_char (char_of n) \<le> 0x7F" if "n < 128" for n :: nat
  proof -
    have "byte_of_char (char_of n) = word_of_nat n" using that by (simp add: byte_of_char_def)
    with that show ?thesis by (simp add: word_le_nat_alt unat_of_nat)
  qed
  ultimately have "byte_of_char (char_of (65 + unat b div 16)) \<le> 0x7F" "byte_of_char (char_of (65 + unat b mod 16)) \<le> 0x7F"
    by simp_all
  then show ?thesis by (simp add: toy_letters_def valid_text_def str_bytes_def)
qed

lemma toy_target [simp]: "cx_target (toy_ext target) = target"
  by (simp add: toy_ext_def)

lemma toy_keyring_simps:
  "cx_entry (toy_ext target) sv ac m" "cx_delete_credential (toy_ext target) sv ac m = (Ok (), m((sv, ac) := None))"
  "cx_delete_generic (toy_ext target) sv ac m = (Ok (), m((sv, ac) := None))"
  "cx_set_generic (toy_ext target) sv ac b m = (Ok (), m((sv, ac) \<mapsto> map char_of_byte b))"
  by (simp_all add: toy_ext_def)

lemma toy_base64_ok: "base64_ok (toy_ext target)"
proof -
  have "toy_unletter (concat (map toy_letters bs)) = Some bs \<and> valid_text (concat (map toy_letters bs))" for bs
    by (induction bs) (simp_all add: toy_unletter_letters toy_letters_text)
  then show ?thesis by (simp add: base64_ok_def toy_ext_def)
qed

lemma toy_keychain_ok: "keychain_ok (toy_ext target)"
  by (auto simp: keychain_ok_def toy_ext_def)

lemma toy_keyring_ok: "keyring_ok (toy_ext target)"
  by (auto simp: keyring_ok_def toy_ext_def)

text \<open>A world with the given variables and files, where nothing fails.\<close>

definition toy_os :: "(string \<Rightarrow> env_var) \<Rightarrow> (node_key \<rightharpoonup> node) \<Rightarrow> toy_service os" where
  "toy_os env nodes = \<lparr>os_env = env, os_nodes = nodes, os_fault = (\<lambda>_. False), os_written = 0, os_mode = 438,
    os_rng = (\<lambda>i. 7), os_clock = Some 9, os_outside = (\<lambda>_. None)\<rparr>"

theorem cache_is_a_cell_witness:
  "\<exists>p' s'. cache_run (store_key (toy_ext Linux)) (clear_key (toy_ext Linux)) [Put (replicate 32 1), Clear, Put (replicate 32 2)]
      (KeyringProvider ''identikey'' ''a'', toy_os (\<lambda>_. NotPresent) (\<lambda>_. None)) = (Ok (), p', s') \<and>
    get_key (toy_ext Linux) p' s' = Ok (Some (replicate 32 2))"
proof -
  let ?cs = "[Put (replicate 32 1), Clear, Put (replicate 32 2)]"
  have "fst (cache_run (store_key (toy_ext Linux)) (clear_key (toy_ext Linux)) ?cs
      (KeyringProvider ''identikey'' ''a'', toy_os (\<lambda>_. NotPresent) (\<lambda>_. None))) = Ok ()"
    by (simp add: keyring_store_key_def keyring_clear_key_def keyring_entry_def toy_ext_def)
  then obtain p' s' where run: "cache_run (store_key (toy_ext Linux)) (clear_key (toy_ext Linux)) ?cs
      (KeyringProvider ''identikey'' ''a'', toy_os (\<lambda>_. NotPresent) (\<lambda>_. None)) = (Ok (), p', s')" by (metis prod.collapse)
  have "caching (toy_ext Linux) (KeyringProvider ''identikey'' ''a'')" using toy_base64_ok toy_keyring_ok by simp
  from cache_is_a_cell [OF this _ _ run] run show ?thesis by auto
qed

lemma wallets_do_not_share_entries_witness:
  "\<exists>p' s'. store_key (toy_ext MacOs) (MacOSKeychainProvider ''identikey'' (account_name_for_wallet (toy_ext MacOs)
        (toy_os (\<lambda>_. NotPresent) (\<lambda>_. None)) ''one'')) (replicate 32 1) (toy_os (\<lambda>_. NotPresent) (\<lambda>_. None)) = (Ok (), p', s') \<and>
    get_key (toy_ext MacOs) (MacOSKeychainProvider ''identikey'' (account_name_for_wallet (toy_ext MacOs)
        (toy_os (\<lambda>_. NotPresent) (\<lambda>_. None)) ''two'')) s' = Ok None"
proof -
  let ?X = "toy_ext MacOs" and ?s = "toy_os (\<lambda>_. NotPresent) (\<lambda>_. None)"
  let ?p = "MacOSKeychainProvider ''identikey'' (account_name_for_wallet ?X ?s ''one'')"
  let ?q = "MacOSKeychainProvider ''identikey'' (account_name_for_wallet ?X ?s ''two'')"
  have d: "default_provider_for ?X ?s f IDENTIKEY_PARAMS = MacOSKeychainProvider ''identikey'' (account_name_for_wallet ?X ?s f)" for f
    by (simp add: default_provider_for_def env_value_def env_is_available_def toy_os_def macos_new_def IDENTIKEY_PARAMS_def)
  have c: "caching ?X ?p" using toy_base64_ok toy_keychain_ok by simp
  obtain r p' s' where st: "store_key ?X ?p (replicate 32 1) ?s = (r, p', s')" by (metis prod_cases3)
  moreover have "r = Ok ()" using st by (auto simp: macos_store_key_def toy_ext_def)
  moreover have "take 8 (wallet_hash ?X ?s ''one'') \<noteq> take 8 (wallet_hash ?X ?s ''two'')"
    by (simp add: wallet_hash_def toy_ext_def toy_os_def str_bytes_def byte_of_char_def)
  moreover have "get_key ?X ?q ?s = Ok None" by (simp add: macos_get_key_def toy_ext_def toy_os_def)
  ultimately show ?thesis using wallets_do_not_share_entries [OF d [of "''one''"] d [of "''two''"] c, of "replicate 32 1" ?s r p' s'] by auto
qed

end
