(* ===== verification/Wallet_Laws.thy ===== *)
theory Wallet_Laws
  imports Wallet
begin

text \<open>
  Laws of the wallet: the container reads back what it wrote, although the assertions of an envelope
  come back in the order of their digests, and the encrypted file is opened by its key.
\<close>

section \<open>What an encoded wallet holds\<close>

primrec the_ok :: "('e, 'a) result \<Rightarrow> 'a" where
  "the_ok (Ok x) = x"

datatype ('i, 'e) item =
    ActiveItem
  | IdentityItem string 'i
  | SecretItem "'e sealed_secret"
  | UnknownItem 'e 'e

text \<open>Every assertion with what the decoder makes of it.\<close>

definition identity_entry ::
  "('e, 'x) gordian_scheme \<Rightarrow> ('i \<Rightarrow> string \<Rightarrow> (wallet_error, 'e) result) \<Rightarrow> ('e \<Rightarrow> (wallet_error, string \<times> 'i) result) \<Rightarrow>
   string \<times> 'i \<Rightarrow> ('e \<times> 'e) \<times> ('i, 'e) item" where
  "identity_entry G id_to id_from ni =
    (let e = the_ok (id_to (snd ni) (fst ni)) in ((ev_text G ''identity'', e), IdentityItem (fst ni) (snd (the_ok (id_from e)))))"

definition secret_entry ::
  "('e, 'x) gordian_scheme \<Rightarrow> dcbor_ext \<Rightarrow> 'e sealed_secret \<Rightarrow> ('e \<times> 'e) \<times> ('i, 'e) item" where
  "secret_entry G E s =
    (let e = the_ok (secret_to_envelope G E s)
     in ((ev_text G ''sealed-secret'', e), SecretItem (the_ok (secret_from_envelope G E e))))"

definition active_entries :: "('e, 'x) gordian_scheme \<Rightarrow> string option \<Rightarrow> (('e \<times> 'e) \<times> ('i, 'e) item) list" where
  "active_entries G active =
    (case active of None \<Rightarrow> [] | Some a \<Rightarrow> [((ev_text G ''active-identity'', ev_text G a), ActiveItem)])"

definition wallet_entries ::
  "('e, 'x) gordian_scheme \<Rightarrow> dcbor_ext \<Rightarrow> ('i \<Rightarrow> string \<Rightarrow> (wallet_error, 'e) result) \<Rightarrow>
   ('e \<Rightarrow> (wallet_error, string \<times> 'i) result) \<Rightarrow> ('i, 'e) wallet_data \<Rightarrow> (('e \<times> 'e) \<times> ('i, 'e) item) list" where
  "wallet_entries G E id_to id_from w =
    active_entries G (wd_active_identity w) @ map (identity_entry G id_to id_from) (wd_identities w) @
    map (\<lambda>e. secret_entry G E (snd e)) (wd_secrets w) @ map (\<lambda>po. (po, UnknownItem (fst po) (snd po))) (wd_unknown w)"

definition wallet_digests_ok ::
  "('e, 'x) gordian_scheme \<Rightarrow> dcbor_ext \<Rightarrow> ('i \<Rightarrow> string \<Rightarrow> (wallet_error, 'e) result) \<Rightarrow> ('i, 'e) wallet_data \<Rightarrow> bool" where
  "wallet_digests_ok G E id_to w \<longleftrightarrow> distinct (known_digests G WALLET_PREDICATES) \<and>
    distinct_assertions G (map fst (wallet_entries G E id_to (\<lambda>_. Err SubjectNotMap :: (wallet_error, string \<times> 'i) result) w)) \<and>
    (\<forall>(p, ob) \<in> set (wd_unknown w). ev_digest G p \<notin> set (known_digests G WALLET_PREDICATES))"

definition sorted_entries :: "(string \<times> 'v) list \<Rightarrow> bool" where
  "sorted_entries m \<longleftrightarrow> sorted (map fst m) \<and> distinct (map fst m)"

definition wallet_ok ::
  "('e, 'x) gordian_scheme \<Rightarrow> (string \<Rightarrow> 'i \<Rightarrow> bool) \<Rightarrow> ('i, 'e) wallet_data \<Rightarrow> bool" where
  "wallet_ok G id_ok w \<longleftrightarrow> sorted_entries (wd_identities w) \<and> store_inv (wd_secrets w) \<and>
    (\<forall>(n, i) \<in> set (wd_identities w). id_ok n i) \<and>
    (\<forall>(n, s) \<in> set (wd_secrets w). secret_ok s \<and> secret_digests_ok G s)"

section \<open>Reading in any order\<close>

fun apply_item :: "('i, 'e) item \<Rightarrow> ('i, 'e) wallet_parts \<Rightarrow> (wallet_error, ('i, 'e) wallet_parts) result" where
  "apply_item ActiveItem parts = Ok parts"
| "apply_item (IdentityItem n i) (ids, secs, unk) =
    (if map_of ids n \<noteq> None then Err (DuplicateIdentity n) else Ok (bt_insert n i ids, secs, unk))"
| "apply_item (SecretItem s) (ids, secs, unk) =
    bind (map_err SealedSecretError (insert_sealed secs s)) (\<lambda>secs'. Ok (ids, secs', unk))"
| "apply_item (UnknownItem p ob) (ids, secs, unk) = Ok (ids, secs, unk @ [(p, ob)])"

primrec apply_items :: "('i, 'e) item list \<Rightarrow> ('i, 'e) wallet_parts \<Rightarrow> (wallet_error, ('i, 'e) wallet_parts) result" where
  "apply_items [] parts = Ok parts"
| "apply_items (it # its) parts = bind (apply_item it parts) (apply_items its)"

fun item_identity :: "('i, 'e) item \<Rightarrow> (string \<times> 'i) list" where
  "item_identity (IdentityItem n i) = [(n, i)]"
| "item_identity _ = []"

fun item_secret :: "('i, 'e) item \<Rightarrow> (string \<times> 'e sealed_secret) list" where
  "item_secret (SecretItem s) = [(ss_id s, s)]"
| "item_secret _ = []"

fun item_unknown :: "('i, 'e) item \<Rightarrow> ('e \<times> 'e) list" where
  "item_unknown (UnknownItem p ob) = [(p, ob)]"
| "item_unknown _ = []"

abbreviation "identities_of its \<equiv> concat (map item_identity its)"
abbreviation "secrets_of its \<equiv> concat (map item_secret its)"
abbreviation "unknown_of its \<equiv> concat (map item_unknown its)"

lemma map_of_fresh: "k \<notin> fst ` set m \<Longrightarrow> map_of m k = None"
  by (simp add: map_of_eq_None_iff)

lemma set_bt_insert_fresh: "k \<notin> fst ` set m \<Longrightarrow> set (bt_insert k v m) = insert (k, v) (set m)"
  by (induction k v m rule: bt_insert.induct) auto

lemma sorted_entries_insert: "sorted_entries m \<Longrightarrow> sorted_entries (bt_insert k v m)"
  by (simp add: sorted_entries_def sorted_bt_insert)

lemma sorted_entries_eq:
  assumes "sorted_entries m" and "sorted_entries m'" and "set m = set m'"
  shows "m = m'"
proof -
  have keys: "map fst m = map fst m'"
    using assms sorted_distinct_set_unique [of "map fst m" "map fst m'"] by (simp add: sorted_entries_def)
  have inj: "inj_on fst (set m \<union> set m')" using assms by (simp add: sorted_entries_def distinct_map)
  show ?thesis by (rule map_inj_on [OF keys inj])
qed

lemma apply_items_ok:
  assumes "distinct (map fst (ids @ identities_of its))" and "distinct (map fst (secs @ secrets_of its))"
    and "sorted_entries ids" and "sorted_entries secs"
  shows "\<exists>ids' secs'. apply_items its (ids, secs, unk) = Ok (ids', secs', unk @ unknown_of its) \<and>
    sorted_entries ids' \<and> set ids' = set ids \<union> set (identities_of its) \<and>
    sorted_entries secs' \<and> set secs' = set secs \<union> set (secrets_of its)"
  using assms
proof (induction its arbitrary: ids secs unk)
  case (Cons it its)
  show ?case
  proof (cases it)
    case ActiveItem
    with Cons.prems Cons.IH [of ids secs unk] show ?thesis by simp
  next
    case (IdentityItem n i)
    have fresh: "n \<notin> fst ` set ids" using Cons.prems(1) IdentityItem by auto
    have "distinct (map fst (bt_insert n i ids @ identities_of its))"
      using Cons.prems(1,3) IdentityItem sorted_bt_insert [of ids n i] set_bt_insert [of n i ids]
      by (auto simp: sorted_entries_def)
    from Cons.IH [OF this _ sorted_entries_insert [OF Cons.prems(3)] Cons.prems(4), of unk] Cons.prems(2) IdentityItem fresh
    show ?thesis by (auto simp: map_of_fresh set_bt_insert_fresh)
  next
    case (SecretItem s)
    have fresh: "ss_id s \<notin> fst ` set secs" using Cons.prems(2) SecretItem by auto
    have "distinct (map fst (bt_insert (ss_id s) s secs @ secrets_of its))"
      using Cons.prems(2,4) SecretItem sorted_bt_insert [of secs "ss_id s" s] set_bt_insert [of "ss_id s" s secs]
      by (auto simp: sorted_entries_def)
    from Cons.IH [OF _ this Cons.prems(3) sorted_entries_insert [OF Cons.prems(4)], of unk] Cons.prems(1) SecretItem fresh
    show ?thesis by (auto simp: insert_sealed_def map_of_fresh set_bt_insert_fresh)
  next
    case (UnknownItem p ob)
    with Cons.prems Cons.IH [of ids secs "unk @ [(p, ob)]"] show ?thesis by simp
  qed
qed simp

section \<open>The round trip of the container\<close>

lemma read_one:
  assumes "gordian_ok G" and "distinct (known_digests G WALLET_PREDICATES)"
  shows "read_assertion G E id_from (ev_new_assertion G (ev_text G ''active-identity'') ob) parts = Ok parts"
    and "id_from ob = Ok (n, i) \<Longrightarrow>
      read_assertion G E id_from (ev_new_assertion G (ev_text G ''identity'') ob) parts = apply_item (IdentityItem n i) parts"
    and "secret_from_envelope G E ob = Ok s \<Longrightarrow>
      read_assertion G E id_from (ev_new_assertion G (ev_text G ''sealed-secret'') ob) parts = apply_item (SecretItem s) parts"
    and "ev_digest G p \<notin> set (known_digests G WALLET_PREDICATES) \<Longrightarrow>
      read_assertion G E id_from (ev_new_assertion G p ob) parts = apply_item (UnknownItem p ob) parts"
proof -
  obtain ids secs unk where parts: "parts = (ids, secs, unk)" by (cases parts)
  have a: "ev_as_predicate G (ev_new_assertion G p ob) = Some p" "ev_as_object G (ev_new_assertion G p ob) = Some ob"
    "ev_try_leaf G (ev_text G k) = Some (DText k)" for p ob k
    using assms(1) by (simp_all add: gordian_ok_def ev_text_def)
  have known: "ev_digest G (ev_text G k) \<in> set (known_digests G WALLET_PREDICATES)" if "k \<in> set WALLET_PREDICATES" for k
    using that by (auto simp: known_digests_def)
  have mem: "''active-identity'' \<in> set WALLET_PREDICATES" "''identity'' \<in> set WALLET_PREDICATES"
    "''sealed-secret'' \<in> set WALLET_PREDICATES" by (simp_all add: WALLET_PREDICATES_def)
  show "read_assertion G E id_from (ev_new_assertion G (ev_text G ''active-identity'') ob) parts = Ok parts"
    by (simp add: read_assertion_def parts a known mem extract_as_def)
  show "id_from ob = Ok (n, i) \<Longrightarrow>
      read_assertion G E id_from (ev_new_assertion G (ev_text G ''identity'') ob) parts = apply_item (IdentityItem n i) parts"
    by (simp add: read_assertion_def parts a known mem extract_as_def)
  show "secret_from_envelope G E ob = Ok s \<Longrightarrow>
      read_assertion G E id_from (ev_new_assertion G (ev_text G ''sealed-secret'') ob) parts = apply_item (SecretItem s) parts"
    by (simp add: read_assertion_def parts a known mem extract_as_def)
  show "ev_digest G p \<notin> set (known_digests G WALLET_PREDICATES) \<Longrightarrow>
      read_assertion G E id_from (ev_new_assertion G p ob) parts = apply_item (UnknownItem p ob) parts"
    by (simp add: read_assertion_def parts a)
qed

lemma read_assertions_items:
  assumes "\<And>z it parts. (z, it) \<in> set qs \<Longrightarrow>
    read_assertion G E id_from (ev_new_assertion G (fst z) (snd z)) parts = apply_item it parts"
  shows "read_assertions G E id_from (map (\<lambda>q. ev_new_assertion G (fst (fst q)) (snd (fst q))) qs) parts =
    apply_items (map snd qs) parts"
  using assms
proof (induction qs arbitrary: parts)
  case (Cons q qs)
  have "read_assertion G E id_from (ev_new_assertion G (fst (fst q)) (snd (fst q))) parts = apply_item (snd q) parts"
    using Cons.prems [of "fst q" "snd q"] by simp
  with Cons.IH Cons.prems show ?case by (cases "apply_item (snd q) parts") auto
qed simp

definition same_secret :: "'e sealed_secret \<Rightarrow> 'e sealed_secret \<Rightarrow> bool" where
  "same_secret s t \<longleftrightarrow> (\<exists>us. t = s\<lparr>ss_unknown := us\<rparr> \<and> mset us = mset (ss_unknown s))"

lemma secret_back:
  assumes "gordian_ok G" and "ext_ok E" and "secret_ok s" and "secret_digests_ok G s"
  shows "\<exists>e t. secret_to_envelope G E s = Ok e \<and> secret_from_envelope G E e = Ok t \<and> same_secret s t"
  using secret_to_envelope_holds [OF assms(1,4), of E] secret_from_holding [OF assms] unfolding same_secret_def by blast

lemma same_secret_id: "same_secret s t \<Longrightarrow> ss_id t = ss_id s"
  by (auto simp: same_secret_def)

text \<open>Two wallets with the same contents, up to the order of preserved assertions.\<close>

definition same_wallet :: "('i \<Rightarrow> 'i \<Rightarrow> bool) \<Rightarrow> ('i, 'e) wallet_data \<Rightarrow> ('i, 'e) wallet_data \<Rightarrow> bool" where
  "same_wallet id_same w v \<longleftrightarrow>
    list_all2 (\<lambda>(n, i) (m, j). n = m \<and> id_same i j) (wd_identities w) (wd_identities v) \<and>
    wd_active_identity v = wd_active_identity w \<and>
    list_all2 (\<lambda>(n, s) (m, t). n = m \<and> same_secret s t) (wd_secrets w) (wd_secrets v) \<and>
    mset (wd_unknown v) = mset (wd_unknown w)"

lemma entry_assertions: "map fst (wallet_entries G E id_to f w) = map fst (wallet_entries G E id_to g w)"
  by (simp add: wallet_entries_def active_entries_def identity_entry_def secret_entry_def Let_def comp_def split: option.splits)

lemma add_secrets_all:
  assumes "\<And>s. s \<in> set ss \<Longrightarrow> is_ok (secret_to_envelope G E s)"
  shows "add_secrets G E ss e = Ok (add_all G (map (\<lambda>s. (ev_text G ''sealed-secret'', the_ok (secret_to_envelope G E s))) ss) e)"
  using assms
proof (induction ss arbitrary: e)
  case (Cons s ss)
  then obtain e' where "secret_to_envelope G E s = Ok e'" by (auto simp: is_ok_iff)
  with Cons show ?case by (simp add: add_all_def)
qed (simp add: add_all_def)

lemma add_identities_all:
  assumes "\<And>n i. (n, i) \<in> set nis \<Longrightarrow> is_ok (id_to i n)"
  shows "add_identities G id_to nis e = Ok (add_all G (map (\<lambda>ni. fst (identity_entry G id_to f ni)) nis) e)"
  using assms
proof (induction nis arbitrary: e)
  case (Cons ni nis)
  have "is_ok (id_to (snd ni) (fst ni))" using Cons.prems [of "fst ni" "snd ni"] by simp
  then obtain e' where "id_to (snd ni) (fst ni) = Ok e'" by (auto simp: is_ok_iff)
  with Cons show ?case by (simp add: add_all_def identity_entry_def Let_def)
qed (simp add: add_all_def)

lemma add_all_append: "add_all G (xs @ ys) e = add_all G ys (add_all G xs e)"
  by (simp add: add_all_def)

lemma wallet_subject_lookup:
  assumes "ext_ok E"
  shows "map_get E try_text (wallet_subject E params) ''type'' = Some (wp_wallet_type params)"
    and "map_get E try_u32 (wallet_subject E params) ''format-version'' = Some (wp_format_version params)"
proof -
  have t: "text_ok E ''type''" "text_ok E ''format-version''" using assms by (simp_all add: text_ok_ascii ascii_def)
  then have "fields_ok E [(''type'', x), (''format-version'', y)]" for x y by (simp add: fields_ok_def)
  note look = lookup_insert_all [OF this]
  have "ucast (wp_format_version params) \<le> (0xFFFFFFFF :: u64)"
    using unsigned_less [of "wp_format_version params", where ?'a = nat]
    by (simp add: word_le_nat_alt unsigned_ucast_eq take_bit_eq_mod)
  moreover have "ucast (ucast (wp_format_version params) :: u64) = wp_format_version params"
    by (rule ucast_down_ucast_id) (simp add: is_down)
  ultimately show "map_get E try_text (wallet_subject E params) ''type'' = Some (wp_wallet_type params)"
    "map_get E try_u32 (wallet_subject E params) ''format-version'' = Some (wp_format_version params)"
    using look t by (auto simp: map_get_def wallet_subject_def)
qed

context wallet_identity
begin

lemma wallet_encoded:
  assumes "gordian_ok G" and "ext_ok E" and "wallet_ok G id_ok w" and "wallet_digests_ok G E id_to w"
  shows "\<exists>e. wallet_to_envelope G E id_to w params = Ok e \<and>
    holds G e (DMap (wallet_subject E params)) (map fst (wallet_entries G E id_to id_from w))"
proof -
  let ?c = "DMap (wallet_subject E params)" and ?pos = "map fst (wallet_entries G E id_to id_from w)"
  have ids: "is_ok (id_to i n)" if "(n, i) \<in> set (wd_identities w)" for n i
    using from_to [of n i] assms(3) that by (fastforce simp: wallet_ok_def is_ok_iff)
  have secs: "is_ok (secret_to_envelope G E s)" if "s \<in> set (map snd (wd_secrets w))" for s
  proof -
    from that obtain n where "(n, s) \<in> set (wd_secrets w)" by auto
    then have "secret_digests_ok G s" using assms(3) by (auto simp: wallet_ok_def)
    from secret_to_envelope_holds [OF assms(1) this, of E] show ?thesis by (auto simp: is_ok_iff)
  qed
  have sec_all: "add_secrets G E (map snd (wd_secrets w)) e =
      Ok (add_all G (map (\<lambda>x. (ev_text G ''sealed-secret'', the_ok (secret_to_envelope G E (snd x)))) (wd_secrets w)) e)" for e
    using add_secrets_all [of "map snd (wd_secrets w)" G E e] secs by (simp add: comp_def)
  have id_all: "add_identities G id_to (wd_identities w) e =
      Ok (add_all G (map (\<lambda>x. fst (identity_entry G id_to id_from x)) (wd_identities w)) e)" for e
    using add_identities_all [of "wd_identities w" id_to G e id_from] ids by blast
  have srt: "sort_key fst (wd_identities w) = wd_identities w"
    using assms(3) by (simp add: wallet_ok_def sorted_entries_def sort_key_id_if_sorted)
  have "wallet_to_envelope G E id_to w params = Ok (add_all G ?pos (ev_new G ?c))"
    by (simp add: wallet_to_envelope_def srt id_all sec_all
        add_unknown_all [OF assms(1)] wallet_entries_def active_entries_def secret_entry_def add_all_append comp_def store_iter_def Let_def
        split: option.splits) (simp add: add_all_def)
  moreover have "distinct_assertions G ?pos"
    using assms(4) entry_assertions [of G E id_to id_from w "\<lambda>_. Err SubjectNotMap"] by (simp add: wallet_digests_ok_def)
  then have "holds G (add_all G ?pos (ev_new G ?c)) ?c ?pos"
    using add_all_holds [OF assms(1) holds_new [OF assms(1)]] by simp
  ultimately show ?thesis by blast
qed

lemma identity_back:
  assumes "id_ok n i"
  shows "id_from (the_ok (id_to i n)) = Ok (n, snd (the_ok (id_from (the_ok (id_to i n)))))"
    and "id_same i (snd (the_ok (id_from (the_ok (id_to i n)))))"
  using from_to [OF assms] by auto

lemma entry_read:
  assumes G: "gordian_ok G" and E: "ext_ok E" and w: "wallet_ok G id_ok w" and d: "wallet_digests_ok G E id_to w"
    and mem: "(z, it) \<in> set (wallet_entries G E id_to id_from w)"
  shows "read_assertion G E id_from (ev_new_assertion G (fst z) (snd z)) parts = apply_item it parts"
proof -
  have known: "distinct (known_digests G WALLET_PREDICATES)" using d by (simp add: wallet_digests_ok_def)
  note read = read_one [OF G known, where E = E and id_from = id_from and parts = parts]
  from mem consider (act) a where "z = (ev_text G ''active-identity'', ev_text G a)" "it = ActiveItem"
    | (ident) n i where "(n, i) \<in> set (wd_identities w)" "(z, it) = identity_entry G id_to id_from (n, i)"
    | (sec) n s where "(n, s) \<in> set (wd_secrets w)" "(z, it) = secret_entry G E s"
    | (unk) p ob where "(p, ob) \<in> set (wd_unknown w)" "z = (p, ob)" "it = UnknownItem p ob"
    by (auto simp: wallet_entries_def active_entries_def split: option.splits)
  then show ?thesis
  proof cases
    case act
    then show ?thesis using read(1) by simp
  next
    case ident
    then have "id_ok n i" using w by (auto simp: wallet_ok_def)
    from read(2) [OF identity_back(1) [OF this]] ident(2) show ?thesis by (simp add: identity_entry_def Let_def)
  next
    case sec
    then have "secret_ok s" "secret_digests_ok G s" using w by (auto simp: wallet_ok_def)
    from secret_back [OF G E this] obtain e t where "secret_to_envelope G E s = Ok e" "secret_from_envelope G E e = Ok t"
      by blast
    with read(3) [OF this(2)] sec(2) show ?thesis by (simp add: secret_entry_def Let_def)
  next
    case unk
    then show ?thesis using read(4) [of p ob] d by (auto simp: wallet_digests_ok_def)
  qed
qed

lemma active_read:
  assumes G: "gordian_ok G" and d: "wallet_digests_ok G E id_to w"
    and e: "holds G e c (map fst (wallet_entries G E id_to id_from w))"
  shows "(case ev_extract_optional_for G e ''active-identity'' of
    Some (Some v) \<Rightarrow> extract_as try_text (Some v) | _ \<Rightarrow> None) = wd_active_identity w"
proof -
  have known: "distinct (known_digests G WALLET_PREDICATES)" using d by (simp add: wallet_digests_ok_def)
  have mem: "''active-identity'' \<in> set WALLET_PREDICATES" "''identity'' \<in> set WALLET_PREDICATES"
    "''sealed-secret'' \<in> set WALLET_PREDICATES" by (simp_all add: WALLET_PREDICATES_def)
  have ne: "ev_digest G (ev_text G ''identity'') \<noteq> ev_digest G (ev_text G ''active-identity'')"
    "ev_digest G (ev_text G ''sealed-secret'') \<noteq> ev_digest G (ev_text G ''active-identity'')"
    using known_digest_eq [OF known] mem by simp_all
  have "objects_for G (map (\<lambda>x. fst (identity_entry G id_to id_from x)) xs) ''active-identity'' = []"
    "objects_for G (map (\<lambda>x. fst (secret_entry G E (snd x) :: _ \<times> ('i, 'e) item)) ys) ''active-identity'' = []" for xs ys
    using ne by (simp_all add: objects_for_def identity_entry_def secret_entry_def Let_def filter_empty_conv)
  moreover have "objects_for G (wd_unknown w) ''active-identity'' = []"
    using objects_for_unknown [OF mem(1), of "wd_unknown w" G] d by (auto simp: wallet_digests_ok_def)
  ultimately have objs: "objects_for G (map fst (wallet_entries G E id_to id_from w)) ''active-identity'' =
      (case wd_active_identity w of None \<Rightarrow> [] | Some a \<Rightarrow> [ev_text G a])"
    by (cases "wd_active_identity w") (simp_all add: wallet_entries_def active_entries_def comp_def)
  show ?thesis
  proof (cases "wd_active_identity w")
    case None
    with lookup_none [OF G e] objs show ?thesis by simp
  next
    case (Some a)
    with lookup_one(3) [OF G e, of _ "ev_text G a"] objs G show ?thesis
      by (simp add: extract_as_def ev_text_def gordian_ok_def)
  qed
qed

lemma parts_of_entries:
  fixes w :: "('i, 'e) wallet_data" and G :: "('e, 'x) gordian_scheme"
  assumes "gordian_ok G" and "ext_ok E" and "wallet_ok G id_ok w"
  defines "its \<equiv> map snd (wallet_entries G E id_to id_from w)"
  shows "list_all2 (\<lambda>(n, i) (m, j). n = m \<and> id_same i j) (wd_identities w) (identities_of its)"
    and "list_all2 (\<lambda>(n, s) (m, t). n = m \<and> same_secret s t) (wd_secrets w) (secrets_of its)"
    and "unknown_of its = wd_unknown w"
proof -
  have act: "concat (map (\<lambda>x. item_identity (snd x)) (active_entries G (wd_active_identity w))) = []"
    "concat (map (\<lambda>x. item_secret (snd x)) (active_entries G (wd_active_identity w))) = []"
    "concat (map (\<lambda>x. item_unknown (snd x)) (active_entries G (wd_active_identity w))) = []"
    by (cases "wd_active_identity w"; simp add: active_entries_def)+
  have nil: "concat (map (\<lambda>x. []) xs) = []" for xs :: "'y list" by simp
  have ids: "identities_of its = map (\<lambda>ni. (fst ni, snd (the_ok (id_from (the_ok (id_to (snd ni) (fst ni))))))) (wd_identities w)"
    by (simp add: its_def wallet_entries_def act nil identity_entry_def secret_entry_def Let_def comp_def)
  have secs: "secrets_of its = map (\<lambda>e. let t = the_ok (secret_from_envelope G E (the_ok (secret_to_envelope G E (snd e))))
      in (ss_id t, t)) (wd_secrets w)"
    by (simp add: its_def wallet_entries_def act nil identity_entry_def secret_entry_def Let_def comp_def)
  show "unknown_of its = wd_unknown w"
    by (simp add: its_def wallet_entries_def act nil identity_entry_def secret_entry_def Let_def comp_def)
  show "list_all2 (\<lambda>(n, i) (m, j). n = m \<and> id_same i j) (wd_identities w) (identities_of its)"
    using assms(3) identity_back(2) unfolding ids
    by (auto simp: wallet_ok_def list_all2_map2 list_all2_same)
  have "n = ss_id t \<and> same_secret s t"
    if "(n, s) \<in> set (wd_secrets w)" and t: "t = the_ok (secret_from_envelope G E (the_ok (secret_to_envelope G E s)))" for n s t
  proof -
    have "secret_ok s" "secret_digests_ok G s" "ss_id s = n" using assms(3) that(1) by (auto simp: wallet_ok_def store_inv_def)
    from secret_back [OF assms(1,2) this(1,2)] this(3) t same_secret_id [of s] show ?thesis by auto
  qed
  then show "list_all2 (\<lambda>(n, s) (m, t). n = m \<and> same_secret s t) (wd_secrets w) (secrets_of its)"
    unfolding secs by (auto simp: list_all2_map2 list_all2_same Let_def)
qed

lemma container_roundtrip:
  fixes w :: "('i, 'e) wallet_data" and G :: "('e, 'x) gordian_scheme"
  assumes G: "gordian_ok G" and E: "ext_ok E" and w: "wallet_ok G id_ok w" and d: "wallet_digests_ok G E id_to w"
  shows "\<exists>e v. wallet_to_envelope G E id_to w params = Ok e \<and> wallet_from_envelope G E id_from e params = Ok v \<and>
    same_wallet id_same w v"
proof -
  let ?es = "wallet_entries G E id_to id_from w" and ?c = "DMap (wallet_subject E params)"
  obtain e where e: "wallet_to_envelope G E id_to w params = Ok e" "holds G e ?c (map fst ?es)"
    using wallet_encoded [OF assms, of params] by blast
  let ?f = "\<lambda>q. ev_new_assertion G (fst (fst q)) (snd (fst q))"
  have "mset (ev_assertions G e) = mset (map ?f ?es)" using e(2) by (simp add: holds_def case_prod_beta image_mset.compositionality comp_def)
  then obtain qs where qs: "ev_assertions G e = map ?f qs" "mset qs = mset ?es" using mset_map_reorder by blast
  let ?its = "map snd qs" and ?written = "map snd ?es"
  have perm: "mset ?its = mset ?written" using qs(2) by simp
  note parts = parts_of_entries [OF G E w]
  have keys: "map fst (identities_of ?written) = map fst (wd_identities w)" "map fst (secrets_of ?written) = map fst (wd_secrets w)"
    using parts(1,2) by (auto simp: list_all2_conv_all_nth intro!: nth_equalityI)
  have sorted0: "sorted_entries (identities_of ?written)" "sorted_entries (secrets_of ?written)"
    using w keys by (simp_all add: sorted_entries_def wallet_ok_def store_inv_def)
  have mi: "mset (identities_of ?its) = mset (identities_of ?written)" and ms: "mset (secrets_of ?its) = mset (secrets_of ?written)"
    and mu: "mset (unknown_of ?its) = mset (wd_unknown w)"
    using mset_concat_map [OF perm] parts(3) by metis+
  have di: "distinct (map fst ([] @ identities_of ?its))" and ds: "distinct (map fst (store_new @ secrets_of ?its))"
    using sorted0 mset_eq_imp_distinct_iff [of "map fst (identities_of ?its)" "map fst (identities_of ?written)"]
      mset_eq_imp_distinct_iff [of "map fst (secrets_of ?its)" "map fst (secrets_of ?written)"] mi ms
    by (simp_all add: sorted_entries_def store_new_def)
  obtain ids secs where ap: "apply_items ?its ([], store_new, []) = Ok (ids, secs, [] @ unknown_of ?its)"
      "sorted_entries ids" "set ids = set (identities_of ?its)" "sorted_entries secs" "set secs = set (secrets_of ?its)"
    using apply_items_ok [of "[]" ?its store_new "[]", OF di ds] by (auto simp: sorted_entries_def store_new_def)
  have same: "ids = identities_of ?written" "secs = secrets_of ?written"
    using ap(2-5) sorted0 mset_eq_setD [OF mi] mset_eq_setD [OF ms] by (auto intro!: sorted_entries_eq)
  have read: "read_assertions G E id_from (ev_assertions G e) ([], store_new, []) =
      Ok (identities_of ?written, secrets_of ?written, unknown_of ?its)"
    using read_assertions_items [of qs G E id_from] entry_read [OF G E w d] mset_eq_setD [OF qs(2)] ap(1) same
    by (simp add: qs(1))
  have leaf: "ev_try_leaf G (ev_subject G e) = Some ?c" using e(2) G by (simp add: holds_def gordian_ok_def)
  have active: "(case ev_extract_optional_for G e ''active-identity'' of
      Some (Some v) \<Rightarrow> extract_as try_text (Some v) | _ \<Rightarrow> None) = wd_active_identity w"
    by (rule active_read [OF G d e(2)])
  let ?v = "\<lparr>wd_identities = identities_of ?written, wd_active_identity = wd_active_identity w,
    wd_secrets = secrets_of ?written, wd_unknown = unknown_of ?its\<rparr>"
  have "wallet_from_envelope G E id_from e params = Ok ?v"
    by (simp add: wallet_from_envelope_def leaf wallet_subject_lookup [OF E] read active)
  moreover have "same_wallet id_same w ?v" using parts(1,2) mu by (simp add: same_wallet_def)
  ultimately show ?thesis using e(1) by blast
qed

end

section \<open>The encrypted file\<close>

text \<open>What the AEAD promises: a ciphertext is 16 bytes longer and is opened by its key and nonce.\<close>

definition aead_ok :: "wallet_crypto \<Rightarrow> bool" where
  "aead_ok W \<longleftrightarrow> (\<forall>k n m c. wc_encrypt W k n m = Some c \<longrightarrow> wc_decrypt W k n c = Some m \<and> length c = length m + 16)"

text \<open>The layout of the file: where each part begins.\<close>

lemma file_layout:
  fixes ciphertext :: bytes
  assumes "length salt = 32" and "length nonce = 24"
  defines "file \<equiv> MAGIC @ [WALLET_VERSION] @ salt @ nonce @ ciphertext"
  shows "take 5 file = MAGIC" "file ! 5 = WALLET_VERSION" "take 32 (drop 6 file) = salt"
    "take 24 (drop 38 file) = nonce" "drop 62 file = ciphertext" "length file = 62 + length ciphertext"
proof -
  have m: "length MAGIC = 5" by (simp add: MAGIC_def)
  show "take 5 file = MAGIC" "file ! 5 = WALLET_VERSION" "take 32 (drop 6 file) = salt"
    "take 24 (drop 38 file) = nonce" "drop 62 file = ciphertext" "length file = 62 + length ciphertext"
    using assms(1,2) m by (simp_all add: file_def nth_append)
qed

lemma check_version_ok: "check_version WALLET_VERSION params = Ok ()"
  by (simp add: check_version_def WALLET_VERSION_def)

lemma file_opens:
  assumes "aead_ok W" and "length salt = 32" and "length nonce = 24"
    and "encrypt_wallet_with_key_nonce W G E id_to w key salt nonce params = Ok file"
  shows "\<exists>plaintext. to_envelope G E id_to w params = Ok plaintext \<and> extract_salt file params = Ok salt \<and>
    decrypt_wallet_with_key W G E id_from file key params = from_envelope G E id_from plaintext params"
proof -
  from assms(4) obtain plaintext ciphertext where p: "to_envelope G E id_to w params = Ok plaintext"
      "wc_encrypt W key nonce plaintext = Some ciphertext" "file = MAGIC @ [WALLET_VERSION] @ salt @ nonce @ ciphertext"
    by (auto simp: encrypt_wallet_with_key_nonce_def result_simps)
  note lay = file_layout [OF assms(2,3), of ciphertext, folded p(3)]
  have c: "wc_decrypt W key nonce ciphertext = Some plaintext" "length ciphertext \<ge> 16"
    using assms(1) p(2) unfolding aead_ok_def by auto
  have "extract_salt file params = Ok salt"
    by (simp add: extract_salt_def lay check_version_ok)
  moreover have "decrypt_wallet_with_key W G E id_from file key params = from_envelope G E id_from plaintext params"
    using c by (simp add: decrypt_wallet_with_key_def lay check_version_ok Let_def)
  ultimately show ?thesis using p(1) by blast
qed

text \<open>A version 1 file is refused by both entry points with the text of the application.\<close>

lemma v1_rejected:
  assumes "take 5 file = MAGIC" and "file ! 5 = 1" and "length file \<ge> 78"
  shows "extract_salt file params = Err (V1Rejected (wp_v1_rejection_msg params))"
    and "decrypt_wallet_with_key W G E id_from file key params = Err (V1Rejected (wp_v1_rejection_msg params))"
  using assms by (simp_all add: extract_salt_def decrypt_wallet_with_key_def check_version_def)

text \<open>
  A wallet that was encrypted under a password is opened by it: the salt is found in the file, the
  key derived from it decrypts the file, and the container that was read has the same identities
  under the same names, the same active identity, the same secrets and the same unknown assertions,
  where only the order of assertions that the program does not know may differ. Here the envelope
  is assumed to survive its own encoding, which is the business of the envelope crate.
\<close>

lemma wallet_file_roundtrip:
  assumes "gordian_ok G" and "ext_ok E" and "aead_ok W"
    and "wallet_ok G (basic_ok h G E) w" and "wallet_digests_ok G E (identity_to_envelope h G E) w"
    and "\<And>e. wallet_to_envelope G E (identity_to_envelope h G E) w params = Ok e \<Longrightarrow>
      ev_try_from_cbor_data G (ev_to_cbor_data G e) = Some e"
    and "length salt = 32" and "length nonce = 24" and "derive_key W password salt = Ok key"
    and "encrypt_wallet_with_key W G E (identity_to_envelope h G E) w key salt params nonce = Ok file"
  shows "\<exists>v. bind (extract_salt file params) (\<lambda>salt'. bind (derive_key W password salt') (\<lambda>key'.
      decrypt_wallet_with_key W G E (identity_from_envelope h G E) file key' params)) = Ok v \<and> same_wallet same_identity w v"
proof -
  obtain plaintext where p: "to_envelope G E (identity_to_envelope h G E) w params = Ok plaintext"
      "extract_salt file params = Ok salt"
      "decrypt_wallet_with_key W G E (identity_from_envelope h G E) file key params =
        from_envelope G E (identity_from_envelope h G E) plaintext params"
    using file_opens [OF assms(3,7,8)] assms(10) unfolding encrypt_wallet_with_key_def by blast
  obtain e v where e: "wallet_to_envelope G E (identity_to_envelope h G E) w params = Ok e"
      "wallet_from_envelope G E (identity_from_envelope h G E) e params = Ok v" "same_wallet same_identity w v"
    using basic.container_roundtrip [OF assms(1,2,4,5)] by blast
  have "plaintext = ev_to_cbor_data G e" using p(1) e(1) by (simp add: to_envelope_def)
  then have "from_envelope G E (identity_from_envelope h G E) plaintext params = Ok v"
    using assms(6) [OF e(1)] e(2) by (simp add: from_envelope_def)
  with p assms(9) e(3) show ?thesis by simp
qed

definition toy_wallet_crypto :: wallet_crypto where
  "toy_wallet_crypto = \<lparr>wc_encrypt = (\<lambda>k n m. Some (m @ replicate 16 0)),
    wc_decrypt = (\<lambda>k n c. Some (take (length c - 16) c)), wc_argon2id = (\<lambda>m t p pw salt. Some (replicate 32 1))\<rparr>"

definition toy_hash :: "bytes \<Rightarrow> bytes" where
  "toy_hash b = replicate 32 (word_of_nat (length b))"

definition demo_identity :: "toy_env basic_identity" where
  "demo_identity = basic_identity_new toy_hash 5 [1, 2] [3, 4]"

definition demo_wallet :: "(toy_env basic_identity, toy_env) wallet_data" where
  "demo_wallet = \<lparr>wd_identities = [(''alice'', demo_identity)], wd_active_identity = Some ''alice'',
    wd_secrets = [(''pat'', demo_secret)], wd_unknown = [(ToyLeaf (DText ''later''), ToyLeaf (DUnsigned 1))]\<rparr>"

lemma demo_wallet_ok:
  "wallet_ok toy_gordian (basic_ok toy_hash toy_gordian ascii_ext) demo_wallet"
  "wallet_digests_ok toy_gordian ascii_ext (identity_to_envelope toy_hash toy_gordian ascii_ext) demo_wallet"
proof -
  have "identity_ok toy_hash demo_identity"
    by (simp add: identity_ok_def demo_identity_def basic_identity_new_def toy_hash_def)
  moreover have "identity_digests_ok toy_gordian ''alice'' demo_identity"
    by (simp add: identity_digests_ok_def identity_assertions_def distinct_assertions_def IDENTITY_PREDICATES_def
        known_digests_def demo_identity_def basic_identity_new_def)
  moreover have "ss_id demo_secret = ''pat''" by (simp add: demo_secret_def)
  ultimately show "wallet_ok toy_gordian (basic_ok toy_hash toy_gordian ascii_ext) demo_wallet"
    using toy_gordian_ok demo_secret_ok
    by (simp add: wallet_ok_def demo_wallet_def sorted_entries_def store_inv_def basic_ok_def)
  show "wallet_digests_ok toy_gordian ascii_ext (identity_to_envelope toy_hash toy_gordian ascii_ext) demo_wallet"
    by (simp add: wallet_digests_ok_def demo_wallet_def wallet_entries_def active_entries_def identity_entry_def
        secret_entry_def distinct_assertions_def WALLET_PREDICATES_def known_digests_def Let_def)
qed

lemma wallet_file_roundtrip_witness:
  "\<exists>file v. encrypt_wallet_with_key toy_wallet_crypto toy_gordian ascii_ext
      (identity_to_envelope toy_hash toy_gordian ascii_ext) demo_wallet (replicate 32 1) (replicate 32 9)
      IDENTIKEY_PARAMS (replicate 24 8) = Ok file \<and>
    decrypt_wallet_with_key toy_wallet_crypto toy_gordian ascii_ext (identity_from_envelope toy_hash toy_gordian ascii_ext)
      file (replicate 32 1) IDENTIKEY_PARAMS = Ok v \<and> same_wallet same_identity demo_wallet v"
proof -
  let ?enc = "encrypt_wallet_with_key toy_wallet_crypto toy_gordian ascii_ext
      (identity_to_envelope toy_hash toy_gordian ascii_ext) demo_wallet (replicate 32 1) (replicate 32 9)
      IDENTIKEY_PARAMS (replicate 24 8)"
  have W: "aead_ok toy_wallet_crypto" by (simp add: aead_ok_def toy_wallet_crypto_def)
  have key: "derive_key toy_wallet_crypto pw salt = Ok (replicate 32 1)" for pw salt
    by (simp add: derive_key_def toy_wallet_crypto_def)
  obtain e where "wallet_to_envelope toy_gordian ascii_ext (identity_to_envelope toy_hash toy_gordian ascii_ext)
      demo_wallet IDENTIKEY_PARAMS = Ok e"
    using basic.container_roundtrip [OF toy_gordian_ok ascii_ext_ok demo_wallet_ok] by blast
  then obtain bs where enc: "?enc = Ok bs"
    by (simp add: encrypt_wallet_with_key_def encrypt_wallet_with_key_nonce_def to_envelope_def toy_wallet_crypto_def)
  from wallet_file_roundtrip [OF toy_gordian_ok ascii_ext_ok W demo_wallet_ok _ _ _ key enc, of "''pw''"]
  show ?thesis using enc by (auto simp: result_simps key)
qed

end
