(* ===== verification/Storage_Laws.thy ===== *)
theory Storage_Laws
  imports Storage Credential_Laws Wallet_Laws
begin

text \<open>
  Laws of the wallet on disk: the file is replaced as a whole or not at all, a saved wallet is loaded
  again, and what a failed call leaves behind.
\<close>

section \<open>Replacing a file\<close>

definition tmp_key :: "path \<Rightarrow> node_key" where
  "tmp_key p = (case path_file_name p of None \<Rightarrow> [] | Some n \<Rightarrow> butlast (node_key p) @ [Normal (tmp_name n)])"

lemma file_name_components:
  assumes "path_file_name p = Some n"
  shows "path_components p = butlast (path_components p) @ [Normal n]"
    and "path_parent p = Some (path_render (butlast (path_components p)))"
    and "node_key p = butlast (node_key p) @ [Normal n]"
    and "butlast (node_key p) = filter (\<lambda>c. c \<noteq> CurDir) (butlast (path_components p))"
proof -
  obtain cs where cs: "rev (path_components p) = Normal n # cs"
    using assms by (auto simp: path_file_name_def split: list.splits component.splits)
  then have e: "path_components p = rev cs @ [Normal n]" by (metis rev.simps(2) rev_swap)
  then show "path_components p = butlast (path_components p) @ [Normal n]" by simp
  show "path_parent p = Some (path_render (butlast (path_components p)))" using cs e by (simp add: path_parent_def)
  show "node_key p = butlast (node_key p) @ [Normal n]" "butlast (node_key p) = filter (\<lambda>c. c \<noteq> CurDir) (butlast (path_components p))"
    using e by (simp_all add: node_key_def)
qed

lemma parent_key:
  assumes "path_file_name p = Some n"
  shows "node_key (path_render (butlast (path_components p))) = butlast (node_key p)"
proof -
  note p = file_name_components [OF assms]
  have "normal_path (butlast (path_components p) @ [Normal n])" by (subst p(1) [symmetric]) (rule normal_path_components)
  then show ?thesis using components_render [OF normal_path_butlast] p(4) by (simp add: node_key_def)
qed

lemma parent_shorter:
  assumes "path_file_name p = Some n"
  shows "length (node_key (path_render (butlast (path_components p)))) < length (node_key p)"
  using parent_key [OF assms] file_name_components(3) [OF assms] by (metis length_append_singleton lessI)

lemma nodes_frame:
  "s' = s\<lparr>os_nodes := x\<rparr> \<Longrightarrow> os_env s' = os_env s \<and> os_fault s' = os_fault s \<and> os_outside s' = os_outside s"
  by simp

lemma tmp_key_of:
  assumes "path_file_name p = Some n" and "path_parent p = Some parent"
  shows "node_key (path_join (if parent \<noteq> [] then parent else ''.'') (tmp_name n)) = tmp_key p"
proof -
  note p = file_name_components [OF assms(1)]
  let ?cs = "butlast (path_components p)"
  have n: "normal_path (?cs @ [Normal n])" by (subst p(1) [symmetric]) (rule normal_path_components)
  have rendered: "path_components (path_render ?cs) = ?cs" by (rule components_render [OF normal_path_butlast [OF n]])
  have "plain_component (Normal n)" using n by (cases ?cs) (auto simp: normal_path_def)
  then have tn: "CHR ''/'' \<notin> set (tmp_name n)" "tmp_name n \<noteq> []" "tmp_name n \<noteq> ''.''" "tmp_name n \<noteq> ''..''"
    by (auto simp: tmp_name_def plain_component_def)
  have parent: "parent = path_render ?cs" using assms(2) p(2) by simp
  show ?thesis
  proof (cases "parent = []")
    case True
    then have "?cs = []" using rendered parent by (simp add: path_components_def)
    with True tn assms(1) p(4) show ?thesis
      using components_join [OF tn, of "''.''"] by (simp add: tmp_key_def node_key_def path_components_def)
  next
    case False
    with components_join [OF tn False] assms(1) p(4) rendered parent show ?thesis by (simp add: tmp_key_def node_key_def)
  qed
qed

lemma tmp_key_neq:
  assumes "path_file_name p = Some n"
  shows "tmp_key p \<noteq> node_key p"
proof
  assume "tmp_key p = node_key p"
  then have "last (tmp_key p) = last (node_key p)" by simp
  moreover have "last (node_key p) = Normal n" using file_name_components(3) [OF assms] by (metis last_snoc)
  ultimately have "tmp_name n = n" using assms by (simp add: tmp_key_def)
  then have "length (tmp_name n) = length n" by simp
  then show False by (simp add: tmp_name_def)
qed

lemma length_tmp_key:
  assumes "path_file_name p = Some n"
  shows "length (tmp_key p) = length (node_key p)"
proof -
  obtain ks where "node_key p = ks @ [Normal n]" using file_name_components(3) [OF assms] by blast
  with assms show ?thesis by (simp add: tmp_key_def)
qed

text \<open>The permission bits of a file after \<open>open_truncate\<close>.\<close>

definition mode_after :: "nat \<Rightarrow> node option \<Rightarrow> nat" where
  "mode_after mode n = (case n of Some (File m bs) \<Rightarrow> m | _ \<Rightarrow> mode)"

lemma open_truncate_cases:
  assumes "open_truncate mode k s = (r, s')"
  obtains (failed) e where "r = Err e" "s' = s"
    | (opened) "r = Ok ()" "\<not> is_directory s k" "s' = s\<lparr>os_nodes := (os_nodes s)(k \<mapsto> File (mode_after mode (os_nodes s k)) [])\<rparr>"
proof (cases "os_fault s (OpenFile k) \<or> \<not> is_directory s (butlast k) \<or> is_directory s k")
  case True
  with assms failed [of "IoFailed (OpenFile k)"] show thesis by (simp add: open_truncate_def io_fail_def)
next
  case False
  with assms opened show thesis by (simp add: open_truncate_def mode_after_def)
qed

lemma write_all_effect:
  assumes "write_all k c s = (r, s')" and "os_nodes s k = Some (File m old)"
  shows "\<exists>bs. s' = s\<lparr>os_nodes := (os_nodes s)(k \<mapsto> File m bs)\<rparr> \<and> (r = Ok () \<longrightarrow> bs = c)"
  using assms by (auto simp: write_all_def io_fail_def put_contents_def split: if_splits)

lemma sync_all_effect: "sync_all k s = (r, s') \<Longrightarrow> s' = s"
  by (auto simp: sync_all_def io_fail_def split: if_splits)

lemma fs_rename_cases:
  assumes "fs_rename k k' s = (r, s')"
  obtains (failed) e where "r = Err e" "s' = s"
    | (renamed) "r = Ok ()" "s' = s\<lparr>os_nodes := (os_nodes s)(k := None, k' := os_nodes s k)\<rparr>"
proof (cases "os_fault s (RenameFile k k') \<or> is_directory s k' \<or> os_nodes s k = None")
  case True
  with assms failed [of "IoFailed (RenameFile k k')"] show thesis by (simp add: fs_rename_def io_fail_def)
next
  case False
  with assms renamed show thesis by (simp add: fs_rename_def)
qed

definition replace_file :: "nat \<Rightarrow> node_key \<Rightarrow> node_key \<Rightarrow> bytes \<Rightarrow> 'k os \<Rightarrow> (io_error, unit) result \<times> 'k os" where
  "replace_file mode tmp k c s =
    then_io (open_truncate mode tmp s) (\<lambda>_ s.
    then_io (write_all tmp c s) (\<lambda>_ s.
    then_io (sync_all tmp s) (\<lambda>_ s. fs_rename tmp k s)))"

text \<open>What a replacement may have done when it returns \<open>r\<close>.\<close>

definition replaced :: "nat \<Rightarrow> node_key \<Rightarrow> node_key \<Rightarrow> bytes \<Rightarrow> 'k os \<Rightarrow> (io_error, unit) result \<Rightarrow> 'k os \<Rightarrow> bool" where
  "replaced mode tmp k c s r s' \<longleftrightarrow>
    s' = s\<lparr>os_nodes := os_nodes s'\<rparr> \<and> (\<forall>j. j \<noteq> tmp \<and> j \<noteq> k \<longrightarrow> os_nodes s' j = os_nodes s j) \<and>
    (if r = Ok () then os_nodes s' k = Some (File (mode_after mode (os_nodes s tmp)) c) \<and> os_nodes s' tmp = None
     else os_nodes s' k = os_nodes s k)"

lemma replace_file_replaced:
  assumes "replace_file mode tmp k c s = (r, s')" and "tmp \<noteq> k"
  shows "replaced mode tmp k c s r s'"
proof -
  obtain r1 s1 where o: "open_truncate mode tmp s = (r1, s1)" by fastforce
  show ?thesis
    using o
  proof (cases rule: open_truncate_cases)
    case (failed e)
    with assms(1) o show ?thesis by (auto simp: replace_file_def replaced_def)
  next
    case opened
    let ?m = "mode_after mode (os_nodes s tmp)"
    obtain r2 s2 where w: "write_all tmp c s1 = (r2, s2)" by fastforce
    obtain bs where bs: "s2 = s\<lparr>os_nodes := (os_nodes s)(tmp \<mapsto> File ?m bs)\<rparr>" "r2 = Ok () \<longrightarrow> bs = c"
      using write_all_effect [OF w, of ?m "[]"] opened(3) by auto
    obtain r3 s3 where y: "sync_all tmp s2 = (r3, s3)" by fastforce
    note s3 = sync_all_effect [OF y]
    obtain r4 s4 where n: "fs_rename tmp k s3 = (r4, s4)" by fastforce
    have r: "(r, s') = (if r2 \<noteq> Ok () then (r2, s2) else if r3 \<noteq> Ok () then (r3, s3) else (r4, s4))"
      using assms(1) o opened(1) w y n unfolding replace_file_def by (cases r2; cases r3) auto
    show ?thesis
      using n
    proof (cases rule: fs_rename_cases)
      case (failed e)
      with r bs s3 assms(2) show ?thesis by (auto simp: replaced_def split: if_splits)
    next
      case renamed
      with r bs s3 assms(2) show ?thesis by (auto simp: replaced_def split: if_splits)
    qed
  qed
qed

text \<open>The function of the source: the directories of the file, then the replacement.\<close>

lemma write_secret_file_cases:
  assumes "write_secret_file X p c s = (r, s')" and "path_file_name p = Some n"
  obtains (no_parent) e where "r = Err e" "\<And>k. os_nodes s' k = os_nodes s k \<or> os_nodes s k = None \<and> os_nodes s' k = Some Directory"
      "s' = s\<lparr>os_nodes := os_nodes s'\<rparr>" "os_nodes s' (node_key p) = os_nodes s (node_key p)"
    | (parent) s1 where "replaced (secret_mode X s1) (tmp_key p) (node_key p) c s1 r s'" "s1 = s\<lparr>os_nodes := os_nodes s1\<rparr>"
      "\<And>k. os_nodes s1 k = os_nodes s k \<or> os_nodes s k = None \<and> os_nodes s1 k = Some Directory"
      "\<And>k. length k \<ge> length (node_key p) \<Longrightarrow> os_nodes s1 k = os_nodes s k"
proof -
  note p = file_name_components [OF assms(2)]
  let ?parent = "path_render (butlast (path_components p))"
  obtain r1 s1 where d: "(if ?parent \<noteq> [] then create_dir_all ?parent s else (Ok (), s)) = (r1, s1)" by fastforce
  note len = parent_shorter [OF assms(2)]
  have s1: "s1 = s\<lparr>os_nodes := os_nodes s1\<rparr>"
    "os_nodes s1 k = os_nodes s k \<or> os_nodes s k = None \<and> os_nodes s1 k = Some Directory"
    "length k \<ge> length (node_key p) \<Longrightarrow> os_nodes s1 k = os_nodes s k" for k
    using d create_dir_all_adds [of ?parent s r1 s1] len by (auto split: if_splits)
  show thesis
  proof (cases r1)
    case (Err e)
    then have "r = Err e" "s' = s1" using assms(1) d p(2) by (auto simp: write_secret_file_def split: if_splits)
    with no_parent s1 show thesis by blast
  next
    case (Ok u)
    then have "replace_file (secret_mode X s1) (tmp_key p) (node_key p) c s1 = (r, s')"
      using assms d p(2) tmp_key_of [OF assms(2) p(2)]
      by (auto simp: write_secret_file_def replace_file_def Let_def split: if_splits)
    from parent [OF replace_file_replaced [OF this tmp_key_neq [OF assms(2)]]] s1 show thesis by blast
  qed
qed

section \<open>What calls leave alone\<close>

text \<open>Two worlds with the same files, variables and faults. Of the secret services it says nothing: \<open>same_caches\<close> below does.\<close>

definition same_disk :: "'k os \<Rightarrow> 'k os \<Rightarrow> bool" where
  "same_disk s s' \<longleftrightarrow> os_nodes s' = os_nodes s \<and> os_env s' = os_env s \<and> os_fault s' = os_fault s"

lemma same_disk_refl [simp]: "same_disk s s"
  by (simp add: same_disk_def)

lemma same_disk_trans: "same_disk s t \<Longrightarrow> same_disk t u \<Longrightarrow> same_disk s u"
  by (simp add: same_disk_def)

lemma same_disk_outside [simp]: "same_disk s (s\<lparr>os_outside := x\<rparr>)"
  by (simp add: same_disk_def)

lemma fill_bytes_disk: "fill_bytes n s = (bs, s') \<Longrightarrow> same_disk s s' \<and> os_outside s' = os_outside s"
  by (auto simp: fill_bytes_def same_disk_def)

lemma store_key_disk: "store_key X p key s = (r, p', s') \<Longrightarrow> same_disk s s'"
  by (cases p) (auto simp: macos_store_key_def keyring_store_key_def keyring_entry_def then_io_def guard_def Let_def
      split: prod.splits if_splits)

lemma clear_key_disk: "clear_key X p s = (r, p', s') \<Longrightarrow> same_disk s s'"
  by (cases p) (auto simp: macos_clear_key_def keyring_clear_key_def keyring_entry_def then_io_def guard_def Let_def
      split: prod.splits if_splits)

lemma interact_disk: "interact X prompt s = (r, s') \<Longrightarrow> same_disk s s'"
  by (auto simp: interact_def split: prod.splits)

lemma get_password_disk: "get_password X prompt v s = (r, s') \<Longrightarrow> same_disk s s'"
  by (auto simp: get_password_def dest: interact_disk split: option.splits)

lemma get_password_with_confirm_disk:
  assumes "get_password_with_confirm X v s = (r, s')"
  shows "same_disk s s'"
proof (cases "env_value s v")
  case None
  obtain r1 s1 where i1: "interact X ''New wallet password'' s = (r1, s1)" by fastforce
  obtain r2 s2 where i2: "interact X ''Confirm password'' s1 = (r2, s2)" by fastforce
  have "s' = s1 \<or> s' = s2"
    using assms None i1 i2 by (cases r1; cases r2) (auto simp: get_password_with_confirm_def split: if_splits)
  with interact_disk [OF i1] interact_disk [OF i2] same_disk_trans show ?thesis by blast
next
  case (Some pw)
  with assms show ?thesis by (simp add: get_password_with_confirm_def)
qed

text \<open>What \<open>new_key\<close> does on success: the salt is fresh, the key is derived and offered to the cache.\<close>

lemma new_key_effect:
  assumes "new_key A (w, p, s) = (r, w', p', s')"
  shows "same_disk s s' \<and> wl_data w' = wl_data w \<and> wl_path w' = wl_path w \<and> same_slot p p' \<and>
    (r = Ok () \<longrightarrow> (\<exists>pw s1 s2 sr.
      get_password_with_confirm (ap_ext A) (wp_env_password (ap_params A)) s = (Ok pw, s1) \<and>
      fill_bytes 32 s1 = (wl_salt w', s2) \<and> derive_key (ap_crypto A) pw (wl_salt w') = Ok (wl_key w') \<and>
      store_key (ap_ext A) p (wl_key w') s2 = (sr, p', s')))"
proof -
  obtain rp s1 where p: "get_password_with_confirm (ap_ext A) (wp_env_password (ap_params A)) s = (rp, s1)" by fastforce
  obtain salt s2 where f: "fill_bytes 32 s1 = (salt, s2)" by fastforce
  note d1 = get_password_with_confirm_disk [OF p]
  note d2 = same_disk_trans [OF d1 fill_bytes_disk [OF f, THEN conjunct1]]
  have slot: "same_slot p p" by (cases p) auto
  show ?thesis
  proof (cases rp)
    case (Err e)
    with assms p d1 slot show ?thesis by (auto simp: new_key_def)
  next
    case pw: (Ok pw)
    show ?thesis
    proof (cases "derive_key (ap_crypto A) pw salt")
      case (Err e)
      with assms p f pw d2 slot show ?thesis by (auto simp: new_key_def)
    next
      case key: (Ok key)
      obtain sr p3 s3 where st: "store_key (ap_ext A) p key s2 = (sr, p3, s3)" by (metis prod_cases3)
      have eq: "r = Ok ()" "w' = w\<lparr>wl_key := key, wl_salt := salt\<rparr>" "p' = p3" "s' = s3"
        using assms p f pw key st by (simp_all add: new_key_def)
      have "same_disk s s'" using same_disk_trans [OF d2 store_key_disk [OF st]] eq by simp
      with eq st store_same_slot [OF st] p pw f key show ?thesis by simp
    qed
  qed
qed

text \<open>What \<open>write_wallet\<close> does: the encryption of the wallet replaces the file, or the file is as before.\<close>

lemma write_wallet_effect:
  assumes "write_wallet A w s = (r, s')" and "path_file_name (wl_path w) = Some n"
  shows "os_env s' = os_env s \<and> os_fault s' = os_fault s \<and> os_outside s' = os_outside s \<and>
    (if r = Ok () then \<exists>m nonce file. length nonce = 24 \<and>
        app_encrypt A (wl_data w) (wl_key w) (wl_salt w) nonce = Ok file \<and>
        os_nodes s' (node_key (wl_path w)) = Some (File m file)
     else os_nodes s' (node_key (wl_path w)) = os_nodes s (node_key (wl_path w)))"
proof -
  let ?k = "node_key (wl_path w)"
  obtain nonce s1 where f: "fill_bytes 24 s = (nonce, s1)" by fastforce
  note d1 = fill_bytes_disk [OF f] and len = fill_bytes_length [OF f]
  note p = file_name_components [OF assms(2)]
  show ?thesis
  proof (cases "app_encrypt A (wl_data w) (wl_key w) (wl_salt w) nonce")
    case (Err e)
    with assms(1) f d1 show ?thesis by (auto simp: write_wallet_def same_disk_def)
  next
    case enc: (Ok bs)
    obtain rd s2 where c: "create_dir_all (path_render (butlast (path_components (wl_path w)))) s1 = (rd, s2)" by fastforce
    have d2: "os_nodes s2 ?k = os_nodes s1 ?k" "s2 = s1\<lparr>os_nodes := os_nodes s2\<rparr>"
      using create_dir_all_adds [OF c] parent_shorter [OF assms(2)] by auto
    note d2' = nodes_frame [OF d2(2)]
    obtain rw s3 where wr: "write_secret_file (ap_ext A) (wl_path w) bs s2 = (rw, s3)" by fastforce
    have r: "(r, s') = (case rd of Err e \<Rightarrow> (Err (ParentFailed e), s2) | Ok _ \<Rightarrow> (map_err WriteFailed rw, s3))"
      using assms(1) f enc c p(2) wr by (cases rd) (simp_all add: write_wallet_def)
    have w3: "os_env s3 = os_env s2 \<and> os_fault s3 = os_fault s2 \<and> os_outside s3 = os_outside s2 \<and>
        (if rw = Ok () then \<exists>m. os_nodes s3 ?k = Some (File m bs) else os_nodes s3 ?k = os_nodes s2 ?k)"
      using wr assms(2)
    proof (cases rule: write_secret_file_cases)
      case (no_parent e)
      then show ?thesis using nodes_frame [OF no_parent(3)] by simp
    next
      case (parent t)
      have "s3 = t\<lparr>os_nodes := os_nodes s3\<rparr>" using parent(1) by (simp add: replaced_def)
      with nodes_frame [OF this] nodes_frame [OF parent(2)] parent(1) parent(4) [of ?k] show ?thesis
        by (auto simp: replaced_def split: if_splits)
    qed
    show ?thesis
    proof (cases rd)
      case (Err e)
      with r d1 d2 d2' show ?thesis by (auto simp: same_disk_def)
    next
      case (Ok u)
      with r d1 d2 d2' w3 enc len show ?thesis by (cases rw) (auto simp: same_disk_def)
    qed
  qed
qed

lemma save_effect:
  assumes "save_with_provider A is_new (w, p, s) = (r, w', p', s')" and "path_file_name (wl_path w) = Some n"
  shows "wl_data w' = wl_data w \<and> wl_path w' = wl_path w \<and> os_env s' = os_env s \<and> os_fault s' = os_fault s \<and>
    (if r = Ok () then \<exists>m nonce file. length nonce = 24 \<and>
        app_encrypt A (wl_data w) (wl_key w') (wl_salt w') nonce = Ok file \<and>
        os_nodes s' (node_key (wl_path w)) = Some (File m file)
     else os_nodes s' (node_key (wl_path w)) = os_nodes s (node_key (wl_path w)))"
    and "\<not> is_new \<Longrightarrow> w' = w \<and> p' = p \<and> os_outside s' = os_outside s"
    and "is_new \<Longrightarrow> r = Ok () \<Longrightarrow> \<exists>pw s1 s2 sr s3.
      get_password_with_confirm (ap_ext A) (wp_env_password (ap_params A)) s = (Ok pw, s1) \<and>
      fill_bytes 32 s1 = (wl_salt w', s2) \<and> derive_key (ap_crypto A) pw (wl_salt w') = Ok (wl_key w') \<and>
      store_key (ap_ext A) p (wl_key w') s2 = (sr, p', s3) \<and> os_outside s' = os_outside s3 \<and> os_env s' = os_env s3"
proof -
  obtain r1 w1 p1 s1 where k: "(if is_new then new_key A (w, p, s) else (Ok (), w, p, s)) = (r1, w1, p1, s1)"
    by (metis prod_cases4)
  have k1: "same_disk s s1 \<and> wl_data w1 = wl_data w \<and> wl_path w1 = wl_path w"
    using k new_key_effect [of A w p s r1 w1 p1 s1] by (auto split: if_splits)
  then have k2: "wl_data w1 = wl_data w" "wl_path w1 = wl_path w" by simp_all
  obtain r2 s2 where wr: "write_wallet A w1 s1 = (r2, s2)" by fastforce
  have eq: "(r, w', p', s') = (if r1 = Ok () then (r2, w1, p1, s2) else (r1, w1, p1, s1))"
    using assms(1) k wr by (cases r1) (auto simp: save_with_provider_def)
  have we: "os_env s2 = os_env s1 \<and> os_fault s2 = os_fault s1 \<and> os_outside s2 = os_outside s1 \<and>
    (if r2 = Ok () then \<exists>m nonce file. length nonce = 24 \<and>
        app_encrypt A (wl_data w) (wl_key w1) (wl_salt w1) nonce = Ok file \<and>
        os_nodes s2 (node_key (wl_path w)) = Some (File m file)
     else os_nodes s2 (node_key (wl_path w)) = os_nodes s1 (node_key (wl_path w)))"
    by (rule write_wallet_effect [OF wr, unfolded k2, OF assms(2)])
  show "wl_data w' = wl_data w \<and> wl_path w' = wl_path w \<and> os_env s' = os_env s \<and> os_fault s' = os_fault s \<and>
    (if r = Ok () then \<exists>m nonce file. length nonce = 24 \<and>
        app_encrypt A (wl_data w) (wl_key w') (wl_salt w') nonce = Ok file \<and>
        os_nodes s' (node_key (wl_path w)) = Some (File m file)
     else os_nodes s' (node_key (wl_path w)) = os_nodes s (node_key (wl_path w)))"
    using eq we k1 by (auto simp: same_disk_def split: if_splits)
  show "w' = w \<and> p' = p \<and> os_outside s' = os_outside s" if "\<not> is_new"
    using that eq we k by (auto split: if_splits)
  show "\<exists>pw s1 s2 sr s3.
      get_password_with_confirm (ap_ext A) (wp_env_password (ap_params A)) s = (Ok pw, s1) \<and>
      fill_bytes 32 s1 = (wl_salt w', s2) \<and> derive_key (ap_crypto A) pw (wl_salt w') = Ok (wl_key w') \<and>
      store_key (ap_ext A) p (wl_key w') s2 = (sr, p', s3) \<and> os_outside s' = os_outside s3 \<and> os_env s' = os_env s3"
    if "is_new" and "r = Ok ()"
  proof -
    have "r1 = Ok ()" "w' = w1" "p' = p1" "s' = s2" using eq that(2) by (auto split: if_splits)
    with new_key_effect [of A w p s r1 w1 p1 s1] k that(1) we show ?thesis by (simp; blast)
  qed
qed

section \<open>A save that goes through\<close>

text \<open>
  A disk on which the file can be written: no call fails, the directories on the way are there, and neither the file nor
  the temporary file is a directory.
\<close>

definition writable :: "path \<Rightarrow> 'k os \<Rightarrow> bool" where
  "writable p s \<longleftrightarrow> os_fault s = (\<lambda>_. False) \<and> (\<forall>n < length (node_key p). is_directory s (take n (node_key p))) \<and>
    \<not> is_directory s (node_key p) \<and> \<not> is_directory s (tmp_key p)"

lemma create_parent_there:
  assumes "path_file_name p = Some n" and "writable p s"
  shows "create_dir_all (path_render (butlast (path_components p))) s = (Ok (), s)"
proof (rule create_dir_all_there)
  fix m assume m: "m \<le> length (node_key (path_render (butlast (path_components p))))"
  obtain ks where k: "node_key p = ks @ [Normal n]" using file_name_components(3) [OF assms(1)] by blast
  then have "node_key (path_render (butlast (path_components p))) = ks" using parent_key [OF assms(1)] by simp
  with m k have "take m (node_key (path_render (butlast (path_components p)))) = take m (node_key p)" "m < length (node_key p)"
    by simp_all
  with assms(2) show "is_directory s (take m (node_key (path_render (butlast (path_components p)))))" by (simp add: writable_def)
qed

lemma butlast_tmp_key: "path_file_name p = Some n \<Longrightarrow> butlast (tmp_key p) = butlast (node_key p)"
  by (simp add: tmp_key_def)

lemma replace_file_goes_through:
  assumes "path_file_name p = Some n" and "writable p s"
  shows "\<exists>m. replace_file mode (tmp_key p) (node_key p) c s =
    (Ok (), s\<lparr>os_nodes := (os_nodes s)(tmp_key p := None, node_key p \<mapsto> File m c)\<rparr>)"
proof -
  let ?t = "tmp_key p" and ?k = "node_key p"
  have len: "length ?k - 1 < length ?k" using file_name_components(3) [OF assms(1)] by (cases ?k) simp_all
  have "butlast ?t = take (length ?k - 1) ?k" using butlast_tmp_key [OF assms(1)] by (simp add: butlast_conv_take)
  with assms(2) len have w: "os_fault s = (\<lambda>_. False)" "\<not> is_directory s ?k" "\<not> is_directory s ?t" "is_directory s (butlast ?t)"
    by (simp_all only: writable_def) simp_all
  have nd: "\<not> is_directory (s\<lparr>os_nodes := (os_nodes s)(?t \<mapsto> File m bs)\<rparr>) ?k" for m bs
    using w(2) tmp_key_neq [OF assms(1)] by (auto simp: is_directory_def)
  have "replace_file mode ?t ?k c s =
      (Ok (), s\<lparr>os_nodes := (os_nodes s)(?t := None, ?k \<mapsto> File (mode_after mode (os_nodes s ?t)) c)\<rparr>)"
    using w nd tmp_key_neq [OF assms(1)]
    by (simp add: replace_file_def open_truncate_def write_all_def put_contents_def sync_all_def fs_rename_def mode_after_def
        fun_upd_twist)
  then show ?thesis by blast
qed

lemma write_wallet_goes_through:
  assumes "path_file_name (wl_path w) = Some n" and "writable (wl_path w) s"
    and "\<And>nonce. is_ok (app_encrypt A (wl_data w) (wl_key w) (wl_salt w) nonce)"
  shows "\<exists>m bs. write_wallet A w s = (Ok (), (snd (fill_bytes 24 s))
    \<lparr>os_nodes := (os_nodes s)(tmp_key (wl_path w) := None, node_key (wl_path w) \<mapsto> File m bs)\<rparr>)"
proof -
  let ?p = "wl_path w"
  note p = file_name_components [OF assms(1)]
  obtain nonce t where f: "fill_bytes 24 s = (nonce, t)" by fastforce
  then have t: "t = s\<lparr>os_rng := os_rng t\<rparr>" by (auto simp: fill_bytes_def)
  then have tw: "writable ?p t" "os_nodes t = os_nodes s"
    using assms(2) fill_bytes_disk [OF f] by (simp_all add: writable_def same_disk_def is_directory_def)
  obtain bs where enc: "app_encrypt A (wl_data w) (wl_key w) (wl_salt w) nonce = Ok bs" using assms(3) by (auto simp: is_ok_iff)
  note dir = create_parent_there [OF assms(1) tw(1)]
  have "write_secret_file (ap_ext A) ?p bs t = replace_file (secret_mode (ap_ext A) t) (tmp_key ?p) (node_key ?p) bs t"
    using dir p(2) assms(1) tmp_key_of [OF assms(1) p(2)] by (auto simp: write_secret_file_def replace_file_def Let_def)
  with replace_file_goes_through [OF assms(1) tw(1)] obtain m where
    "write_secret_file (ap_ext A) ?p bs t = (Ok (), t\<lparr>os_nodes := (os_nodes s)(tmp_key ?p := None, node_key ?p \<mapsto> File m bs)\<rparr>)"
    using tw(2) by fastforce
  with f enc dir p(2) show ?thesis by (auto simp: write_wallet_def)
qed

lemma still_writable:
  assumes "path_file_name p = Some n" and "writable p s" and "os_fault s' = os_fault s"
    and "os_nodes s' = (os_nodes s)(tmp_key p := None, node_key p \<mapsto> File m bs)"
  shows "writable p s'"
proof -
  have plain: "\<not> (\<forall>c \<in> set (node_key p). c = RootDir \<or> c = ParentDir)" "\<not> (\<forall>c \<in> set (tmp_key p). c = RootDir \<or> c = ParentDir)"
    using assms(2) by (auto simp: writable_def is_directory_def)
  have "is_directory s' (take k (node_key p))" if "k < length (node_key p)" for k
  proof -
    have "length (take k (node_key p)) \<noteq> length (node_key p)" using that by simp
    then have "take k (node_key p) \<noteq> node_key p" "take k (node_key p) \<noteq> tmp_key p" using length_tmp_key [OF assms(1)] by metis+
    with that assms(2,4) show ?thesis by (simp add: writable_def is_directory_def)
  qed
  with plain assms(2-4) show ?thesis by (simp add: writable_def is_directory_def)
qed

section \<open>Saving and loading again\<close>

text \<open>
  The assumptions on the crates below the wallet, and on its contents: the container's laws, and that
  the envelope of this wallet survives its own encoding.
\<close>

definition basic_app :: "(bytes \<Rightarrow> bytes) \<Rightarrow> ('e basic_identity, 'e, 'k) wallet_app \<Rightarrow> bool" where
  "basic_app h A \<longleftrightarrow> ap_id_to A = identity_to_envelope h (ap_gordian A) (ap_dcbor A) \<and>
    ap_id_from A = identity_from_envelope h (ap_gordian A) (ap_dcbor A) \<and>
    gordian_ok (ap_gordian A) \<and> ext_ok (ap_dcbor A) \<and> aead_ok (ap_crypto A)"

definition savable :: "(bytes \<Rightarrow> bytes) \<Rightarrow> ('e basic_identity, 'e, 'k) wallet_app \<Rightarrow> ('e basic_identity, 'e) wallet_data \<Rightarrow> bool" where
  "savable h A w \<longleftrightarrow> wallet_ok (ap_gordian A) (basic_ok h (ap_gordian A) (ap_dcbor A)) w \<and>
    wallet_digests_ok (ap_gordian A) (ap_dcbor A) (ap_id_to A) w \<and>
    (case wallet_to_envelope (ap_gordian A) (ap_dcbor A) (ap_id_to A) w (ap_params A) of
       Ok e \<Rightarrow> ev_try_from_cbor_data (ap_gordian A) (ev_to_cbor_data (ap_gordian A) e) = Some e
     | Err _ \<Rightarrow> True)"

lemma encrypted_opens:
  assumes "basic_app h A" and "savable h A w" and "length salt = 32" and "length nonce = 24"
    and "app_encrypt A w key salt nonce = Ok bs"
  shows "extract_salt bs (ap_params A) = Ok salt \<and> (\<exists>v. app_decrypt A bs key = Ok v \<and> same_wallet same_identity w v)"
proof -
  let ?G = "ap_gordian A" and ?E = "ap_dcbor A" and ?P = "ap_params A"
  have A: "ap_id_to A = identity_to_envelope h ?G ?E" "ap_id_from A = identity_from_envelope h ?G ?E"
      "gordian_ok ?G" "ext_ok ?E" "aead_ok (ap_crypto A)"
    using assms(1) by (simp_all add: basic_app_def)
  have w: "wallet_ok ?G (basic_ok h ?G ?E) w" "wallet_digests_ok ?G ?E (identity_to_envelope h ?G ?E) w"
    using assms(2) A(1) by (simp_all add: savable_def)
  obtain plaintext where p: "to_envelope ?G ?E (ap_id_to A) w ?P = Ok plaintext" "extract_salt bs ?P = Ok salt"
      "app_decrypt A bs key = from_envelope ?G ?E (ap_id_from A) plaintext ?P"
    using file_opens [OF A(5) assms(3,4)] assms(5) unfolding app_encrypt_def encrypt_wallet_with_key_def app_decrypt_def
    by blast
  obtain e v where e: "wallet_to_envelope ?G ?E (ap_id_to A) w ?P = Ok e"
      "wallet_from_envelope ?G ?E (ap_id_from A) e ?P = Ok v" "same_wallet same_identity w v"
    using basic.container_roundtrip [OF A(3,4) w, of ?P] A(1,2) by auto
  have "plaintext = ev_to_cbor_data ?G e" "ev_try_from_cbor_data ?G (ev_to_cbor_data ?G e) = Some e"
    using p(1) e(1) assms(2) by (simp_all add: to_envelope_def savable_def)
  with e p show ?thesis by (simp add: from_envelope_def)
qed

text \<open>A file that is there is read, and opened with the cached key or else with the password.\<close>

lemma path_exists_file: "os_nodes s (node_key p) = Some (File m bs) \<Longrightarrow> path_exists s p"
  by (simp add: path_exists_def)

lemma load_cached:
  assumes "os_nodes s (node_key p) = Some (File m bs)" and "\<not> os_fault s (ReadFile (node_key p))"
    and "extract_salt bs (ap_params A) = Ok salt"
    and "get_key (ap_ext A) provider s = Ok (Some key)" and "app_decrypt A bs key = Ok data"
  shows "load_with_provider A (Some p) (provider, s) =
    (Ok \<lparr>wl_data = data, wl_path = p, wl_key = key, wl_salt = salt\<rparr>, provider, s)"
  using assms path_exists_file [OF assms(1)]
  by (simp add: load_with_provider_def resolve_path_def fs_read_def cached_wallet_def)

lemma load_by_password:
  assumes "os_nodes s (node_key p) = Some (File m bs)" and "\<not> os_fault s (ReadFile (node_key p))"
    and "extract_salt bs (ap_params A) = Ok salt" and "cached_wallet A provider bs s = None"
    and "env_value s (wp_env_password (ap_params A)) = Some pw"
    and "derive_key (ap_crypto A) pw salt = Ok key" and "app_decrypt A bs key = Ok data"
  shows "load_with_provider A (Some p) (provider, s) =
    (Ok \<lparr>wl_data = data, wl_path = p, wl_key = key, wl_salt = salt\<rparr>, snd (store_key (ap_ext A) provider key s))"
  using assms path_exists_file [OF assms(1)]
  by (simp add: load_with_provider_def resolve_path_def fs_read_def unlock_wallet_def get_password_def)

text \<open>
  The wallet file is replaced as a whole or not at all. Whichever call of the file system fails,
  and after however many bytes, the file at the path afterwards is what it was before when the function
  returns an error, and holds exactly the new contents when it returns \<open>Ok\<close>. Apart from the temporary
  file next to it, no other file changes; only missing directories may have been created.
\<close>

lemma write_secret_file_atomic:
  assumes "write_secret_file X p contents s = (r, s')" and "path_file_name p = Some n"
  shows "(if r = Ok () then \<exists>m. os_nodes s' (node_key p) = Some (File m contents)
      else os_nodes s' (node_key p) = os_nodes s (node_key p)) \<and>
    (\<forall>k. k = node_key p \<or> k = tmp_key p \<or> os_nodes s' k = os_nodes s k \<or>
      (os_nodes s k = None \<and> os_nodes s' k = Some Directory))"
  using assms
proof (cases rule: write_secret_file_cases)
  case (no_parent e)
  then show ?thesis by auto
next
  case (parent t)
  have other: "k = node_key p \<or> k = tmp_key p \<or> os_nodes s' k = os_nodes t k" for k
    using parent(1) by (auto simp: replaced_def)
  have "k = node_key p \<or> k = tmp_key p \<or> os_nodes s' k = os_nodes s k \<or>
      (os_nodes s k = None \<and> os_nodes s' k = Some Directory)" for k
    using other [of k] parent(3) [of k] by auto
  moreover have "if r = Ok () then \<exists>m. os_nodes s' (node_key p) = Some (File m contents)
      else os_nodes s' (node_key p) = os_nodes s (node_key p)"
    using parent(1) parent(4) [of "node_key p"] by (auto simp: replaced_def split: if_splits)
  ultimately show ?thesis by blast
qed

text \<open>
  The permission bits of a wallet that was written on Unix are those of a file that was already
  there under the temporary name, and \<open>0o600\<close> only when there was none: a left-over or planted
  temporary file that others may read makes the new wallet readable to them.
\<close>

lemma write_secret_file_mode:
  assumes "write_secret_file X p contents s = (Ok (), s')" and "path_file_name p = Some n"
    and "cx_target X = Linux \<or> cx_target X = MacOs"
  shows "os_nodes s' (node_key p) =
    Some (File (case os_nodes s (tmp_key p) of Some (File m old) \<Rightarrow> m | _ \<Rightarrow> 384) contents)"
  using assms(1,2)
proof (cases rule: write_secret_file_cases)
  case (parent t)
  have "length (tmp_key p) = length (node_key p)" by (rule length_tmp_key [OF assms(2)])
  then have "os_nodes t (tmp_key p) = os_nodes s (tmp_key p)" using parent(4) by simp
  moreover have "secret_mode X t = 384" using assms(3) by (auto simp: secret_mode_def)
  ultimately show ?thesis using parent(1) by (simp add: replaced_def mode_after_def)
qed simp

text \<open>
  A wallet that was saved is loaded again with the cached key: the same identities, active
  identity, secrets and unknown assertions (up to the order of the latter), the same key and salt,
  and neither the file nor the cache changes. The key is the one a new wallet was just given, or the one an
  existing wallet already had.
\<close>

lemma saved_wallet_loads:
  assumes "basic_app h A" and "savable h A (wl_data w)" and "path_file_name (wl_path w) = Some n"
    and "is_new \<or> length (wl_salt w) = 32"
    and "save_with_provider A is_new (w, provider, s) = (Ok (), w', provider', s')"
    and "\<not> os_fault s' (ReadFile (node_key (wl_path w)))"
    and "get_key (ap_ext A) provider' s' = Ok (Some (wl_key w'))"
  shows "\<exists>v. load_with_provider A (Some (wl_path w)) (provider', s') = (Ok v, provider', s') \<and>
    same_wallet same_identity (wl_data w) (wl_data v) \<and> wl_key v = wl_key w' \<and> wl_salt v = wl_salt w'"
proof -
  note e = save_effect [OF assms(5,3)]
  obtain m nonce bs where f: "length nonce = 24" "app_encrypt A (wl_data w) (wl_key w') (wl_salt w') nonce = Ok bs"
      "os_nodes s' (node_key (wl_path w)) = Some (File m bs)" using e(1) by auto
  have salt: "length (wl_salt w') = 32" using assms(4) e(2,3) by (cases is_new) (auto dest: fill_bytes_length)
  obtain v where v: "extract_salt bs (ap_params A) = Ok (wl_salt w')" "app_decrypt A bs (wl_key w') = Ok v"
      "same_wallet same_identity (wl_data w) v"
    using encrypted_opens [OF assms(1,2) salt f(1,2)] by blast
  from load_cached [OF f(3) assms(6) v(1) assms(7) v(2)] v(3) show ?thesis by simp
qed

text \<open>
  C8. The password of a new wallet opens it, also where no key is cached: after a first save with the
  password in the environment, a load with any provider that has no key returns the same wallet and
  offers the derived key to that provider.
\<close>

theorem password_opens_new_wallet:
  assumes "basic_app h A" and "savable h A (wl_data w)" and "path_file_name (wl_path w) = Some n"
    and "env_value s (wp_env_password (ap_params A)) = Some pw"
    and "save_with_provider A True (w, provider, s) = (Ok (), w', provider', s')"
    and "\<not> os_fault s' (ReadFile (node_key (wl_path w)))"
    and "get_key (ap_ext A) other s' = Ok None"
  shows "\<exists>v. load_with_provider A (Some (wl_path w)) (other, s') =
      (Ok v, snd (store_key (ap_ext A) other (wl_key w') s')) \<and>
    same_wallet same_identity (wl_data w) (wl_data v) \<and> wl_key v = wl_key w' \<and> wl_salt v = wl_salt w'"
proof -
  note e = save_effect [OF assms(5,3)]
  obtain m nonce bs where f: "length nonce = 24" "app_encrypt A (wl_data w) (wl_key w') (wl_salt w') nonce = Ok bs"
      "os_nodes s' (node_key (wl_path w)) = Some (File m bs)" using e(1) by auto
  have key: "derive_key (ap_crypto A) pw (wl_salt w') = Ok (wl_key w')" "length (wl_salt w') = 32"
    using e(3) assms(4) by (auto simp: get_password_with_confirm_def dest: fill_bytes_length)
  have env: "env_value s' (wp_env_password (ap_params A)) = Some pw" using e(1) assms(4) by (simp add: env_value_def)
  obtain v where v: "extract_salt bs (ap_params A) = Ok (wl_salt w')" "app_decrypt A bs (wl_key w') = Ok v"
      "same_wallet same_identity (wl_data w) v"
    using encrypted_opens [OF assms(1,2) key(2) f(1,2)] by blast
  have "cached_wallet A other bs s' = None" using assms(7) by (simp add: cached_wallet_def)
  from load_by_password [OF f(3) assms(6) v(1) this env key(1) v(2)] v(3) show ?thesis by simp
qed

text \<open>
  C27. A new wallet that was never given a password is saved under the all-zero key: loading a path
  where no file is, and saving without asking for a new password, writes a file that the key of 32
  zero bytes opens, whatever the provider and the environment hold.
\<close>

theorem unsaved_wallet_has_zero_key:
  assumes "basic_app h A" and "path_file_name p = Some n" and "\<not> path_exists s p"
    and "load_with_provider A (Some p) (provider, s) = (Ok w, provider1, s1)"
    and "savable h A data" and "save_with_provider A False (w\<lparr>wl_data := data\<rparr>, provider1, s1) = (Ok (), w', provider', s')"
  shows "\<exists>m bs v. os_nodes s' (node_key p) = Some (File m bs) \<and> app_decrypt A bs (replicate 32 0) = Ok v \<and>
    same_wallet same_identity data v"
proof -
  obtain salt s2 where f: "fill_bytes 32 s = (salt, s2)" by fastforce
  have w: "w = \<lparr>wl_data = wallet_data_new, wl_path = p, wl_key = replicate 32 0, wl_salt = salt\<rparr>"
    using assms(3,4) f by (simp add: load_with_provider_def resolve_path_def)
  let ?w = "w\<lparr>wl_data := data\<rparr>"
  have "path_file_name (wl_path ?w) = Some n" using w assms(2) by simp
  note e = save_effect [OF assms(6) this]
  have "w' = ?w" using e(2) by simp
  then obtain m nonce bs where "length nonce = 24" "app_encrypt A data (replicate 32 0) salt nonce = Ok bs"
      "os_nodes s' (node_key p) = Some (File m bs)" using e(1) w by auto
  with encrypted_opens [OF assms(1,5) fill_bytes_length [OF f], of nonce "replicate 32 0" bs] show ?thesis by blast
qed

section \<open>What a load returns\<close>

lemma unlock_wallet_cases:
  assumes "unlock_wallet A bs salt (p, s) = (r, p', s')"
  shows "\<exists>rp t. get_password (ap_ext A) ''Wallet password'' (wp_env_password (ap_params A)) s = (rp, t) \<and>
    (case r of Err e \<Rightarrow> p' = p \<and> s' = t
     | Ok (data, key) \<Rightarrow> app_decrypt A bs key = Ok data \<and>
         (\<exists>pw. rp = Ok pw \<and> derive_key (ap_crypto A) pw salt = Ok key \<and> (p', s') = snd (store_key (ap_ext A) p key t)))"
proof -
  obtain rp t where pw: "get_password (ap_ext A) ''Wallet password'' (wp_env_password (ap_params A)) s = (rp, t)" by fastforce
  show ?thesis
  proof (cases "(\<exists>e. rp = Err e) \<or> (\<exists>w e. rp = Ok w \<and> derive_key (ap_crypto A) w salt = Err e) \<or>
      (\<exists>w k e. rp = Ok w \<and> derive_key (ap_crypto A) w salt = Ok k \<and> app_decrypt A bs k = Err e)")
    case True
    then have "p' = p \<and> s' = t \<and> (\<exists>e. r = Err e)" using assms pw by (auto simp: unlock_wallet_def)
    with pw show ?thesis by auto
  next
    case False
    then obtain w k d where ok: "rp = Ok w" "derive_key (ap_crypto A) w salt = Ok k" "app_decrypt A bs k = Ok d"
      by (metis result.exhaust)
    then have "r = Ok (d, k)" "(p', s') = snd (store_key (ap_ext A) p k t)" using assms pw by (simp_all add: unlock_wallet_def)
    with ok pw show ?thesis by simp
  qed
qed

lemma unlock_wallet_effect:
  assumes "unlock_wallet A bs salt (p, s) = (r, p', s')"
  shows "same_disk s s' \<and> same_slot p p' \<and>
    (case r of Err e \<Rightarrow> p' = p
     | Ok (data, key) \<Rightarrow> app_decrypt A bs key = Ok data \<and>
         (\<exists>pw t. derive_key (ap_crypto A) pw salt = Ok key \<and> (p', s') = snd (store_key (ap_ext A) p key t)))"
proof -
  obtain rp t where c: "get_password (ap_ext A) ''Wallet password'' (wp_env_password (ap_params A)) s = (rp, t)"
      "case r of Err e \<Rightarrow> p' = p \<and> s' = t
       | Ok (data, key) \<Rightarrow> app_decrypt A bs key = Ok data \<and>
           (\<exists>pw. rp = Ok pw \<and> derive_key (ap_crypto A) pw salt = Ok key \<and> (p', s') = snd (store_key (ap_ext A) p key t))"
    using unlock_wallet_cases [OF assms] by blast
  note d1 = get_password_disk [OF c(1)]
  have slot: "same_slot p p" by (cases p) auto
  show ?thesis
  proof (cases r)
    case (Err e)
    with c(2) d1 slot show ?thesis by simp
  next
    case (Ok dk)
    obtain d k where dk: "dk = (d, k)" by fastforce
    obtain sr p2 s2 where st: "store_key (ap_ext A) p k t = (sr, p2, s2)" by (metis prod_cases3)
    with c(2) Ok dk have "p' = p2" "s' = s2" by auto
    with c(2) Ok dk same_disk_trans [OF d1 store_key_disk [OF st]] store_same_slot [OF st] show ?thesis by auto
  qed
qed

lemma load_existing:
  assumes "load_with_provider A (Some p) (provider, s) = (r, provider', s')" and "path_exists s p"
  shows "(\<exists>e. r = Err e \<and> provider' = provider \<and> s' = s) \<or>
    (\<exists>m bs salt. os_nodes s (node_key p) = Some (File m bs) \<and> extract_salt bs (ap_params A) = Ok salt \<and>
      ((\<exists>data key. cached_wallet A provider bs s = Some (data, key) \<and>
          r = Ok \<lparr>wl_data = data, wl_path = p, wl_key = key, wl_salt = salt\<rparr> \<and> provider' = provider \<and> s' = s) \<or>
       (\<exists>ru. unlock_wallet A bs salt (provider, s) = (ru, provider', s') \<and>
          r = bind ru (\<lambda>(data, key). Ok \<lparr>wl_data = data, wl_path = p, wl_key = key, wl_salt = salt\<rparr>) \<and>
          cached_wallet A provider bs s = None)))"
proof (cases "fs_read p s")
  case (Err e)
  with assms show ?thesis by (auto simp: load_with_provider_def resolve_path_def)
next
  case bs: (Ok bs)
  then obtain m where n: "os_nodes s (node_key p) = Some (File m bs)"
    by (auto simp: fs_read_def split: if_splits option.splits node.splits)
  show ?thesis
  proof (cases "extract_salt bs (ap_params A)")
    case (Err e)
    with assms bs show ?thesis by (auto simp: load_with_provider_def resolve_path_def)
  next
    case salt: (Ok salt)
    show ?thesis
    proof (cases "cached_wallet A provider bs s")
      case (Some dk)
      with assms bs salt n show ?thesis by (cases dk) (auto simp: load_with_provider_def resolve_path_def)
    next
      case None
      obtain ru p2 s2 where u: "unlock_wallet A bs salt (provider, s) = (ru, p2, s2)" by (metis prod_cases3)
      have "(r, provider', s') = (bind ru (\<lambda>(data, key). Ok \<lparr>wl_data = data, wl_path = p, wl_key = key, wl_salt = salt\<rparr>), p2, s2)"
        using assms bs salt None u by (cases ru) (auto simp: load_with_provider_def resolve_path_def)
      with n salt u None show ?thesis by auto
    qed
  qed
qed

lemma cached_wallet_Some:
  "cached_wallet A provider bs s = Some (data, key) \<Longrightarrow>
    get_key (ap_ext A) provider s = Ok (Some key) \<and> app_decrypt A bs key = Ok data"
  by (auto simp: cached_wallet_def split: result.splits option.splits)

lemma load_effect:
  assumes "load_with_provider A (Some p) (provider, s) = (r, provider', s')"
  shows "same_disk s s' \<and>
    (case r of
       Err e \<Rightarrow> provider' = provider
     | Ok w \<Rightarrow> wl_path w = p \<and>
         (if path_exists s p
          then \<exists>m bs. os_nodes s (node_key p) = Some (File m bs) \<and> extract_salt bs (ap_params A) = Ok (wl_salt w) \<and>
            app_decrypt A bs (wl_key w) = Ok (wl_data w)
          else wl_data w = wallet_data_new \<and> provider' = provider))"
proof (cases "path_exists s p")
  case False
  obtain salt s1 where "fill_bytes 32 s = (salt, s1)" by fastforce
  with assms False show ?thesis by (auto simp: load_with_provider_def resolve_path_def dest: fill_bytes_disk)
next
  case True
  from load_existing [OF assms True] show ?thesis
  proof (elim disjE exE conjE)
    fix e assume "r = Err e" "provider' = provider" "s' = s"
    then show ?thesis by simp
  next
    fix m bs salt data key
    assume "os_nodes s (node_key p) = Some (File m bs)" "extract_salt bs (ap_params A) = Ok salt"
      "cached_wallet A provider bs s = Some (data, key)"
      "r = Ok \<lparr>wl_data = data, wl_path = p, wl_key = key, wl_salt = salt\<rparr>" "provider' = provider" "s' = s"
    with True show ?thesis by (auto dest: cached_wallet_Some)
  next
    fix m bs salt ru
    assume a: "os_nodes s (node_key p) = Some (File m bs)" "extract_salt bs (ap_params A) = Ok salt"
      "unlock_wallet A bs salt (provider, s) = (ru, provider', s')"
      "r = bind ru (\<lambda>(data, key). Ok \<lparr>wl_data = data, wl_path = p, wl_key = key, wl_salt = salt\<rparr>)"
    from unlock_wallet_effect [OF a(3)] a True show ?thesis by (cases ru) (auto split: prod.splits)
  qed
qed

text \<open>Asking for a password at the terminal leaves the secret services of the system alone.\<close>

definition prompt_ok :: "'k cred_ext \<Rightarrow> bool" where
  "prompt_ok X \<longleftrightarrow> (\<forall>prompt sv ac o1.
    cx_get_generic X sv ac (snd (cx_prompt X prompt o1)) = cx_get_generic X sv ac o1 \<and>
    cx_entry X sv ac (snd (cx_prompt X prompt o1)) = cx_entry X sv ac o1 \<and>
    cx_get_password X sv ac (snd (cx_prompt X prompt o1)) = cx_get_password X sv ac o1)"

text \<open>What every provider returns as its cached key is the same in two worlds.\<close>

definition same_caches :: "'k cred_ext \<Rightarrow> 'k os \<Rightarrow> 'k os \<Rightarrow> bool" where
  "same_caches X s s' \<longleftrightarrow> (\<forall>q. get_key X q s' = get_key X q s)"

lemma same_caches_refl [simp]: "same_caches X s s"
  by (simp add: same_caches_def)

lemma same_cachesI:
  assumes "os_env s' = os_env s" and "\<And>sv ac. cx_get_generic X sv ac (os_outside s') = cx_get_generic X sv ac (os_outside s)"
    and "\<And>sv ac. cx_entry X sv ac (os_outside s') = cx_entry X sv ac (os_outside s)"
    and "\<And>sv ac. cx_get_password X sv ac (os_outside s') = cx_get_password X sv ac (os_outside s)"
  shows "same_caches X s s'"
proof -
  have "get_key X q s' = get_key X q s" for q
    using assms by (cases q) (simp_all add: macos_get_key_def keyring_get_key_def keyring_entry_def env_get_key_def)
  then show ?thesis by (simp add: same_caches_def)
qed

lemma fill_bytes_caches: "fill_bytes n s = (bs, s') \<Longrightarrow> same_caches X s s'"
  by (rule same_cachesI) (auto simp: fill_bytes_def)

lemma get_password_caches:
  assumes "prompt_ok X" and "get_password X prompt v s = (r, s')"
  shows "same_caches X s s'"
proof (cases "env_value s v")
  case None
  then have "s' = s\<lparr>os_outside := snd (cx_prompt X prompt (os_outside s))\<rparr>"
    using assms(2) by (auto simp: get_password_def interact_def split: prod.splits)
  then show ?thesis by (intro same_cachesI) (use assms(1) in \<open>simp_all add: prompt_ok_def\<close>)
next
  case (Some x)
  with assms(2) show ?thesis by (simp add: get_password_def)
qed

text \<open>The password that is used: that of the environment, or else what is typed.\<close>

definition given_password :: "('i, 'e, 'k) wallet_app \<Rightarrow> 'k os \<Rightarrow> string \<Rightarrow> bool" where
  "given_password A s pw \<longleftrightarrow>
    (case env_value s (wp_env_password (ap_params A)) of
       Some x \<Rightarrow> pw = x
     | None \<Rightarrow> fst (cx_prompt (ap_ext A) ''Wallet password'' (os_outside s)) = Some pw)"

lemma get_password_given:
  "get_password (ap_ext A) ''Wallet password'' (wp_env_password (ap_params A)) s = (Ok pw, t) \<Longrightarrow> given_password A s pw"
  by (auto simp: get_password_def interact_def given_password_def ok_or_def split: option.splits prod.splits)

text \<open>The two ways to the key of a file: the cache, which is left as it is, and the password, after which the key is stored.\<close>

definition found_key ::
  "('i, 'e, 'k) wallet_app \<Rightarrow> provider \<Rightarrow> 'k os \<Rightarrow> bytes \<Rightarrow> provider \<Rightarrow> 'k os \<Rightarrow> bool" where
  "found_key A provider s key provider' s' \<longleftrightarrow>
    get_key (ap_ext A) provider s = Ok (Some key) \<and> provider' = provider \<and> s' = s"

definition derived_key ::
  "('i, 'e, 'k) wallet_app \<Rightarrow> bytes \<Rightarrow> provider \<Rightarrow> 'k os \<Rightarrow> bytes \<Rightarrow> bytes \<Rightarrow> provider \<Rightarrow> 'k os \<Rightarrow> bool" where
  "derived_key A bs provider s salt key provider' s' \<longleftrightarrow>
    (\<forall>cached. get_key (ap_ext A) provider s = Ok (Some cached) \<longrightarrow> \<not> is_ok (app_decrypt A bs cached)) \<and>
    (\<exists>pw t sr. given_password A s pw \<and> derive_key (ap_crypto A) pw salt = Ok key \<and> same_caches (ap_ext A) s t \<and>
      store_key (ap_ext A) provider key t = (sr, provider', s') \<and>
      (sr = Ok () \<and> caching (ap_ext A) provider \<and> length key = 32 \<longrightarrow> get_key (ap_ext A) provider' s' = Ok (Some key)))"

lemma unlock_wallet_keys:
  assumes "prompt_ok (ap_ext A)" and "unlock_wallet A bs salt (p, s) = (r, p', s')" and "cached_wallet A p bs s = None"
  shows "case r of Err e \<Rightarrow> p' = p \<and> same_caches (ap_ext A) s s'
    | Ok (data, key) \<Rightarrow> app_decrypt A bs key = Ok data \<and> derived_key A bs p s salt key p' s'"
proof -
  obtain rp t where c: "get_password (ap_ext A) ''Wallet password'' (wp_env_password (ap_params A)) s = (rp, t)"
      "case r of Err e \<Rightarrow> p' = p \<and> s' = t
       | Ok (data, key) \<Rightarrow> app_decrypt A bs key = Ok data \<and>
           (\<exists>pw. rp = Ok pw \<and> derive_key (ap_crypto A) pw salt = Ok key \<and> (p', s') = snd (store_key (ap_ext A) p key t))"
    using unlock_wallet_cases [OF assms(2)] by blast
  note cs = get_password_caches [OF assms(1) c(1)]
  show ?thesis
  proof (cases r)
    case (Err e)
    with c(2) cs show ?thesis by simp
  next
    case (Ok dk)
    obtain d key where dk: "dk = (d, key)" by fastforce
    with Ok c(2) obtain pw where k: "rp = Ok pw" "derive_key (ap_crypto A) pw salt = Ok key" "app_decrypt A bs key = Ok d"
        "(p', s') = snd (store_key (ap_ext A) p key t)" by auto
    then obtain sr where st: "store_key (ap_ext A) p key t = (sr, p', s')" by (metis prod.collapse)
    have "get_key (ap_ext A) p' s' = Ok (Some key)" if "sr = Ok ()" "caching (ap_ext A) p" "length key = 32"
      using credential.put_get [OF that(2,3)] st that(1) by simp
    moreover have "\<not> is_ok (app_decrypt A bs cached)" if "get_key (ap_ext A) p s = Ok (Some cached)" for cached
      using assms(3) that by (auto simp: cached_wallet_def split: result.splits)
    ultimately have "derived_key A bs p s salt key p' s'"
      unfolding derived_key_def using get_password_given c(1) k(1,2) cs st by blast
    with Ok dk k(3) show ?thesis by simp
  qed
qed

text \<open>
  C14. A load never touches a file, and what it returns is what the file holds. When the file is there, the key is the cached one
  if that opens the file, and nothing changes; else it is derived from the password of the environment or the typed one with
  the salt of the file, and it is offered to the cache, which holds it from then on if it takes it. The key opens the file and the
  data are those of the file. When there is no file the wallet is empty and no cache changes. A load that
  fails, after a wrong password for example, leaves every cached key as it was, in the keychain or keyring as in memory.
  Assumed is that asking for a password leaves the secret services alone.
\<close>

theorem load_returns_the_file:
  assumes "load_with_provider A (Some p) (provider, s) = (r, provider', s')" and "prompt_ok (ap_ext A)"
  shows "same_disk s s' \<and>
    (case r of
       Err e \<Rightarrow> provider' = provider \<and> same_caches (ap_ext A) s s'
     | Ok w \<Rightarrow> wl_path w = p \<and>
         (if path_exists s p
          then \<exists>m bs. os_nodes s (node_key p) = Some (File m bs) \<and> extract_salt bs (ap_params A) = Ok (wl_salt w) \<and>
            app_decrypt A bs (wl_key w) = Ok (wl_data w) \<and>
            (found_key A provider s (wl_key w) provider' s' \<or>
             derived_key A bs provider s (wl_salt w) (wl_key w) provider' s')
          else wl_data w = wallet_data_new \<and> provider' = provider \<and> same_caches (ap_ext A) s s'))"
proof (cases "path_exists s p")
  case False
  obtain salt s1 where "fill_bytes 32 s = (salt, s1)" by fastforce
  with assms(1) False load_effect [OF assms(1)] fill_bytes_caches show ?thesis
    by (auto simp: load_with_provider_def resolve_path_def)
next
  case True
  note le = load_effect [OF assms(1)]
  from load_existing [OF assms(1) True] show ?thesis
  proof (elim disjE exE conjE)
    fix e assume "r = Err e" "provider' = provider" "s' = s"
    then show ?thesis by simp
  next
    fix m bs salt data key
    assume "os_nodes s (node_key p) = Some (File m bs)" "extract_salt bs (ap_params A) = Ok salt"
      "cached_wallet A provider bs s = Some (data, key)"
      "r = Ok \<lparr>wl_data = data, wl_path = p, wl_key = key, wl_salt = salt\<rparr>" "provider' = provider" "s' = s"
    with True show ?thesis by (auto simp: found_key_def dest: cached_wallet_Some)
  next
    fix m bs salt ru
    assume a: "os_nodes s (node_key p) = Some (File m bs)" "extract_salt bs (ap_params A) = Ok salt"
      "unlock_wallet A bs salt (provider, s) = (ru, provider', s')"
      "r = bind ru (\<lambda>(data, key). Ok \<lparr>wl_data = data, wl_path = p, wl_key = key, wl_salt = salt\<rparr>)"
      "cached_wallet A provider bs s = None"
    from unlock_wallet_keys [OF assms(2) a(3,5)] a(1,2,4) True le show ?thesis by (cases ru) (auto split: prod.splits)
  qed
qed

section \<open>Well-formed sessions\<close>

fun provider_typed :: "provider \<Rightarrow> bool" where
  "provider_typed (MemoryProvider (Some key)) = (length key = 32)"
| "provider_typed _ = True"

definition wallet_typed :: "('i, 'e) wallet \<Rightarrow> bool" where
  "wallet_typed w \<longleftrightarrow> length (wl_key w) = 32 \<and> length (wl_salt w) = 32 \<and>
    sorted_entries (wd_identities (wl_data w)) \<and> store_inv (wd_secrets (wl_data w))"

definition argon_ok :: "wallet_crypto \<Rightarrow> bool" where
  "argon_ok W \<longleftrightarrow> (\<forall>m t p pw salt key. wc_argon2id W m t p pw salt = Some key \<longrightarrow> length key = 32)"

lemma derive_key_length: "argon_ok W \<Longrightarrow> derive_key W pw salt = Ok key \<Longrightarrow> length key = 32"
  by (auto simp: argon_ok_def derive_key_def result_simps)

lemma get_key_length: "provider_typed p \<Longrightarrow> get_key X p s = Ok (Some key) \<Longrightarrow> length key = 32"
  by (cases p rule: provider_typed.cases)
    (auto simp: macos_get_key_def keyring_get_key_def env_get_key_def result_simps
      split: result.splits if_splits keyring_error.splits env_var.splits)

lemma store_key_typed:
  assumes "provider_typed p" and "length key = 32" and "store_key X p key s = (r, p', s')"
  shows "provider_typed p'"
  using assms by (cases p) (auto split: prod.splits)

lemma extract_salt_length: "extract_salt bs params = Ok salt \<Longrightarrow> length salt = 32"
  by (auto simp: extract_salt_def result_simps split: if_splits)

lemma read_assertion_typed:
  assumes "read_assertion G E id_from a (ids, secs, unk) = Ok (ids', secs', unk')"
    and "sorted_entries ids" and "store_inv secs"
  shows "sorted_entries ids' \<and> store_inv secs'"
  using assms
  by (auto simp: read_assertion_def insert_sealed_def result_simps sorted_entries_insert store_inv_insert
      split: option.splits if_splits)

lemma read_assertions_typed:
  assumes "read_assertions G E id_from as parts = Ok (ids, secs, unk)"
    and "sorted_entries (fst parts)" and "store_inv (fst (snd parts))"
  shows "sorted_entries ids \<and> store_inv secs"
  using assms
proof (induction as arbitrary: parts)
  case (Cons a as)
  obtain ids0 secs0 unk0 where p: "parts = (ids0, secs0, unk0)" by (cases parts)
  obtain ids1 secs1 unk1 where r: "read_assertion G E id_from a (ids0, secs0, unk0) = Ok (ids1, secs1, unk1)"
      "read_assertions G E id_from as (ids1, secs1, unk1) = Ok (ids, secs, unk)"
    using Cons.prems(1) p by (auto simp: result_simps)
  from read_assertion_typed [OF r(1)] Cons.IH [OF r(2)] Cons.prems(2,3) p show ?case by simp
qed simp

lemma store_new_inv: "store_inv store_new"
  by (simp add: store_inv_def store_new_def)

lemma app_decrypt_typed:
  assumes "app_decrypt A bs key = Ok w"
  shows "sorted_entries (wd_identities w) \<and> store_inv (wd_secrets w)"
proof -
  from assms obtain e where e: "wallet_from_envelope (ap_gordian A) (ap_dcbor A) (ap_id_from A) e (ap_params A) = Ok w"
    by (auto simp: app_decrypt_def decrypt_wallet_with_key_def from_envelope_def Let_def result_simps split: if_splits)
  from e obtain ids secs unk where r: "read_assertions (ap_gordian A) (ap_dcbor A) (ap_id_from A)
        (ev_assertions (ap_gordian A) e) ([], store_new, []) = Ok (ids, secs, unk)"
      "wd_identities w = ids" "wd_secrets w = secs"
    by (auto simp: wallet_from_envelope_def Let_def result_simps split: if_splits)
  with read_assertions_typed [OF r(1)] store_new_inv show ?thesis by (simp add: sorted_entries_def)
qed

text \<open>
  What an application may do with a wallet: load it, save it, put secrets in and take them out, and
  edit the map of identities, while the rest of the world moves as it likes.
\<close>

inductive wallet_session :: "('i, 'e, 'k) wallet_app \<Rightarrow> ('i, 'e) wallet \<Rightarrow> 'k session \<Rightarrow> bool" for A where
  loaded: "provider_typed p \<Longrightarrow> load_with_provider A f (p, s) = (Ok w, ps) \<Longrightarrow> wallet_session A w ps"
| saved: "wallet_session A w ps \<Longrightarrow> save_with_provider A is_new (w, ps) = (r, w', ps') \<Longrightarrow> wallet_session A w' ps'"
| sealed: "wallet_session A w (p, s) \<Longrightarrow> insert_secret label val (w, s) = (r, w', s') \<Longrightarrow> wallet_session A w' (p, s')"
| dropped: "wallet_session A w ps \<Longrightarrow> remove_secret w i = (b, w') \<Longrightarrow> wallet_session A w' ps"
| edited: "wallet_session A w ps \<Longrightarrow> sorted_entries ids \<Longrightarrow>
    wallet_session A (w\<lparr>wl_data := (wl_data w)\<lparr>wd_identities := ids, wd_active_identity := active\<rparr>\<rparr>) ps"
| moved: "wallet_session A w (p, s) \<Longrightarrow> wallet_session A w (p, s')"

lemma load_typed:
  assumes "argon_ok (ap_crypto A)" and "provider_typed p"
    and "load_with_provider A f (p, s) = (Ok w, p', s')"
  shows "wallet_typed w \<and> provider_typed p'"
proof -
  obtain q where q: "resolve_path (ap_ext A) (ap_params A) f = Ok q" "load_with_provider A (Some q) (p, s) = (Ok w, p', s')"
    using assms(3) by (cases "resolve_path (ap_ext A) (ap_params A) f")
      (simp_all add: load_with_provider_def resolve_path_def [of _ _ "Some q" for q])
  show ?thesis
  proof (cases "path_exists s q")
    case False
    obtain salt s1 where "fill_bytes 32 s = (salt, s1)" by fastforce
    with q(2) False assms(2) fill_bytes_length store_new_inv show ?thesis
      by (auto simp: load_with_provider_def resolve_path_def wallet_typed_def wallet_data_new_def sorted_entries_def)
  next
    case True
    from load_existing [OF q(2) True] show ?thesis
    proof (elim disjE exE conjE)
      fix e assume "Ok w = (Err e :: (storage_error, ('a, 'b) wallet) result)"
      then show ?thesis by simp
    next
      fix m bs salt data key
      assume a: "extract_salt bs (ap_params A) = Ok salt" "cached_wallet A p bs s = Some (data, key)"
        "Ok w = (Ok \<lparr>wl_data = data, wl_path = q, wl_key = key, wl_salt = salt\<rparr> :: (storage_error, ('a, 'b) wallet) result)" "p' = p"
      note c = cached_wallet_Some [OF a(2)]
      from a(3,4) assms(2) get_key_length [OF assms(2) c [THEN conjunct1]] c app_decrypt_typed [of A bs key data] extract_salt_length [OF a(1)]
      show ?thesis by (simp add: wallet_typed_def)
    next
      fix m bs salt ru
      assume a: "extract_salt bs (ap_params A) = Ok salt" "unlock_wallet A bs salt (p, s) = (ru, p', s')"
        "Ok w = bind ru (\<lambda>(data, key). Ok \<lparr>wl_data = data, wl_path = q, wl_key = key, wl_salt = salt\<rparr>)"
      then obtain data key where w: "ru = Ok (data, key)" "w = \<lparr>wl_data = data, wl_path = q, wl_key = key, wl_salt = salt\<rparr>"
        by (cases ru) auto
      with unlock_wallet_effect [OF a(2)] obtain pw t where u: "app_decrypt A bs key = Ok data"
          "derive_key (ap_crypto A) pw salt = Ok key" "(p', s') = snd (store_key (ap_ext A) p key t)" by auto
      note key = derive_key_length [OF assms(1) u(2)]
      have "provider_typed p'" using store_key_typed [OF assms(2) key] u(3) by (metis prod.collapse)
      with w(2) key app_decrypt_typed [OF u(1)] extract_salt_length [OF a(1)] show ?thesis by (simp add: wallet_typed_def)
    qed
  qed
qed

lemma save_typed:
  assumes "argon_ok (ap_crypto A)" and "provider_typed p" and "wallet_typed w"
    and "save_with_provider A is_new (w, p, s) = (r, w', p', s')"
  shows "wallet_typed w' \<and> provider_typed p'"
proof -
  obtain r1 w1 p1 s1 where k: "(if is_new then new_key A (w, p, s) else (Ok (), w, p, s)) = (r1, w1, p1, s1)"
    by (metis prod_cases4)
  have "wallet_typed w1 \<and> provider_typed p1"
  proof (cases is_new)
    case False
    with k assms show ?thesis by simp
  next
    case True
    obtain rp s2 where pw: "get_password_with_confirm (ap_ext A) (wp_env_password (ap_params A)) s = (rp, s2)" by fastforce
    obtain salt s3 where f: "fill_bytes 32 s2 = (salt, s3)" by fastforce
    show ?thesis
    proof (cases "\<exists>w. rp = Ok w \<and> (\<exists>key. derive_key (ap_crypto A) w salt = Ok key)")
      case True
      then obtain pass key where d: "rp = Ok pass" "derive_key (ap_crypto A) pass salt = Ok key" by blast
      obtain sr p3 s4 where st: "store_key (ap_ext A) p key s3 = (sr, p3, s4)" by (metis prod_cases3)
      have "w1 = w\<lparr>wl_key := key, wl_salt := salt\<rparr>" "p1 = p3"
        using k \<open>is_new\<close> pw f d st by (simp_all add: new_key_def)
      with store_key_typed [OF assms(2) derive_key_length [OF assms(1) d(2)] st] derive_key_length [OF assms(1) d(2)]
        fill_bytes_length [OF f] assms(3) show ?thesis by (simp add: wallet_typed_def)
    next
      case False
      then have "w1 = w \<and> p1 = p"
        using k \<open>is_new\<close> pw f by (cases rp; cases "derive_key (ap_crypto A) (the_ok rp) salt") (auto simp: new_key_def)
      with assms show ?thesis by simp
    qed
  qed
  moreover have "w' = w1 \<and> p' = p1"
    using assms(4) k by (cases r1) (auto simp: save_with_provider_def split: prod.splits)
  ultimately show ?thesis by simp
qed

lemma insert_secret_typed:
  assumes "wallet_typed w" and "insert_secret label val (w, s) = (r, w', s')"
  shows "wallet_typed w'"
proof -
  have "store_inv st'" if "store_inv st" "store_insert st d label val t = Ok (i, st')" for st st' d t i
    using that by (auto simp: store_insert_def insert_sealed_def result_simps store_inv_insert split: if_splits)
  then show ?thesis
    using assms by (auto simp: insert_secret_def wallet_typed_def Let_def split: prod.splits result.splits)
qed

lemma remove_secret_typed: "wallet_typed w \<Longrightarrow> remove_secret w i = (b, w') \<Longrightarrow> wallet_typed w'"
  by (auto simp: remove_secret_def store_remove_def wallet_typed_def store_inv_remove)

text \<open>
  C19. The wallet in memory is well typed at every moment of a session: the key and the salt have 32
  bytes, the identities and the secrets are maps with one entry per name, every secret lies under its own id,
  and a key in the memory cache has 32 bytes. Assumed is only that Argon2id returns the 32 bytes it is asked for.
\<close>

theorem session_well_typed:
  assumes "argon_ok (ap_crypto A)" and "wallet_session A w ps"
  shows "wallet_typed w \<and> provider_typed (fst ps)"
  using assms(2)
proof (induction rule: wallet_session.induct)
  case (loaded p f s w ps)
  with load_typed [OF assms(1), of p f s w "fst ps" "snd ps"] show ?case by simp
next
  case (saved w ps is_new r w' ps')
  with save_typed [OF assms(1), of "fst ps" w is_new "snd ps" r w' "fst ps'" "snd ps'"] show ?case by simp
next
  case (sealed w p s label val r w' s')
  with insert_secret_typed show ?case by auto
next
  case (dropped w ps i b w')
  with remove_secret_typed show ?case by auto
next
  case (edited w ps ids active)
  then show ?case by (simp add: wallet_typed_def)
qed simp

section \<open>Instances\<close>

definition toy_app :: "target_os \<Rightarrow> (toy_env basic_identity, toy_env, toy_service) wallet_app" where
  "toy_app target = \<lparr>ap_crypto = toy_wallet_crypto, ap_gordian = toy_gordian, ap_dcbor = ascii_ext,
    ap_id_to = identity_to_envelope toy_hash toy_gordian ascii_ext,
    ap_id_from = identity_from_envelope toy_hash toy_gordian ascii_ext,
    ap_params = IDENTIKEY_PARAMS, ap_ext = toy_ext target\<rparr>"

lemma toy_app_simps [simp]:
  "ap_crypto (toy_app t) = toy_wallet_crypto" "ap_gordian (toy_app t) = toy_gordian" "ap_dcbor (toy_app t) = ascii_ext"
  "ap_id_to (toy_app t) = identity_to_envelope toy_hash toy_gordian ascii_ext"
  "ap_id_from (toy_app t) = identity_from_envelope toy_hash toy_gordian ascii_ext"
  "ap_params (toy_app t) = IDENTIKEY_PARAMS" "ap_ext (toy_app t) = toy_ext t"
  by (simp_all add: toy_app_def)

lemma toy_basic_app: "basic_app toy_hash (toy_app target)"
  using toy_gordian_ok ascii_ext_ok by (simp add: basic_app_def aead_ok_def toy_wallet_crypto_def)

lemma demo_savable: "savable toy_hash (toy_app target) demo_wallet"
  using demo_wallet_ok by (simp add: savable_def toy_gordian_def split: result.split)

lemma savable_encrypts:
  assumes "savable toy_hash (toy_app target) d"
  shows "\<exists>bs. app_encrypt (toy_app target) d key salt nonce = Ok bs"
proof -
  have "wallet_ok toy_gordian (basic_ok toy_hash toy_gordian ascii_ext) d"
    "wallet_digests_ok toy_gordian ascii_ext (identity_to_envelope toy_hash toy_gordian ascii_ext) d"
    using assms by (simp_all add: savable_def)
  then obtain e where "wallet_to_envelope toy_gordian ascii_ext (identity_to_envelope toy_hash toy_gordian ascii_ext)
      d IDENTIKEY_PARAMS = Ok e"
    using basic.container_roundtrip [OF toy_gordian_ok ascii_ext_ok] by blast
  then show ?thesis
    by (simp add: app_encrypt_def encrypt_wallet_with_key_def encrypt_wallet_with_key_nonce_def to_envelope_def
        toy_wallet_crypto_def)
qed

text \<open>Writing the file \<open>w\<close> of the working directory, when nothing fails.\<close>

lemma plain_file_name: "path_components ''w'' = [Normal ''w'']" "path_file_name ''w'' = Some ''w''"
  "node_key ''w'' = [Normal ''w'']" "path_parent ''w'' = Some []" "tmp_key ''w'' = [Normal ''.w.tmp'']"
  by (simp_all add: path_components_def path_file_name_def node_key_def path_parent_def component_of_def path_render_def
      tmp_key_def tmp_name_def)

lemma plain_tmp_key: "node_key (path_join ''.'' (tmp_name ''w'')) = [Normal ''.w.tmp'']"
  by (simp add: path_join_def tmp_name_def node_key_def path_components_def component_of_def)

lemma plain_write:
  assumes "os_fault s = (\<lambda>_. False)" and "os_nodes s [Normal ''w''] \<noteq> Some Directory"
    and "os_nodes s [Normal ''.w.tmp''] = None"
  shows "fst (write_secret_file X ''w'' bs s) = Ok ()"
  using assms
  by (simp add: write_secret_file_def plain_file_name plain_tmp_key open_truncate_def is_directory_def write_all_def
      put_contents_def sync_all_def fs_rename_def)

lemma toy_os_simps [simp]:
  "os_fault (toy_os env nodes) = (\<lambda>_. False)" "os_nodes (toy_os env nodes) = nodes" "os_env (toy_os env nodes) = env"
  by (simp_all add: toy_os_def)

lemma plain_save:
  assumes "os_fault s = (\<lambda>_. False)" and "os_nodes s = (\<lambda>_. None)" and "wl_path w = ''w''" and "savable toy_hash (toy_app target) (wl_data w)"
    and "is_new \<longrightarrow> env_value s ''IDENTIKEY_WALLET_PASSWORD'' = Some pw"
  shows "\<exists>w' p' s'. save_with_provider (toy_app target) is_new (w, p, s) = (Ok (), w', p', s')"
proof -
  have wr: "fst (write_wallet (toy_app target) v t) = Ok ()"
    if v: "wl_path v = ''w''" "savable toy_hash (toy_app target) (wl_data v)" and t: "same_disk s t" for v t
  proof -
    obtain nonce t1 where f: "fill_bytes 24 t = (nonce, t1)" by fastforce
    have "same_disk s t1" using t fill_bytes_disk [OF f] same_disk_trans by blast
    then have "fst (write_secret_file (toy_ext target) ''w'' bs t1) = Ok ()" for bs
      using assms(1,2) plain_write [of t1] by (simp add: same_disk_def)
    moreover obtain bs where "app_encrypt (toy_app target) (wl_data v) (wl_key v) (wl_salt v) nonce = Ok bs"
      using savable_encrypts [OF v(2)] by blast
    ultimately show ?thesis
      using f v by (simp add: write_wallet_def plain_file_name create_dir_all_def node_key_def path_components_def)
  qed
  obtain r1 w1 p1 s1 where k: "(if is_new then new_key (toy_app target) (w, p, s) else (Ok (), w, p, s)) = (r1, w1, p1, s1)"
    by (metis prod_cases4)
  have "r1 = Ok () \<and> wl_path w1 = ''w'' \<and> wl_data w1 = wl_data w \<and> same_disk s s1"
  proof (cases is_new)
    case True
    then have "r1 = Ok ()"
      using k assms(5) by (auto simp: new_key_def get_password_with_confirm_def IDENTIKEY_PARAMS_def fill_bytes_def
          derive_key_def toy_wallet_crypto_def)
    with True k new_key_effect [of "toy_app target" w p s r1 w1 p1 s1] assms(3,4) show ?thesis by simp
  next
    case False
    with k assms show ?thesis by simp
  qed
  with wr [of w1 s1] k assms(4) show ?thesis
    by (cases "write_wallet (toy_app target) w1 s1") (simp add: save_with_provider_def)
qed

lemma write_secret_file_atomic_witness:
  "\<exists>s'. write_secret_file (toy_ext Linux) ''w'' [1, 2, 3]
      (toy_os (\<lambda>_. NotPresent) [[Normal ''w''] \<mapsto> File 384 [9]] \<lparr>os_fault := (\<lambda>c. c = SyncAll [Normal ''.w.tmp''])\<rparr>) =
      (Err (IoFailed (SyncAll [Normal ''.w.tmp''])), s') \<and> os_nodes s' [Normal ''w''] = Some (File 384 [9])"
proof -
  let ?s = "toy_os (\<lambda>_. NotPresent) [[Normal ''w''] \<mapsto> File 384 [9]] \<lparr>os_fault := (\<lambda>c. c = SyncAll [Normal ''.w.tmp''])\<rparr>"
  obtain r s' where w: "write_secret_file (toy_ext Linux) ''w'' [1, 2, 3] ?s = (r, s')" by fastforce
  have "r = fst (write_secret_file (toy_ext Linux) ''w'' [1, 2, 3] ?s)" using w by simp
  also have "\<dots> = Err (IoFailed (SyncAll [Normal ''.w.tmp'']))"
    by (simp add: write_secret_file_def plain_file_name plain_tmp_key open_truncate_def is_directory_def write_all_def
        put_contents_def sync_all_def io_fail_def Let_def)
  finally show ?thesis
    using w write_secret_file_atomic [OF w plain_file_name(2)] by (simp add: plain_file_name)
qed

lemma write_secret_file_mode_witness:
  "\<exists>s'. write_secret_file (toy_ext Linux) ''w'' [1, 2, 3]
      (toy_os (\<lambda>_. NotPresent) [[Normal ''.w.tmp''] \<mapsto> File 420 []]) = (Ok (), s') \<and>
    os_nodes s' [Normal ''w''] = Some (File 420 [1, 2, 3])"
proof -
  let ?s = "toy_os (\<lambda>_. NotPresent) [[Normal ''.w.tmp''] \<mapsto> File 420 []]"
  have "fst (write_secret_file (toy_ext Linux) ''w'' [1, 2, 3] ?s) = Ok ()"
    by (simp add: write_secret_file_def plain_file_name plain_tmp_key open_truncate_def is_directory_def write_all_def
        put_contents_def sync_all_def fs_rename_def)
  then obtain s' where w: "write_secret_file (toy_ext Linux) ''w'' [1, 2, 3] ?s = (Ok (), s')" by (metis prod.collapse)
  with write_secret_file_mode [OF w plain_file_name(2)] show ?thesis by (simp add: plain_file_name)
qed

lemma saved_wallet_loads_witness:
  "\<exists>p' s' v. load_with_provider (toy_app Linux) (Some ''w'') (p', s') = (Ok v, p', s') \<and>
    same_wallet same_identity demo_wallet (wl_data v) \<and> wl_key v = replicate 32 5"
proof -
  let ?w = "from_parts demo_wallet ''w'' (replicate 32 5) (replicate 32 6) :: (toy_env basic_identity, toy_env) wallet"
  let ?s = "toy_os (\<lambda>_. NotPresent) (\<lambda>_. None)"
  obtain w' p' s' where sv: "save_with_provider (toy_app Linux) False (?w, memory_with_key (replicate 32 5), ?s) = (Ok (), w', p', s')"
    using plain_save [of ?s ?w Linux False "''x''" "memory_with_key (replicate 32 5)"] demo_savable by (auto simp: from_parts_def)
  note e = save_effect [OF sv]
  have n: "path_file_name (wl_path ?w) = Some ''w''" by (simp add: from_parts_def plain_file_name)
  have "w' = ?w" "p' = memory_with_key (replicate 32 5)" "os_fault s' = (\<lambda>_. False)" using e(1,2) [OF n] by simp_all
  with saved_wallet_loads [OF toy_basic_app _ n _ sv] demo_savable [of Linux]
  show ?thesis by (auto simp: from_parts_def memory_with_key_def)
qed

theorem password_opens_new_wallet_witness:
  "\<exists>s' v. load_with_provider (toy_app Linux) (Some ''w'') (memory_new, s') =
      (Ok v, snd (store_key (toy_ext Linux) memory_new (replicate 32 1) s')) \<and>
    same_wallet same_identity demo_wallet (wl_data v)"
proof -
  let ?w = "from_parts demo_wallet ''w'' (replicate 32 0) (replicate 32 6) :: (toy_env basic_identity, toy_env) wallet"
  let ?s = "toy_os (\<lambda>_. EnvValue ''pass'') (\<lambda>_. None)"
  have env: "env_value ?s v = Some ''pass''" for v by (simp add: env_value_def)
  obtain w' p' s' where sv: "save_with_provider (toy_app Linux) True (?w, memory_new, ?s) = (Ok (), w', p', s')"
    using plain_save [of ?s ?w Linux True "''pass''" memory_new] env demo_savable by (auto simp: from_parts_def)
  have n: "path_file_name (wl_path ?w) = Some ''w''" by (simp add: from_parts_def plain_file_name)
  note e = save_effect [OF sv n]
  have key: "wl_key w' = replicate 32 1" using e(3) by (auto simp: derive_key_def toy_wallet_crypto_def)
  have "os_fault s' = (\<lambda>_. False)" using e(1) by simp
  with password_opens_new_wallet [OF toy_basic_app _ n _ sv, of "''pass''" memory_new] env demo_savable [of Linux] key
  show ?thesis by (auto simp: from_parts_def memory_new_def)
qed

theorem unsaved_wallet_has_zero_key_witness:
  "\<exists>m bs v. app_decrypt (toy_app Linux) bs (replicate 32 0) = Ok v \<and> same_wallet same_identity demo_wallet v \<and>
    (\<exists>w ps w' p' s'. load_with_provider (toy_app Linux) (Some ''w'') (memory_new, toy_os (\<lambda>_. NotPresent) (\<lambda>_. None)) = (Ok w, ps) \<and>
      save_with_provider (toy_app Linux) False (w\<lparr>wl_data := demo_wallet\<rparr>, ps) = (Ok (), w', p', s') \<and>
      os_nodes s' [Normal ''w''] = Some (File m bs))"
proof -
  let ?s = "toy_os (\<lambda>_. NotPresent) (\<lambda>_. None)"
  have no: "\<not> path_exists ?s ''w''" by (simp add: path_exists_def plain_file_name is_directory_def)
  obtain salt s1 where f: "fill_bytes 32 ?s = (salt, s1)" by fastforce
  let ?w = "\<lparr>wl_data = wallet_data_new, wl_path = ''w'', wl_key = replicate 32 0, wl_salt = salt\<rparr>
    :: (toy_env basic_identity, toy_env) wallet"
  have ld: "load_with_provider (toy_app Linux) (Some ''w'') (memory_new, ?s) = (Ok ?w, memory_new, s1)"
    using no f by (simp add: load_with_provider_def resolve_path_def)
  have d: "os_fault s1 = (\<lambda>_. False)" "os_nodes s1 = (\<lambda>_. None)" using fill_bytes_disk [OF f] by (simp_all add: same_disk_def)
  obtain w' p' s' where sv: "save_with_provider (toy_app Linux) False (?w\<lparr>wl_data := demo_wallet\<rparr>, memory_new, s1) = (Ok (), w', p', s')"
    using plain_save [OF d, of "?w\<lparr>wl_data := demo_wallet\<rparr>" Linux False "''x''" memory_new] demo_savable by auto
  from unsaved_wallet_has_zero_key [OF toy_basic_app plain_file_name(2) no ld demo_savable sv] ld sv
  show ?thesis by (auto simp: plain_file_name)
qed

lemma toy_prompt_ok: "prompt_ok (toy_ext target)"
  by (simp add: prompt_ok_def toy_ext_def)

text \<open>A file that no key opens, with another key in the keyring: the password is tried, the load fails, and the key is still there.\<close>

theorem load_returns_the_file_witness:
  "\<exists>e p' s'. load_with_provider (toy_app Linux) (Some ''w'') (KeyringProvider ''k'' ''a'',
      (toy_os (\<lambda>_. EnvValue ''pass'') [[Normal ''w''] \<mapsto> File 384 (MAGIC @ [WALLET_VERSION] @ replicate 56 0)])
        \<lparr>os_outside := [(''k'', ''a'') \<mapsto> cx_b64_encode (toy_ext Linux) (replicate 32 9)]\<rparr>) = (Err (WrongPassword e), p', s') \<and>
    get_key (toy_ext Linux) p' s' = Ok (Some (replicate 32 9))"
proof -
  let ?b = "MAGIC @ [WALLET_VERSION] @ replicate 56 0" and ?p = "KeyringProvider ''k'' ''a''"
  let ?s = "(toy_os (\<lambda>_. EnvValue ''pass'') [[Normal ''w''] \<mapsto> File 384 ?b])
    \<lparr>os_outside := [(''k'', ''a'') \<mapsto> cx_b64_encode (toy_ext Linux) (replicate 32 9)]\<rparr>"
  have salt: "extract_salt ?b IDENTIKEY_PARAMS = Ok (replicate 32 0)"
    by (simp add: extract_salt_def MAGIC_def check_version_def nth_append WALLET_VERSION_def IDENTIKEY_PARAMS_def)
  have bad: "\<exists>e. app_decrypt (toy_app Linux) ?b key = Err e" for key
    by (simp add: app_decrypt_def decrypt_wallet_with_key_def MAGIC_def)
  have key: "get_key (toy_ext Linux) ?p ?s = Ok (Some (replicate 32 9))"
  proof -
    have "cx_b64_decode (toy_ext Linux) (cx_b64_encode (toy_ext Linux) (replicate 32 9)) = Some (replicate 32 9)"
      using toy_base64_ok [of Linux] unfolding base64_ok_def by blast
    moreover have "cx_get_password (toy_ext Linux) sv ac m = (case m (sv, ac) of None \<Rightarrow> Err NoEntry | Some v \<Rightarrow> Ok v)" for sv ac m
      by (simp add: toy_ext_def)
    ultimately show ?thesis by (simp add: keyring_get_key_def keyring_entry_def toy_keyring_simps)
  qed
  obtain r p' s' where l: "load_with_provider (toy_app Linux) (Some ''w'') (?p, ?s) = (r, p', s')" by (metis prod_cases3)
  obtain e where e: "app_decrypt (toy_app Linux) ?b (replicate 32 1) = Err e" using bad by blast
  obtain f where f: "app_decrypt (toy_app Linux) ?b (replicate 32 9) = Err f" using bad by blast
  have "r = fst (load_with_provider (toy_app Linux) (Some ''w'') (?p, ?s))" using l by simp
  also have "\<dots> = Err (WrongPassword e)"
    using salt e f key
    by (simp add: load_with_provider_def resolve_path_def path_exists_def plain_file_name fs_read_def cached_wallet_def
        unlock_wallet_def get_password_def env_value_def derive_key_def toy_wallet_crypto_def)
  finally have r: "r = Err (WrongPassword e)" .
  with load_returns_the_file [OF l] toy_prompt_ok have "same_caches (toy_ext Linux) ?s s'" "p' = ?p" by simp_all
  with key l r show ?thesis by (auto simp: same_caches_def)
qed

theorem session_well_typed_witness:
  "\<exists>w ps. wallet_session (toy_app Linux) w ps \<and> wallet_typed w \<and> wl_path w = ''w''"
proof -
  let ?s = "toy_os (\<lambda>_. NotPresent) (\<lambda>_. None)"
  obtain w ps where l: "load_with_provider (toy_app Linux) (Some ''w'') (memory_new, ?s) = (Ok w, ps)" "wl_path w = ''w''"
    by (auto simp: load_with_provider_def resolve_path_def path_exists_def plain_file_name is_directory_def fill_bytes_def)
  have "wallet_session (toy_app Linux) w ps" by (rule wallet_session.loaded [OF _ l(1)]) (simp add: memory_new_def)
  moreover have "argon_ok (ap_crypto (toy_app Linux))" by (simp add: argon_ok_def toy_wallet_crypto_def)
  ultimately show ?thesis using session_well_typed [of "toy_app Linux" w ps] l(2) by blast
qed

end
