(* ===== verification/Ikey.thy ===== *)
theory Ikey
  imports Storage_Laws
begin

text \<open>
  The command line tool \<open>ikey\<close> (\<open>src/ikey/src/main.rs\<close>): the identity commands and the wallet
  commands over the stored wallet of built-in identities. Parsing the arguments is the business of another crate; a command is given
  as its value, and what it prints is the list of its lines.
\<close>

section \<open>Commands\<close>

datatype identity_call =
    IdNew string bool
  | IdList
  | IdShow "string option"
  | IdUse string
  | IdDelete string

datatype wallet_call = WalletUnlock | WalletLock | WalletStatus | WalletPath

datatype command = Identity identity_call | WalletCmd wallet_call

datatype ikey_error =
    StorageError storage_error
  | CredentialError credential_error
  | AlreadyExists string
  | NotFound string
  | ClockError
  | KeygenFailed
  | NoIdentitySpecified

datatype ikey_line =
    CreatedIdentity string
  | FingerprintLine string
  | NoIdentities
  | ListEntry string bool string bool
  | NameLine string
  | CreatedLine u64
  | Ed25519Line nat
  | MlDsaLine "nat option"
  | ActiveLine string
  | DeletedIdentity string
  | WalletEmpty
  | WalletUnlocked
  | WalletLocked string
  | WalletLine path
  | ExistsLine bool
  | ProviderLine string
  | UnlockedLine bool
  | PathLine path

text \<open>
  The application, the public key of an Ed25519 seed, and the ML-DSA-87 key generation, which draws
  from the random generator by itself.
\<close>

record ('e, 'k) ikey =
  ik_app :: "('e basic_identity, 'e, 'k) wallet_app"
  ik_hash :: "bytes \<Rightarrow> bytes"
  ik_ed25519_public :: "bytes \<Rightarrow> bytes"
  ik_ml_dsa_keygen :: "(nat \<Rightarrow> u8) \<Rightarrow> (bytes \<times> bytes) option \<times> (nat \<Rightarrow> u8)"

definition ikey_load ::
  "('e, 'k) ikey \<Rightarrow> path option \<Rightarrow> 'k os \<Rightarrow> (ikey_error, ('e basic_identity, 'e) wallet) result \<times> 'k os" where
  "ikey_load ik f s = map_prod (map_err StorageError) id (load (ik_app ik) f s)"

text \<open>\<open>wallet.save(is_new)?\<close>; the wallet is dropped afterwards.\<close>

definition ikey_save ::
  "('e, 'k) ikey \<Rightarrow> bool \<Rightarrow> ('e basic_identity, 'e) wallet \<Rightarrow> 'k os \<Rightarrow> (ikey_error, unit) result \<times> 'k os" where
  "ikey_save ik is_new w s = (let (r, w, s) = save (ik_app ik) is_new (w, s) in (map_err StorageError r, s))"

section \<open>Identity commands\<close>

definition pq_keys :: "('e, 'k) ikey \<Rightarrow> bool \<Rightarrow> 'k os \<Rightarrow> (ikey_error, key_pair option) result \<times> 'k os" where
  "pq_keys ik no_pq s =
    (if no_pq then (Ok None, s)
     else let (keys, rng) = ik_ml_dsa_keygen ik (os_rng s)
       in (map_err (\<lambda>_. KeygenFailed) (bind (ok_or keys ()) (\<lambda>(pk, sk). Ok (Some \<lparr>kp_public = pk, kp_secret = sk\<rparr>))),
           s\<lparr>os_rng := rng\<rparr>))"

definition new_identity :: "('e, 'k) ikey \<Rightarrow> bool \<Rightarrow> 'k os \<Rightarrow> (ikey_error, 'e basic_identity) result \<times> 'k os" where
  "new_identity ik no_pq s =
    (let (sk, s) = fill_bytes 32 s
     in then_io (ok_or (os_clock s) ClockError, s) (\<lambda>created_at s.
        let identity = basic_identity_new (ik_hash ik) created_at (ik_ed25519_public ik sk) sk
        in then_io (pq_keys ik no_pq s) (\<lambda>ml_dsa s. (Ok (identity\<lparr>bi_ml_dsa := ml_dsa\<rparr>), s))))"

definition add_identity :: "string \<Rightarrow> 'e basic_identity \<Rightarrow> ('e basic_identity, 'e) wallet_data \<Rightarrow> ('e basic_identity, 'e) wallet_data" where
  "add_identity name i d =
    d\<lparr>wd_identities := bt_insert name i (wd_identities d),
      wd_active_identity := (if wd_active_identity d = None then Some name else wd_active_identity d)\<rparr>"

definition identity_new ::
  "('e, 'k) ikey \<Rightarrow> string \<Rightarrow> bool \<Rightarrow> path option \<Rightarrow> 'k os \<Rightarrow> (ikey_error, ikey_line list) result \<times> 'k os" where
  "identity_new ik name no_pq f s =
    then_io (ikey_load ik f s) (\<lambda>w s.
    if map_of (wd_identities (wl_data w)) name \<noteq> None then (Err (AlreadyExists name), s)
    else
      then_io (new_identity ik no_pq s) (\<lambda>identity s.
      then_io (ikey_save ik (is_new_wallet w) (w\<lparr>wl_data := add_identity name identity (wl_data w)\<rparr>) s) (\<lambda>_ s.
      (Ok [CreatedIdentity name, FingerprintLine (fingerprint_b58 identity)], s))))"

definition identity_list ::
  "('e, 'k) ikey \<Rightarrow> path option \<Rightarrow> 'k os \<Rightarrow> (ikey_error, ikey_line list) result \<times> 'k os" where
  "identity_list ik f s =
    then_io (ikey_load ik f s) (\<lambda>w s.
    if wd_identities (wl_data w) = [] then (Ok [NoIdentities], s)
    else (Ok (map (\<lambda>(name, i). ListEntry name (wd_active_identity (wl_data w) = Some name) (fingerprint_b58 i) (bi_ml_dsa i \<noteq> None))
        (sort_key fst (wd_identities (wl_data w)))), s))"

definition identity_show ::
  "('e, 'k) ikey \<Rightarrow> string option \<Rightarrow> path option \<Rightarrow> 'k os \<Rightarrow> (ikey_error, ikey_line list) result \<times> 'k os" where
  "identity_show ik name f s =
    then_io (ikey_load ik f s) (\<lambda>w s.
    case (case name of Some n \<Rightarrow> Some n | None \<Rightarrow> wd_active_identity (wl_data w)) of
      None \<Rightarrow> (Err NoIdentitySpecified, s)
    | Some n \<Rightarrow>
        (case map_of (wd_identities (wl_data w)) n of
           None \<Rightarrow> (Err (NotFound n), s)
         | Some i \<Rightarrow>
             (Ok [NameLine n, FingerprintLine (fingerprint_b58 i), CreatedLine (bi_created_at i),
                Ed25519Line (length (kp_public (bi_ed25519 i))),
                MlDsaLine (map_option (\<lambda>kp. length (kp_public kp)) (bi_ml_dsa i))], s)))"

definition use_identity :: "string \<Rightarrow> ('e basic_identity, 'e) wallet_data \<Rightarrow> ('e basic_identity, 'e) wallet_data" where
  "use_identity name d = d\<lparr>wd_active_identity := Some name\<rparr>"

definition identity_use ::
  "('e, 'k) ikey \<Rightarrow> string \<Rightarrow> path option \<Rightarrow> 'k os \<Rightarrow> (ikey_error, ikey_line list) result \<times> 'k os" where
  "identity_use ik name f s =
    then_io (ikey_load ik f s) (\<lambda>w s.
    if map_of (wd_identities (wl_data w)) name = None then (Err (NotFound name), s)
    else
      then_io (ikey_save ik False (w\<lparr>wl_data := use_identity name (wl_data w)\<rparr>) s) (\<lambda>_ s.
      (Ok [ActiveLine name], s)))"

definition drop_identity :: "string \<Rightarrow> ('e basic_identity, 'e) wallet_data \<Rightarrow> ('e basic_identity, 'e) wallet_data" where
  "drop_identity name d =
    d\<lparr>wd_identities := bt_remove name (wd_identities d),
      wd_active_identity := (if wd_active_identity d = Some name then None else wd_active_identity d)\<rparr>"

definition identity_delete ::
  "('e, 'k) ikey \<Rightarrow> string \<Rightarrow> path option \<Rightarrow> 'k os \<Rightarrow> (ikey_error, ikey_line list) result \<times> 'k os" where
  "identity_delete ik name f s =
    then_io (ikey_load ik f s) (\<lambda>w s.
    if map_of (wd_identities (wl_data w)) name = None then (Err (NotFound name), s)
    else
      then_io (ikey_save ik False (w\<lparr>wl_data := drop_identity name (wl_data w)\<rparr>) s) (\<lambda>_ s.
      (Ok [DeletedIdentity name], s)))"

fun identity_command ::
  "('e, 'k) ikey \<Rightarrow> identity_call \<Rightarrow> path option \<Rightarrow> 'k os \<Rightarrow> (ikey_error, ikey_line list) result \<times> 'k os" where
  "identity_command ik (IdNew name no_pq) f s = identity_new ik name no_pq f s"
| "identity_command ik IdList f s = identity_list ik f s"
| "identity_command ik (IdShow name) f s = identity_show ik name f s"
| "identity_command ik (IdUse name) f s = identity_use ik name f s"
| "identity_command ik (IdDelete name) f s = identity_delete ik name f s"

section \<open>Wallet commands\<close>

definition wallet_unlock ::
  "('e, 'k) ikey \<Rightarrow> path option \<Rightarrow> 'k os \<Rightarrow> (ikey_error, ikey_line list) result \<times> 'k os" where
  "wallet_unlock ik f s =
    then_io (ikey_load ik f s) (\<lambda>w s. (Ok [if is_new_wallet w then WalletEmpty else WalletUnlocked], s))"

definition wallet_lock :: "('e, 'k) ikey \<Rightarrow> path \<Rightarrow> 'k os \<Rightarrow> (ikey_error, ikey_line list) result \<times> 'k os" where
  "wallet_lock ik p s =
    (let X = ap_ext (ik_app ik);
         provider = default_provider_for X s p (ap_params (ik_app ik));
         (r, provider, s) = clear_key X provider s
     in (map_err CredentialError (bind r (\<lambda>_. Ok [WalletLocked (provider_name X provider)])), s))"

definition wallet_status :: "('e, 'k) ikey \<Rightarrow> path \<Rightarrow> 'k os \<Rightarrow> (ikey_error, ikey_line list) result" where
  "wallet_status ik p s =
    (let X = ap_ext (ik_app ik);
         provider = default_provider_for X s p (ap_params (ik_app ik))
     in bind (map_err CredentialError (get_key X provider s)) (\<lambda>cached.
        Ok [WalletLine p, ExistsLine (path_exists s p), ProviderLine (provider_name X provider), UnlockedLine (cached \<noteq> None)]))"

definition wallet_command ::
  "('e, 'k) ikey \<Rightarrow> wallet_call \<Rightarrow> path option \<Rightarrow> 'k os \<Rightarrow> (ikey_error, ikey_line list) result \<times> 'k os" where
  "wallet_command ik cmd f s =
    then_io (map_err StorageError (case f of Some p \<Rightarrow> Ok p | None \<Rightarrow> default_path (ap_ext (ik_app ik)) (ap_params (ik_app ik))), s)
      (\<lambda>p s.
    case cmd of
      WalletUnlock \<Rightarrow> wallet_unlock ik f s
    | WalletLock \<Rightarrow> wallet_lock ik p s
    | WalletStatus \<Rightarrow> (wallet_status ik p s, s)
    | WalletPath \<Rightarrow> (Ok [PathLine p], s))"

fun ikey_main :: "('e, 'k) ikey \<Rightarrow> command \<Rightarrow> path option \<Rightarrow> 'k os \<Rightarrow> (ikey_error, ikey_line list) result \<times> 'k os" where
  "ikey_main ik (Identity cmd) f s = identity_command ik cmd f s"
| "ikey_main ik (WalletCmd cmd) f s = wallet_command ik cmd f s"

end
