(* ===== verification/Identity_Book.thy ===== *)
theory Identity_Book
  imports Ikey
begin

text \<open>
  What the identity commands of \<open>ikey\<close> promise, without files and lists: an address book, a finite map from names to
  identities with at most one active name, one step per command with the lines it prints, and what a run of a command has to do
  with such a step. None of the program's edits is used here.
\<close>

section \<open>The book\<close>

record 'i identity_book =
  ib_entries :: "string \<rightharpoonup> 'i"
  ib_active :: "string option"

definition book :: "('i, 'e) wallet_data \<Rightarrow> 'i identity_book" where
  "book d = \<lparr>ib_entries = map_of (wd_identities d), ib_active = wd_active_identity d\<rparr>"

lemma book_simps [simp]:
  "ib_entries (book d) = map_of (wd_identities d)" "ib_active (book d) = wd_active_identity d"
  by (simp_all add: book_def)

text \<open>The active name is one of the book.\<close>

definition book_ok :: "'i identity_book \<Rightarrow> bool" where
  "book_ok b \<longleftrightarrow> (\<forall>a. ib_active b = Some a \<longrightarrow> a \<in> dom (ib_entries b))"

section \<open>The steps\<close>

definition listed :: "'e basic_identity identity_book \<Rightarrow> string \<Rightarrow> ikey_line" where
  "listed b n = (case ib_entries b n of
     Some i \<Rightarrow> ListEntry n (ib_active b = Some n) (bs58_encode (bi_fingerprint i)) (bi_ml_dsa i \<noteq> None)
   | None \<Rightarrow> NoIdentities)"

definition shown :: "string \<Rightarrow> 'e basic_identity \<Rightarrow> ikey_line list" where
  "shown n i = [NameLine n, FingerprintLine (bs58_encode (bi_fingerprint i)), CreatedLine (bi_created_at i),
    Ed25519Line (length (kp_public (bi_ed25519 i))), MlDsaLine (map_option (\<lambda>k. length (kp_public k)) (bi_ml_dsa i))]"

text \<open>
  \<open>new\<close> adds \<open>fresh\<close> under a name that is not taken and makes it active when nothing is; \<open>use\<close> and \<open>delete\<close>
  need a name that is there; deleting the active name leaves no name active.
\<close>

fun book_step ::
  "identity_call \<Rightarrow> 'e basic_identity \<Rightarrow> 'e basic_identity identity_book \<Rightarrow>
   (ikey_error, ikey_line list \<times> 'e basic_identity identity_book) result" where
  "book_step (IdNew name no_pq) fresh b =
    (if name \<in> dom (ib_entries b) then Err (AlreadyExists name)
     else Ok ([CreatedIdentity name, FingerprintLine (bs58_encode (bi_fingerprint fresh))],
       \<lparr>ib_entries = (ib_entries b)(name \<mapsto> fresh),
        ib_active = (case ib_active b of None \<Rightarrow> Some name | Some a \<Rightarrow> Some a)\<rparr>))"
| "book_step IdList fresh b =
    Ok (if dom (ib_entries b) = {} then [NoIdentities] else map (listed b) (sorted_list_of_set (dom (ib_entries b))), b)"
| "book_step (IdShow (Some name)) fresh b =
    (case ib_entries b name of None \<Rightarrow> Err (NotFound name) | Some i \<Rightarrow> Ok (shown name i, b))"
| "book_step (IdShow None) fresh b =
    (case ib_active b of
       None \<Rightarrow> Err NoIdentitySpecified
     | Some a \<Rightarrow> (case ib_entries b a of None \<Rightarrow> Err (NotFound a) | Some i \<Rightarrow> Ok (shown a i, b)))"
| "book_step (IdUse name) fresh b =
    (if name \<notin> dom (ib_entries b) then Err (NotFound name)
     else Ok ([ActiveLine name], \<lparr>ib_entries = ib_entries b, ib_active = Some name\<rparr>))"
| "book_step (IdDelete name) fresh b =
    (if name \<notin> dom (ib_entries b) then Err (NotFound name)
     else Ok ([DeletedIdentity name],
       \<lparr>ib_entries = (ib_entries b)(name := None),
        ib_active = (if ib_active b = Some name then None else ib_active b)\<rparr>))"

lemma book_step_ok: "book_step c fresh b = Ok (out, b') \<Longrightarrow> book_ok b \<Longrightarrow> book_ok b'"
  by (cases "(c, fresh, b)" rule: book_step.cases) (auto simp: book_ok_def split: if_splits option.splits)

text \<open>Which commands write, and which one asks for a new password: the one that makes the first identity.\<close>

fun edits :: "identity_call \<Rightarrow> bool" where
  "edits (IdNew name no_pq) = True"
| "edits IdList = False"
| "edits (IdShow name) = False"
| "edits (IdUse name) = True"
| "edits (IdDelete name) = True"

fun rekeys :: "identity_call \<Rightarrow> 'i identity_book \<Rightarrow> bool" where
  "rekeys (IdNew name no_pq) b = (dom (ib_entries b) = {})"
| "rekeys c b = False"

section \<open>Commands against steps\<close>

text \<open>The key of a written file: one derived from a password when the command asks for a new one, and else the one the wallet was opened with.\<close>

definition save_key :: "('i, 'e, 'k) wallet_app \<Rightarrow> bool \<Rightarrow> ('i, 'e) wallet \<Rightarrow> bytes \<Rightarrow> bytes \<Rightarrow> bool" where
  "save_key A is_new w key salt \<longleftrightarrow>
    (if is_new then \<exists>pw. derive_key (ap_crypto A) pw salt = Ok key else key = wl_key w \<and> salt = wl_salt w)"

definition saved_file ::
  "('i, 'e, 'k) wallet_app \<Rightarrow> bool \<Rightarrow> ('i, 'e) wallet \<Rightarrow> ('i, 'e) wallet_data \<Rightarrow> node_key \<Rightarrow> 'k os \<Rightarrow> bool" where
  "saved_file A is_new w d k s \<longleftrightarrow> (\<exists>m nonce file key salt. app_encrypt A d key salt nonce = Ok file \<and>
    save_key A is_new w key salt \<and> os_nodes s k = Some (File m file))"

text \<open>What the environment may refuse: loading and saving, the clock, and the key generation.\<close>

fun refused_by_environment :: "ikey_error \<Rightarrow> bool" where
  "refused_by_environment (StorageError e) = True"
| "refused_by_environment ClockError = True"
| "refused_by_environment KeygenFailed = True"
| "refused_by_environment _ = False"

text \<open>A new identity: its keys belong together, its fingerprint is the hash of its public key, and it has an ML-DSA key unless told not to.\<close>

definition fresh_identity :: "('e, 'k) ikey \<Rightarrow> bool \<Rightarrow> 'e basic_identity \<Rightarrow> bool" where
  "fresh_identity ik no_pq i \<longleftrightarrow> length (kp_secret (bi_ed25519 i)) = 32 \<and>
    kp_public (bi_ed25519 i) = ik_ed25519_public ik (kp_secret (bi_ed25519 i)) \<and>
    bi_fingerprint i = ik_hash ik (kp_public (bi_ed25519 i)) \<and> (bi_ml_dsa i = None \<longleftrightarrow> no_pq) \<and> bi_unknown i = []"

text \<open>Any wallet with the book \<open>b\<close> and the rest of \<open>w\<close> can be encrypted under the key of \<open>w\<close>.\<close>

definition storable :: "('i, 'e, 'k) wallet_app \<Rightarrow> ('i, 'e) wallet \<Rightarrow> 'i identity_book \<Rightarrow> bool" where
  "storable A w b \<longleftrightarrow> (\<forall>d nonce. book d = b \<and> wd_secrets d = wd_secrets (wl_data w) \<and> wd_unknown d = wd_unknown (wl_data w) \<longrightarrow>
    is_ok (app_encrypt A d (wl_key w) (wl_salt w) nonce))"

text \<open>
  The outcome of a command on the loaded wallet \<open>w\<close>, as the step of the book says: the error of the step with the file left
  alone; the lines of a reading command with the file left alone; or, for an edit, the lines and a file with the book after the
  step and everything else of the wallet as it was, or a refusal of the environment with the file left alone. On a disk that can be
  written, only \<open>new\<close>, which draws keys and may ask for a password, is ever refused.
\<close>

definition carries_out ::
  "('e, 'k) ikey \<Rightarrow> identity_call \<Rightarrow> 'e basic_identity \<Rightarrow> path \<Rightarrow> ('e basic_identity, 'e) wallet \<Rightarrow> 'k os \<Rightarrow>
   (ikey_error, ikey_line list) result \<Rightarrow> 'k os \<Rightarrow> bool" where
  "carries_out ik c fresh p w s r s' \<longleftrightarrow>
    (case book_step c fresh (book (wl_data w)) of
       Err e \<Rightarrow> r = Err e \<and> os_nodes s' (node_key p) = os_nodes s (node_key p)
     | Ok (out, b) \<Rightarrow>
         if edits c then
           r = Ok out \<and> (\<exists>d. book d = b \<and> wd_secrets d = wd_secrets (wl_data w) \<and> wd_unknown d = wd_unknown (wl_data w) \<and>
             saved_file (ik_app ik) (rekeys c (book (wl_data w))) w d (node_key p) s') \<or>
           (\<exists>e. r = Err e \<and> refused_by_environment e) \<and> os_nodes s' (node_key p) = os_nodes s (node_key p) \<and>
             (writable p s \<and> storable (ik_app ik) w b \<longrightarrow> (\<exists>name no_pq. c = IdNew name no_pq))
         else r = Ok out \<and> os_nodes s' (node_key p) = os_nodes s (node_key p))"

end
