(* ===== verification/Ikey_Laws.thy ===== *)
theory Ikey_Laws
  imports Identity_Book
begin

text \<open>
  Laws of the command line tool: every identity command is an operation on the map of identities that
  is written back as a whole, a created identity is shown again, and what locking clears.
\<close>

section \<open>Loading and saving through the default provider\<close>

lemma ikey_load_effect:
  assumes "ikey_load ik (Some p) s = (r, s')"
  shows "same_disk s s' \<and> (\<forall>w. r = Ok w \<longrightarrow> load (ik_app ik) (Some p) s = (Ok w, s') \<and> wl_path w = p)"
proof -
  let ?A = "ik_app ik"
  let ?p = "default_provider_for (ap_ext ?A) s p (ap_params ?A)"
  obtain r1 p1 s1 where l: "load_with_provider ?A (Some p) (?p, s) = (r1, p1, s1)" by (metis prod_cases3)
  have ld: "load ?A (Some p) s = (r1, s1)" using l by (simp add: load_def resolve_path_def)
  then have "r = map_err StorageError r1" "s' = s1" using assms by (simp_all add: ikey_load_def)
  with ld load_effect [OF l] show ?thesis by (auto simp: result_simps)
qed

lemma saved_file_data [simp]: "saved_file A is_new (w\<lparr>wl_data := x\<rparr>) d k s = saved_file A is_new w d k s"
  by (simp add: saved_file_def save_key_def)

lemma ikey_save_effect:
  assumes "ikey_save ik is_new w s = (r, s')" and "path_file_name (wl_path w) = Some n"
  shows "os_env s' = os_env s \<and> os_fault s' = os_fault s \<and>
    (if r = Ok () then saved_file (ik_app ik) is_new w (wl_data w) (node_key (wl_path w)) s'
     else os_nodes s' (node_key (wl_path w)) = os_nodes s (node_key (wl_path w)))"
proof -
  let ?A = "ik_app ik"
  let ?p = "default_provider_for (ap_ext ?A) s (wl_path w) (ap_params ?A)"
  obtain r1 w1 p1 s1 where sv: "save_with_provider ?A is_new (w, ?p, s) = (r1, w1, p1, s1)" by (metis prod_cases4)
  then have eq: "r = map_err StorageError r1" "s' = s1" using assms(1) by (simp_all add: ikey_save_def save_def)
  note e = save_effect [OF sv assms(2)]
  have "save_key ?A is_new w (wl_key w1) (wl_salt w1)" if "r1 = Ok ()"
    using e(2,3) that by (cases is_new) (auto simp: save_key_def)
  with e(1) eq show ?thesis by (cases r1) (auto simp: saved_file_def result_simps; blast)+
qed

section \<open>Commands as operations on the wallet's data\<close>

lemma in_set_bt_insert: "(k, v) \<in> set (bt_insert k v m)"
  by (induction k v m rule: bt_insert.induct) auto

lemma map_of_bt_remove: "map_of (bt_remove k m) = (map_of m)(k := None)"
  by (simp add: bt_remove_def map_of_filter_key)

lemma sorted_entries_remove: "sorted_entries m \<Longrightarrow> sorted_entries (bt_remove k m)"
  by (induction m) (auto simp: sorted_entries_def bt_remove_def)

text \<open>The edits of the program, seen in the book.\<close>

lemma book_edits:
  assumes "sorted_entries (wd_identities d)"
  shows "book (add_identity name i d) = \<lparr>ib_entries = (ib_entries (book d))(name \<mapsto> i),
      ib_active = (case ib_active (book d) of None \<Rightarrow> Some name | Some a \<Rightarrow> Some a)\<rparr>"
    and "book (use_identity name d) = \<lparr>ib_entries = ib_entries (book d), ib_active = Some name\<rparr>"
    and "book (drop_identity name d) = \<lparr>ib_entries = (ib_entries (book d))(name := None),
      ib_active = (if ib_active (book d) = Some name then None else ib_active (book d))\<rparr>"
  using assms
  by (auto simp: book_def add_identity_def use_identity_def drop_identity_def map_of_bt_insert map_of_bt_remove
      sorted_entries_def split: option.split)

lemma edits_frame [simp]:
  "wd_secrets (add_identity name i d) = wd_secrets d" "wd_unknown (add_identity name i d) = wd_unknown d"
  "wd_secrets (use_identity name d) = wd_secrets d" "wd_unknown (use_identity name d) = wd_unknown d"
  "wd_secrets (drop_identity name d) = wd_secrets d" "wd_unknown (drop_identity name d) = wd_unknown d"
  by (simp_all add: add_identity_def use_identity_def drop_identity_def)

lemma loaded_sorted:
  assumes "load A (Some p) s = (Ok w, t)"
  shows "sorted_entries (wd_identities (wl_data w))"
proof -
  obtain q q' where l: "load_with_provider A (Some p) (q, s) = (Ok w, q', t)"
    using assms by (auto simp: load_def resolve_path_def split: prod.splits)
  from load_effect [OF l] app_decrypt_typed show ?thesis
    by (fastforce simp: wallet_data_new_def sorted_entries_def split: if_splits)
qed

text \<open>The listing of a sorted list is the listing of its map by name.\<close>

lemma listing:
  assumes "sorted_entries (wd_identities d)"
  shows "map (\<lambda>(name, i). ListEntry name (wd_active_identity d = Some name) (fingerprint_b58 i) (bi_ml_dsa i \<noteq> None))
      (sort_key fst (wd_identities d)) = map (listed (book d)) (sorted_list_of_set (dom (ib_entries (book d))))"
proof -
  let ?m = "wd_identities d"
  have m: "sorted (map fst ?m)" "distinct (map fst ?m)" using assms by (simp_all add: sorted_entries_def)
  have "sorted_list_of_set (dom (map_of ?m)) = map fst ?m"
    using m by (simp add: dom_map_of_conv_image_fst sorted_list_of_set.idem_if_sorted_distinct flip: set_map)
  moreover have "listed (book d) name = ListEntry name (wd_active_identity d = Some name) (fingerprint_b58 i) (bi_ml_dsa i \<noteq> None)"
    if "(name, i) \<in> set ?m" for name i
    using m(2) that by (simp add: listed_def fingerprint_b58_def)
  ultimately show ?thesis using m(1) by (auto simp: sort_key_id_if_sorted intro!: map_cong)
qed

lemma new_identity_pq:
  assumes "new_identity ik no_pq s = (Ok i, s')"
  shows "no_pq \<longleftrightarrow> bi_ml_dsa i = None" and "same_disk s s'"
proof -
  obtain sk s1 where f: "fill_bytes 32 s = (sk, s1)" by fastforce
  with assms obtain t ml s2 where i: "pq_keys ik no_pq s1 = (Ok ml, s2)" "s' = s2" "bi_ml_dsa i = ml"
    by (auto simp: new_identity_def result_simps)
  have "no_pq \<longleftrightarrow> ml = None" and d: "same_disk s1 s2"
    using i(1) by (auto simp: pq_keys_def same_disk_def result_simps split: if_splits prod.splits)
  then show "no_pq \<longleftrightarrow> bi_ml_dsa i = None" using i(3) by simp
  show "same_disk s s'" using fill_bytes_disk [OF f] d i(2) same_disk_trans by blast
qed

lemma new_identity_disk: "new_identity ik no_pq s = (r, s') \<Longrightarrow> same_disk s s'"
  using fill_bytes_disk [of 32 s] by (auto simp: new_identity_def pq_keys_def same_disk_def then_io_def fill_bytes_def
      split: if_splits prod.splits result.splits)

text \<open>A command that edits: it loads, checks, edits and saves.\<close>

lemma edit_effect:
  assumes "then_io (ikey_save ik is_new (w\<lparr>wl_data := d\<rparr>) s) (\<lambda>_ s. (Ok out, s)) = (r, s')"
    and "path_file_name p = Some n" and "wl_path w = p"
  shows "r = Ok out \<and> saved_file (ik_app ik) is_new w d (node_key p) s' \<or>
    (\<exists>e. r = Err e \<and> refused_by_environment e) \<and> os_nodes s' (node_key p) = os_nodes s (node_key p)"
proof -
  obtain r1 s1 where sv: "ikey_save ik is_new (w\<lparr>wl_data := d\<rparr>) s = (r1, s1)" by fastforce
  note e = ikey_save_effect [OF sv, of n]
  show ?thesis
  proof (cases r1)
    case (Err x)
    then have "refused_by_environment x" using sv by (auto simp: ikey_save_def result_simps split: prod.splits)
    moreover have "r = Err x" "s' = s1" using assms(1) sv Err by simp_all
    ultimately show ?thesis using assms(2,3) Err e by auto
  next
    case (Ok u)
    with assms sv e show ?thesis by simp
  qed
qed

lemma save_goes_through:
  assumes "path_file_name (wl_path w) = Some n" and "writable (wl_path w) s"
    and "\<And>nonce. is_ok (app_encrypt (ik_app ik) (wl_data w) (wl_key w) (wl_salt w) nonce)"
  shows "fst (ikey_save ik False w s) = Ok ()"
  using write_wallet_goes_through [OF assms(1,2), of "ik_app ik"] assms(3)
  by (auto simp: ikey_save_def save_def save_with_provider_def Let_def)

lemma edit_refines:
  assumes "wl_path w = p" and "same_disk s u" and "path_file_name p = Some n"
    and "book_step c i (book (wl_data w)) = Ok (out, book d)" and "edits c"
    and "wd_secrets d = wd_secrets (wl_data w)" and "wd_unknown d = wd_unknown (wl_data w)"
    and "then_io (ikey_save ik (rekeys c (book (wl_data w))) (w\<lparr>wl_data := d\<rparr>) u) (\<lambda>_ s. (Ok out, s)) = (r, s')"
  shows "carries_out ik c i p w s r s'"
proof -
  have "\<exists>name no_pq. c = IdNew name no_pq" if "r = Err e" "writable p s" "storable (ik_app ik) w (book d)" for e
  proof (rule ccontr)
    assume "\<not> ?thesis"
    then have k: "rekeys c (book (wl_data w)) = False" by (cases c) simp_all
    have "writable p u" using assms(2) that(2) by (simp add: same_disk_def writable_def is_directory_def)
    then have "fst (ikey_save ik False (w\<lparr>wl_data := d\<rparr>) u) = Ok ()"
      using save_goes_through [of "w\<lparr>wl_data := d\<rparr>" n u ik] assms(1,3,6,7) that(3) by (simp add: storable_def)
    with assms(8) k that(1) show False by (cases "ikey_save ik False (w\<lparr>wl_data := d\<rparr>) u") simp
  qed
  with edit_effect [OF assms(8,3,1)] assms(2,4-7) show ?thesis by (auto simp: carries_out_def same_disk_def)
qed

lemma refusal:
  "book_step c i (book (wl_data w)) = Err e \<Longrightarrow> os_nodes s' = os_nodes s \<Longrightarrow> carries_out ik c i p w s (Err e) s'"
  by (simp add: carries_out_def)

lemma new_identity_fresh:
  assumes "new_identity ik no_pq s = (Ok i, s')"
  shows "fresh_identity ik no_pq i"
proof -
  obtain sk s1 where f: "fill_bytes 32 s = (sk, s1)" by fastforce
  with assms show ?thesis
    using new_identity_pq(1) [OF assms] fill_bytes_length [OF f]
    by (auto simp: new_identity_def fresh_identity_def basic_identity_new_def result_simps)
qed

lemma new_identity_refused: "new_identity ik no_pq s = (Err e, s') \<Longrightarrow> refused_by_environment e"
  by (auto simp: new_identity_def pq_keys_def then_io_def ok_or_def split: if_splits prod.splits result.splits option.splits)

lemma new_refines:
  assumes "load (ik_app ik) (Some p) s = (Ok w, t)" and "wl_path w = p" and "same_disk s t"
    and "path_file_name p = Some n" and "identity_new ik name no_pq (Some p) s = (r, s')"
  shows "\<exists>i. carries_out ik (IdNew name no_pq) i p w s r s' \<and> (is_ok r \<longrightarrow> fresh_identity ik no_pq i)"
proof (cases "map_of (wd_identities (wl_data w)) name = None")
  case False
  then have "r = Err (AlreadyExists name)" "s' = t" using assms(1,5) by (auto simp: identity_new_def ikey_load_def)
  with False assms(3) refusal [of "IdNew name no_pq" _ w "AlreadyExists name" s' s] show ?thesis by (simp add: domIff same_disk_def)
next
  case None: True
  obtain ri u where ni: "new_identity ik no_pq t = (ri, u)" by fastforce
  have nu: "same_disk s u" using new_identity_disk [OF ni] assms(3) same_disk_trans by blast
  show ?thesis
  proof (cases ri)
    case (Err e)
    then have "r = Err e" "s' = u" using assms(1,5) ni None by (simp_all add: identity_new_def ikey_load_def)
    with new_identity_refused [of ik no_pq t e u] ni Err nu None show ?thesis
      by (simp add: carries_out_def domIff same_disk_def)
  next
    case (Ok i)
    let ?c = "IdNew name no_pq"
    have step: "book_step ?c i (book (wl_data w)) =
        Ok ([CreatedIdentity name, FingerprintLine (fingerprint_b58 i)], book (add_identity name i (wl_data w)))"
      using None book_edits(1) [OF loaded_sorted [OF assms(1)]] by (simp add: domIff fingerprint_b58_def)
    have "then_io (ikey_save ik (rekeys ?c (book (wl_data w))) (w\<lparr>wl_data := add_identity name i (wl_data w)\<rparr>) u)
        (\<lambda>_ s. (Ok [CreatedIdentity name, FingerprintLine (fingerprint_b58 i)], s)) = (r, s')"
      using assms(1,5) ni Ok None by (simp add: identity_new_def ikey_load_def is_new_wallet_def)
    from edit_refines [OF assms(2) nu assms(4) step _ _ _ this] new_identity_fresh [of ik no_pq t i u] ni Ok show ?thesis by auto
  qed
qed

lemma command_refined:
  assumes "identity_command ik c (Some p) s = (r, s')" and "path_file_name p = Some n"
    and "load (ik_app ik) (Some p) s = (Ok w, t)"
  shows "\<exists>i. carries_out ik c i p w s r s' \<and> (\<forall>name no_pq. c = IdNew name no_pq \<and> is_ok r \<longrightarrow> fresh_identity ik no_pq i)"
proof -
  have ld: "ikey_load ik (Some p) s = (Ok w, t)" using assms(3) by (simp add: ikey_load_def)
  have disk: "same_disk s t" and nodes: "os_nodes t = os_nodes s" and path: "wl_path w = p"
    using ikey_load_effect [OF ld] by (simp_all add: same_disk_def)
  note srt = loaded_sorted [OF assms(3)]
  note edit = edit_refines [OF path disk assms(2)]
  show ?thesis
  proof (cases c)
    case (IdNew name no_pq)
    with new_refines [OF assms(3) path disk assms(2)] assms(1) show ?thesis by auto
  next
    case IdList
    then have "carries_out ik c i p w s r s'" for i
      using assms(1) ld nodes listing [OF srt] by (auto simp: identity_list_def carries_out_def split: if_splits)
    with IdList show ?thesis by simp
  next
    case (IdShow name)
    then have "carries_out ik c i p w s r s'" for i
      using assms(1) ld nodes
      by (cases name) (auto simp: identity_show_def carries_out_def shown_def fingerprint_b58_def split: option.splits)
    with IdShow show ?thesis by simp
  next
    case (IdUse name)
    have "carries_out ik c i p w s r s'" for i
    proof (cases "map_of (wd_identities (wl_data w)) name")
      case None
      with IdUse assms(1) ld nodes show ?thesis by (auto simp: identity_use_def carries_out_def)
    next
      case (Some j)
      have step: "book_step c i (book (wl_data w)) = Ok ([ActiveLine name], book (use_identity name (wl_data w)))"
        using IdUse Some book_edits(2) [OF srt] by (simp add: domIff)
      have "then_io (ikey_save ik (rekeys c (book (wl_data w))) (w\<lparr>wl_data := use_identity name (wl_data w)\<rparr>) t)
          (\<lambda>_ s. (Ok [ActiveLine name], s)) = (r, s')"
        using assms(1) ld IdUse Some by (simp add: identity_use_def)
      from edit [OF step _ _ _ this] IdUse show ?thesis by simp
    qed
    with IdUse show ?thesis by simp
  next
    case (IdDelete name)
    have "carries_out ik c i p w s r s'" for i
    proof (cases "map_of (wd_identities (wl_data w)) name")
      case None
      with IdDelete assms(1) ld nodes show ?thesis by (auto simp: identity_delete_def carries_out_def)
    next
      case (Some j)
      have step: "book_step c i (book (wl_data w)) = Ok ([DeletedIdentity name], book (drop_identity name (wl_data w)))"
        using IdDelete Some book_edits(3) [OF srt] by (simp add: domIff)
      have "then_io (ikey_save ik (rekeys c (book (wl_data w))) (w\<lparr>wl_data := drop_identity name (wl_data w)\<rparr>) t)
          (\<lambda>_ s. (Ok [DeletedIdentity name], s)) = (r, s')"
        using assms(1) ld IdDelete Some by (simp add: identity_delete_def)
      from edit [OF step _ _ _ this] IdDelete show ?thesis by simp
    qed
    with IdDelete show ?thesis by simp
  qed
qed

text \<open>
  C11. Every identity command of \<open>ikey\<close> is one step of an address book, written back as a whole. The book is a map from names to
  identities with an active name, and its steps are stated on maps, without the program's edits. When the
  wallet cannot be loaded, the command fails with that error. Otherwise it prints what the step prints or fails as the step fails: a name that is taken or
  missing, or no active name. An edit that succeeds leaves the encryption of a wallet whose book is the one after the step and
  whose secrets and unknown assertions are as before, under the key and salt the wallet was opened with, or under a key
  derived from a password when the first identity is made. In all other cases the file is as before, and \<open>use\<close> and \<open>delete\<close>
  are carried out whenever the disk can be written. A new identity has
  a fresh key pair with its fingerprint, and the active name stays one of the book's, when it was before.
\<close>

theorem identity_command_refines:
  assumes "identity_command ik c (Some p) s = (r, s')" and "path_file_name p = Some n"
  shows "case load (ik_app ik) (Some p) s of
      (Err e, t) \<Rightarrow> r = Err (StorageError e) \<and> os_nodes s' (node_key p) = os_nodes s (node_key p)
    | (Ok w, t) \<Rightarrow> \<exists>i. carries_out ik c i p w s r s' \<and>
        (\<forall>name no_pq. c = IdNew name no_pq \<and> is_ok r \<longrightarrow> fresh_identity ik no_pq i) \<and>
        (\<forall>out b. book_step c i (book (wl_data w)) = Ok (out, b) \<and> book_ok (book (wl_data w)) \<longrightarrow> book_ok b)"
proof (cases "load (ik_app ik) (Some p) s")
  case (Pair rl t)
  show ?thesis
  proof (cases rl)
    case (Err e)
    then have ld: "ikey_load ik (Some p) s = (Err (StorageError e), t)" using Pair by (simp add: ikey_load_def)
    with assms(1) have "r = Err (StorageError e)" "s' = t"
      by (cases c; simp add: identity_new_def identity_list_def identity_show_def identity_use_def identity_delete_def)+
    with ikey_load_effect [OF ld] Pair Err show ?thesis by (simp add: same_disk_def)
  next
    case (Ok w)
    with Pair command_refined [OF assms, of w t] book_step_ok show ?thesis by (simp; blast)
  qed
qed

section \<open>A created identity is shown\<close>

lemma same_wallet_lookup:
  assumes "same_wallet same_identity d e" and "map_of (wd_identities d) n = Some i"
  shows "\<exists>j. map_of (wd_identities e) n = Some j \<and> same_identity i j"
proof -
  have "list_all2 (\<lambda>(n, i) (m, j). n = m \<and> same_identity i j) (wd_identities d) (wd_identities e)"
    using assms(1) by (simp add: same_wallet_def)
  then show ?thesis using assms(2) by (induction rule: list_all2_induct) (auto split: if_splits)
qed

definition show_lines :: "string \<Rightarrow> 'e basic_identity \<Rightarrow> ikey_line list" where
  "show_lines n i = [NameLine n, FingerprintLine (fingerprint_b58 i), CreatedLine (bi_created_at i),
    Ed25519Line (length (kp_public (bi_ed25519 i))), MlDsaLine (map_option (\<lambda>kp. length (kp_public kp)) (bi_ml_dsa i))]"

lemma same_identity_lines: "same_identity i j \<Longrightarrow> show_lines n j = show_lines n i"
  by (auto simp: same_identity_def show_lines_def fingerprint_b58_def)

text \<open>Without a keychain and with the password in the environment, the password is what opens the file.\<close>

definition by_password :: "('i, 'e, 'k) wallet_app \<Rightarrow> string \<Rightarrow> 'k os \<Rightarrow> bool" where
  "by_password A pw s \<longleftrightarrow> env_value s (wp_env_no_keychain (ap_params A)) \<noteq> None \<and>
    env_value s (wp_env_password (ap_params A)) = Some pw"

lemma by_password_provider:
  "by_password A pw s \<Longrightarrow> default_provider_for X s p (ap_params A) = memory_new"
  by (simp add: by_password_def default_provider_for_def)

lemma by_password_env: "by_password A pw s \<Longrightarrow> os_env s' = os_env s \<Longrightarrow> by_password A pw s'"
  by (simp add: by_password_def env_value_def)

lemma load_key_derived:
  assumes "by_password A pw s" and "load A (Some p) s = (Ok w, t)" and "\<not> is_new_wallet w"
  shows "length (wl_salt w) = 32 \<and> derive_key (ap_crypto A) pw (wl_salt w) = Ok (wl_key w)"
proof -
  obtain p' where l: "load_with_provider A (Some p) (memory_new, s) = (Ok w, p', t)"
    using assms(1,2) by (auto simp: load_def resolve_path_def by_password_provider split: prod.splits)
  have "path_exists s p"
    using load_effect [OF l] assms(3) by (auto simp: is_new_wallet_def wallet_data_new_def split: if_splits)
  from load_existing [OF l this] obtain bs salt ru where u: "extract_salt bs (ap_params A) = Ok salt"
      "unlock_wallet A bs salt (memory_new, s) = (ru, p', t)"
      "Ok w = bind ru (\<lambda>(data, key). Ok \<lparr>wl_data = data, wl_path = p, wl_key = key, wl_salt = salt\<rparr>)"
    by (auto simp: cached_wallet_def memory_new_def)
  then obtain data key where w: "ru = Ok (data, key)" "w = \<lparr>wl_data = data, wl_path = p, wl_key = key, wl_salt = salt\<rparr>"
    by (cases ru) auto
  have "derive_key (ap_crypto A) pw salt = Ok key"
    using u(2) w(1) assms(1)
    by (auto simp: unlock_wallet_def get_password_def by_password_def result_simps then_io_def split: result.splits)
  with extract_salt_length [OF u(1)] w(2) show ?thesis by simp
qed

lemma saved_opens_by_password:
  assumes "by_password (ik_app ik) pw s" and "basic_app (ik_hash ik) (ik_app ik)" and "savable (ik_hash ik) (ik_app ik) (wl_data w)"
    and "path_file_name (wl_path w) = Some n" and "\<not> os_fault s (ReadFile (node_key (wl_path w)))"
    and "\<not> is_new \<longrightarrow> length (wl_salt w) = 32 \<and> derive_key (ap_crypto (ik_app ik)) pw (wl_salt w) = Ok (wl_key w)"
    and "ikey_save ik is_new w s = (Ok (), s')"
  shows "\<exists>v s''. ikey_load ik (Some (wl_path w)) s' = (Ok v, s'') \<and> same_wallet same_identity (wl_data w) (wl_data v)"
proof -
  let ?A = "ik_app ik"
  obtain r1 w1 p1 s1 where sv: "save_with_provider ?A is_new (w, memory_new, s) = (r1, w1, p1, s1)" by (metis prod_cases4)
  then have eq: "r1 = Ok ()" "s' = s1"
    using assms(7) by_password_provider [OF assms(1)] by (auto simp: ikey_save_def save_def result_simps)
  note e = save_effect [OF sv [unfolded eq(1)] assms(4)]
  obtain m nonce bs where f: "length nonce = 24" "app_encrypt ?A (wl_data w) (wl_key w1) (wl_salt w1) nonce = Ok bs"
      "os_nodes s1 (node_key (wl_path w)) = Some (File m bs)" using e(1) by auto
  have key: "derive_key (ap_crypto ?A) pw (wl_salt w1) = Ok (wl_key w1)" "length (wl_salt w1) = 32"
    using e(2,3) assms(1,6)
    by (cases is_new; auto simp: by_password_def get_password_with_confirm_def dest: fill_bytes_length)+
  have bp: "by_password ?A pw s1" using by_password_env [OF assms(1)] e(1) by simp
  obtain v where v: "extract_salt bs (ap_params ?A) = Ok (wl_salt w1)" "app_decrypt ?A bs (wl_key w1) = Ok v"
      "same_wallet same_identity (wl_data w) v"
    using encrypted_opens [OF assms(2,3) key(2) f(1,2)] by blast
  have rf: "\<not> os_fault s1 (ReadFile (node_key (wl_path w)))" using e(1) assms(5) by simp
  have none: "cached_wallet ?A memory_new bs s1 = None" by (simp add: cached_wallet_def memory_new_def)
  have env: "env_value s1 (wp_env_password (ap_params ?A)) = Some pw" using bp by (simp add: by_password_def)
  from load_by_password [OF f(3) rf v(1) none env key(1) v(2)] v(3) eq(2) show ?thesis
    by (simp add: ikey_load_def load_def resolve_path_def by_password_provider [OF bp] case_prod_beta)
qed

text \<open>
  C17. What \<open>identity new\<close> creates, \<open>identity show\<close> shows, in another run of the tool that has only the
  password: the same fingerprint, creation time and key lengths. This holds for a first identity,
  which makes the wallet file and its key, and for one that is added to an existing wallet.
\<close>

theorem new_identity_is_shown:
  assumes "by_password (ik_app ik) pw s" and "basic_app (ik_hash ik) (ik_app ik)"
    and "path_file_name p = Some n" and "\<not> os_fault s (ReadFile (node_key p))"
    and "load (ik_app ik) (Some p) s = (Ok w, t)" and "new_identity ik no_pq t = (Ok i, u)"
    and "savable (ik_hash ik) (ik_app ik) (add_identity name i (wl_data w))"
    and "identity_command ik (IdNew name no_pq) (Some p) s = (Ok out, s')"
  shows "out = [CreatedIdentity name, FingerprintLine (fingerprint_b58 i)] \<and>
    (\<exists>s''. identity_command ik (IdShow (Some name)) (Some p) s' =
      (Ok [NameLine name, FingerprintLine (fingerprint_b58 i), CreatedLine (bi_created_at i),
        Ed25519Line (length (kp_public (bi_ed25519 i))), MlDsaLine (map_option (\<lambda>kp. length (kp_public kp)) (bi_ml_dsa i))], s''))"
proof -
  let ?d = "add_identity name i (wl_data w)" and ?w = "w\<lparr>wl_data := add_identity name i (wl_data w)\<rparr>"
  have ld: "ikey_load ik (Some p) s = (Ok w, t)" using assms(5) by (simp add: ikey_load_def)
  note le = ikey_load_effect [OF ld]
  have du: "same_disk s u" using le new_identity_disk [OF assms(6)] same_disk_trans by blast
  have sv: "ikey_save ik (is_new_wallet w) ?w u = (Ok (), s')" "out = [CreatedIdentity name, FingerprintLine (fingerprint_b58 i)]"
    using assms(6,8) ld by (auto simp: identity_new_def result_simps split: if_splits)
  have bp: "by_password (ik_app ik) pw u" using by_password_env [OF assms(1)] du by (simp add: same_disk_def)
  have old: "\<not> is_new_wallet w \<longrightarrow> length (wl_salt ?w) = 32 \<and> derive_key (ap_crypto (ik_app ik)) pw (wl_salt ?w) = Ok (wl_key ?w)"
    using load_key_derived [OF assms(1,5)] by simp
  obtain v s'' where v: "ikey_load ik (Some p) s' = (Ok v, s'')" "same_wallet same_identity ?d (wl_data v)"
    using saved_opens_by_password [OF bp assms(2) _ _ _ old sv(1)] assms(3,4,7) le du by (auto simp: same_disk_def)
  have "map_of (wd_identities ?d) name = Some i"
  proof -
    have "(name, i) \<in> set (wd_identities ?d)" by (simp add: add_identity_def in_set_bt_insert)
    moreover have "distinct (map fst (wd_identities ?d))"
      using assms(7) by (simp add: savable_def wallet_ok_def sorted_entries_def)
    ultimately show ?thesis by simp
  qed
  from same_wallet_lookup [OF v(2) this] obtain j where j: "map_of (wd_identities (wl_data v)) name = Some j" "same_identity i j"
    by blast
  have "identity_command ik (IdShow (Some name)) (Some p) s' = (Ok (show_lines name j), s'')"
    using v(1) j(1) by (simp add: identity_show_def show_lines_def)
  with same_identity_lines [OF j(2), of name] sv(2) show ?thesis by (simp add: show_lines_def)
qed

section \<open>Locking\<close>

text \<open>
  After \<open>wallet lock\<close> succeeds, \<open>wallet status\<close> reports that no key is cached, unless the key comes from
  an environment variable, which cannot be cleared.
\<close>

lemma locked_wallet_status:
  assumes "wallet_command ik WalletLock (Some p) s = (Ok out, s')"
    and "caching (ap_ext (ik_app ik)) (default_provider_for (ap_ext (ik_app ik)) s p (ap_params (ik_app ik)))"
  shows "\<exists>name. wallet_command ik WalletStatus (Some p) s' =
    (Ok [WalletLine p, ExistsLine (path_exists s p), ProviderLine name, UnlockedLine False], s')"
proof -
  let ?X = "ap_ext (ik_app ik)" and ?P = "ap_params (ik_app ik)"
  let ?p = "default_provider_for ?X s p ?P"
  obtain r p1 s1 where c: "clear_key ?X ?p s = (r, p1, s1)" by (metis prod_cases3)
  have r: "r = Ok ()" "s' = s1" using assms(1) c by (auto simp: wallet_command_def wallet_lock_def result_simps)
  note d = clear_key_disk [OF c]
  have cleared: "get_key ?X p1 s1 = Ok None" using credential.clear_get [OF assms(2)] c r(1) by simp
  have same: "default_provider_for ?X s1 p ?P = ?p"
  proof -
    have env: "env_value s1 v = env_value s v" for v using d by (simp add: same_disk_def env_value_def)
    have acc: "account_name_for_wallet ?X s1 p = account_name_for_wallet ?X s p"
      using d by (simp add: same_disk_def account_name_for_wallet_def)
    have "cx_entry ?X sv ac (os_outside s1) = cx_entry ?X sv ac (os_outside s)" if "cx_target ?X = Linux" for sv ac
    proof (cases ?p)
      case (KeyringProvider service account)
      with assms(2) have ok: "keyring_ok ?X" by simp
      have "os_outside s1 = os_outside s \<or> os_outside s1 = snd (cx_delete_credential ?X service account (os_outside s))"
        using c KeyringProvider by (auto simp: keyring_clear_key_def keyring_entry_def then_io_def guard_def split: prod.splits if_splits)
      with keyring_entries(2) [OF ok] show ?thesis by metis
    next
      case (MacOSKeychainProvider service account)
      with that show ?thesis
        by (auto simp: default_provider_for_def memory_new_def macos_new_def keyring_new_def Let_def split: if_splits)
    qed (use c in simp_all)
    then show ?thesis
      by (cases "cx_target ?X") (simp_all add: default_provider_for_def env acc env_is_available_def macos_new_def keyring_new_def
          keyring_entry_def Let_def)
  qed
  have "get_key ?X ?p s1 = Ok None"
  proof (cases "\<exists>cell. ?p = MemoryProvider cell")
    case True
    then have "?p = memory_new"
      by (auto simp: default_provider_for_def macos_new_def keyring_new_def memory_new_def Let_def split: if_splits target_os.splits)
    then show ?thesis by (simp add: memory_new_def)
  next
    case False
    then have "p1 = ?p" using clear_same_slot [OF c] by (cases ?p) auto
    with cleared show ?thesis by simp
  qed
  moreover have "path_exists s1 p = path_exists s p" using d by (simp add: same_disk_def path_exists_def is_directory_def)
  ultimately show ?thesis using r(2) same by (simp add: wallet_command_def wallet_status_def Let_def)
qed

text \<open>
  C29. On macOS the key that is cached when a wallet is created may survive \<open>wallet lock\<close>. Before its first save the
  file does not exist, so its path cannot be resolved and the entry is named after the path as it was given;
  afterwards the entry is named after the resolved path. When the two differ (a relative path, or a link
  on the way), locking clears the second entry and the key of the wallet stays in the first.
\<close>

theorem lock_leaves_creation_key:
  assumes "cx_target (ap_ext (ik_app ik)) = MacOs"
    and "base64_ok (ap_ext (ik_app ik))" and "keychain_ok (ap_ext (ik_app ik))" and "argon_ok (ap_crypto (ik_app ik))"
    and "\<And>sv ac v k. fst (cx_set_generic (ap_ext (ik_app ik)) sv ac v k) = Ok ()"
    and "env_value s (wp_env_no_keychain (ap_params (ik_app ik))) = None" and "env_value s (wp_env_key (ap_params (ik_app ik))) = None"
    and "path_file_name (wl_path w) = Some n"
    and "save (ik_app ik) True (w, s) = (Ok (), w', s')"
    and "take 8 (wallet_hash (ap_ext (ik_app ik)) s (wl_path w)) \<noteq> take 8 (wallet_hash (ap_ext (ik_app ik)) s' (wl_path w))"
    and "wallet_command ik WalletLock (Some (wl_path w)) s' = (Ok out, s'')"
  shows "get_key (ap_ext (ik_app ik)) (default_provider_for (ap_ext (ik_app ik)) s (wl_path w) (ap_params (ik_app ik))) s'' =
    Ok (Some (wl_key w'))"
proof -
  let ?A = "ik_app ik" and ?p = "wl_path w"
  let ?X = "ap_ext ?A" and ?P = "ap_params ?A"
  have chosen: "default_provider_for ?X t ?p ?P = macos_new ?X t ?p (wp_keychain_service ?P)" if "os_env t = os_env s" for t
    using that assms(1,6,7) by (simp add: default_provider_for_def env_value_def env_is_available_def)
  let ?sv = "wp_keychain_service ?P" and ?ac = "account_name_for_wallet ?X s ?p"
  obtain p1 where sv: "save_with_provider ?A True (w, MacOSKeychainProvider ?sv ?ac, s) = (Ok (), w', p1, s')"
    using assms(9) chosen [of s] by (auto simp: save_def macos_new_def split: prod.splits)
  note e = save_effect [OF sv assms(8)]
  obtain pw s1 s2 sr s3 where k: "derive_key (ap_crypto ?A) pw (wl_salt w') = Ok (wl_key w')"
      "store_key ?X (MacOSKeychainProvider ?sv ?ac) (wl_key w') s2 = (sr, p1, s3)" "os_outside s' = os_outside s3"
    using e(3) by auto
  have "sr = Ok ()"
  proof -
    obtain r o2 where set: "cx_set_generic ?X ?sv ?ac (str_bytes (cx_b64_encode ?X (wl_key w')))
        (snd (cx_delete_generic ?X ?sv ?ac (os_outside s2))) = (r, o2)" by fastforce
    then have "r = Ok ()" using assms(5) by (metis fst_conv)
    with set k(2) show ?thesis by (simp add: macos_store_key_def)
  qed
  then have st: "macos_store_key ?X ?sv ?ac (wl_key w') s2 = (Ok (), s3)" using k(2) by (simp split: prod.splits)
  have "macos_get_key ?X ?sv ?ac s3 = Ok (Some (wl_key w'))"
    by (rule macos_put_get [OF assms(2,3) derive_key_length [OF assms(4) k(1)] st])
  then have got: "macos_get_key ?X ?sv ?ac s' = Ok (Some (wl_key w'))" using k(3) by (simp add: macos_get_key_def)
  let ?ac' = "account_name_for_wallet ?X s' ?p"
  have ne: "(?sv, ?ac') \<noteq> (?sv, ?ac)" using assms(10) account_name_eq_iff [of ?X s ?p s' ?p] by auto
  obtain r4 s4 where cl: "macos_clear_key ?X ?sv ?ac' s' = (r4, s4)" by fastforce
  then have "s'' = s4"
    using assms(11) chosen [of s'] e(1) by (simp add: wallet_command_def wallet_lock_def macos_new_def)
  then have "s'' = snd (macos_clear_key ?X ?sv ?ac' s')" using cl by simp
  then have "macos_get_key ?X ?sv ?ac s'' = Ok (Some (wl_key w'))" using macos_other(2) [OF assms(3) ne] got by simp
  then show ?thesis using chosen [of s] by (simp add: macos_new_def)
qed

section \<open>Instances\<close>

definition toy_ikey :: "target_os \<Rightarrow> (toy_env, toy_service) ikey" where
  "toy_ikey target = \<lparr>ik_app = toy_app target, ik_hash = toy_hash, ik_ed25519_public = (\<lambda>sk. 1 # sk),
    ik_ml_dsa_keygen = (\<lambda>rng. (Some ([1], [2]), rng))\<rparr>"

lemma toy_ikey_simps [simp]: "ik_app (toy_ikey t) = toy_app t" "ik_hash (toy_ikey t) = toy_hash"
  by (simp_all add: toy_ikey_def)

text \<open>The first identity of an empty wallet, and that its wallet can be stored.\<close>

abbreviation pass_os :: "toy_service os" where
  "pass_os \<equiv> toy_os (\<lambda>_. EnvValue ''pass'') (\<lambda>_. None)"

definition first_identity :: "toy_env basic_identity" where
  "first_identity = (basic_identity_new toy_hash 9 (1 # replicate 32 7) (replicate 32 7))\<lparr>bi_ml_dsa := Some \<lparr>kp_public = [1], kp_secret = [2]\<rparr>\<rparr>"

lemma first_identity_new:
  assumes "os_rng t = (\<lambda>_. 7)" and "os_clock t = Some 9"
  shows "\<exists>u. new_identity (toy_ikey target) False t = (Ok first_identity, u)"
  using assms by (simp add: new_identity_def fill_bytes_def pq_keys_def toy_ikey_def first_identity_def map_replicate_const)

lemma first_savable: "savable toy_hash (toy_app target) (add_identity ''me'' first_identity wallet_data_new)"
proof -
  have "identity_ok toy_hash first_identity"
    by (simp add: identity_ok_def first_identity_def basic_identity_new_def toy_hash_def)
  moreover have "identity_digests_ok toy_gordian ''me'' first_identity"
    by (simp add: identity_digests_ok_def identity_assertions_def distinct_assertions_def IDENTITY_PREDICATES_def
        known_digests_def first_identity_def basic_identity_new_def)
  ultimately have "wallet_ok toy_gordian (basic_ok toy_hash toy_gordian ascii_ext) (add_identity ''me'' first_identity wallet_data_new)"
    using toy_gordian_ok ascii_ext_ok
    by (simp add: wallet_ok_def add_identity_def wallet_data_new_def sorted_entries_def store_inv_def store_new_def basic_ok_def)
  moreover have "wallet_digests_ok toy_gordian ascii_ext (identity_to_envelope toy_hash toy_gordian ascii_ext)
      (add_identity ''me'' first_identity wallet_data_new)"
    by (simp add: wallet_digests_ok_def add_identity_def wallet_data_new_def wallet_entries_def active_entries_def
        identity_entry_def secret_entry_def distinct_assertions_def WALLET_PREDICATES_def known_digests_def Let_def store_new_def)
  ultimately show ?thesis by (simp add: savable_def toy_gordian_def split: result.split)
qed

lemma first_new_succeeds:
  obtains w t u s' where "load (toy_app Linux) (Some ''w'') pass_os = (Ok w, t)" "wl_data w = wallet_data_new"
    "new_identity (toy_ikey Linux) False t = (Ok first_identity, u)"
    "identity_command (toy_ikey Linux) (IdNew ''me'' False) (Some ''w'') pass_os =
      (Ok [CreatedIdentity ''me'', FingerprintLine (fingerprint_b58 first_identity)], s')"
proof -
  have no: "\<not> path_exists pass_os ''w''" by (simp add: path_exists_def plain_file_name is_directory_def)
  obtain salt t where f: "fill_bytes 32 pass_os = (salt, t)" by fastforce
  let ?w = "\<lparr>wl_data = wallet_data_new, wl_path = ''w'', wl_key = replicate 32 0, wl_salt = salt\<rparr>
    :: (toy_env basic_identity, toy_env) wallet"
  have ld: "load (toy_app Linux) (Some ''w'') pass_os = (Ok ?w, t)"
    using no f by (simp add: load_def load_with_provider_def resolve_path_def)
  have t: "os_rng t = (\<lambda>_. 7)" "os_clock t = Some 9" using f by (auto simp: fill_bytes_def toy_os_def)
  obtain u where u: "new_identity (toy_ikey Linux) False t = (Ok first_identity, u)" using first_identity_new [OF t] by blast
  have d: "same_disk pass_os u"
    using fill_bytes_disk [OF f] new_identity_disk [OF u] same_disk_trans by blast
  let ?v = "?w\<lparr>wl_data := add_identity ''me'' first_identity wallet_data_new\<rparr>"
  have fu: "os_fault u = (\<lambda>_. False)" "os_nodes u = (\<lambda>_. None)" "env_value u v = Some ''pass''" for v
    using d by (simp_all add: same_disk_def env_value_def)
  let ?p = "default_provider_for (toy_ext Linux) u ''w'' IDENTIKEY_PARAMS"
  obtain w' p' s' where sv: "save_with_provider (toy_app Linux) True (?v, ?p, u) = (Ok (), w', p', s')"
    using plain_save [OF fu(1,2), of ?v Linux True "''pass''" ?p] first_savable fu(3) by auto
  have "ikey_save (toy_ikey Linux) True ?v u = (Ok (), s')" using sv by (simp add: ikey_save_def save_def)
  moreover have "is_new_wallet ?w" by (simp add: is_new_wallet_def wallet_data_new_def)
  ultimately have "identity_command (toy_ikey Linux) (IdNew ''me'' False) (Some ''w'') pass_os =
      (Ok [CreatedIdentity ''me'', FingerprintLine (fingerprint_b58 first_identity)], s')"
    using ld u by (simp add: identity_new_def ikey_load_def) (simp add: wallet_data_new_def)
  from that [OF ld _ u this] show thesis by simp
qed

theorem identity_command_refines_witness:
  "\<exists>out s' w t d. identity_command (toy_ikey Linux) (IdNew ''me'' False) (Some ''w'') pass_os = (Ok out, s') \<and>
    load (toy_app Linux) (Some ''w'') pass_os = (Ok w, t) \<and> saved_file (toy_app Linux) True w d [Normal ''w''] s' \<and>
    ib_active (book d) = Some ''me'' \<and> dom (ib_entries (book d)) = {''me''}"
proof -
  obtain w t u s' where c: "load (toy_app Linux) (Some ''w'') pass_os = (Ok w, t)" "wl_data w = wallet_data_new"
    "identity_command (toy_ikey Linux) (IdNew ''me'' False) (Some ''w'') pass_os =
      (Ok [CreatedIdentity ''me'', FingerprintLine (fingerprint_b58 first_identity)], s')" by (rule first_new_succeeds)
  from identity_command_refines [OF c(3) plain_file_name(2)] c(1) obtain i where
    "carries_out (toy_ikey Linux) (IdNew ''me'' False) i ''w'' w pass_os
      (Ok [CreatedIdentity ''me'', FingerprintLine (fingerprint_b58 first_identity)]) s'" by auto
  then obtain d where "book d = \<lparr>ib_entries = [''me'' \<mapsto> i], ib_active = Some ''me''\<rparr>" "saved_file (toy_app Linux) True w d [Normal ''w''] s'"
    using c(2) by (auto simp: carries_out_def wallet_data_new_def book_def plain_file_name)
  then have "saved_file (toy_app Linux) True w d [Normal ''w''] s'" "ib_active (book d) = Some ''me''" "dom (ib_entries (book d)) = {''me''}"
    by (simp_all only: identity_book.simps dom_fun_upd dom_empty option.simps) simp_all
  with c(1,3) show ?thesis by blast
qed

theorem new_identity_is_shown_witness:
  "\<exists>s' s''. identity_command (toy_ikey Linux) (IdShow (Some ''me'')) (Some ''w'') s' =
    (Ok [NameLine ''me'', FingerprintLine (fingerprint_b58 first_identity), CreatedLine 9, Ed25519Line 33, MlDsaLine (Some 1)], s'')"
proof -
  obtain w t u s' where c: "load (toy_app Linux) (Some ''w'') pass_os = (Ok w, t)" "wl_data w = wallet_data_new"
    "new_identity (toy_ikey Linux) False t = (Ok first_identity, u)"
    "identity_command (toy_ikey Linux) (IdNew ''me'' False) (Some ''w'') pass_os =
      (Ok [CreatedIdentity ''me'', FingerprintLine (fingerprint_b58 first_identity)], s')"
    by (rule first_new_succeeds)
  have "by_password (ik_app (toy_ikey Linux)) ''pass'' pass_os" by (simp add: by_password_def env_value_def)
  from new_identity_is_shown [OF this _ plain_file_name(2) _ _ c(3) _ c(4)] toy_basic_app c(1,2) first_savable
  show ?thesis by (auto simp: first_identity_def basic_identity_new_def)
qed

lemma locked_wallet_status_witness:
  "\<exists>out s' name. wallet_command (toy_ikey Linux) WalletLock (Some ''w'') (toy_os (\<lambda>_. NotPresent) (\<lambda>_. None)) = (Ok out, s') \<and>
    wallet_command (toy_ikey Linux) WalletStatus (Some ''w'') s' =
      (Ok [WalletLine ''w'', ExistsLine False, ProviderLine name, UnlockedLine False], s')"
proof -
  let ?s = "toy_os (\<lambda>_. NotPresent) (\<lambda>_. None)"
  have p: "\<exists>ac. default_provider_for (toy_ext Linux) ?s ''w'' IDENTIKEY_PARAMS = KeyringProvider ''identikey'' ac"
    by (simp add: default_provider_for_def env_value_def env_is_available_def keyring_new_def keyring_entry_def IDENTIKEY_PARAMS_def
        toy_keyring_simps Let_def)
  then obtain ac where ac: "default_provider_for (toy_ext Linux) ?s ''w'' IDENTIKEY_PARAMS = KeyringProvider ''identikey'' ac" by blast
  have "fst (wallet_command (toy_ikey Linux) WalletLock (Some ''w'') ?s) = Ok [WalletLocked ''Secret Service'']"
    using ac by (simp add: wallet_command_def wallet_lock_def keyring_clear_key_def keyring_entry_def keyring_name_def toy_keyring_simps)
  then obtain s' where l: "wallet_command (toy_ikey Linux) WalletLock (Some ''w'') ?s = (Ok [WalletLocked ''Secret Service''], s')"
    by (metis prod.collapse)
  have no: "\<not> path_exists ?s ''w''" by (simp add: path_exists_def plain_file_name is_directory_def)
  have "caching (toy_ext Linux) (default_provider_for (toy_ext Linux) ?s ''w'' IDENTIKEY_PARAMS)"
    using ac toy_base64_ok toy_keyring_ok by simp
  with locked_wallet_status [OF l] l no show ?thesis by simp
qed

theorem lock_leaves_creation_key_witness:
  "\<exists>w' s' out s''. save (toy_app MacOs) True
      (from_parts demo_wallet ''w'' (replicate 32 0) (replicate 32 6),
       toy_os ((\<lambda>_. NotPresent)(''IDENTIKEY_WALLET_PASSWORD'' := EnvValue ''pass'')) (\<lambda>_. None)) = (Ok (), w', s') \<and>
    wallet_command (toy_ikey MacOs) WalletLock (Some ''w'') s' = (Ok out, s'') \<and>
    get_key (toy_ext MacOs) (default_provider_for (toy_ext MacOs)
        (toy_os ((\<lambda>_. NotPresent)(''IDENTIKEY_WALLET_PASSWORD'' := EnvValue ''pass'')) (\<lambda>_. None)) ''w'' IDENTIKEY_PARAMS) s'' =
      Ok (Some (wl_key w'))"
proof -
  let ?s = "toy_os ((\<lambda>_. NotPresent)(''IDENTIKEY_WALLET_PASSWORD'' := EnvValue ''pass'')) (\<lambda>_. None)"
  let ?w = "from_parts demo_wallet ''w'' (replicate 32 0) (replicate 32 6) :: (toy_env basic_identity, toy_env) wallet"
  let ?X = "toy_ext MacOs"
  have env: "env_value ?s ''IDENTIKEY_WALLET_PASSWORD'' = Some ''pass''" "env_value ?s (wp_env_no_keychain IDENTIKEY_PARAMS) = None"
    "env_value ?s (wp_env_key IDENTIKEY_PARAMS) = None" by (simp_all add: env_value_def IDENTIKEY_PARAMS_def)
  have wf: "wl_path ?w = ''w''" "wl_data ?w = demo_wallet" by (simp_all add: from_parts_def)
  have n: "path_file_name (wl_path ?w) = Some ''w''" by (simp add: wf plain_file_name)
  obtain w' p' s' where sp: "save_with_provider (toy_app MacOs) True
      (?w, default_provider_for ?X ?s ''w'' IDENTIKEY_PARAMS, ?s) = (Ok (), w', p', s')"
    using plain_save [of ?s ?w MacOs True "''pass''" "default_provider_for ?X ?s ''w'' IDENTIKEY_PARAMS"] env(1) wf demo_savable by auto
  then have sv: "save (toy_app MacOs) True (?w, ?s) = (Ok (), w', s')" by (simp add: save_def wf)
  obtain m bs where f: "os_nodes s' [Normal ''w''] = Some (File m bs)"
    using save_effect(1) [OF sp n] by (auto simp: wf plain_file_name)
  have h: "take 8 (wallet_hash ?X ?s ''w'') \<noteq> take 8 (wallet_hash ?X s' ''w'')"
    using f by (simp add: wallet_hash_def toy_ext_def plain_file_name str_bytes_def)
  obtain ac where ac: "default_provider_for ?X s' ''w'' IDENTIKEY_PARAMS = MacOSKeychainProvider ''identikey'' ac"
    using save_effect(1) [OF sp n] by (simp add: default_provider_for_def env_value_def env_is_available_def macos_new_def IDENTIKEY_PARAMS_def)
  have "fst (wallet_command (toy_ikey MacOs) WalletLock (Some ''w'') s') = Ok [WalletLocked ''macOS Keychain'']"
    using ac by (simp add: wallet_command_def wallet_lock_def macos_clear_key_def toy_keyring_simps)
  then obtain s'' where lk: "wallet_command (toy_ikey MacOs) WalletLock (Some ''w'') s' = (Ok [WalletLocked ''macOS Keychain''], s'')"
    by (metis prod.collapse)
  have "argon_ok toy_wallet_crypto" by (simp add: argon_ok_def toy_wallet_crypto_def)
  with lock_leaves_creation_key [of "toy_ikey MacOs" ?s ?w "''w''" w' s' "[WalletLocked ''macOS Keychain'']" s'']
    toy_base64_ok toy_keychain_ok env n sv h lk wf
  show ?thesis by (simp add: toy_keyring_simps)
qed

end
