(* ===== verification/Capability.thy ===== *)
theory Capability
  imports Keys
begin

text \<open>
  Capability tokens (\<open>identikey-capability\<close>, \<open>lib.rs\<close>, \<open>bearer.rs\<close>, \<open>error.rs\<close>). Biscuit tokens and their
  Datalog, Blake3, Base64 and hexadecimal are operations of other crates: a record. What this crate
  adds is modelled: the order of its checks, the identity of a token, and the bearer credential.
\<close>

section \<open>Errors and the crates below\<close>

datatype capability_error =
    BiscuitError string
  | KeyError string
  | PublicLen
  | HolderFact
  | BearerError
  | TokenIdentity

text \<open>
  A Datalog source is its text with the values of its parameters, as the macros of the crate take
  it. \<open>bx_query\<close> returns the strings that a query finds and \<open>bx_rule_heads\<close> the names of the heads of all
  rules that the authorizer holds.
\<close>

type_synonym datalog = "string \<times> (string \<times> string) list"

record ('kp, 'priv, 'pk, 'tok, 'az) biscuit_ext =
  bx_hash :: "bytes \<Rightarrow> bytes"
  bx_b64_encode :: "bytes \<Rightarrow> string"
  bx_b64_decode :: "string \<Rightarrow> bytes option"
  bx_hex_decode :: "string \<Rightarrow> (string, bytes) result"
  bx_keypair_new :: "bytes \<Rightarrow> 'kp"
  bx_private :: "bytes \<Rightarrow> (string, 'priv) result"
  bx_keypair_from :: "'priv \<Rightarrow> 'kp"
  bx_public :: "bytes \<Rightarrow> (string, 'pk) result"
  bx_build :: "datalog \<Rightarrow> 'kp \<Rightarrow> (string, 'tok) result"
  bx_to_vec :: "'tok \<Rightarrow> (string, bytes) result"
  bx_from :: "bytes \<Rightarrow> 'pk \<Rightarrow> (string, 'tok) result"
  bx_append :: "'tok \<Rightarrow> datalog \<Rightarrow> (string, 'tok) result"
  bx_token_authorizer :: "'tok \<Rightarrow> (string, 'az) result"
  bx_query :: "'az \<Rightarrow> string \<Rightarrow> (string, string list \<times> 'az) result"
  bx_rule_heads :: "'az \<Rightarrow> string list"
  bx_authorizer :: "datalog \<Rightarrow> 'tok \<Rightarrow> (string, 'az) result"
  bx_authorize :: "'az \<Rightarrow> (string, nat) result"

section \<open>Hashes\<close>

definition EMPTY_BLAKE3 :: bytes where
  "EMPTY_BLAKE3 =
    [0xAF, 0x13, 0x49, 0xB9, 0xF5, 0xF9, 0xA1, 0xA6, 0xA0, 0x40, 0x4D, 0xEA, 0x36, 0xDC, 0xC9, 0x49,
     0x9B, 0xCB, 0x25, 0xC9, 0xAD, 0xC1, 0x12, 0xB7, 0xCC, 0x9A, 0x93, 0xCA, 0xE4, 0x1F, 0x32, 0x62]"

definition blake3_hash :: "('kp, 'priv, 'pk, 'tok, 'az) biscuit_ext \<Rightarrow> bytes \<Rightarrow> bytes" where
  "blake3_hash B data = bx_hash B data"

definition holder_fingerprint ::
  "('kp, 'priv, 'pk, 'tok, 'az) biscuit_ext \<Rightarrow> bytes \<Rightarrow> (capability_error, bytes) result" where
  "holder_fingerprint B ed25519_pub =
    (if length ed25519_pub \<noteq> 32 then Err PublicLen
     else Ok (classical_fingerprint (bx_hash B) \<lparr>cpk_alg = Ed25519, cpk_bytes = ed25519_pub\<rparr>))"

definition token_identity ::
  "('kp, 'priv, 'pk, 'tok, 'az) biscuit_ext \<Rightarrow> bytes \<Rightarrow> bytes \<Rightarrow> (capability_error, bytes) result" where
  "token_identity B domain raw_token =
    (if domain = [] \<or> 0 \<in> set domain \<or> raw_token = [] then Err TokenIdentity
     else Ok (bx_hash B (domain @ [0x00] @ raw_token)))"

definition secret_commit :: "('kp, 'priv, 'pk, 'tok, 'az) biscuit_ext \<Rightarrow> bytes \<Rightarrow> bytes \<Rightarrow> bytes \<Rightarrow> bytes" where
  "secret_commit B domain salt secret = blake3_hash B (domain @ salt @ secret)"

section \<open>Text\<close>

text \<open>
  The white space of \<open>str::trim\<close>, each character as its UTF-8 bytes. Trimming takes such characters
  off both ends.
\<close>

definition WHITE_SPACE :: "bytes list" where
  "WHITE_SPACE = [[0x09], [0x0A], [0x0B], [0x0C], [0x0D], [0x20], [0xC2, 0x85], [0xC2, 0xA0], [0xE1, 0x9A, 0x80]] @
    map (\<lambda>b. [0xE2, 0x80, b]) [0x80, 0x81, 0x82, 0x83, 0x84, 0x85, 0x86, 0x87, 0x88, 0x89, 0x8A, 0xA8, 0xA9, 0xAF] @
    [[0xE2, 0x81, 0x9F], [0xE3, 0x80, 0x80]]"

definition starts_with :: "'a list \<Rightarrow> 'a list \<Rightarrow> bool" where
  "starts_with s p \<longleftrightarrow> take (length p) s = p"

function strip_front :: "bytes list \<Rightarrow> bytes \<Rightarrow> bytes" where
  "strip_front ws bs =
    (case find (\<lambda>w. w \<noteq> [] \<and> starts_with bs w) ws of
       None \<Rightarrow> bs
     | Some w \<Rightarrow> strip_front ws (drop (length w) bs))"
  by pat_completeness auto

termination strip_front
proof (relation "measure (\<lambda>(ws, bs). length bs)", simp)
  fix ws :: "bytes list" and bs w :: bytes
  assume "find (\<lambda>w. w \<noteq> [] \<and> starts_with bs w) ws = Some w"
  then have "w \<noteq> []" "take (length w) bs = w" by (auto simp: find_Some_iff starts_with_def)
  then show "((ws, drop (length w) bs), (ws, bs)) \<in> measure (\<lambda>(ws, bs). length bs)" by (cases bs) auto
qed

declare strip_front.simps [simp del]

definition trim :: "string \<Rightarrow> string" where
  "trim s =
    (let front = strip_front WHITE_SPACE (str_bytes s)
     in map char_of_byte (rev (strip_front (map rev WHITE_SPACE) (rev front))))"

definition strip_prefix :: "string \<Rightarrow> string \<Rightarrow> string option" where
  "strip_prefix p s = (if starts_with s p then Some (drop (length p) s) else None)"

section \<open>Keys and tokens\<close>

text \<open>The random bytes that \<open>KeyPair::new\<close> draws are an argument.\<close>

definition new_keypair :: "('kp, 'priv, 'pk, 'tok, 'az) biscuit_ext \<Rightarrow> bytes \<Rightarrow> 'kp" where
  "new_keypair B drawn = bx_keypair_new B drawn"

definition keypair_from_private_hex ::
  "('kp, 'priv, 'pk, 'tok, 'az) biscuit_ext \<Rightarrow> string \<Rightarrow> (capability_error, 'kp) result" where
  "keypair_from_private_hex B hex_str =
    bind (map_err KeyError (bx_hex_decode B (trim hex_str))) (\<lambda>bs.
    bind (map_err KeyError (bx_private B bs)) (\<lambda>private.
    Ok (bx_keypair_from B private)))"

definition public_from_hex ::
  "('kp, 'priv, 'pk, 'tok, 'az) biscuit_ext \<Rightarrow> string \<Rightarrow> (capability_error, 'pk) result" where
  "public_from_hex B hex_str =
    bind (map_err KeyError (bx_hex_decode B (trim hex_str))) (\<lambda>bs. map_err KeyError (bx_public B bs))"

definition mint_right ::
  "('kp, 'priv, 'pk, 'tok, 'az) biscuit_ext \<Rightarrow> 'kp \<Rightarrow> string \<Rightarrow> string \<Rightarrow> (capability_error, bytes) result" where
  "mint_right B root resource operation =
    bind (map_err BiscuitError (bx_build B
        (''right({resource}, {operation});'', [(''resource'', resource), (''operation'', operation)]) root)) (\<lambda>tok.
    map_err BiscuitError (bx_to_vec B tok))"

definition reject_holder_facts ::
  "('kp, 'priv, 'pk, 'tok, 'az) biscuit_ext \<Rightarrow> 'tok \<Rightarrow> (capability_error, unit) result" where
  "reject_holder_facts B tok =
    bind (map_err BiscuitError (bx_token_authorizer B tok)) (\<lambda>authorizer.
    bind (map_err BiscuitError (bx_query B authorizer ''data($h) <- holder($h)'')) (\<lambda>(hits, authorizer).
    if hits \<noteq> [] then Err HolderFact
    else if list_ex (\<lambda>head. head = ''holder'') (bx_rule_heads B authorizer) then Err HolderFact
    else Ok ()))"

definition parse ::
  "('kp, 'priv, 'pk, 'tok, 'az) biscuit_ext \<Rightarrow> bytes \<Rightarrow> 'pk \<Rightarrow> (capability_error, 'tok) result" where
  "parse B bs root_public =
    bind (map_err BiscuitError (bx_from B bs root_public)) (\<lambda>tok.
    bind (reject_holder_facts B tok) (\<lambda>_.
    Ok tok))"

definition append_holder_check ::
  "('kp, 'priv, 'pk, 'tok, 'az) biscuit_ext \<Rightarrow> 'tok \<Rightarrow> string \<Rightarrow> (capability_error, bytes) result" where
  "append_holder_check B tok fp =
    bind (map_err BiscuitError (bx_append B tok (''check if holder($fp), $fp == {fp};'', [(''fp'', fp)]))) (\<lambda>next.
    map_err BiscuitError (bx_to_vec B next))"

definition verifier_datalog :: "string option \<Rightarrow> string \<Rightarrow> string \<Rightarrow> datalog" where
  "verifier_datalog holder_fp resource operation =
    (case holder_fp of
       Some fp \<Rightarrow> (''holder({fp}); allow if right({resource}, {operation});'',
         [(''fp'', fp), (''resource'', resource), (''operation'', operation)])
     | None \<Rightarrow> (''allow if right({resource}, {operation});'',
         [(''resource'', resource), (''operation'', operation)]))"

definition authorize ::
  "('kp, 'priv, 'pk, 'tok, 'az) biscuit_ext \<Rightarrow> bytes \<Rightarrow> 'pk \<Rightarrow> string option \<Rightarrow> string \<Rightarrow> string \<Rightarrow>
   (capability_error, unit) result" where
  "authorize B bs root_public holder_fp resource operation =
    bind (parse B bs root_public) (\<lambda>tok.
    bind (map_err BiscuitError (bx_authorizer B (verifier_datalog holder_fp resource operation) tok)) (\<lambda>built.
    bind (map_err BiscuitError (bx_authorize B built)) (\<lambda>_.
    Ok ())))"

section \<open>The bearer credential\<close>

definition PREFIX :: string where
  "PREFIX = ''biscuit:''"

definition encode_bearer :: "('kp, 'priv, 'pk, 'tok, 'az) biscuit_ext \<Rightarrow> bytes \<Rightarrow> string" where
  "encode_bearer B token = PREFIX @ bx_b64_encode B token"

definition decode_bearer ::
  "('kp, 'priv, 'pk, 'tok, 'az) biscuit_ext \<Rightarrow> string \<Rightarrow> (capability_error, bytes) result" where
  "decode_bearer B header =
    (let s = trim header;
         s = trim (case strip_prefix ''Bearer '' s of
             Some t \<Rightarrow> t
           | None \<Rightarrow> (case strip_prefix ''bearer '' s of Some t \<Rightarrow> t | None \<Rightarrow> s))
     in bind (ok_or (strip_prefix PREFIX s) BearerError) (\<lambda>b64.
        ok_or (bx_b64_decode B (trim b64)) BearerError))"

end
