(* ===== verification/Capability_Laws.thy ===== *)
theory Capability_Laws
  imports Capability
begin

text \<open>Laws of capability tokens: what a token identity binds, what authorization implies, and the bearer credential.\<close>

section \<open>Hashes\<close>

text \<open>
  C30. The identity of a token binds the profile and every byte of the token: two identities that are
  equal come from the same domain and the same bytes, unless the two inputs that were hashed collide.
\<close>

theorem token_identity_binds:
  assumes "token_identity B d t = Ok x" and "token_identity B d' t' = Ok x"
  shows "(d = d' \<and> t = t') \<or>
    (d @ [0] @ t \<noteq> d' @ [0] @ t' \<and> bx_hash B (d @ [0] @ t) = bx_hash B (d' @ [0] @ t'))"
proof (cases "d @ [0] @ t = d' @ [0] @ t'")
  case True
  have n: "0 \<notin> set d" "0 \<notin> set d'" using assms by (auto simp: token_identity_def split: if_splits)
  have "takeWhile (\<lambda>b. b \<noteq> 0) (x @ [0] @ y) = x" if "0 \<notin> set x" for x y :: bytes using that by (induction x) auto
  from this [OF n(1), of t] this [OF n(2), of t'] True show ?thesis by auto
next
  case False
  moreover have "bx_hash B (d @ [0] @ t) = bx_hash B (d' @ [0] @ t')"
    using assms by (auto simp: token_identity_def split: if_splits)
  ultimately show ?thesis by blast
qed

text \<open>
  The commitment of a secret has no such separator: moving bytes from the domain into the salt, or from the salt into the
  secret, does not change it.
\<close>

lemma secret_commit_shifts:
  "secret_commit B (d @ e) s v = secret_commit B d (e @ s) v" "secret_commit B d (s @ e) v = secret_commit B d s (e @ v)"
  by (simp_all add: secret_commit_def)

section \<open>Authorization\<close>

lemma parse_Ok_iff:
  "parse B bs pk = Ok tok \<longleftrightarrow> bx_from B bs pk = Ok tok \<and>
    (\<exists>az az'. bx_token_authorizer B tok = Ok az \<and> bx_query B az ''data($h) <- holder($h)'' = Ok ([], az') \<and>
      ''holder'' \<notin> set (bx_rule_heads B az'))"
  by (auto simp: parse_def reject_holder_facts_def result_simps list_ex_iff split: if_splits)

text \<open>
  What a successful authorization means: the token verified under the root key, no block of it asserts
  a \<open>holder\<close> fact or has a rule that derives one, and the policy accepted it together with exactly the
  holder that the verifier gave, and with no holder when the verifier gave none.
\<close>

lemma authorized_holder_is_the_verifiers:
  "authorize B bs pk holder_fp resource operation = Ok () \<longleftrightarrow>
    (\<exists>tok az az' built policy. bx_from B bs pk = Ok tok \<and> bx_token_authorizer B tok = Ok az \<and>
      bx_query B az ''data($h) <- holder($h)'' = Ok ([], az') \<and> ''holder'' \<notin> set (bx_rule_heads B az') \<and>
      bx_authorizer B (verifier_datalog holder_fp resource operation) tok = Ok built \<and> bx_authorize B built = Ok policy)"
  by (auto simp: authorize_def parse_Ok_iff result_simps)

section \<open>Trimming\<close>

definition graphic :: "u8 \<Rightarrow> bool" where
  "graphic b \<longleftrightarrow> 0x21 \<le> b \<and> b \<le> 0x7E"

lemma strip_front_graphic:
  assumes "ws = WHITE_SPACE \<or> ws = map rev WHITE_SPACE" and "bs = [] \<or> graphic (hd bs)"
  shows "strip_front ws bs = bs"
proof -
  have "\<forall>w \<in> set ws. w = [] \<or> \<not> starts_with bs w"
  proof (cases bs)
    case Nil
    then show ?thesis by (auto simp: starts_with_def)
  next
    case (Cons b cs)
    with assms(2) have "graphic b" by simp
    then have "b \<notin> {0x09, 0x0A, 0x0B, 0x0C, 0x0D, 0x20, 0x80, 0x81, 0x82, 0x83, 0x84, 0x85, 0x86, 0x87, 0x88, 0x89, 0x8A,
        0x9F, 0xA0, 0xA8, 0xA9, 0xAF, 0xC2, 0xE1, 0xE2, 0xE3}"
      by (auto simp: graphic_def)
    with assms(1) Cons show ?thesis by (auto simp: WHITE_SPACE_def starts_with_def)
  qed
  then have "find (\<lambda>w. w \<noteq> [] \<and> starts_with bs w) ws = None" by (auto simp: find_None_iff)
  then show ?thesis by (subst strip_front.simps) simp
qed

lemma strip_front_spaces:
  assumes "ws = WHITE_SPACE \<or> ws = map rev WHITE_SPACE"
  shows "strip_front ws (replicate n 0x20 @ bs) = strip_front ws bs"
proof (induction n)
  case (Suc n)
  have "find (\<lambda>w. w \<noteq> [] \<and> starts_with (0x20 # replicate n 0x20 @ bs) w) ws = Some [0x20]"
    using assms by (auto simp: WHITE_SPACE_def starts_with_def)
  with Suc show ?case by (subst strip_front.simps) simp
qed simp

text \<open>Text that begins and ends with graphic characters is what trimming leaves when spaces surround it.\<close>

definition tight :: "string \<Rightarrow> bool" where
  "tight s \<longleftrightarrow> s \<noteq> [] \<and> graphic (byte_of_char (hd s)) \<and> graphic (byte_of_char (last s))"

lemma str_bytes_spaces: "str_bytes (replicate n (CHR '' '')) = replicate n 0x20"
  by (simp add: str_bytes_def byte_of_char_def)

lemma str_bytes_append: "str_bytes (s @ t) = str_bytes s @ str_bytes t"
  by (simp add: str_bytes_def)

lemma trim_spaces:
  assumes "tight s"
  shows "trim (replicate m (CHR '' '') @ s @ replicate n (CHR '' '')) = s"
proof -
  have h: "graphic (hd (str_bytes s @ x))" "graphic (hd (rev (str_bytes s) @ y))" for x y
    using assms by (auto simp: tight_def str_bytes_def hd_append hd_map hd_rev last_map)
  have "strip_front WHITE_SPACE (str_bytes (replicate m (CHR '' '') @ s @ replicate n (CHR '' ''))) = str_bytes s @ replicate n 0x20"
    using strip_front_spaces [of WHITE_SPACE m] strip_front_graphic [of WHITE_SPACE] h(1)
    by (simp add: str_bytes_append str_bytes_spaces)
  moreover have "strip_front (map rev WHITE_SPACE) (rev (str_bytes s @ replicate n 0x20)) = rev (str_bytes s)"
    using strip_front_spaces [of "map rev WHITE_SPACE" n] strip_front_graphic [of "map rev WHITE_SPACE" "rev (str_bytes s)"] h(2) [of "[]"]
    by simp
  ultimately show ?thesis by (simp add: trim_def Let_def)
qed

lemma trim_tight: "tight s \<Longrightarrow> trim s = s"
  using trim_spaces [of s 0 0] by simp

section \<open>The bearer round trip\<close>

text \<open>
  A token survives the bearer credential: the header with either spelling of the scheme or with none, with spaces
  around it and between the scheme and the credential, decodes to the bytes of the token. Assumed of Base64 is that it decodes what it
  encodes, and that it encodes into graphic characters.
\<close>

lemma bearer_roundtrip:
  assumes "bx_b64_decode B (bx_b64_encode B token) = Some token"
    and "bx_b64_encode B token \<noteq> []" and "list_all (\<lambda>c. graphic (byte_of_char c)) (bx_b64_encode B token)"
    and "scheme \<in> {[], ''Bearer '', ''bearer ''}"
  shows "decode_bearer B (replicate m (CHR '' '') @ scheme @ replicate k (CHR '' '') @ encode_bearer B token @ replicate n (CHR '' '')) =
    Ok token"
proof -
  let ?e = "bx_b64_encode B token" and ?sp = "\<lambda>n. replicate n (CHR '' '')"
  have ends: "graphic (byte_of_char (hd ?e))" "graphic (byte_of_char (last ?e))"
    using assms(2,3) by (auto simp: list_all_iff)
  have g: "graphic (byte_of_char CHR ''b'')" "graphic (byte_of_char CHR ''B'')" by (simp_all add: graphic_def byte_of_char_def)
  have te: "tight ?e" "tight (PREFIX @ ?e)" "tight (''Bearer '' @ ?sp k @ PREFIX @ ?e)" "tight (''bearer '' @ ?sp k @ PREFIX @ ?e)"
    using ends g assms(2) by (simp_all add: tight_def PREFIX_def)
  have inner: "trim (?sp k @ PREFIX @ ?e) = PREFIX @ ?e" using trim_spaces [OF te(2), of k 0] by simp
  have no: "strip_prefix ''Bearer '' (PREFIX @ ?e) = None" "strip_prefix ''bearer '' (PREFIX @ ?e) = None"
    "strip_prefix PREFIX (PREFIX @ ?e) = Some ?e"
    by (simp_all add: strip_prefix_def starts_with_def PREFIX_def)
  have yes: "strip_prefix ''Bearer '' (''Bearer '' @ t) = Some t" "strip_prefix ''bearer '' (''bearer '' @ t) = Some t"
    "strip_prefix ''Bearer '' (''bearer '' @ t) = None" for t
    by (simp_all add: strip_prefix_def starts_with_def)
  have b64: "ok_or (bx_b64_decode B (trim ?e)) BearerError = Ok token" using trim_tight [OF te(1)] assms(1) by simp
  consider "scheme = []" | "scheme = ''Bearer ''" | "scheme = ''bearer ''" using assms(4) by blast
  then show ?thesis
  proof cases
    case 1
    have "trim (?sp m @ ?sp k @ (PREFIX @ ?e) @ ?sp n) = PREFIX @ ?e"
      using trim_spaces [OF te(2), of "m + k" n] by (simp add: replicate_add)
    with 1 no b64 trim_tight [OF te(2)] show ?thesis by (simp add: decode_bearer_def encode_bearer_def)
  next
    case 2
    with trim_spaces [OF te(3), of m n] yes inner no b64 show ?thesis by (simp add: decode_bearer_def encode_bearer_def)
  next
    case 3
    with trim_spaces [OF te(4), of m n] yes inner no b64 show ?thesis by (simp add: decode_bearer_def encode_bearer_def)
  qed
qed

section \<open>Instances\<close>

text \<open>
  A toy token service: a token is the list of its facts, holder checks and rule heads; the authorizer accepts when
  the right is there and every check finds the injected holder.
\<close>

record toy_token =
  tt_rights :: "(string \<times> string) list"
  tt_holders :: "string list"
  tt_checks :: "string list"
  tt_rules :: "string list"

definition toy_lookup :: "datalog \<Rightarrow> string \<Rightarrow> string" where
  "toy_lookup d v = (case map_of (snd d) v of Some x \<Rightarrow> x | None \<Rightarrow> [])"

definition toy_biscuit :: "(unit, unit, unit, toy_token, toy_token \<times> datalog option) biscuit_ext" where
  "toy_biscuit = \<lparr>bx_hash = (\<lambda>b. b), bx_b64_encode = (\<lambda>b. ''x'' @ concat (map (\<lambda>w. replicate (unat w) CHR ''a'' @ ''b'') b)),
    bx_b64_decode = (\<lambda>s. if s = ''xaabb'' then Some [2, 0] else None), bx_hex_decode = (\<lambda>s. Err s),
    bx_keypair_new = (\<lambda>d. ()), bx_private = (\<lambda>b. Ok ()), bx_keypair_from = (\<lambda>p. ()), bx_public = (\<lambda>b. Ok ()),
    bx_build = (\<lambda>d kp. Ok \<lparr>tt_rights = [(toy_lookup d ''resource'', toy_lookup d ''operation'')],
      tt_holders = [], tt_checks = [], tt_rules = []\<rparr>),
    bx_to_vec = (\<lambda>t. Ok [2, 0]), bx_from = (\<lambda>b pk. Ok \<lparr>tt_rights = [(''example'', ''read'')],
      tt_holders = [], tt_checks = [''FP''], tt_rules = []\<rparr>),
    bx_append = (\<lambda>t d. Ok (t\<lparr>tt_checks := toy_lookup d ''fp'' # tt_checks t\<rparr>)),
    bx_token_authorizer = (\<lambda>t. Ok (t, None)), bx_query = (\<lambda>a q. Ok (tt_holders (fst a), a)),
    bx_rule_heads = (\<lambda>a. tt_rules (fst a)), bx_authorizer = (\<lambda>d t. Ok (t, Some d)),
    bx_authorize = (\<lambda>(t, d). case d of None \<Rightarrow> Err ''policy'' | Some d \<Rightarrow>
      if (toy_lookup d ''resource'', toy_lookup d ''operation'') \<in> set (tt_rights t) \<and>
        (\<forall>c \<in> set (tt_checks t). map_of (snd d) ''fp'' = Some c) then Ok 0 else Err ''checks'')\<rparr>"

theorem token_identity_binds_witness:
  "token_identity toy_biscuit [97] [1, 2] = Ok [97, 0, 1, 2] \<and>
    (([97] = [97 :: u8] \<and> [1, 2] = [1, 2 :: u8]) \<or> ([97] @ [0] @ [1, 2] \<noteq> [97 :: u8] @ [0] @ [1, 2] \<and> bx_hash toy_biscuit ([97] @ [0] @ [1, 2]) = bx_hash toy_biscuit ([97] @ [0] @ [1, 2])))"
proof -
  have t: "token_identity toy_biscuit [97] [1, 2] = Ok [97, 0, 1, 2]" by (simp add: token_identity_def toy_biscuit_def)
  from token_identity_binds [OF t t] t show ?thesis by simp
qed

lemma bearer_roundtrip_witness: "decode_bearer toy_biscuit ''  bearer  biscuit:xaabb '' = Ok [2, 0]"
proof -
  have "replicate 2 CHR ''a'' = ''aa''" by (simp add: numeral_2_eq_2)
  then have e: "bx_b64_encode toy_biscuit [2, 0] = ''xaabb''" by (simp add: toy_biscuit_def)
  have d: "bx_b64_decode toy_biscuit ''xaabb'' = Some [2, 0]" by (simp add: toy_biscuit_def)
  have g: "list_all (\<lambda>c. graphic (byte_of_char c)) ''xaabb''" by (simp add: graphic_def byte_of_char_def)
  from bearer_roundtrip [where m = 2 and scheme = "''bearer ''" and k = 1 and n = 1 and token = "[2, 0]" and B = toy_biscuit] e d g
  show ?thesis by (simp add: encode_bearer_def PREFIX_def numeral_2_eq_2)
qed

text \<open>The holder check fails closed: accepted with the holder that the token asks for, refused without.\<close>

lemma toy_holder_check:
  "authorize toy_biscuit [2, 0] () (Some ''FP'') ''example'' ''read'' = Ok ()"
  "\<not> is_ok (authorize toy_biscuit [2, 0] () None ''example'' ''read'')"
  by (simp_all add: authorize_def parse_def reject_holder_facts_def toy_biscuit_def verifier_datalog_def toy_lookup_def)

end
