(* ===== verification/Enclave.thy ===== *)
theory Enclave
  imports Signer Os
begin

text \<open>
  The hardware signers of \<open>identikey-auth\<close> (\<open>enclave/linux.rs\<close>, \<open>enclave/windows.rs\<close>, \<open>enclave/macos.rs\<close>): which
  platform calls they make, in which order, how they report failures, and how they bring keys and signatures into the
  protocol's form. The platforms (TPM, CNG, Secure Enclave) are records of operations over their state.
\<close>

section \<open>What the backends share\<close>

text \<open>
  \<open>en_compress\<close> is \<open>p256::PublicKey::from_sec1_bytes\<close> followed by \<open>to_encoded_point(true)\<close>; \<open>en_from_der\<close> is
  \<open>Signature::from_der\<close> followed by \<open>to_bytes\<close>.
\<close>

record enclave_crypto =
  en_sha256 :: "bytes \<Rightarrow> bytes"
  en_compress :: "bytes \<Rightarrow> bytes option"
  en_from_der :: "bytes \<Rightarrow> bytes option"

definition backend :: "string \<Rightarrow> (string, 'a) result \<Rightarrow> (auth_error, 'a) result" where
  "backend prefix r = map_err (\<lambda>e. Backend (prefix @ e)) r"

text \<open>A call that changes the platform's state, as a call on the world.\<close>

definition on_outside :: "('t \<Rightarrow> 'r \<times> 't) \<Rightarrow> 't os \<Rightarrow> 'r \<times> 't os" where
  "on_outside f s = (let (r, outside') = f (os_outside s) in (r, s\<lparr>os_outside := outside'\<rparr>))"

definition compressed_p256 :: "enclave_crypto \<Rightarrow> bytes \<Rightarrow> (auth_error, classical_public_key) result" where
  "compressed_p256 K sec1 =
    bind (ok_or (en_compress K sec1) (Backend ''invalid EC public point'')) (\<lambda>point.
    Ok \<lparr>cpk_alg = P256, cpk_bytes = point\<rparr>)"

section \<open>Linux: TPM 2.0\<close>

definition DEFAULT_TCTI :: string where
  "DEFAULT_TCTI = ''device:/dev/tpmrm0''"

definition COORD_LEN :: nat where
  "COORD_LEN = 32"

datatype tpm_mode = Ephemeral | Persistent u32

datatype tpm_hierarchy = NullHierarchy | OwnerHierarchy

datatype tpm_public = PublicEcc bytes bytes | PublicOther

datatype tpm_signature = EcDsa bytes bytes | SignatureOther

record tpm_template =
  tt_fixed_tpm :: bool
  tt_fixed_parent :: bool
  tt_sensitive_data_origin :: bool
  tt_user_with_auth :: bool
  tt_sign_encrypt :: bool
  tt_decrypt :: bool
  tt_restricted :: bool
  tt_scheme :: string
  tt_curve :: string
  tt_name_hash :: string

record ('t, 'h) tpm_ext =
  tp_conf :: "string \<Rightarrow> (string, unit) result"
  tp_context :: "string \<Rightarrow> 't \<Rightarrow> (string, unit) result"
  tp_session :: "'t \<Rightarrow> (string, unit) result"
  tp_build :: "tpm_template \<Rightarrow> (string, unit) result"
  tp_create_primary :: "tpm_hierarchy \<Rightarrow> tpm_template \<Rightarrow> 't \<Rightarrow> (string, tpm_public \<times> 'h) result \<times> 't"
  tp_flush :: "'h \<Rightarrow> 't \<Rightarrow> (string, unit) result \<times> 't"
  tp_persistent :: "u32 \<Rightarrow> (string, unit) result"
  tp_from_public :: "u32 \<Rightarrow> 't \<Rightarrow> (string, 'h) result"
  tp_read_public :: "'h \<Rightarrow> 't \<Rightarrow> (string, tpm_public) result"
  tp_evict :: "'h \<Rightarrow> u32 \<Rightarrow> 't \<Rightarrow> (string, unit) result \<times> 't"
  tp_ticket :: "(string, unit) result"
  tp_sign :: "'h \<Rightarrow> bytes \<Rightarrow> 't \<Rightarrow> (string, tpm_signature) result"

record tpm_signer =
  ts_tcti :: string
  ts_mode :: tpm_mode
  ts_public_key :: classical_public_key

definition resolve_tcti :: "'t os \<Rightarrow> string" where
  "resolve_tcti s =
    (case env_value s ''TPM2TOOLS_TCTI'' of
       Some v \<Rightarrow> v
     | None \<Rightarrow> (case env_value s ''TCTI'' of Some v \<Rightarrow> v | None \<Rightarrow> DEFAULT_TCTI))"

definition open_context :: "('t, 'h) tpm_ext \<Rightarrow> string \<Rightarrow> 't os \<Rightarrow> (auth_error, unit) result" where
  "open_context T tcti s =
    bind (backend (''tcti '' @ [CHR 0x27] @ tcti @ [CHR 0x27] @ '': '') (tp_conf T tcti)) (\<lambda>_.
    backend ''tpm: '' (tp_context T tcti (os_outside s)))"

definition p256_signing_template :: "('t, 'h) tpm_ext \<Rightarrow> (string, tpm_template) result" where
  "p256_signing_template T =
    (let template = \<lparr>tt_fixed_tpm = True, tt_fixed_parent = True, tt_sensitive_data_origin = True, tt_user_with_auth = True,
        tt_sign_encrypt = True, tt_decrypt = False, tt_restricted = False,
        tt_scheme = ''ecdsa-sha256'', tt_curve = ''nist-p256'', tt_name_hash = ''sha256''\<rparr>
     in bind (tp_build T template) (\<lambda>_. Ok template))"

definition create_primary ::
  "('t, 'h) tpm_ext \<Rightarrow> tpm_hierarchy \<Rightarrow> 't os \<Rightarrow> (string, tpm_public \<times> 'h) result \<times> 't os" where
  "create_primary T hierarchy s =
    then_io (p256_signing_template T, s) (\<lambda>template. on_outside (tp_create_primary T hierarchy template))"

text \<open>\<open>execute_with_nullauth_session\<close>: a session is opened and the closure runs in it.\<close>

definition with_session ::
  "('t, 'h) tpm_ext \<Rightarrow> ('t os \<Rightarrow> (string, 'a) result \<times> 't os) \<Rightarrow> 't os \<Rightarrow> (auth_error, 'a) result \<times> 't os" where
  "with_session T f s =
    map_prod (backend ''tpm: '') id (then_io (tp_session T (os_outside s), s) (\<lambda>_. f))"

definition left_pad32 :: "bytes \<Rightarrow> bytes" where
  "left_pad32 src =
    (let n = min (length src) COORD_LEN in replicate (COORD_LEN - n) 0 @ drop (length src - n) src)"

definition pubkey_from_public :: "enclave_crypto \<Rightarrow> tpm_public \<Rightarrow> (auth_error, classical_public_key) result" where
  "pubkey_from_public K public =
    (case public of
       PublicEcc x y \<Rightarrow> compressed_p256 K ([0x04] @ left_pad32 x @ left_pad32 y)
     | PublicOther \<Rightarrow> Err (Backend ''TPM key is not ECC''))"

definition raw_rs_from_sig :: "tpm_signature \<Rightarrow> (auth_error, bytes) result" where
  "raw_rs_from_sig sig =
    (case sig of
       EcDsa r s \<Rightarrow> Ok (left_pad32 r @ left_pad32 s)
     | SignatureOther \<Rightarrow> Err (Backend ''TPM signature is not ECDSA''))"

definition tpm_create_ephemeral ::
  "('t, 'h) tpm_ext \<Rightarrow> enclave_crypto \<Rightarrow> 't os \<Rightarrow> (auth_error, tpm_signer) result \<times> 't os" where
  "tpm_create_ephemeral T K s =
    (let tcti = resolve_tcti s
     in then_io (open_context T tcti s, s) (\<lambda>_ s.
        then_io (with_session T (\<lambda>s.
            then_io (create_primary T NullHierarchy s) (\<lambda>(publ, handle) s.
            then_io (on_outside (tp_flush T handle) s) (\<lambda>_ s. (Ok publ, s)))) s) (\<lambda>public s.
        (bind (pubkey_from_public K public) (\<lambda>pk. Ok \<lparr>ts_tcti = tcti, ts_mode = Ephemeral, ts_public_key = pk\<rparr>), s))))"

definition tpm_load_or_create ::
  "('t, 'h) tpm_ext \<Rightarrow> enclave_crypto \<Rightarrow> u32 \<Rightarrow> 't os \<Rightarrow> (auth_error, tpm_signer) result \<times> 't os" where
  "tpm_load_or_create T K persistent_handle s =
    (let tcti = resolve_tcti s
     in then_io (open_context T tcti s, s) (\<lambda>_ s.
        then_io (with_session T (\<lambda>s.
            then_io (tp_persistent T persistent_handle, s) (\<lambda>_ s.
            case tp_from_public T persistent_handle (os_outside s) of
              Ok handle \<Rightarrow> (tp_read_public T handle (os_outside s), s)
            | Err _ \<Rightarrow>
                then_io (create_primary T OwnerHierarchy s) (\<lambda>(publ, handle) s.
                then_io (on_outside (tp_evict T handle persistent_handle) s) (\<lambda>_ s.
                then_io (on_outside (tp_flush T handle) s) (\<lambda>_ s. (Ok publ, s)))))) s) (\<lambda>public s.
        (bind (pubkey_from_public K public) (\<lambda>pk.
           Ok \<lparr>ts_tcti = tcti, ts_mode = Persistent persistent_handle, ts_public_key = pk\<rparr>), s))))"

definition tpm_signing_key ::
  "('t, 'h) tpm_ext \<Rightarrow> tpm_mode \<Rightarrow> 't os \<Rightarrow> (string, 'h \<times> bool) result \<times> 't os" where
  "tpm_signing_key T mode s =
    (case mode of
       Ephemeral \<Rightarrow> then_io (create_primary T NullHierarchy s) (\<lambda>(publ, handle) s. (Ok (handle, True), s))
     | Persistent h \<Rightarrow>
         then_io (tp_persistent T h, s) (\<lambda>_ s.
         then_io (tp_from_public T h (os_outside s), s) (\<lambda>handle s. (Ok (handle, False), s))))"

definition tpm_sign_classical ::
  "('t, 'h) tpm_ext \<Rightarrow> enclave_crypto \<Rightarrow> tpm_signer \<Rightarrow> bytes \<Rightarrow> 't os \<Rightarrow> (auth_error, classical_signature) result \<times> 't os" where
  "tpm_sign_classical T K sg payload s =
    (let digest = en_sha256 K payload
     in then_io (open_context T (ts_tcti sg) s, s) (\<lambda>_ s.
        then_io (with_session T (\<lambda>s.
            then_io (tpm_signing_key T (ts_mode sg) s) (\<lambda>(key, transient) s.
            then_io (tp_ticket T, s) (\<lambda>_ s.
            then_io (tp_sign T key digest (os_outside s), s) (\<lambda>sig s.
            then_io (if transient then on_outside (tp_flush T key) s else (Ok (), s)) (\<lambda>_ s. (Ok sig, s)))))) s) (\<lambda>sig s.
        (bind (raw_rs_from_sig sig) (\<lambda>raw. Ok \<lparr>csig_alg = P256, csig_bytes = raw\<rparr>), s))))"

section \<open>Windows: CNG\<close>

text \<open>
  The calls of the Platform Crypto Provider, each with its error text. An export and a signature are called twice, first
  for the size of the buffer and then to fill it; the second call says how many bytes it wrote.
  \<open>NTE_BAD_KEYSET\<close> is \<open>None\<close>.
\<close>

record ('t, 'p, 'h) cng_ext =
  nc_open_provider :: "'t \<Rightarrow> (string, 'p) result"
  nc_create :: "'p \<Rightarrow> 16 word list option \<Rightarrow> 't \<Rightarrow> (string, 'h) result \<times> 't"
  nc_set_ui_policy :: "'h \<Rightarrow> 16 word list \<times> 16 word list \<times> 16 word list \<Rightarrow> 't \<Rightarrow> (string, unit) result \<times> 't"
  nc_finalize :: "'h \<Rightarrow> 't \<Rightarrow> (string, unit) result \<times> 't"
  nc_open_key :: "'p \<Rightarrow> 16 word list \<Rightarrow> 't \<Rightarrow> (string option, 'h) result"
  nc_export_size :: "'h \<Rightarrow> 't \<Rightarrow> (string, u32) result"
  nc_export :: "'h \<Rightarrow> u32 \<Rightarrow> 't \<Rightarrow> (string, bytes \<times> u32) result"
  nc_sign_size :: "'h \<Rightarrow> bytes \<Rightarrow> 't \<Rightarrow> (string, u32) result"
  nc_sign :: "'h \<Rightarrow> bytes \<Rightarrow> u32 \<Rightarrow> 't \<Rightarrow> (string, bytes \<times> u32) result"
  nc_free_provider :: "'p \<Rightarrow> 't \<Rightarrow> 't"
  nc_free_key :: "'h \<Rightarrow> 't \<Rightarrow> 't"

record ('p, 'h) cng_signer =
  cs_prov :: 'p
  cs_key :: 'h
  cs_public_key :: classical_public_key

text \<open>\<open>encode_utf16\<close> of well-formed UTF-8, with the terminating zero.\<close>

fun code_points :: "bytes \<Rightarrow> nat list" where
  "code_points [] = []"
| "code_points (b0 # bs) =
    (if b0 < 0x80 then unat b0 # code_points bs
     else case bs of
       b1 # r1 \<Rightarrow>
         if b0 < 0xE0 then ((unat b0 - 0xC0) * 64 + (unat b1 - 0x80)) # code_points r1
         else (case r1 of
           b2 # r2 \<Rightarrow>
             if b0 < 0xF0 then ((unat b0 - 0xE0) * 4096 + (unat b1 - 0x80) * 64 + (unat b2 - 0x80)) # code_points r2
             else (case r2 of
               b3 # r3 \<Rightarrow> ((unat b0 - 0xF0) * 262144 + (unat b1 - 0x80) * 4096 + (unat b2 - 0x80) * 64 + (unat b3 - 0x80)) # code_points r3
             | [] \<Rightarrow> [])
         | [] \<Rightarrow> [])
     | [] \<Rightarrow> [])"

definition utf16_units :: "nat \<Rightarrow> 16 word list" where
  "utf16_units c =
    (if c < 0x10000 then [word_of_nat c]
     else [word_of_nat (0xD800 + (c - 0x10000) div 1024), word_of_nat (0xDC00 + (c - 0x10000) mod 1024)])"

definition wide :: "string \<Rightarrow> 16 word list" where
  "wide s = concat (map utf16_units (code_points (str_bytes s))) @ [0]"

definition open_pcp :: "('t, 'p, 'h) cng_ext \<Rightarrow> 't \<Rightarrow> (auth_error, 'p) result" where
  "open_pcp N t = backend ''open Platform Crypto Provider: '' (nc_open_provider N t)"

definition set_ui_policy :: "('t, 'p, 'h) cng_ext \<Rightarrow> 'h \<Rightarrow> 't \<Rightarrow> (auth_error, unit) result \<times> 't" where
  "set_ui_policy N key t =
    map_prod (backend ''set UI policy: '') id
      (nc_set_ui_policy N key (wide ''IdentiKey'', wide ''IdentiKey device key'', wide ''Confirm sign-in'') t)"

definition create_key :: "('t, 'p, 'h) cng_ext \<Rightarrow> 'p \<Rightarrow> string option \<Rightarrow> bool \<Rightarrow> 't \<Rightarrow> (auth_error, 'h) result \<times> 't" where
  "create_key N prov name require_user_presence t =
    then_io (map_prod (backend ''create TPM key: '') id (nc_create N prov (map_option wide name) t)) (\<lambda>key t.
    then_io (if require_user_presence then set_ui_policy N key t else (Ok (), t)) (\<lambda>_ t.
    then_io (map_prod (backend ''finalize TPM key: '') id (nc_finalize N key t)) (\<lambda>_ t.
    (Ok key, t))))"

definition cng_open_key :: "('t, 'p, 'h) cng_ext \<Rightarrow> 'p \<Rightarrow> string \<Rightarrow> 't \<Rightarrow> (auth_error, 'h option) result" where
  "cng_open_key N prov name t =
    (case nc_open_key N prov (wide name) t of
       Ok key \<Rightarrow> Ok (Some key)
     | Err None \<Rightarrow> Ok None
     | Err (Some e) \<Rightarrow> Err (Backend (''open TPM key: '' @ e)))"

definition from_le_bytes :: "bytes \<Rightarrow> nat" where
  "from_le_bytes bs = be_to_nat (rev bs)"

text \<open>The blob: magic and key length, four bytes each and little-endian, then X and Y.\<close>

definition point_of_blob :: "bytes \<Rightarrow> (auth_error, bytes) result" where
  "point_of_blob blob =
    (if length blob < 8 then Err (Backend ''ECC blob too short'')
     else
       let cb_key = from_le_bytes (take 4 (drop 4 blob))
       in if cb_key \<noteq> 32 \<or> length blob < 8 + 2 * cb_key then Err (Backend ''unexpected ECC blob layout'')
          else Ok ([0x04] @ take cb_key (drop 8 blob) @ take cb_key (drop (8 + cb_key) blob)))"

definition export_pub :: "('t, 'p, 'h) cng_ext \<Rightarrow> enclave_crypto \<Rightarrow> 'h \<Rightarrow> 't \<Rightarrow> (auth_error, classical_public_key) result" where
  "export_pub N K key t =
    bind (backend ''export size: '' (nc_export_size N key t)) (\<lambda>needed.
    bind (backend ''export key: '' (nc_export N key needed t)) (\<lambda>(blob, written).
    bind (point_of_blob (take (unat written) blob)) (compressed_p256 K)))"

definition sign_digest :: "('t, 'p, 'h) cng_ext \<Rightarrow> 'h \<Rightarrow> bytes \<Rightarrow> 't \<Rightarrow> (auth_error, bytes) result" where
  "sign_digest N key digest t =
    bind (backend ''sign size: '' (nc_sign_size N key digest t)) (\<lambda>needed.
    bind (backend ''sign: '' (nc_sign N key digest needed t)) (\<lambda>(sig, written).
    Ok (take (unat written) sig)))"

definition cng_finish ::
  "('t, 'p, 'h) cng_ext \<Rightarrow> enclave_crypto \<Rightarrow> 'p \<Rightarrow> 'h \<Rightarrow> 't \<Rightarrow> (auth_error, ('p, 'h) cng_signer) result" where
  "cng_finish N K prov key t =
    bind (export_pub N K key t) (\<lambda>pk. Ok \<lparr>cs_prov = prov, cs_key = key, cs_public_key = pk\<rparr>)"

definition cng_create_ephemeral ::
  "('t, 'p, 'h) cng_ext \<Rightarrow> enclave_crypto \<Rightarrow> 't \<Rightarrow> (auth_error, ('p, 'h) cng_signer) result \<times> 't" where
  "cng_create_ephemeral N K t =
    then_io (open_pcp N t, t) (\<lambda>prov t.
    then_io (create_key N prov None False t) (\<lambda>key t.
    (cng_finish N K prov key t, t)))"

definition cng_load_or_create ::
  "('t, 'p, 'h) cng_ext \<Rightarrow> enclave_crypto \<Rightarrow> string \<Rightarrow> bool \<Rightarrow> 't \<Rightarrow> (auth_error, ('p, 'h) cng_signer) result \<times> 't" where
  "cng_load_or_create N K name require_user_presence t =
    then_io (open_pcp N t, t) (\<lambda>prov t.
    then_io (cng_open_key N prov name t, t) (\<lambda>found t.
    then_io (case found of Some k \<Rightarrow> (Ok k, t) | None \<Rightarrow> create_key N prov (Some name) require_user_presence t) (\<lambda>key t.
    (cng_finish N K prov key t, t))))"

definition cng_exists :: "('t, 'p, 'h) cng_ext \<Rightarrow> string \<Rightarrow> 't \<Rightarrow> (auth_error, bool) result \<times> 't" where
  "cng_exists N name t =
    then_io (open_pcp N t, t) (\<lambda>prov t.
    then_io (cng_open_key N prov name t, t) (\<lambda>found t.
    (Ok (found \<noteq> None), nc_free_provider N prov t)))"

definition cng_drop :: "('t, 'p, 'h) cng_ext \<Rightarrow> ('p, 'h) cng_signer \<Rightarrow> 't \<Rightarrow> 't" where
  "cng_drop N sg t = nc_free_provider N (cs_prov sg) (nc_free_key N (cs_key sg) t)"

definition cng_sign_classical ::
  "('t, 'p, 'h) cng_ext \<Rightarrow> enclave_crypto \<Rightarrow> ('p, 'h) cng_signer \<Rightarrow> bytes \<Rightarrow> 't \<Rightarrow> (auth_error, classical_signature) result" where
  "cng_sign_classical N K sg payload t =
    bind (sign_digest N (cs_key sg) (en_sha256 K payload) t) (\<lambda>raw.
    Ok \<lparr>csig_alg = P256, csig_bytes = raw\<rparr>)"

section \<open>macOS: Secure Enclave\<close>

text \<open>
  Keys are references of the Security framework. \<open>mc_generate\<close> makes a key with a label, persistent or not;
  \<open>mc_search\<close> looks for private keys with a label, and any failure of it is \<open>Err\<close>. \<open>mc_encrypt\<close> and \<open>mc_decrypt\<close> are
  ECIES under the key.
\<close>

datatype ('k, 'o) search_result = KeyRef 'k | OtherResult 'o

record ('m, 'k, 'pub) mac_ext =
  mc_access_control :: "(string, unit) result"
  mc_generate :: "string \<Rightarrow> bool \<Rightarrow> 'm \<Rightarrow> (string, 'k) result \<times> 'm"
  mc_search :: "string \<Rightarrow> 'm \<Rightarrow> (int, ('k, unit) search_result list) result"
  mc_public_key :: "'k \<Rightarrow> 'pub option"
  mc_external :: "'pub \<Rightarrow> bytes option"
  mc_create_signature :: "'k \<Rightarrow> bytes \<Rightarrow> 'm \<Rightarrow> (string, bytes) result"
  mc_encrypt :: "'pub \<Rightarrow> bytes \<Rightarrow> (string, bytes) result"
  mc_decrypt :: "'k \<Rightarrow> bytes \<Rightarrow> 'm \<Rightarrow> (string, bytes) result"

record 'k se_signer =
  se_key :: 'k
  se_public_key :: classical_public_key

definition generate_sep_key ::
  "('m, 'k, 'pub) mac_ext \<Rightarrow> string \<Rightarrow> bool \<Rightarrow> 'm os \<Rightarrow> (auth_error, 'k) result \<times> 'm os" where
  "generate_sep_key M label persist s =
    then_io (backend ''access control: '' (mc_access_control M), s) (\<lambda>_ s.
    map_prod (backend ''Secure Enclave keygen: '') id (on_outside (mc_generate M label persist) s))"

primrec first_key :: "('k, 'o) search_result list \<Rightarrow> 'k option" where
  "first_key [] = None"
| "first_key (r # rs) = (case r of KeyRef k \<Rightarrow> Some k | OtherResult _ \<Rightarrow> first_key rs)"

definition load_seckey :: "('m, 'k, 'pub) mac_ext \<Rightarrow> string \<Rightarrow> 'm os \<Rightarrow> (auth_error, 'k option) result" where
  "load_seckey M label s =
    (case mc_search M label (os_outside s) of Ok items \<Rightarrow> Ok (first_key items) | Err _ \<Rightarrow> Ok None)"

definition pubkey_from_seckey ::
  "('m, 'k, 'pub) mac_ext \<Rightarrow> enclave_crypto \<Rightarrow> 'k \<Rightarrow> (auth_error, classical_public_key) result" where
  "pubkey_from_seckey M K key =
    bind (ok_or (mc_public_key M key) (Backend ''no public key on Secure Enclave key'')) (\<lambda>pubk.
    bind (ok_or (mc_external M pubk) (Backend ''cannot export public key'')) (\<lambda>data.
    compressed_p256 K data))"

definition se_from_seckey ::
  "('m, 'k, 'pub) mac_ext \<Rightarrow> enclave_crypto \<Rightarrow> 'k \<Rightarrow> (auth_error, 'k se_signer) result" where
  "se_from_seckey M K key =
    bind (pubkey_from_seckey M K key) (\<lambda>pk. Ok \<lparr>se_key = key, se_public_key = pk\<rparr>)"

definition se_create_ephemeral ::
  "('m, 'k, 'pub) mac_ext \<Rightarrow> enclave_crypto \<Rightarrow> string \<Rightarrow> 'm os \<Rightarrow> (auth_error, 'k se_signer) result \<times> 'm os" where
  "se_create_ephemeral M K label s =
    then_io (generate_sep_key M label False s) (\<lambda>key s. (se_from_seckey M K key, s))"

definition se_load_or_create ::
  "('m, 'k, 'pub) mac_ext \<Rightarrow> enclave_crypto \<Rightarrow> string \<Rightarrow> 'm os \<Rightarrow> (auth_error, 'k se_signer) result \<times> 'm os" where
  "se_load_or_create M K label s =
    then_io (load_seckey M label s, s) (\<lambda>found s.
    then_io (case found of Some k \<Rightarrow> (Ok k, s) | None \<Rightarrow> generate_sep_key M label True s) (\<lambda>key s.
    (se_from_seckey M K key, s)))"

definition se_exists :: "('m, 'k, 'pub) mac_ext \<Rightarrow> string \<Rightarrow> 'm os \<Rightarrow> (auth_error, bool) result" where
  "se_exists M label s = bind (load_seckey M label s) (\<lambda>found. Ok (found \<noteq> None))"

definition se_sign_classical ::
  "('m, 'k, 'pub) mac_ext \<Rightarrow> enclave_crypto \<Rightarrow> 'k se_signer \<Rightarrow> bytes \<Rightarrow> 'm os \<Rightarrow> (auth_error, classical_signature) result" where
  "se_sign_classical M K sg payload s =
    bind (backend ''Secure Enclave sign: '' (mc_create_signature M (se_key sg) payload (os_outside s))) (\<lambda>der.
    bind (ok_or (en_from_der K der) (Backend ''malformed ECDSA DER from Secure Enclave'')) (\<lambda>sig.
    Ok \<lparr>csig_alg = P256, csig_bytes = sig\<rparr>))"

text \<open>The Ed25519 identity whose seed is wrapped under a Secure Enclave key.\<close>

record 'k se_ed_signer =
  sed_wrapping_key :: 'k
  sed_wrapped_seed :: bytes
  sed_public_key :: classical_public_key

definition wrap_fresh_ed25519 ::
  "('m, 'k, 'pub) mac_ext \<Rightarrow> crypto \<Rightarrow> 'k \<Rightarrow> 'm os \<Rightarrow> (auth_error, bytes \<times> bytes) result \<times> 'm os" where
  "wrap_fresh_ed25519 M C sep s =
    then_io (ok_or (mc_public_key M sep) (Backend ''no public key on Secure Enclave key''), s) (\<lambda>se_public s.
    let (seed, s) = fill_bytes 32 s; ed_pk = ed_public C seed
    in then_io (backend ''Secure Enclave ECIES wrap: '' (mc_encrypt M se_public seed), s) (\<lambda>wrapped s.
       (Ok (ed_pk, wrapped), s)))"

definition ed_signer :: "'k \<Rightarrow> bytes \<Rightarrow> bytes \<Rightarrow> 'k se_ed_signer" where
  "ed_signer key ed_pk wrapped_seed =
    \<lparr>sed_wrapping_key = key, sed_wrapped_seed = wrapped_seed, sed_public_key = \<lparr>cpk_alg = Ed25519, cpk_bytes = ed_pk\<rparr>\<rparr>"

definition sed_create_ephemeral ::
  "('m, 'k, 'pub) mac_ext \<Rightarrow> crypto \<Rightarrow> string \<Rightarrow> 'm os \<Rightarrow> (auth_error, 'k se_ed_signer) result \<times> 'm os" where
  "sed_create_ephemeral M C label s =
    then_io (generate_sep_key M label False s) (\<lambda>key s.
    then_io (wrap_fresh_ed25519 M C key s) (\<lambda>(ed_pk, wrapped_seed) s.
    (Ok (ed_signer key ed_pk wrapped_seed), s)))"

text \<open>\<open>std::fs::write\<close>: the file is truncated, then written.\<close>

definition fs_write :: "path \<Rightarrow> bytes \<Rightarrow> 'k os \<Rightarrow> (io_error, unit) result \<times> 'k os" where
  "fs_write p contents s =
    then_io (open_truncate (os_mode s) (node_key p) s) (\<lambda>_. write_all (node_key p) contents)"

text \<open>Errors of the file system inside a backend error keep only the prefix of their text.\<close>

definition io_backend :: "string \<Rightarrow> (io_error, 'a) result \<Rightarrow> (auth_error, 'a) result" where
  "io_backend prefix r = map_err (\<lambda>_. Backend prefix) r"

definition sed_load_existing :: "path \<Rightarrow> 'k \<Rightarrow> 'm os \<Rightarrow> (auth_error, 'k \<times> bytes \<times> bytes) result" where
  "sed_load_existing p key s =
    bind (io_backend ''read wrapped seed: '' (fs_read p s)) (\<lambda>blob.
    if length blob < 32 then Err (Backend ''wrapped seed file too short'')
    else Ok (key, take 32 blob, drop 32 blob))"

definition sed_create ::
  "('m, 'k, 'pub) mac_ext \<Rightarrow> crypto \<Rightarrow> string \<Rightarrow> path \<Rightarrow> path \<Rightarrow> 'm os \<Rightarrow>
   (auth_error, 'k \<times> bytes \<times> bytes) result \<times> 'm os" where
  "sed_create M C label storage_dir p s =
    then_io (generate_sep_key M label True s) (\<lambda>key s.
    then_io (wrap_fresh_ed25519 M C key s) (\<lambda>(ed_pk, wrapped_seed) s.
    then_io (map_prod (io_backend ''create storage dir: '') id (create_dir_all storage_dir s)) (\<lambda>_ s.
    then_io (map_prod (io_backend ''write wrapped seed: '') id (fs_write p (ed_pk @ wrapped_seed) s)) (\<lambda>_ s.
    (Ok (key, ed_pk, wrapped_seed), s)))))"

definition sed_load_or_create ::
  "('m, 'k, 'pub) mac_ext \<Rightarrow> crypto \<Rightarrow> string \<Rightarrow> path \<Rightarrow> 'm os \<Rightarrow> (auth_error, 'k se_ed_signer) result \<times> 'm os" where
  "sed_load_or_create M C label storage_dir s =
    (let p = path_join storage_dir ''device_identity.ed25519.ecies''
     in then_io (load_seckey M label s, s) (\<lambda>found s.
        then_io (case found of Some key \<Rightarrow> (sed_load_existing p key s, s) | None \<Rightarrow> sed_create M C label storage_dir p s)
          (\<lambda>(key, ed_pk, wrapped_seed) s.
        (Ok (ed_signer key ed_pk wrapped_seed), s))))"

definition sed_sign_classical ::
  "('m, 'k, 'pub) mac_ext \<Rightarrow> crypto \<Rightarrow> 'k se_ed_signer \<Rightarrow> bytes \<Rightarrow> 'm os \<Rightarrow> (auth_error, classical_signature) result" where
  "sed_sign_classical M C sg payload s =
    bind (backend ''Secure Enclave unwrap (Touch ID): ''
        (mc_decrypt M (sed_wrapping_key sg) (sed_wrapped_seed sg) (os_outside s))) (\<lambda>seed.
    if length seed \<noteq> 32 then Err (Backend ''unwrapped seed has wrong length'')
    else Ok \<lparr>csig_alg = Ed25519, csig_bytes = ed_sign C seed payload\<rparr>)"

end
