(* ===== verification/Enclave_Laws.thy ===== *)
theory Enclave_Laws
  imports Enclave Verify
begin

text \<open>
  Laws of the hardware signers: the padded form of TPM integers, that the signers keep the contract of
  \<open>Signer\<close>, and what loading an Ed25519 identity returns and replaces.
\<close>

section \<open>Padding\<close>

lemma length_left_pad32 [simp]: "length (left_pad32 src) = 32"
  by (simp add: left_pad32_def COORD_LEN_def Let_def)

text \<open>Padding keeps the value of an integer of at most 32 bytes; of a longer one it keeps the low 32 bytes.\<close>

lemma left_pad32_value: "length src \<le> 32 \<Longrightarrow> be_to_nat (left_pad32 src) = be_to_nat src"
  by (simp add: left_pad32_def COORD_LEN_def be_to_nat_leading_zeros Let_def)

lemma left_pad32_long: "length src \<ge> 32 \<Longrightarrow> left_pad32 src = drop (length src - 32) src"
  by (simp add: left_pad32_def COORD_LEN_def min_def Let_def)

lemma left_pad32_be: "length src \<le> 32 \<Longrightarrow> left_pad32 src = nat_to_be 32 (be_to_nat src)"
  using nat_to_be_of_be [of "left_pad32 src"] left_pad32_value [of src] by simp

section \<open>The contract of Signer\<close>

text \<open>
  What a platform promises of a key: the signatures it makes of a digest are, as a pair of integers in
  32 bytes each, signatures of the message under the public key. A TPM returns the integers without leading zeros.
\<close>

definition p256_hardware :: "crypto \<Rightarrow> enclave_crypto \<Rightarrow> bytes \<Rightarrow> (bytes \<Rightarrow> (bytes \<times> bytes) option) \<Rightarrow> bool" where
  "p256_hardware C K point sign \<longleftrightarrow> p256_key_ok C point \<and>
    (\<forall>m r s. sign (en_sha256 K m) = Some (r, s) \<longrightarrow> length r \<le> 32 \<and> length s \<le> 32 \<and>
      p256_sig_ok C (nat_to_be 32 (be_to_nat r) @ nat_to_be 32 (be_to_nat s)) \<and>
      p256_verify C point m (nat_to_be 32 (be_to_nat r) @ nat_to_be 32 (be_to_nat s)))"

definition tpm_pair :: "('t, 'h) tpm_ext \<Rightarrow> 'h \<Rightarrow> 't \<Rightarrow> bytes \<Rightarrow> (bytes \<times> bytes) option" where
  "tpm_pair T key t digest = (case tp_sign T key digest t of Ok (EcDsa r s) \<Rightarrow> Some (r, s) | _ \<Rightarrow> None)"

definition tpm_valid ::
  "('t, 'h) tpm_ext \<times> enclave_crypto \<times> crypto \<times> 't os \<Rightarrow> tpm_signer \<Rightarrow> bool" where
  "tpm_valid = (\<lambda>(T, K, C, s) sg. cpk_alg (ts_public_key sg) = P256 \<and>
    (\<forall>key transient s'. tpm_signing_key T (ts_mode sg) s = (Ok (key, transient), s') \<longrightarrow>
      p256_hardware C K (cpk_bytes (ts_public_key sg)) (tpm_pair T key (os_outside s'))))"

definition tpm_sign :: "('t, 'h) tpm_ext \<times> enclave_crypto \<times> crypto \<times> 't os \<Rightarrow> tpm_signer \<Rightarrow> bytes \<Rightarrow> (auth_error, classical_signature) result" where
  "tpm_sign = (\<lambda>(T, K, C, s) sg m. fst (tpm_sign_classical T K sg m s))"

lemma backend_Ok_iff [result_simps]: "backend p r = Ok x \<longleftrightarrow> r = Ok x"
  by (simp add: backend_def map_err_Ok_iff)

lemma map_prod_backend_iff [result_simps]: "map_prod (backend p) id r = (Ok x, s) \<longleftrightarrow> r = (Ok x, s)"
  by (cases r) (simp add: backend_Ok_iff)

lemma tpm_sign_Ok:
  assumes "tpm_sign_classical T K sg m s = (Ok sig, s')"
  shows "\<exists>key transient t r v. tpm_signing_key T (ts_mode sg) s = (Ok (key, transient), t) \<and>
    tp_sign T key (en_sha256 K m) (os_outside t) = Ok (EcDsa r v) \<and>
    sig = \<lparr>csig_alg = P256, csig_bytes = left_pad32 r @ left_pad32 v\<rparr>"
proof -
  from assms obtain raw u where w: "with_session T (\<lambda>s.
      then_io (tpm_signing_key T (ts_mode sg) s) (\<lambda>(key, transient) s.
      then_io (tp_ticket T, s) (\<lambda>_ s.
      then_io (tp_sign T key (en_sha256 K m) (os_outside s), s) (\<lambda>sig s.
      then_io (if transient then on_outside (tp_flush T key) s else (Ok (), s)) (\<lambda>_ s. (Ok sig, s)))))) s = (Ok raw, u)"
      and raw: "bind (raw_rs_from_sig raw) (\<lambda>raw. Ok \<lparr>csig_alg = P256, csig_bytes = raw\<rparr>) = Ok sig"
    by (auto simp: tpm_sign_classical_def Let_def result_simps)
  from w obtain key tr t where k: "tpm_signing_key T (ts_mode sg) s = (Ok (key, tr), t)"
      "tp_sign T key (en_sha256 K m) (os_outside t) = Ok raw"
    by (auto simp: with_session_def result_simps)
  from raw obtain r v where "raw = EcDsa r v" "sig = \<lparr>csig_alg = P256, csig_bytes = left_pad32 r @ left_pad32 v\<rparr>"
    by (auto simp: raw_rs_from_sig_def result_simps split: tpm_signature.splits)
  with k show ?thesis by blast
qed

lemma tpm_sign_verifies:
  assumes "tpm_valid (T, K, C, s) sg" and "tpm_sign_classical T K sg m s = (Ok sig, s')"
  shows "verify_classical C (ts_public_key sg) m sig = Ok () \<and> length (csig_bytes sig) = 64"
proof -
  obtain key tr t r v where k: "tpm_signing_key T (ts_mode sg) s = (Ok (key, tr), t)"
      "tp_sign T key (en_sha256 K m) (os_outside t) = Ok (EcDsa r v)"
      "sig = \<lparr>csig_alg = P256, csig_bytes = left_pad32 r @ left_pad32 v\<rparr>"
    using tpm_sign_Ok [OF assms(2)] by blast
  have hw: "p256_hardware C K (cpk_bytes (ts_public_key sg)) (tpm_pair T key (os_outside t))"
    and alg: "cpk_alg (ts_public_key sg) = P256"
    using assms(1) k(1) by (auto simp: tpm_valid_def)
  have "tpm_pair T key (os_outside t) (en_sha256 K m) = Some (r, v)" using k(2) by (simp add: tpm_pair_def)
  with hw have "length r \<le> 32" "length v \<le> 32" "p256_key_ok C (cpk_bytes (ts_public_key sg))"
    "p256_sig_ok C (nat_to_be 32 (be_to_nat r) @ nat_to_be 32 (be_to_nat v))"
    "p256_verify C (cpk_bytes (ts_public_key sg)) m (nat_to_be 32 (be_to_nat r) @ nat_to_be 32 (be_to_nat v))"
    by (simp_all add: p256_hardware_def)
  with k(3) alg show ?thesis by (simp add: verify_classical_def left_pad32_be)
qed

interpretation tpm: signer tpm_valid "\<lambda>E. ts_public_key" tpm_sign "\<lambda>_. None" "\<lambda>_ _ _ _. Ok None"
    "\<lambda>(T, K, C, s). verify_classical C" "\<lambda>(T, K, C, s). verify_pq C"
proof unfold_locales
  fix E :: "('t, 'h) tpm_ext \<times> enclave_crypto \<times> crypto \<times> 't os" and sg m sig
  assume a: "tpm_valid E sg" "tpm_sign E sg m = Ok sig"
  obtain T K C s where E: "E = (T, K, C, s)" by (cases E)
  obtain s' where "tpm_sign_classical T K sg m s = (Ok sig, s')" using a(2) E by (simp add: tpm_sign_def) (metis prod.collapse)
  with tpm_sign_verifies [of T K C s sg m sig s'] a(1) E
  show "(case E of (T, K, C, s) \<Rightarrow> verify_classical C) (ts_public_key sg) m sig = Ok ()" by simp
qed simp

text \<open>The Secure Enclave signer of P-256 signatures: the DER form is brought into the fixed form by \<open>from_der\<close>.\<close>

definition se_valid :: "('m, 'k, 'pub) mac_ext \<times> enclave_crypto \<times> crypto \<times> 'm os \<Rightarrow> 'k se_signer \<Rightarrow> bool" where
  "se_valid = (\<lambda>(M, K, C, s) sg. cpk_alg (se_public_key sg) = P256 \<and> p256_key_ok C (cpk_bytes (se_public_key sg)) \<and>
    (\<forall>m der sig. mc_create_signature M (se_key sg) m (os_outside s) = Ok der \<and> en_from_der K der = Some sig \<longrightarrow>
      p256_sig_ok C sig \<and> p256_verify C (cpk_bytes (se_public_key sg)) m sig))"

interpretation se: signer se_valid "\<lambda>E. se_public_key" "\<lambda>(M, K, C, s) sg m. se_sign_classical M K sg m s" "\<lambda>_. None"
    "\<lambda>_ _ _ _. Ok None" "\<lambda>(M, K, C, s). verify_classical C" "\<lambda>(M, K, C, s). verify_pq C"
  by unfold_locales (auto simp: se_valid_def se_sign_classical_def verify_classical_def result_simps)

text \<open>The CNG signer returns the fixed form itself.\<close>

definition cng_valid :: "('t, 'p, 'h) cng_ext \<times> enclave_crypto \<times> crypto \<times> 't \<Rightarrow> ('p, 'h) cng_signer \<Rightarrow> bool" where
  "cng_valid = (\<lambda>(N, K, C, t) sg. cpk_alg (cs_public_key sg) = P256 \<and> p256_key_ok C (cpk_bytes (cs_public_key sg)) \<and>
    (\<forall>m sig. sign_digest N (cs_key sg) (en_sha256 K m) t = Ok sig \<longrightarrow>
      p256_sig_ok C sig \<and> p256_verify C (cpk_bytes (cs_public_key sg)) m sig))"

interpretation cng: signer cng_valid "\<lambda>E. cs_public_key" "\<lambda>(N, K, C, t) sg m. cng_sign_classical N K sg m t" "\<lambda>_. None"
    "\<lambda>_ _ _ _. Ok None" "\<lambda>(N, K, C, t). verify_classical C" "\<lambda>(N, K, C, t). verify_pq C"
  by unfold_locales (auto simp: cng_valid_def cng_sign_classical_def verify_classical_def result_simps)

text \<open>The point that is read from a well-formed blob is X and Y of the blob.\<close>

lemma point_of_blob_layout:
  assumes "length magic = 4" and "length x = 32" and "length y = 32"
  shows "point_of_blob (magic @ [32, 0, 0, 0] @ x @ y @ rest) = Ok ([0x04] @ x @ y)"
  using assms by (simp add: point_of_blob_def from_le_bytes_def be_to_nat_def)

text \<open>
  The answer of a TPM signer to a challenge verifies under the public key it carries, and its signature
  has the fixed 64 bytes, although the TPM returns the two integers of a signature without their leading zeros.
  Assumed of the TPM is that the integers it returns are a signature of the message.
\<close>

lemma tpm_response_verifies:
  assumes "tpm_valid (T, K, C, s) sg"
    and "respond (ts_public_key sg) (\<lambda>m. fst (tpm_sign_classical T K sg m s)) None (\<lambda>m. Ok None) ch = Ok resp"
  shows "resp_public_key resp = ts_public_key sg \<and> resp_pq resp = None \<and> challenge_bytes resp = challenge_to_bytes ch \<and>
    length (csig_bytes (resp_signature resp)) = 64 \<and>
    verify_classical C (resp_public_key resp) (response_signing_payload resp) (resp_signature resp) = Ok ()"
proof -
  have r: "respond (ts_public_key sg) (tpm_sign (T, K, C, s) sg) None (\<lambda>m. Ok None) ch = Ok resp"
    using assms(2) by (simp add: tpm_sign_def)
  note v = tpm.respond_verifies [OF assms(1) r]
  obtain s' where "tpm_sign_classical T K sg (signing_payload (challenge_to_bytes ch)) s = (Ok (resp_signature resp), s')"
    using assms(2) by (auto simp: respond_def Let_def result_simps) (metis prod.collapse)
  from tpm_sign_verifies [OF assms(1) this] v(1,2,3) v(4) assms(2) show ?thesis
    by (auto simp: respond_def Let_def result_simps)
qed

text \<open>
  C26. A login with a TPM completes: a challenge that the verifier issued and a TPM signer answered is accepted from
  issue to expiry, as the key of the TPM, although the TPM returns the two integers of its signature without leading
  zeros. A verifier that requires a post-quantum signature never accepts it, since hardware signers make none.
  Assumed of the TPM is that the integers it returns are a signature of the message.
\<close>

theorem tpm_login_succeeds:
  assumes "tpm_valid (T, K, C, w) sg"
    and "length drawn = MIN_NONCE_LEN"
    and aud: "valid_text (ci_audience iss)" "length (ci_audience iss) < 2 ^ 62"
    and issue: "issue checked record_issued drawn iss t0 st = Done (ch, st1)"
    and fits: "unat t0 + unat (ci_ttl_secs iss) + unat skew < 2 ^ 64"
    and respond: "respond (ts_public_key sg) (\<lambda>m. fst (tpm_sign_classical T K sg m w)) None (\<lambda>m. Ok None) ch = Ok resp"
    and time: "t0 \<le> t" "t \<le> ch_expires_at ch"
  shows "if policy = PqRequired
    then \<forall>vd st2. verify_response checked C consume resp (ci_audience iss) t skew policy st1 \<noteq> Done (Ok vd, st2)
    else \<exists>st2. verify_response checked C consume resp (ci_audience iss) t skew policy st1 =
      Done (Ok \<lparr>vf_fingerprint = classical_fingerprint (blake3 C) (ts_public_key sg),
        vf_public_key = ts_public_key sg, vf_pq_public_key = None\<rparr>, st2)"
proof -
  note r = tpm_response_verifies [OF assms(1) respond]
  have no_pq: "resp_pq resp = None" using r by blast
  show ?thesis
  proof (cases "policy = PqRequired")
    case True
    with no_pq show ?thesis by (simp add: verify_response_accept acceptable_def)
  next
    case False
    with no_pq r issued_response_accepted [OF assms(2) aud issue fits time, of resp C policy] show ?thesis by auto
  qed
qed

section \<open>The wrapped Ed25519 identity\<close>

definition seed_file :: "path \<Rightarrow> path" where
  "seed_file storage_dir = path_join storage_dir ''device_identity.ed25519.ecies''"

text \<open>
  What the Security framework says of a label without a key: the search ends with \<open>errSecItemNotFound\<close>, or returns nothing
  that is a key.
\<close>

definition no_key :: "('m, 'k, 'pub) mac_ext \<Rightarrow> string \<Rightarrow> 'm \<Rightarrow> bool" where
  "no_key M label m \<longleftrightarrow>
    (case mc_search M label m of Err code \<Rightarrow> code = -25300 | Ok items \<Rightarrow> first_key items = None)"

text \<open>
  What it promises: after a persistent key was made for a label that had none, a search that succeeds finds that key; and what is
  decrypted is what was encrypted for the public half. Either call may still fail, when the keychain is locked or the
  user refuses.
\<close>

definition sep_ok :: "('m, 'k, 'pub) mac_ext \<Rightarrow> bool" where
  "sep_ok M \<longleftrightarrow>
    (\<forall>label m m' key items. no_key M label m \<and> mc_generate M label True m = (Ok key, m') \<and> mc_search M label m' = Ok items \<longrightarrow>
      first_key items = Some key) \<and>
    (\<forall>key pub x y c m. mc_public_key M key = Some pub \<and> mc_encrypt M pub x = Ok c \<and> mc_decrypt M key c m = Ok y \<longrightarrow> y = x)"

lemma sep_found:
  "sep_ok M \<Longrightarrow> no_key M label m \<Longrightarrow> mc_generate M label True m = (Ok key, m') \<Longrightarrow> mc_search M label m' = Ok items \<Longrightarrow>
    first_key items = Some key"
  unfolding sep_ok_def by blast

lemma sep_decrypts:
  "sep_ok M \<Longrightarrow> mc_public_key M key = Some pub \<Longrightarrow> mc_encrypt M pub x = Ok c \<Longrightarrow> mc_decrypt M key c m = Ok y \<Longrightarrow> y = x"
  unfolding sep_ok_def by blast

lemma no_key_loads: "no_key M label (os_outside s) \<Longrightarrow> load_seckey M label s = Ok None"
  by (auto simp: no_key_def load_seckey_def split: result.splits)

lemma map_prod_io_backend_iff [result_simps]: "map_prod (io_backend p) id r = (Ok x, s) \<longleftrightarrow> r = (Ok x, s)"
  by (cases r) (simp add: io_backend_def map_err_Ok_iff)

lemma generate_sep_key_Ok:
  assumes "generate_sep_key M label persist s = (Ok key, s')"
  shows "\<exists>m'. mc_generate M label persist (os_outside s) = (Ok key, m') \<and> s' = s\<lparr>os_outside := m'\<rparr>"
  using assms by (auto simp: generate_sep_key_def on_outside_def Let_def result_simps split: prod.splits)

lemma wrap_fresh_Ok:
  assumes "wrap_fresh_ed25519 M C key s = (Ok (pk, wrapped), s')"
  shows "\<exists>pub seed. mc_public_key M key = Some pub \<and> fill_bytes 32 s = (seed, s') \<and> pk = ed_public C seed \<and>
    mc_encrypt M pub seed = Ok wrapped"
proof -
  obtain sd s1 where f: "fill_bytes 32 s = (sd, s1)" by fastforce
  show ?thesis using assms f by (auto simp: wrap_fresh_ed25519_def Let_def result_simps)
qed

lemma put_contents_outside: "os_outside (put_contents k bs s) = os_outside s" "os_fault (put_contents k bs s) = os_fault s"
  by (auto simp: put_contents_def split: option.splits node.splits)

lemma fs_write_Ok:
  assumes "fs_write p bs s = (Ok (), s')"
  shows "(\<exists>m. os_nodes s' (node_key p) = Some (File m bs)) \<and> os_outside s' = os_outside s \<and> os_fault s' = os_fault s"
  using assms
  by (auto simp: fs_write_def open_truncate_def write_all_def put_contents_def io_fail_def Let_def result_simps split: if_splits)

lemma create_dir_all_frame: "create_dir_all p s = (r, s') \<Longrightarrow> os_outside s' = os_outside s \<and> os_fault s' = os_fault s"
  using create_dir_all_adds(1) [of p s r s'] by (metis os.select_convs os.surjective os.update_convs(2))

lemma fill_bytes_frame: "fill_bytes n s = (bs, s') \<Longrightarrow> os_outside s' = os_outside s \<and> os_fault s' = os_fault s"
  by (auto simp: fill_bytes_def)

text \<open>What creating an identity does, when it succeeds.\<close>

lemma sed_create_Ok:
  assumes "sed_create M C label dir p s = (Ok (key, pk, wrapped), s')"
  shows "\<exists>pub seed m m'. mc_generate M label True (os_outside s) = (Ok key, m') \<and> os_outside s' = m' \<and> os_fault s' = os_fault s \<and>
    mc_public_key M key = Some pub \<and> length seed = 32 \<and> pk = ed_public C seed \<and> mc_encrypt M pub seed = Ok wrapped \<and>
    os_nodes s' (node_key p) = Some (File m (pk @ wrapped))"
proof -
  from assms obtain s1 s2 s3 where g: "generate_sep_key M label True s = (Ok key, s1)"
      "wrap_fresh_ed25519 M C key s1 = (Ok (pk, wrapped), s2)" "create_dir_all dir s2 = (Ok (), s3)"
      "fs_write p (pk @ wrapped) s3 = (Ok (), s')"
    by (auto simp: sed_create_def result_simps)
  obtain m' where m': "mc_generate M label True (os_outside s) = (Ok key, m')" "s1 = s\<lparr>os_outside := m'\<rparr>"
    using generate_sep_key_Ok [OF g(1)] by blast
  obtain pub seed where w: "mc_public_key M key = Some pub" "fill_bytes 32 s1 = (seed, s2)" "pk = ed_public C seed"
      "mc_encrypt M pub seed = Ok wrapped" using wrap_fresh_Ok [OF g(2)] by blast
  from fill_bytes_frame [OF w(2)] create_dir_all_frame [OF g(3)] fs_write_Ok [OF g(4)] fill_bytes_length [OF w(2)] m' w
  show ?thesis by auto
qed

text \<open>
  C18. An Ed25519 identity of the Secure Enclave is the same in the next run. When it was created, because no key had the
  label, then loading it under that label returns the same public key and wrapped seed and changes
  nothing, whenever the keychain answers the search and the file can be read. A signature that it makes, in any later run, verifies under that
  public key, and it fails to make one only when the enclave refuses to decrypt (Touch ID may be denied).
\<close>

theorem enclave_identity_reloads:
  assumes "sep_ok M" and "ed25519_ok C" and "no_key M label (os_outside s)"
    and "sed_load_or_create M C label dir s = (Ok sg, s')"
  shows "(\<forall>t items. mc_search M label (os_outside s') = Ok items \<and> mc_search M label (os_outside t) = Ok items \<and>
      os_nodes t (node_key (seed_file dir)) = os_nodes s' (node_key (seed_file dir)) \<and>
      \<not> os_fault t (ReadFile (node_key (seed_file dir))) \<longrightarrow> sed_load_or_create M C label dir t = (Ok sg, t)) \<and>
    (\<forall>x u. case sed_sign_classical M C sg x u of
        Ok sig \<Rightarrow> verify_classical C (sed_public_key sg) x sig = Ok ()
      | Err e \<Rightarrow> \<exists>msg. mc_decrypt M (sed_wrapping_key sg) (sed_wrapped_seed sg) (os_outside u) = Err msg)"
proof -
  obtain key pk wrapped where c: "sed_create M C label dir (seed_file dir) s = (Ok (key, pk, wrapped), s')"
      "sg = ed_signer key pk wrapped"
    using assms(4) no_key_loads [OF assms(3)] by (auto simp: sed_load_or_create_def seed_file_def Let_def result_simps)
  obtain pub seed m where e: "mc_generate M label True (os_outside s) = (Ok key, os_outside s')"
    "mc_public_key M key = Some pub" "length seed = 32" "pk = ed_public C seed" "mc_encrypt M pub seed = Ok wrapped"
    "os_nodes s' (node_key (seed_file dir)) = Some (File m (pk @ wrapped))"
    using sed_create_Ok [OF c(1)] by blast
  have ed: "length pk = 32" "ed_key_ok C pk" "length (ed_sign C seed x) = 64" "ed_verify_strict C pk x (ed_sign C seed x)" for x
    using assms(2) e(3,4) by (simp_all add: ed25519_ok_def)
  have again: "sed_load_or_create M C label dir t = (Ok sg, t)"
    if "mc_search M label (os_outside s') = Ok items" "mc_search M label (os_outside t) = Ok items"
      "os_nodes t (node_key (seed_file dir)) = os_nodes s' (node_key (seed_file dir))"
      "\<not> os_fault t (ReadFile (node_key (seed_file dir)))" for t items
  proof -
    have "load_seckey M label t = Ok (Some key)" using sep_found [OF assms(1,3) e(1) that(1)] that(2) by (simp add: load_seckey_def)
    moreover have "sed_load_existing (seed_file dir) key t = Ok (key, pk, wrapped)"
      using e(6) that(3,4) ed(1) by (simp add: sed_load_existing_def fs_read_def io_backend_def)
    ultimately show ?thesis using c(2) by (simp add: sed_load_or_create_def seed_file_def Let_def)
  qed
  have "case sed_sign_classical M C sg x u of Ok sig \<Rightarrow> verify_classical C (sed_public_key sg) x sig = Ok ()
      | Err e \<Rightarrow> \<exists>msg. mc_decrypt M (sed_wrapping_key sg) (sed_wrapped_seed sg) (os_outside u) = Err msg" for x u
  proof (cases "mc_decrypt M key wrapped (os_outside u)")
    case (Err msg)
    then show ?thesis by (simp add: c(2) sed_sign_classical_def ed_signer_def backend_def)
  next
    case (Ok y)
    then have "y = seed" by (rule sep_decrypts [OF assms(1) e(2,5)])
    with Ok e(3) ed show ?thesis by (simp add: c(2) sed_sign_classical_def ed_signer_def backend_def verify_classical_def)
  qed
  with again show ?thesis by blast
qed

text \<open>A creation on a disk that can be written, when the enclave makes a key and encrypts.\<close>

definition seed_disk :: "path \<Rightarrow> 'm os \<Rightarrow> bool" where
  "seed_disk dir s \<longleftrightarrow> dir \<noteq> [] \<and> os_fault s = (\<lambda>_. False) \<and>
    (\<forall>n \<le> length (node_key dir). is_directory s (take n (node_key dir)))"

lemma seed_file_key: "dir \<noteq> [] \<Longrightarrow> node_key (seed_file dir) = node_key dir @ [Normal ''device_identity.ed25519.ecies'']"
  by (simp add: seed_file_def node_key_def components_join)

lemma sed_create_succeeds:
  assumes "seed_disk dir s" and "os_nodes s (node_key (seed_file dir)) = Some (File m old)"
    and "mc_access_control M = Ok ()" and "mc_generate M label True (os_outside s) = (Ok key, o1)"
    and "mc_public_key M key = Some pub" and "mc_encrypt M pub (map (os_rng s) [0..<32]) = Ok wrapped"
  shows "\<exists>s'. sed_create M C label dir (seed_file dir) s = (Ok (key, ed_public C (map (os_rng s) [0..<32]), wrapped), s') \<and>
    os_nodes s' = (os_nodes s)(node_key (seed_file dir) \<mapsto> File m (ed_public C (map (os_rng s) [0..<32]) @ wrapped))"
proof -
  let ?k = "node_key (seed_file dir)" and ?pk = "ed_public C (map (os_rng s) [0..<32])"
  have d: "dir \<noteq> []" "os_fault s = (\<lambda>_. False)" "\<And>n. n \<le> length (node_key dir) \<Longrightarrow> is_directory s (take n (node_key dir))"
    using assms(1) by (simp_all add: seed_disk_def)
  define s2 where "s2 = s\<lparr>os_outside := o1, os_rng := \<lambda>i. os_rng s (i + 32)\<rparr>"
  have gen: "generate_sep_key M label True s = (Ok key, s\<lparr>os_outside := o1\<rparr>)"
    using assms(3,4) by (simp add: generate_sep_key_def on_outside_def backend_def)
  have wrap: "wrap_fresh_ed25519 M C key (s\<lparr>os_outside := o1\<rparr>) = (Ok (?pk, wrapped), s2)"
    using assms(5,6) by (simp add: wrap_fresh_ed25519_def fill_bytes_def backend_def s2_def)
  have "is_directory s2 = is_directory s" by (simp add: fun_eq_iff is_directory_def s2_def)
  then have dirs: "is_directory s2 (take n (node_key dir))" if "n \<le> length (node_key dir)" for n using d(3) [OF that] by simp
  have made: "create_dir_all dir s2 = (Ok (), s2)" by (rule create_dir_all_there) (rule dirs)
  have "is_directory s2 (butlast ?k)" using dirs [of "length (node_key dir)"] by (simp add: seed_file_key [OF d(1)])
  moreover have "\<not> is_directory s2 ?k" using assms(2) by (simp add: is_directory_def seed_file_key [OF d(1)] s2_def)
  ultimately have "fs_write (seed_file dir) (?pk @ wrapped) s2 =
      (Ok (), s2\<lparr>os_nodes := (os_nodes s)(?k \<mapsto> File m (?pk @ wrapped))\<rparr>)"
    using assms(2) d(2) by (simp add: fs_write_def open_truncate_def write_all_def put_contents_def s2_def)
  with gen wrap made show ?thesis by (simp add: sed_create_def io_backend_def)
qed

text \<open>
  C28. A search of the keychain that fails for any reason (a locked keychain, for example) is taken for the absence of a key, and the
  identity that is there is replaced. There is a file of an identity with the public key of its first 32 bytes, and a search that
  returned its key would load it and change nothing. When the search fails instead, and the enclave can make a key and the
  file can be written, loading succeeds with a new key and a new identity, and the file of the old one is overwritten, its
  wrapped seed with it.
\<close>

theorem failed_search_replaces_identity:
  assumes "os_nodes s (node_key (seed_file dir)) = Some (File m (old_pk @ old_seed))" and "length old_pk = 32" and "seed_disk dir s"
    and "mc_search M label (os_outside s) = Err code"
    and "mc_access_control M = Ok ()" and "mc_generate M label True (os_outside s) = (Ok key, o1)"
    and "mc_public_key M key = Some pub" and "mc_encrypt M pub (map (os_rng s) [0..<32]) = Ok wrapped"
  shows "sed_load_or_create (M\<lparr>mc_search := \<lambda>_ _. Ok [KeyRef old_key]\<rparr>) C label dir s = (Ok (ed_signer old_key old_pk old_seed), s) \<and>
    (\<exists>s'. sed_load_or_create M C label dir s =
        (Ok (ed_signer key (ed_public C (map (os_rng s) [0..<32])) wrapped), s') \<and>
      os_nodes s' = (os_nodes s)(node_key (seed_file dir) \<mapsto> File m (ed_public C (map (os_rng s) [0..<32]) @ wrapped)))"
proof
  have "sed_load_existing (seed_file dir) old_key s = Ok (old_key, old_pk, old_seed)"
    using assms(1-3) by (simp add: sed_load_existing_def fs_read_def io_backend_def seed_disk_def)
  then show "sed_load_or_create (M\<lparr>mc_search := \<lambda>_ _. Ok [KeyRef old_key]\<rparr>) C label dir s = (Ok (ed_signer old_key old_pk old_seed), s)"
    by (simp add: sed_load_or_create_def load_seckey_def seed_file_def Let_def)
  have "load_seckey M label s = Ok None" using assms(4) by (simp add: load_seckey_def)
  moreover obtain s' where "sed_create M C label dir (seed_file dir) s = (Ok (key, ed_public C (map (os_rng s) [0..<32]), wrapped), s')"
      "os_nodes s' = (os_nodes s)(node_key (seed_file dir) \<mapsto> File m (ed_public C (map (os_rng s) [0..<32]) @ wrapped))"
    using sed_create_succeeds [OF assms(3,1,5-8)] by blast
  ultimately show "\<exists>s'. sed_load_or_create M C label dir s =
        (Ok (ed_signer key (ed_public C (map (os_rng s) [0..<32])) wrapped), s') \<and>
      os_nodes s' = (os_nodes s)(node_key (seed_file dir) \<mapsto> File m (ed_public C (map (os_rng s) [0..<32]) @ wrapped))"
    by (simp add: sed_load_or_create_def seed_file_def Let_def)
qed

text \<open>
  The key is made before its seed is on disk. When the directory cannot be made, the key stays under its label without a seed, and
  every later load that finds the key fails: the label is unusable until someone deletes the key.
\<close>

lemma interrupted_creation_blocks_label:
  assumes "sep_ok M" and "no_key M label (os_outside s)" and "os_nodes s (node_key (seed_file dir)) = None"
    and "generate_sep_key M label True s = (Ok key, s1)" and "wrap_fresh_ed25519 M C key s1 = (Ok (pk, wrapped), s2)"
    and "create_dir_all dir s2 = (Err e, s3)" and "os_nodes s3 (node_key (seed_file dir)) = None"
    and "mc_search M label (os_outside s3) = Ok items"
  shows "sed_load_or_create M C label dir s = (Err (Backend ''create storage dir: ''), s3)"
    and "sed_load_or_create M C label dir s3 = (Err (Backend ''read wrapped seed: ''), s3)"
proof -
  have none: "load_seckey M label s = Ok None" by (rule no_key_loads [OF assms(2)])
  then show "sed_load_or_create M C label dir s = (Err (Backend ''create storage dir: ''), s3)"
    using assms(4-6) by (simp add: sed_load_or_create_def sed_create_def io_backend_def)
  obtain m' where m': "mc_generate M label True (os_outside s) = (Ok key, m')" "s1 = s\<lparr>os_outside := m'\<rparr>"
    using generate_sep_key_Ok [OF assms(4)] by blast
  obtain seed where "fill_bytes 32 s1 = (seed, s2)" using wrap_fresh_Ok [OF assms(5)] by blast
  then have "os_outside s3 = m'" using fill_bytes_frame create_dir_all_frame [OF assms(6)] m'(2) by fastforce
  then have "load_seckey M label s3 = Ok (Some key)" using sep_found [OF assms(1,2) m'(1)] assms(8) by (simp add: load_seckey_def)
  then show "sed_load_or_create M C label dir s3 = (Err (Backend ''read wrapped seed: ''), s3)"
    using assms(7) by (simp add: sed_load_or_create_def sed_load_existing_def fs_read_def io_backend_def seed_file_def Let_def)
qed

section \<open>The properties at concrete inputs\<close>

text \<open>
  A TPM that holds one key and drops the leading zero of the first integer, and a Secure Enclave whose keys are
  their labels and whose encryption does nothing: they show that the hypotheses of this theory can hold together.
\<close>

definition plain_os :: "'t \<Rightarrow> 't os" where
  "plain_os t = \<lparr>os_env = (\<lambda>_. NotPresent), os_nodes = (\<lambda>_. None), os_fault = (\<lambda>_. False), os_written = 0, os_mode = 420,
    os_rng = (\<lambda>_. 7), os_clock = None, os_outside = t\<rparr>"

lemma plain_os_simps [simp]:
  "os_nodes (plain_os t) = (\<lambda>_. None)" "os_fault (plain_os t) = (\<lambda>_. False)" "os_outside (plain_os t) = t"
  "os_mode (plain_os t) = 420" "os_rng (plain_os t) = (\<lambda>_. 7)"
  by (simp_all add: plain_os_def)

definition toy_enclave :: enclave_crypto where
  "toy_enclave = \<lparr>en_sha256 = (\<lambda>m. take 32 (m @ replicate 32 0)), en_compress = (\<lambda>p. Some (2 # take 32 (drop 1 p))), en_from_der = Some\<rparr>"

definition toy_tpm :: "(unit, unit) tpm_ext" where
  "toy_tpm = \<lparr>tp_conf = (\<lambda>_. Ok ()), tp_context = (\<lambda>_ _. Ok ()), tp_session = (\<lambda>_. Ok ()), tp_build = (\<lambda>_. Ok ()),
    tp_create_primary = (\<lambda>_ _ t. (Ok (PublicEcc (replicate 31 1) (replicate 32 2), ()), t)), tp_flush = (\<lambda>_ t. (Ok (), t)),
    tp_persistent = (\<lambda>_. Ok ()), tp_from_public = (\<lambda>_ _. Ok ()), tp_read_public = (\<lambda>_ _. Ok (PublicEcc (replicate 31 1) (replicate 32 2))),
    tp_evict = (\<lambda>_ _ t. (Ok (), t)), tp_ticket = Ok (), tp_sign = (\<lambda>_ d _. Ok (EcDsa (replicate 31 1) d))\<rparr>"

definition toy_tpm_signer :: tpm_signer where
  "toy_tpm_signer = \<lparr>ts_tcti = ''t'', ts_mode = Ephemeral, ts_public_key = \<lparr>cpk_alg = P256, cpk_bytes = 2 # 0 # replicate 31 1\<rparr>\<rparr>"

lemma toy_tpm_creates: "fst (tpm_create_ephemeral toy_tpm toy_enclave (plain_os ())) =
    Ok \<lparr>ts_tcti = DEFAULT_TCTI, ts_mode = Ephemeral, ts_public_key = \<lparr>cpk_alg = P256, cpk_bytes = 2 # 0 # replicate 31 1\<rparr>\<rparr>"
  by (simp add: tpm_create_ephemeral_def resolve_tcti_def env_value_def plain_os_def open_context_def with_session_def
      create_primary_def p256_signing_template_def on_outside_def toy_tpm_def toy_enclave_def pubkey_from_public_def compressed_p256_def
      left_pad32_def COORD_LEN_def backend_def Let_def)

lemma toy_tpm_valid: "tpm_valid (toy_tpm, toy_enclave, toy_crypto, s) toy_tpm_signer"
proof -
  have r: "nat_to_be 32 (be_to_nat (replicate 31 1)) = 0 # replicate 31 1"
    using left_pad32_be [of "replicate 31 1"] by (simp add: left_pad32_def COORD_LEN_def Let_def)
  have d: "nat_to_be 32 (be_to_nat bs) = bs" if "length bs = 32" for bs using nat_to_be_of_be [of bs] that by simp
  have "p256_hardware toy_crypto toy_enclave (2 # 0 # replicate 31 1) (tpm_pair toy_tpm key t)" for key t
    by (auto simp: p256_hardware_def tpm_pair_def toy_tpm_def toy_enclave_def toy_crypto_def toy_tag_def r d)
  then show ?thesis by (simp add: tpm_valid_def toy_tpm_signer_def)
qed

lemma toy_tpm_responds:
  "\<exists>resp. respond (ts_public_key toy_tpm_signer) (\<lambda>m. fst (tpm_sign_classical toy_tpm toy_enclave toy_tpm_signer m (plain_os ()))) None
    (\<lambda>m. Ok None) ch = Ok resp"
proof -
  have "\<exists>sig. fst (tpm_sign_classical toy_tpm toy_enclave toy_tpm_signer m (plain_os ())) = Ok sig" for m
    by (simp add: tpm_sign_classical_def open_context_def with_session_def tpm_signing_key_def toy_tpm_signer_def
        create_primary_def p256_signing_template_def on_outside_def toy_tpm_def raw_rs_from_sig_def backend_def Let_def)
  then obtain sig where "fst (tpm_sign_classical toy_tpm toy_enclave toy_tpm_signer
      (signing_payload (challenge_to_bytes ch)) (plain_os ())) = Ok sig" by blast
  then show ?thesis by (simp add: respond_def Let_def)
qed

theorem tpm_login_succeeds_witness:
  "\<exists>resp vd st2. respond (ts_public_key toy_tpm_signer)
      (\<lambda>m. fst (tpm_sign_classical toy_tpm toy_enclave toy_tpm_signer m (plain_os ()))) None (\<lambda>m. Ok None) demo_challenge = Ok resp \<and>
    verify_response True toy_crypto consume resp ''app'' 1060 5 PqOptional demo_store = Done (Ok vd, st2) \<and>
    vf_public_key vd = ts_public_key toy_tpm_signer"
proof -
  obtain resp where r: "respond (ts_public_key toy_tpm_signer)
      (\<lambda>m. fst (tpm_sign_classical toy_tpm toy_enclave toy_tpm_signer m (plain_os ()))) None (\<lambda>m. Ok None) demo_challenge = Ok resp"
    using toy_tpm_responds by blast
  have "if PqOptional = PqRequired
    then \<forall>vd st2. verify_response True toy_crypto consume resp (ci_audience demo_issuer) 1060 5 PqOptional demo_store \<noteq> Done (Ok vd, st2)
    else \<exists>st2. verify_response True toy_crypto consume resp (ci_audience demo_issuer) 1060 5 PqOptional demo_store =
      Done (Ok \<lparr>vf_fingerprint = classical_fingerprint (blake3 toy_crypto) (ts_public_key toy_tpm_signer),
        vf_public_key = ts_public_key toy_tpm_signer, vf_pq_public_key = None\<rparr>, st2)"
    by (rule tpm_login_succeeds [OF toy_tpm_valid _ _ _ demo_issue _ r])
      (simp_all add: MIN_NONCE_LEN_def demo_issuer_def new_issuer_def, simp_all add: demo_challenge_def)
  then show ?thesis using r by (fastforce simp: demo_issuer_def new_issuer_def)
qed

text \<open>A keychain is the list of its labels; searching for one that is missing is an error, and a locked enclave decrypts nothing.\<close>

definition toy_mac :: "(string list, string, string) mac_ext" where
  "toy_mac = \<lparr>mc_access_control = Ok (), mc_generate = (\<lambda>l persist m. (Ok l, if persist then l # m else m)),
    mc_search = (\<lambda>l m. if l \<in> set m then Ok [OtherResult (), KeyRef l] else Err (-25300)), mc_public_key = Some, mc_external = (\<lambda>_. None),
    mc_create_signature = (\<lambda>_ _ _. Ok []), mc_encrypt = (\<lambda>_ x. Ok x),
    mc_decrypt = (\<lambda>_ c m. if ''locked'' \<in> set m then Err ''refused'' else Ok c)\<rparr>"

lemma toy_sep_ok: "sep_ok toy_mac"
  by (auto simp: sep_ok_def toy_mac_def split: if_splits)

lemma seed_file_d: "node_key (seed_file ''d'') = [Normal ''d'', Normal ''device_identity.ed25519.ecies'']" "node_key ''d'' = [Normal ''d'']"
  by (simp_all add: seed_file_def path_join_def node_key_def path_components_def component_of_def)

lemma toy_mac_creates: "\<exists>sg s'. sed_load_or_create toy_mac C l ''d'' (plain_os []) = (Ok sg, s')"
proof -
  have n: "load_seckey toy_mac l (plain_os []) = Ok None" by (simp add: load_seckey_def toy_mac_def)
  have "fst (sed_load_or_create toy_mac C l ''d'' (plain_os [])) =
      Ok (ed_signer l (ed_public C (replicate 32 7)) (replicate 32 7))"
    using n by (simp add: sed_load_or_create_def sed_create_def seed_file_def [symmetric] seed_file_d generate_sep_key_def on_outside_def
        backend_def wrap_fresh_ed25519_def fill_bytes_def toy_mac_def create_dir_all_def create_dir_def is_directory_def
        fs_write_def open_truncate_def write_all_def put_contents_def io_backend_def map_replicate_const Let_def)
  then show ?thesis by (metis prod.collapse)
qed

theorem enclave_identity_reloads_witness:
  "\<exists>sg s'. sed_load_or_create toy_mac toy_crypto ''l'' ''d'' (plain_os []) = (Ok sg, s') \<and>
    sed_load_or_create toy_mac toy_crypto ''l'' ''d'' s' = (Ok sg, s')"
proof -
  obtain sg s' where c: "sed_load_or_create toy_mac toy_crypto ''l'' ''d'' (plain_os []) = (Ok sg, s')"
    using toy_mac_creates by blast
  have none: "no_key toy_mac ''l'' (os_outside (plain_os []))" by (simp add: no_key_def toy_mac_def)
  have ed: "ed25519_ok toy_crypto" using toy_crypto_ok by (simp add: crypto_ok_def)
  obtain key pk wrapped where "sed_create toy_mac toy_crypto ''l'' ''d'' (seed_file ''d'') (plain_os []) = (Ok (key, pk, wrapped), s')"
    using c no_key_loads [OF none] by (auto simp: sed_load_or_create_def seed_file_def Let_def result_simps)
  from sed_create_Ok [OF this] have "os_outside s' = [''l'']" "os_fault s' = (\<lambda>_. False)" by (auto simp: toy_mac_def)
  moreover have "mc_search toy_mac ''l'' [''l''] = Ok [OtherResult (), KeyRef ''l'']" by (simp add: toy_mac_def)
  ultimately show ?thesis using enclave_identity_reloads [OF toy_sep_ok ed none c] c by simp
qed

theorem failed_search_replaces_identity_witness:
  "\<exists>s'. sed_load_or_create (toy_mac\<lparr>mc_search := \<lambda>_ _. Err (- 25308)\<rparr>) toy_crypto ''l'' ''d''
      ((plain_os [''l''])\<lparr>os_nodes := [[Normal ''d''] \<mapsto> Directory,
        [Normal ''d'', Normal ''device_identity.ed25519.ecies''] \<mapsto> File 384 (replicate 32 1 @ [2])]\<rparr>) =
      (Ok (ed_signer ''l'' (ed_public toy_crypto (replicate 32 7)) (replicate 32 7)), s') \<and>
    os_nodes s' [Normal ''d'', Normal ''device_identity.ed25519.ecies''] =
      Some (File 384 (ed_public toy_crypto (replicate 32 7) @ replicate 32 7))"
proof -
  let ?M = "toy_mac\<lparr>mc_search := \<lambda>_ _. Err (- 25308)\<rparr>"
  let ?s = "(plain_os [''l''])\<lparr>os_nodes := [[Normal ''d''] \<mapsto> Directory,
        [Normal ''d'', Normal ''device_identity.ed25519.ecies''] \<mapsto> File 384 (replicate 32 1 @ [2])]\<rparr>"
  have file_there: "os_nodes ?s (node_key (seed_file ''d'')) = Some (File 384 (replicate 32 1 @ [2]))" by (simp add: seed_file_d)
  have "seed_disk ''d'' ?s" by (auto simp: seed_disk_def seed_file_d is_directory_def take_Cons split: nat.split)
  from failed_search_replaces_identity [OF file_there _ this, of ?M "''l''" "- 25308" "''l''" "[''l'', ''l'']" "''l''" "replicate 32 7" "''l''" toy_crypto]
  show ?thesis by (auto simp: toy_mac_def seed_file_d map_replicate_const)
qed

end
