(* ===== verification/Writers.thy ===== *)
theory Writers
  imports Storage_Laws
begin

text \<open>
  The calls of \<open>write_secret_file\<close> one by one, so that a crash between two of them and other processes that write
  at the same time can be spoken of. The program takes no lock, and its temporary file has a fixed name.
\<close>

section \<open>One call\<close>

text \<open>
  A writer is a process inside \<open>write_secret_file\<close>, after the directories were made: where it stands, and the file it
  has open. \<open>Writing n\<close> is inside \<open>write_all\<close>, which has handed over \<open>n\<close> bytes.
\<close>

datatype writer_at = Opening | Writing nat | Syncing | Renaming | Returned "(io_error, unit) result"

record writer =
  wr_tmp :: node_key
  wr_target :: node_key
  wr_mode :: nat
  wr_contents :: bytes
  wr_at :: writer_at
  wr_open :: "node_key option"

text \<open>
  An open file is named by the name it has now. When a file gets another name, the open files follow it; a file
  whose name is taken over has none any more.
\<close>

fun follow :: "(node_key \<times> node_key) option \<Rightarrow> writer \<Rightarrow> writer" where
  "follow None w = w"
| "follow (Some (k, k')) w =
    w\<lparr>wr_open := (if wr_open w = Some k then Some k' else if wr_open w = Some k' then None else wr_open w)\<rparr>"

text \<open>Writing at an offset: a gap that another process left by truncating reads as zeros.\<close>

definition write_at :: "node_key option \<Rightarrow> nat \<Rightarrow> bytes \<Rightarrow> 'k os \<Rightarrow> 'k os" where
  "write_at h n chunk s =
    (case h of
       None \<Rightarrow> s
     | Some k \<Rightarrow>
         (case os_nodes s k of
            Some (File m old) \<Rightarrow>
              s\<lparr>os_nodes := (os_nodes s)(k \<mapsto> File m (take n (old @ replicate (n - length old) 0) @ chunk @ drop (n + length chunk) old))\<rparr>
          | _ \<Rightarrow> s))"

text \<open>The calls, with the renaming they perform.\<close>

inductive call :: "writer \<Rightarrow> 'k os \<Rightarrow> (node_key \<times> node_key) option \<Rightarrow> writer \<Rightarrow> 'k os \<Rightarrow> bool" where
  call_open: "wr_at w = Opening \<Longrightarrow> open_truncate (wr_mode w) (wr_tmp w) s = (Ok (), s') \<Longrightarrow>
    call w s None (w\<lparr>wr_at := Writing 0, wr_open := Some (wr_tmp w)\<rparr>) s'"
| call_open_fails: "wr_at w = Opening \<Longrightarrow> open_truncate (wr_mode w) (wr_tmp w) s = (Err e, s') \<Longrightarrow>
    call w s None (w\<lparr>wr_at := Returned (Err e)\<rparr>) s'"
| call_write: "wr_at w = Writing n \<Longrightarrow> take k (drop n (wr_contents w)) = chunk \<Longrightarrow> chunk \<noteq> [] \<Longrightarrow>
    call w s None (w\<lparr>wr_at := Writing (n + length chunk)\<rparr>) (write_at (wr_open w) n chunk s)"
| call_write_fails: "wr_at w = Writing n \<Longrightarrow> os_fault s (WriteAll (wr_tmp w)) \<Longrightarrow>
    call w s None (w\<lparr>wr_at := Returned (Err (IoFailed (WriteAll (wr_tmp w)))), wr_open := None\<rparr>) s"
| call_written: "wr_at w = Writing n \<Longrightarrow> length (wr_contents w) \<le> n \<Longrightarrow> \<not> os_fault s (WriteAll (wr_tmp w)) \<Longrightarrow>
    call w s None (w\<lparr>wr_at := Syncing\<rparr>) s"
| call_sync: "wr_at w = Syncing \<Longrightarrow> sync_all (wr_tmp w) s = (Ok (), s') \<Longrightarrow>
    call w s None (w\<lparr>wr_at := Renaming, wr_open := None\<rparr>) s'"
| call_sync_fails: "wr_at w = Syncing \<Longrightarrow> sync_all (wr_tmp w) s = (Err e, s') \<Longrightarrow>
    call w s None (w\<lparr>wr_at := Returned (Err e), wr_open := None\<rparr>) s'"
| call_rename: "wr_at w = Renaming \<Longrightarrow> fs_rename (wr_tmp w) (wr_target w) s = (Ok (), s') \<Longrightarrow>
    call w s (Some (wr_tmp w, wr_target w)) (w\<lparr>wr_at := Returned (Ok ())\<rparr>) s'"
| call_rename_fails: "wr_at w = Renaming \<Longrightarrow> fs_rename (wr_tmp w) (wr_target w) s = (Err e, s') \<Longrightarrow>
    call w s None (w\<lparr>wr_at := Returned (Err e)\<rparr>) s'"

text \<open>Processes run side by side: one of them makes its next call.\<close>

inductive writers_step :: "writer list \<times> 'k os \<Rightarrow> writer list \<times> 'k os \<Rightarrow> bool" where
  writers_step: "i < length ws \<Longrightarrow> call (ws ! i) s ev w' s' \<Longrightarrow> writers_step (ws, s) (map (follow ev) (ws[i := w']), s')"

abbreviation writers_run :: "writer list \<times> 'k os \<Rightarrow> writer list \<times> 'k os \<Rightarrow> bool" where
  "writers_run \<equiv> writers_step\<^sup>*\<^sup>*"

inductive_cases writers_stepE: "writers_step (ws, s) y"

definition new_writer :: "nat \<Rightarrow> node_key \<Rightarrow> node_key \<Rightarrow> bytes \<Rightarrow> writer" where
  "new_writer mode tmp target contents =
    \<lparr>wr_tmp = tmp, wr_target = target, wr_mode = mode, wr_contents = contents, wr_at = Opening, wr_open = None\<rparr>"

definition returned :: "(io_error, unit) result \<Rightarrow> writer \<Rightarrow> writer" where
  "returned r w = w\<lparr>wr_at := Returned r, wr_open := None\<rparr>"

lemma writer_update_order [simp]: "w\<lparr>wr_open := x, wr_at := a\<rparr> = w\<lparr>wr_at := a, wr_open := x\<rparr>"
  by (cases w) simp

section \<open>The function is a run\<close>

lemma lone_step: "call w s ev w' s' \<Longrightarrow> writers_step ([w], s) ([follow ev w'], s')"
  using writers_step [of 0 "[w]" s ev w' s'] by simp

lemma follow_closed: "wr_open w = None \<Longrightarrow> follow ev w = w"
  by (cases "(ev, w)" rule: follow.cases) simp_all

lemma lone_chain: "call w s ev w' s' \<Longrightarrow> writers_run ([follow ev w'], s') y \<Longrightarrow> writers_run ([w], s) y"
  by (drule lone_step) (rule converse_rtranclp_into_rtranclp)

lemma write_at_start: "os_nodes s k = Some (File m []) \<Longrightarrow> write_at (Some k) 0 chunk s = put_contents k chunk s"
  by (simp add: write_at_def put_contents_def)

lemma put_contents_nothing: "os_nodes s k = Some (File m []) \<Longrightarrow> put_contents k [] s = s"
  by (simp add: put_contents_def fun_upd_idem)

text \<open>Handing over the first \<open>n\<close> bytes at once.\<close>

lemma write_prefix:
  assumes "wr_at w = Writing 0" and "wr_open w = Some k" and "os_nodes s k = Some (File m [])" and "n \<le> length (wr_contents w)"
  shows "writers_run ([w], s) ([w\<lparr>wr_at := Writing n\<rparr>], put_contents k (take n (wr_contents w)) s)"
proof (cases "n = 0")
  case True
  then have "w\<lparr>wr_at := Writing n\<rparr> = w" using assms(1) by simp
  then show ?thesis using True put_contents_nothing [OF assms(3)] by simp
next
  case False
  have "call w s None (w\<lparr>wr_at := Writing (0 + length (take n (wr_contents w)))\<rparr>)
      (write_at (wr_open w) 0 (take n (wr_contents w)) s)"
    by (rule call_write [of w 0 n]) (use assms False in auto)
  moreover have "length (take n (wr_contents w)) = n" using assms(4) by simp
  ultimately have "call w s None (w\<lparr>wr_at := Writing n\<rparr>) (put_contents k (take n (wr_contents w)) s)"
    using assms(2) write_at_start [OF assms(3)] by simp
  from lone_step [OF this] show ?thesis by (simp add: r_into_rtranclp)
qed

text \<open>From each point of the function on, what is left of it is a run.\<close>

lemma rename_run:
  assumes "wr_at w = Renaming" and "wr_open w = None" and "fs_rename (wr_tmp w) (wr_target w) s = (r, s')"
  shows "writers_run ([w], s) ([returned r w], s')"
proof -
  have e: "w\<lparr>wr_at := Returned r\<rparr> = returned r w" using assms(2) by (cases w) (simp add: returned_def)
  have "\<exists>ev. call w s ev (returned r w) s'"
  proof (cases r)
    case (Err e)
    with call_rename_fails [OF assms(1), of s e s'] assms(3) e have "call w s None (returned r w) s'" by simp
    then show ?thesis by blast
  next
    case (Ok u)
    with call_rename [OF assms(1), of s s'] assms(3) e have "call w s (Some (wr_tmp w, wr_target w)) (returned r w) s'" by simp
    then show ?thesis by blast
  qed
  then obtain ev where "call w s ev (returned r w) s'" by blast
  from lone_step [OF this] follow_closed [of "returned r w" ev] show ?thesis by (simp add: returned_def r_into_rtranclp)
qed

lemma sync_run:
  assumes "wr_at w = Syncing" and "then_io (sync_all (wr_tmp w) s) (\<lambda>_ s. fs_rename (wr_tmp w) (wr_target w) s) = (r, s')"
  shows "writers_run ([w], s) ([returned r w], s')"
proof -
  obtain r1 s1 where y: "sync_all (wr_tmp w) s = (r1, s1)" by fastforce
  show ?thesis
  proof (cases r1)
    case (Err e)
    then have "call w s None (returned r1 w) s1" using call_sync_fails [OF assms(1)] y by (simp add: returned_def)
    from lone_step [OF this] assms(2) y Err show ?thesis by (simp add: r_into_rtranclp)
  next
    case (Ok u)
    then have "call w s None (w\<lparr>wr_at := Renaming, wr_open := None\<rparr>) s1" using call_sync [OF assms(1)] y by simp
    from lone_chain [OF this, unfolded follow.simps] rename_run [of "w\<lparr>wr_at := Renaming, wr_open := None\<rparr>" s1 r s'] assms(2) y Ok
    show ?thesis by (simp add: returned_def)
  qed
qed

lemma write_run:
  assumes "wr_at w = Writing 0" and "wr_open w = Some (wr_tmp w)" and "os_nodes s (wr_tmp w) = Some (File m [])"
    and "then_io (write_all (wr_tmp w) (wr_contents w) s) (\<lambda>_ s.
      then_io (sync_all (wr_tmp w) s) (\<lambda>_ s. fs_rename (wr_tmp w) (wr_target w) s)) = (r, s')"
  shows "writers_run ([w], s) ([returned r w], s')"
proof -
  let ?t = "wr_tmp w" and ?c = "wr_contents w"
  have f: "os_fault (put_contents ?t bs s) = os_fault s" for bs by (simp add: put_contents_def split: option.splits node.splits)
  note prefix = write_prefix [OF assms(1-3)]
  show ?thesis
  proof (cases "os_fault s (WriteAll ?t)")
    case True
    let ?e = "Err (IoFailed (WriteAll ?t)) :: (io_error, unit) result" and ?n = "min (os_written s) (length ?c)"
    have r: "r = ?e" "s' = put_contents ?t (take ?n ?c) s" using True assms(4) by (auto simp: write_all_def io_fail_def min_def)
    have "call (w\<lparr>wr_at := Writing ?n\<rparr>) s' None (returned ?e w) s'"
      using call_write_fails [of "w\<lparr>wr_at := Writing ?n\<rparr>" ?n s'] True f r(2) by (simp add: returned_def)
    from lone_step [OF this] prefix [of ?n] r show ?thesis by simp
  next
    case False
    let ?s = "put_contents ?t ?c s"
    have "call (w\<lparr>wr_at := Writing (length ?c)\<rparr>) ?s None (w\<lparr>wr_at := Syncing\<rparr>) ?s"
      using call_written [of "w\<lparr>wr_at := Writing (length ?c)\<rparr>" "length ?c" ?s] False f by simp
    moreover have "writers_run ([w\<lparr>wr_at := Syncing\<rparr>], ?s) ([returned r w], s')"
      using sync_run [of "w\<lparr>wr_at := Syncing\<rparr>" ?s r s'] False assms(4) by (simp add: write_all_def returned_def)
    ultimately have "writers_run ([w\<lparr>wr_at := Writing (length ?c)\<rparr>], ?s) ([returned r w], s')"
      using lone_chain [of "w\<lparr>wr_at := Writing (length ?c)\<rparr>" ?s None "w\<lparr>wr_at := Syncing\<rparr>" ?s] by simp
    with prefix [of "length ?c"] show ?thesis by simp
  qed
qed

lemma replace_file_is_a_run:
  assumes "replace_file mode tmp k c s = (r, s')"
  shows "writers_run ([new_writer mode tmp k c], s) ([returned r (new_writer mode tmp k c)], s')"
proof -
  let ?w = "new_writer mode tmp k c"
  let ?w1 = "?w\<lparr>wr_at := Writing 0, wr_open := Some tmp\<rparr>"
  have w: "wr_at ?w = Opening" "wr_tmp ?w = tmp" "wr_mode ?w = mode" by (simp_all add: new_writer_def)
  obtain r1 s1 where o: "open_truncate mode tmp s = (r1, s1)" by fastforce
  show ?thesis
    using o
  proof (cases rule: open_truncate_cases)
    case (failed e)
    then have "call ?w s None (returned (Err e) ?w) s"
      using call_open_fails [OF w(1), of s e s] w o by (simp add: returned_def new_writer_def)
    from lone_step [OF this] assms o failed show ?thesis by (simp add: replace_file_def r_into_rtranclp)
  next
    case opened
    then have "call ?w s None ?w1 s1" using call_open [OF w(1), of s s1] w o by simp
    note start = lone_chain [OF this, unfolded follow.simps]
    have "os_nodes s1 tmp = Some (File (mode_after mode (os_nodes s tmp)) [])" using opened by simp
    then have "writers_run ([?w1], s1) ([returned r ?w1], s')"
      using write_run [of ?w1 s1 _ r s'] assms o opened(1) by (simp add: replace_file_def new_writer_def)
    with start show ?thesis by (simp add: returned_def)
  qed
qed

section \<open>Writers of different files\<close>

definition same_job :: "writer \<Rightarrow> writer \<Rightarrow> bool" where
  "same_job v w \<longleftrightarrow> wr_tmp w = wr_tmp v \<and> wr_target w = wr_target v \<and> wr_contents w = wr_contents v"

definition holds_file :: "'k os \<Rightarrow> node_key \<Rightarrow> bytes \<Rightarrow> bool" where
  "holds_file s k bs \<longleftrightarrow> (\<exists>m. os_nodes s k = Some (File m bs))"

text \<open>What is true of a writer at each of its calls, when the target held \<open>old\<close> at the start.\<close>

definition writer_ok :: "node option \<Rightarrow> writer \<Rightarrow> 'k os \<Rightarrow> bool" where
  "writer_ok old w s \<longleftrightarrow>
    (case wr_at w of
       Opening \<Rightarrow> wr_open w = None \<and> os_nodes s (wr_target w) = old
     | Writing n \<Rightarrow> wr_open w = Some (wr_tmp w) \<and> os_nodes s (wr_target w) = old \<and> n \<le> length (wr_contents w) \<and>
         holds_file s (wr_tmp w) (take n (wr_contents w))
     | Syncing \<Rightarrow> wr_open w = Some (wr_tmp w) \<and> os_nodes s (wr_target w) = old \<and> holds_file s (wr_tmp w) (wr_contents w)
     | Renaming \<Rightarrow> wr_open w = None \<and> os_nodes s (wr_target w) = old \<and> holds_file s (wr_tmp w) (wr_contents w)
     | Returned r \<Rightarrow> wr_open w = None \<and>
         (if r = Ok () then holds_file s (wr_target w) (wr_contents w) else os_nodes s (wr_target w) = old))"

lemma write_at_append:
  assumes "os_nodes s k = Some (File m (take n c))" and "n \<le> length c" and "chunk = take j (drop n c)"
  shows "write_at (Some k) n chunk s = s\<lparr>os_nodes := (os_nodes s)(k \<mapsto> File m (take (n + length chunk) c))\<rparr>"
proof -
  have "take (n + length chunk) c = take n c @ chunk" using assms(2,3) by (simp add: take_add min_def)
  with assms show ?thesis by (simp add: write_at_def)
qed

lemma call_ok:
  assumes "call w s ev w' s'" and "wr_tmp w \<noteq> wr_target w" and "writer_ok old w s"
  shows "writer_ok old w' s' \<and> same_job w w' \<and> follow ev w' = w' \<and> ev \<in> {None, Some (wr_tmp w, wr_target w)} \<and>
    (\<forall>k. k \<noteq> wr_tmp w \<and> k \<noteq> wr_target w \<longrightarrow> os_nodes s' k = os_nodes s k)"
  using assms
proof (cases rule: call.cases)
  case call_open
  from call_open(4) show ?thesis
    by (cases rule: open_truncate_cases) (use call_open assms in \<open>auto simp: writer_ok_def same_job_def holds_file_def\<close>)
next
  case (call_open_fails e)
  from call_open_fails(4) show ?thesis
    by (cases rule: open_truncate_cases) (use call_open_fails assms in \<open>auto simp: writer_ok_def same_job_def\<close>)
next
  case (call_write n j chunk)
  from assms(3) call_write have w: "wr_open w = Some (wr_tmp w)" "os_nodes s (wr_target w) = old" "n \<le> length (wr_contents w)"
      "holds_file s (wr_tmp w) (take n (wr_contents w))" by (simp_all add: writer_ok_def)
  then obtain m where "os_nodes s (wr_tmp w) = Some (File m (take n (wr_contents w)))" by (auto simp: holds_file_def)
  from write_at_append [OF this w(3), of chunk j] call_write(3,5) w have
    "s' = s\<lparr>os_nodes := (os_nodes s)(wr_tmp w \<mapsto> File m (take (n + length chunk) (wr_contents w)))\<rparr>" by simp
  moreover have "n + length chunk \<le> length (wr_contents w)" using call_write(5) w(3) by auto
  ultimately show ?thesis using call_write w assms(2) by (auto simp: writer_ok_def same_job_def holds_file_def)
next
  case call_rename
  from call_rename(4) show ?thesis
    by (cases rule: fs_rename_cases) (use call_rename assms in \<open>auto simp: writer_ok_def same_job_def holds_file_def\<close>)
next
  case (call_rename_fails e)
  from call_rename_fails(4) show ?thesis
    by (cases rule: fs_rename_cases) (use call_rename_fails assms in \<open>auto simp: writer_ok_def same_job_def\<close>)
qed (auto simp: writer_ok_def same_job_def holds_file_def dest: sync_all_effect)

lemma other_ok:
  assumes "writer_ok old v s" and "ev \<in> {None, Some (k, k')}" and "wr_tmp v \<notin> {k, k'}" and "wr_target v \<notin> {k, k'}"
    and "\<forall>j. j \<noteq> k \<and> j \<noteq> k' \<longrightarrow> os_nodes s' j = os_nodes s j"
  shows "follow ev v = v \<and> writer_ok old v s'"
proof -
  have "wr_open v = None \<or> wr_open v = Some (wr_tmp v)"
    using assms(1) by (auto simp: writer_ok_def split: writer_at.splits)
  then have "follow ev v = v" using assms(2,3) by auto
  moreover have "os_nodes s' (wr_tmp v) = os_nodes s (wr_tmp v)" "os_nodes s' (wr_target v) = os_nodes s (wr_target v)"
    using assms(3-5) by simp_all
  ultimately show ?thesis using assms(1) by (auto simp: writer_ok_def holds_file_def split: writer_at.splits if_splits)
qed

definition all_ok :: "writer list \<Rightarrow> 'k os \<Rightarrow> writer list \<Rightarrow> 'k os \<Rightarrow> bool" where
  "all_ok ws0 s0 ws s \<longleftrightarrow> length ws = length ws0 \<and>
    (\<forall>i < length ws0. same_job (ws0 ! i) (ws ! i) \<and> writer_ok (os_nodes s0 (wr_target (ws0 ! i))) (ws ! i) s)"

lemma distinct_keys:
  assumes "distinct (map f xs @ map g xs)" and "i < length xs" and "j < length xs"
  shows "f (xs ! i) \<noteq> g (xs ! j)" and "i \<noteq> j \<Longrightarrow> f (xs ! i) \<noteq> f (xs ! j)" and "i \<noteq> j \<Longrightarrow> g (xs ! i) \<noteq> g (xs ! j)"
proof -
  from assms(1) have d: "distinct (map f xs)" "distinct (map g xs)" "set (map f xs) \<inter> set (map g xs) = {}" by simp_all
  have "f (xs ! i) \<in> set (map f xs)" "g (xs ! j) \<in> set (map g xs)" using assms(2,3) by simp_all
  with d(3) show "f (xs ! i) \<noteq> g (xs ! j)" by (metis disjoint_iff)
  show "i \<noteq> j \<Longrightarrow> f (xs ! i) \<noteq> f (xs ! j)" using nth_eq_iff_index_eq [OF d(1), of i j] assms(2,3) by simp
  show "i \<noteq> j \<Longrightarrow> g (xs ! i) \<noteq> g (xs ! j)" using nth_eq_iff_index_eq [OF d(2), of i j] assms(2,3) by simp
qed

lemma step_all_ok:
  assumes "distinct (map wr_tmp ws0 @ map wr_target ws0)" and "all_ok ws0 s0 ws s" and "writers_step (ws, s) (ws', s')"
  shows "all_ok ws0 s0 ws' s'"
proof -
  from assms(3) obtain i ev w' where i: "i < length ws" "call (ws ! i) s ev w' s'" "ws' = map (follow ev) (ws[i := w'])"
    by (auto elim: writers_stepE)
  have len: "length ws = length ws0" using assms(2) by (simp add: all_ok_def)
  have job: "same_job (ws0 ! j) (ws ! j)" "writer_ok (os_nodes s0 (wr_target (ws0 ! j))) (ws ! j) s" if "j < length ws0" for j
    using assms(2) that by (simp_all add: all_ok_def)
  have keys: "wr_tmp (ws ! j) = wr_tmp (ws0 ! j)" "wr_target (ws ! j) = wr_target (ws0 ! j)" if "j < length ws0" for j
    using job(1) [OF that] by (simp_all add: same_job_def)
  have i0: "i < length ws0" using i(1) len by simp
  note d = distinct_keys [OF assms(1)]
  have "wr_tmp (ws ! i) \<noteq> wr_target (ws ! i)" using d(1) [OF i0 i0] keys [OF i0] by simp
  note own = call_ok [OF i(2) this job(2) [OF i0]]
  have "same_job (ws0 ! j) (ws' ! j) \<and> writer_ok (os_nodes s0 (wr_target (ws0 ! j))) (ws' ! j) s'" if j: "j < length ws0" for j
  proof (cases "j = i")
    case True
    then have "ws' ! j = w'" using i own by simp
    with own job(1) [OF i0] True show ?thesis by (simp add: same_job_def)
  next
    case False
    then have "ws' ! j = follow ev (ws ! j)" using i j len by simp
    moreover have "follow ev (ws ! j) = ws ! j \<and> writer_ok (os_nodes s0 (wr_target (ws0 ! j))) (ws ! j) s'"
      by (rule other_ok [OF job(2) [OF j], of ev "wr_tmp (ws ! i)" "wr_target (ws ! i)"])
        (use own d [OF j i0] d(1) [OF i0 j] False keys [OF j] keys [OF i0] in auto)
    ultimately show ?thesis using job(1) [OF j] by simp
  qed
  with i len show ?thesis by (simp add: all_ok_def)
qed

lemma run_all_ok:
  assumes "writers_run (ws0, s0) y" and "distinct (map wr_tmp ws0 @ map wr_target ws0)"
    and "list_all (\<lambda>w. wr_at w = Opening \<and> wr_open w = None) ws0"
  shows "all_ok ws0 s0 (fst y) (snd y)"
  using assms(1)
proof (induction rule: rtranclp_induct)
  case base
  show ?case using assms(3) by (auto simp: all_ok_def same_job_def writer_ok_def list_all_length)
next
  case (step y z)
  then show ?case using step_all_ok [OF assms(2), of s0 "fst y" "snd y" "fst z" "snd z"] by simp
qed

text \<open>The writers of a list of wallets and their new contents.\<close>

definition writer_for :: "nat \<Rightarrow> path \<times> bytes \<Rightarrow> writer" where
  "writer_for mode = (\<lambda>(p, contents). new_writer mode (tmp_key p) (node_key p) contents)"

lemma writer_for_simps [simp]:
  "wr_tmp (writer_for mode job) = tmp_key (fst job)" "wr_target (writer_for mode job) = node_key (fst job)"
  "wr_contents (writer_for mode job) = snd job" "wr_at (writer_for mode job) = Opening" "wr_open (writer_for mode job) = None"
  "wr_mode (writer_for mode job) = mode"
  by (simp_all add: writer_for_def new_writer_def split: prod.split)

text \<open>
  C9. A wallet file is whole at every moment, not only when \<open>write_secret_file\<close> returns, so that a crash between any two calls
  does no harm: any number of processes that write different wallets may make their calls in any order, and a write may hand over its bytes
  in any pieces. At every point of such a run each wallet holds exactly what it held at the start until its
  writer has returned \<open>Ok\<close>, and exactly the new contents from then on.
\<close>

theorem wallet_whole_at_every_moment:
  assumes "writers_run (map (writer_for mode) jobs, s0) (ws, s)"
    and "distinct (map (tmp_key \<circ> fst) jobs @ map (node_key \<circ> fst) jobs)" and "i < length jobs"
  shows "if wr_at (ws ! i) = Returned (Ok ()) then holds_file s (node_key (fst (jobs ! i))) (snd (jobs ! i))
    else os_nodes s (node_key (fst (jobs ! i))) = os_nodes s0 (node_key (fst (jobs ! i)))"
proof -
  let ?ws = "map (writer_for mode) jobs"
  have "map wr_tmp ?ws = map (tmp_key \<circ> fst) jobs" "map wr_target ?ws = map (node_key \<circ> fst) jobs" by simp_all
  then have "distinct (map wr_tmp ?ws @ map wr_target ?ws)" using assms(2) by (simp only:)
  then have "all_ok ?ws s0 ws s" using run_all_ok [OF assms(1)] by (simp add: list_all_iff)
  with assms(3) have "same_job (?ws ! i) (ws ! i)" "writer_ok (os_nodes s0 (wr_target (?ws ! i))) (ws ! i) s"
    by (simp_all add: all_ok_def)
  with assms(3) show ?thesis by (auto simp: writer_ok_def same_job_def split: writer_at.splits if_splits)
qed

text \<open>The directories of the wallet come first.\<close>

definition make_parent :: "path \<Rightarrow> 'k os \<Rightarrow> (io_error, unit) result \<times> 'k os" where
  "make_parent p s =
    (case path_parent p of
       Some parent \<Rightarrow> if parent \<noteq> [] then create_dir_all parent s else (Ok (), s)
     | None \<Rightarrow> (Ok (), s))"

text \<open>
  C10. What \<open>write_secret_file\<close> does is one of these runs: once the directories are there, the lone writer of the
  wallet gets from its first call to the result of the function and to the same world, errors of every call and a write that
  stops after some bytes included.
\<close>

theorem write_secret_file_is_a_run:
  assumes "write_secret_file X p contents s = (r, s')" and "path_file_name p = Some n"
  shows "case make_parent p s of
      (Err e, s1) \<Rightarrow> r = Err e \<and> s' = s1
    | (Ok u, s1) \<Rightarrow> writers_run ([writer_for (secret_mode X s1) (p, contents)], s1)
        ([returned r (writer_for (secret_mode X s1) (p, contents))], s')"
proof -
  note p = file_name_components [OF assms(2)]
  obtain r1 s1 where m: "make_parent p s = (r1, s1)" by fastforce
  show ?thesis
  proof (cases r1)
    case (Err e)
    then have "r = Err e" "s' = s1" using assms(1) m by (simp_all add: write_secret_file_def make_parent_def [symmetric])
    with m Err show ?thesis by simp
  next
    case (Ok u)
    then have "replace_file (secret_mode X s1) (tmp_key p) (node_key p) contents s1 = (r, s')"
      using assms m p(2) tmp_key_of [OF assms(2) p(2)]
      by (auto simp: write_secret_file_def make_parent_def replace_file_def Let_def split: if_splits)
    from replace_file_is_a_run [OF this] m Ok show ?thesis by (simp add: writer_for_def)
  qed
qed

section \<open>Writers of one file\<close>

lemma pair_step:
  "call a s ev a' s' \<Longrightarrow> writers_step ([a, b], s) ([follow ev a', follow ev b], s')"
  "call b s ev b' s' \<Longrightarrow> writers_step ([a, b], s) ([follow ev a, follow ev b'], s')"
  using writers_step [of 0 "[a, b]" s ev a' s'] writers_step [of 1 "[a, b]" s ev b' s'] by simp_all

text \<open>What a writer does when no call fails, in terms of the file it has open.\<close>

lemma writes_all:
  assumes "wr_at w = Writing 0" and "os_fault s = (\<lambda>_. False)" and "wr_open w = Some k" and "os_nodes s k = Some (File m [])"
    and "wr_contents w \<noteq> []"
  shows "call w s None (w\<lparr>wr_at := Writing (length (wr_contents w))\<rparr>) (s\<lparr>os_nodes := (os_nodes s)(k \<mapsto> File m (wr_contents w))\<rparr>)"
  using call_write [of w 0 "length (wr_contents w)" "wr_contents w" s] assms by (simp add: write_at_def)

lemma finishes:
  assumes "wr_at w = Writing (length (wr_contents w))" and "os_fault s = (\<lambda>_. False)"
  shows "call w s None (w\<lparr>wr_at := Syncing\<rparr>) s"
    and "call (w\<lparr>wr_at := Syncing\<rparr>) s None (w\<lparr>wr_at := Renaming, wr_open := None\<rparr>) s"
  using call_written [of w "length (wr_contents w)" s] call_sync [of "w\<lparr>wr_at := Syncing\<rparr>" s s] assms
  by (simp_all add: sync_all_def)

text \<open>
  C25. Two processes that write the same wallet break it, because they share the temporary file and take no
  lock. There is a run in which the first has returned \<open>Ok\<close> and the wallet file is empty: the second truncated the temporary
  file just before the first renamed it. When the second goes on it writes its contents into the wallet
  file itself, piece by piece, and then returns an error.
\<close>

theorem two_writers_break_the_wallet:
  assumes "path_file_name p = Some n" and "os_fault s = (\<lambda>_. False)" and "is_directory s (butlast (tmp_key p))"
    and "\<not> is_directory s (tmp_key p)" and "\<not> is_directory s (node_key p)" and "c1 \<noteq> []" and "c2 \<noteq> []"
  shows "\<exists>x y. writers_run ([writer_for mode (p, c1), writer_for mode (p, c2)], s) x \<and>
    wr_at (fst x ! 0) = Returned (Ok ()) \<and> holds_file (snd x) (node_key p) [] \<and>
    writers_run x y \<and> wr_at (fst y ! 1) = Returned (Err (IoFailed (RenameFile (tmp_key p) (node_key p)))) \<and>
    holds_file (snd y) (node_key p) c2"
proof -
  let ?t = "tmp_key p" and ?k = "node_key p" and ?a = "writer_for mode (p, c1)" and ?b = "writer_for mode (p, c2)"
  let ?n = "os_nodes s"
  let ?m = "mode_after mode (?n ?t)"
  have tk: "?t \<noteq> ?k" by (rule tmp_key_neq [OF assms(1)])
  let ?s = "\<lambda>bs. s\<lparr>os_nodes := ?n(?t \<mapsto> File ?m bs)\<rparr>"
  let ?x = "s\<lparr>os_nodes := ?n(?t := None, ?k \<mapsto> File ?m [])\<rparr>"
  let ?y = "s\<lparr>os_nodes := ?n(?t := None, ?k \<mapsto> File ?m c2)\<rparr>"
  let ?a1 = "?a\<lparr>wr_at := Writing 0, wr_open := Some ?t\<rparr>"
  let ?a2 = "?a\<lparr>wr_at := Writing (length c1), wr_open := Some ?t\<rparr>"
  let ?a3 = "?a\<lparr>wr_at := Renaming, wr_open := None\<rparr>"
  let ?a4 = "?a\<lparr>wr_at := Returned (Ok ()), wr_open := None\<rparr>"
  let ?b1 = "?b\<lparr>wr_at := Writing 0, wr_open := Some ?t\<rparr>" and ?b2 = "?b\<lparr>wr_at := Writing 0, wr_open := Some ?k\<rparr>"
  let ?b3 = "?b\<lparr>wr_at := Writing (length c2), wr_open := Some ?k\<rparr>"
  let ?e = "IoFailed (RenameFile ?t ?k)"
  have notdir: "\<not> is_directory (?s bs) k" if "k = ?t \<or> k = ?k" for k bs
    using that assms(4,5) by (auto simp: is_directory_def)
  have dir: "is_directory (?s bs) (butlast ?t)" for bs
    using assms(3) length_butlast [of ?t] assms(1) by (auto simp: is_directory_def tmp_key_def)
  have "open_truncate mode ?t s = (Ok (), ?s [])"
    using assms(2-4) by (simp add: open_truncate_def mode_after_def)
  from pair_step(1) [OF call_open [of ?a s "?s []"], of ?b] this
  have 1: "writers_step ([?a, ?b], s) ([?a1, ?b], ?s [])" by simp
  have "call ?a1 (?s []) None ?a2 (?s c1)"
    using writes_all [of ?a1 "?s []" ?t ?m] assms(2,6) by simp
  from pair_step(1) [OF this, of ?b] have 2: "writers_step ([?a1, ?b], ?s []) ([?a2, ?b], ?s c1)" by simp
  have 3: "writers_run ([?a2, ?b], ?s c1) ([?a3, ?b], ?s c1)"
    using pair_step(1) [OF finishes(1) [of ?a2 "?s c1"], of ?b] pair_step(1) [OF finishes(2) [of ?a2 "?s c1"], of ?b] assms(2)
    by simp
  have "open_truncate mode ?t (?s c1) = (Ok (), ?s [])"
    using assms(2) dir notdir by (simp add: open_truncate_def)
  from pair_step(2) [OF call_open [of ?b "?s c1" "?s []"], of ?a3] this
  have 4: "writers_step ([?a3, ?b], ?s c1) ([?a3, ?b1], ?s [])" by simp
  have "fs_rename ?t ?k (?s []) = (Ok (), ?x)" using assms(2) notdir tk by (simp add: fs_rename_def fun_upd_twist)
  from pair_step(1) [OF call_rename [of ?a3 "?s []" ?x], of ?b1] this
  have 5: "writers_step ([?a3, ?b1], ?s []) ([?a4, ?b2], ?x)" by simp
  have "call ?b2 ?x None ?b3 ?y" using writes_all [of ?b2 ?x ?k ?m] assms(2,7) by simp
  from pair_step(2) [OF this, of ?a4] have 6: "writers_step ([?a4, ?b2], ?x) ([?a4, ?b3], ?y)" by simp
  let ?b4 = "?b\<lparr>wr_at := Renaming, wr_open := None\<rparr>"
  have 7: "writers_run ([?a4, ?b3], ?y) ([?a4, ?b4], ?y)"
    using pair_step(2) [OF finishes(1) [of ?b3 ?y], of ?a4] pair_step(2) [OF finishes(2) [of ?b3 ?y], of ?a4] assms(2)
    by simp
  have "fs_rename ?t ?k ?y = (Err ?e, ?y)" using tk by (simp add: fs_rename_def io_fail_def)
  from pair_step(2) [OF call_rename_fails [of ?b4 ?y ?e ?y], of ?a4] this
  have 8: "writers_step ([?a4, ?b4], ?y) ([?a4, ?b4\<lparr>wr_at := Returned (Err ?e)\<rparr>], ?y)" by simp
  have "writers_run ([?a, ?b], s) ([?a4, ?b2], ?x)"
    using 1 2 3 4 5 by (meson rtranclp.rtrancl_into_rtrancl rtranclp_trans r_into_rtranclp)
  moreover have "writers_run ([?a4, ?b2], ?x) ([?a4, ?b4\<lparr>wr_at := Returned (Err ?e)\<rparr>], ?y)"
    using 6 7 8 by (meson rtranclp.rtrancl_into_rtrancl rtranclp_trans r_into_rtranclp)
  ultimately show ?thesis by (intro exI conjI) (assumption | simp add: holds_file_def)+
qed

section \<open>The properties at concrete inputs\<close>

lemma plain_keys: "node_key ''v'' = [Normal ''v'']" "tmp_key ''v'' = [Normal ''.v.tmp'']"
  by (simp_all add: path_components_def path_file_name_def node_key_def component_of_def tmp_key_def tmp_name_def)

theorem wallet_whole_at_every_moment_witness:
  "\<exists>s. writers_run (map (writer_for 384) [(''w'', [1]), (''v'', [2])], toy_os (\<lambda>_. NotPresent) (\<lambda>_. None))
      ([(writer_for 384 (''w'', [1]))\<lparr>wr_at := Writing 0, wr_open := Some [Normal ''.w.tmp'']\<rparr>,
        (writer_for 384 (''v'', [2]))\<lparr>wr_at := Writing 0, wr_open := Some [Normal ''.v.tmp'']\<rparr>], s) \<and>
    os_nodes s [Normal ''.w.tmp''] \<noteq> None \<and> os_nodes s [Normal ''w''] = None \<and> os_nodes s [Normal ''v''] = None"
proof -
  let ?s = "toy_os (\<lambda>_. NotPresent) (\<lambda>_. None)" and ?w = "writer_for 384 (''w'', [1])" and ?v = "writer_for 384 (''v'', [2])"
  let ?s1 = "?s\<lparr>os_nodes := [[Normal ''.w.tmp''] \<mapsto> File 384 []]\<rparr>"
  let ?s2 = "?s\<lparr>os_nodes := [[Normal ''.w.tmp''] \<mapsto> File 384 [], [Normal ''.v.tmp''] \<mapsto> File 384 []]\<rparr>"
  let ?w1 = "?w\<lparr>wr_at := Writing 0, wr_open := Some [Normal ''.w.tmp'']\<rparr>"
  let ?v1 = "?v\<lparr>wr_at := Writing 0, wr_open := Some [Normal ''.v.tmp'']\<rparr>"
  note keys = plain_file_name plain_keys
  have "open_truncate 384 (tmp_key ''w'') ?s = (Ok (), ?s1)" "open_truncate 384 (tmp_key ''v'') ?s1 = (Ok (), ?s2)"
    by (simp_all add: keys open_truncate_def is_directory_def)
  with pair_step(1) [OF call_open [of ?w ?s ?s1], of ?v] pair_step(2) [OF call_open [of ?v ?s1 ?s2], of ?w1]
  have run: "writers_run (map (writer_for 384) [(''w'', [1]), (''v'', [2])], ?s) ([?w1, ?v1], ?s2)"
    by (simp add: keys)
  have "distinct (map (tmp_key \<circ> fst) [(''w'', [1]), (''v'', [2 :: u8])] @ map (node_key \<circ> fst) [(''w'', [1]), (''v'', [2 :: u8])])"
    by (simp add: keys)
  from wallet_whole_at_every_moment [OF run this, of 0] wallet_whole_at_every_moment [OF run this, of 1] run
  show ?thesis by (intro exI [of _ ?s2]) (simp add: keys)
qed

theorem write_secret_file_is_a_run_witness:
  "\<exists>s'. writers_run ([writer_for 384 (''w'', [1, 2])], toy_os (\<lambda>_. NotPresent) (\<lambda>_. None))
      ([returned (Ok ()) (writer_for 384 (''w'', [1, 2]))], s') \<and> holds_file s' [Normal ''w''] [1, 2]"
proof -
  let ?s = "toy_os (\<lambda>_. NotPresent) (\<lambda>_. None)"
  obtain r s' where w: "write_secret_file (toy_ext Linux) ''w'' [1, 2] ?s = (r, s')" by fastforce
  moreover have "fst (write_secret_file (toy_ext Linux) ''w'' [1, 2] ?s) = Ok ()" by (rule plain_write) simp_all
  ultimately have ok: "write_secret_file (toy_ext Linux) ''w'' [1, 2] ?s = (Ok (), s')" by simp
  have "make_parent ''w'' ?s = (Ok (), ?s)" by (simp add: make_parent_def plain_file_name)
  with write_secret_file_is_a_run [OF ok plain_file_name(2)] write_secret_file_cases [OF ok plain_file_name(2)]
  show ?thesis by (auto simp: secret_mode_def toy_ext_def replaced_def plain_file_name holds_file_def split: if_splits)
qed

theorem two_writers_break_the_wallet_witness:
  "\<exists>x. writers_run ([writer_for 384 (''w'', [1]), writer_for 384 (''w'', [2])],
      toy_os (\<lambda>_. NotPresent) [[Normal ''w''] \<mapsto> File 384 [7, 7]]) x \<and>
    wr_at (fst x ! 0) = Returned (Ok ()) \<and> holds_file (snd x) [Normal ''w''] []"
proof -
  let ?s = "toy_os (\<lambda>_. NotPresent) [[Normal ''w''] \<mapsto> File 384 [7, 7]]"
  have "os_fault ?s = (\<lambda>_. False)" "is_directory ?s (butlast (tmp_key ''w''))" "\<not> is_directory ?s (tmp_key ''w'')"
    "\<not> is_directory ?s (node_key ''w'')" "[1 :: u8] \<noteq> []" "[2 :: u8] \<noteq> []"
    by (simp_all add: plain_file_name is_directory_def)
  from two_writers_break_the_wallet [OF plain_file_name(2) this, of 384] show ?thesis by (auto simp: plain_file_name)
qed

end
