(* ===== verification/Wallet_Life.thy ===== *)
theory Wallet_Life
  imports Storage_Laws
begin

text \<open>
  Calls of the wallet in sequence: a secret that is put in is there after a save and a load, a save that fails
  loses nothing, and of two sessions on one wallet the later save discards what the other stored.
\<close>

section \<open>Secrets\<close>

lemma list_all2_lookup:
  "list_all2 (\<lambda>(n, a) (m, b). n = m \<and> R a b) xs ys \<Longrightarrow> rel_option R (map_of xs k) (map_of ys k)"
  by (induction rule: list_all2_induct) auto

lemma insert_secret_Ok:
  assumes "insert_secret label val (w, s) = (Ok i, w', s')"
  shows "\<exists>x. ss_id x = i \<and> ss_label x = label \<and> ss_value x = val \<and> map_of (wd_secrets (wl_data w)) i = None \<and>
    w' = w\<lparr>wl_data := (wl_data w)\<lparr>wd_secrets := bt_insert i x (wd_secrets (wl_data w))\<rparr>\<rparr>"
proof -
  obtain d t st where st: "store_insert (wd_secrets (wl_data w)) d label val t = Ok (i, st)"
      "w' = w\<lparr>wl_data := (wl_data w)\<lparr>wd_secrets := st\<rparr>\<rparr>"
    using assms by (auto simp: insert_secret_def Let_def split: prod.splits result.splits)
  then obtain x where "secret_generate d label val t = Ok x" "insert_sealed (wd_secrets (wl_data w)) x = Ok st" "ss_id x = i"
    by (auto simp: store_insert_def result_simps)
  with st(2) show ?thesis by (auto simp: secret_generate_def insert_sealed_def result_simps split: if_splits)
qed

text \<open>An insertion into a loaded wallet, saved and loaded again with the cached key.\<close>

lemma inserted_secret_loads:
  assumes "basic_app h A" and "store_inv (wd_secrets (wl_data w))"
    and "insert_secret label val (w, t) = (Ok i, w1, t')" and "savable h A (wl_data w1)"
    and "path_file_name (wl_path w) = Some n" and "is_new \<or> length (wl_salt w) = 32"
    and "save_with_provider A is_new (w1, provider, s1) = (Ok (), w2, provider', s2)"
    and "\<not> os_fault s2 (ReadFile (node_key (wl_path w)))"
    and "get_key (ap_ext A) provider' s2 = Ok (Some (wl_key w2))"
  shows "wallet_secret w i = None \<and>
    (\<exists>v. load_with_provider A (Some (wl_path w)) (provider', s2) = (Ok v, provider', s2) \<and>
      (\<exists>x. wallet_secret v i = Some x \<and> ss_id x = i \<and> ss_label x = label \<and> ss_value x = val) \<and>
      (\<forall>j. j \<noteq> i \<longrightarrow> rel_option same_secret (wallet_secret w j) (wallet_secret v j)))"
proof -
  obtain x where x: "ss_id x = i" "ss_label x = label" "ss_value x = val" "map_of (wd_secrets (wl_data w)) i = None"
      "w1 = w\<lparr>wl_data := (wl_data w)\<lparr>wd_secrets := bt_insert i x (wd_secrets (wl_data w))\<rparr>\<rparr>"
    using insert_secret_Ok [OF assms(3)] by blast
  have w1: "wl_path w1 = wl_path w" "wl_salt w1 = wl_salt w" using x(5) by simp_all
  obtain v where v: "load_with_provider A (Some (wl_path w)) (provider', s2) = (Ok v, provider', s2)"
      "same_wallet same_identity (wl_data w1) (wl_data v)"
    using saved_wallet_loads [OF assms(1,4) _ _ assms(7)] assms(5,6,8,9) w1 by auto
  have srt: "sorted (map fst (wd_secrets (wl_data w)))" using assms(2) by (simp add: store_inv_def sorted_entries_def)
  have rel: "rel_option same_secret (((map_of (wd_secrets (wl_data w)))(i \<mapsto> x)) j) (wallet_secret v j)" for j
  proof -
    have "list_all2 (\<lambda>(n, s) (m, t). n = m \<and> same_secret s t) (bt_insert i x (wd_secrets (wl_data w))) (wd_secrets (wl_data v))"
      using v(2) x(5) by (simp add: same_wallet_def)
    from list_all2_lookup [OF this, of j] show ?thesis by (simp only: map_of_bt_insert [OF srt] wallet_secret_def store_get_def)
  qed
  have "\<exists>y. wallet_secret v i = Some y \<and> same_secret x y" using rel [of i] by (auto simp: option_rel_Some1)
  then have "\<exists>y. wallet_secret v i = Some y \<and> ss_id y = i \<and> ss_label y = label \<and> ss_value y = val"
    using x(1-3) by (auto simp: same_secret_def)
  moreover have "rel_option same_secret (wallet_secret w j) (wallet_secret v j)" if "j \<noteq> i" for j
    using rel [of j] that by (simp add: wallet_secret_def store_get_def)
  moreover have "wallet_secret w i = None" using x(4) by (simp add: wallet_secret_def store_get_def)
  ultimately show ?thesis using v(1) by blast
qed

text \<open>
  C22. A secret that is put into a wallet is there in the next session: after a save and a load with the cached key it is
  found under the id that was returned, with its label and value, the id was new, and every other secret is what it was
  before (up to the order of its unknown assertions).
\<close>

theorem stored_secret_survives:
  assumes "basic_app h A" and "store_inv (wd_secrets (wl_data w))"
    and "insert_secret label val (w, s) = (Ok i, w1, s1)" and "savable h A (wl_data w1)"
    and "path_file_name (wl_path w) = Some n" and "is_new \<or> length (wl_salt w) = 32"
    and "save_with_provider A is_new (w1, provider, s1) = (Ok (), w2, provider', s2)"
    and "\<not> os_fault s2 (ReadFile (node_key (wl_path w)))"
    and "get_key (ap_ext A) provider' s2 = Ok (Some (wl_key w2))"
  shows "wallet_secret w i = None \<and>
    (\<exists>v. load_with_provider A (Some (wl_path w)) (provider', s2) = (Ok v, provider', s2) \<and>
      (\<exists>x. wallet_secret v i = Some x \<and> ss_id x = i \<and> ss_label x = label \<and> ss_value x = val) \<and>
      (\<forall>j. j \<noteq> i \<longrightarrow> rel_option same_secret (wallet_secret w j) (wallet_secret v j)))"
  using inserted_secret_loads [OF assms] .

text \<open>What an insertion leaves of the world, and one session's insertion saved and loaded on a disk that can be written.\<close>

lemma insert_secret_world:
  assumes "insert_secret label val (w, s) = (r, w', s')"
  shows "same_disk s s' \<and> os_outside s' = os_outside s"
proof -
  obtain a s1 where f: "fill_bytes 16 s = (a, s1)" by fastforce
  obtain b s2 where g: "fill_bytes 32 s1 = (b, s2)" by fastforce
  have "s' = s \<or> s' = s2" using assms f g by (auto simp: insert_secret_def Let_def split: result.splits if_splits)
  then show ?thesis
  proof
    assume "s' = s2"
    with fill_bytes_disk [OF f] fill_bytes_disk [OF g] same_disk_trans show ?thesis by fastforce
  qed simp
qed

lemma same_world_caches: "same_disk s s' \<Longrightarrow> os_outside s' = os_outside s \<Longrightarrow> same_caches X s s'"
  by (rule same_cachesI) (simp_all add: same_disk_def)

lemma same_disk_writable: "same_disk s s' \<Longrightarrow> writable p s' = writable p s"
  by (simp add: same_disk_def writable_def is_directory_def)

lemma inserted_secret_saves:
  assumes "basic_app h A" and "store_inv (wd_secrets (wl_data w))" and "length (wl_salt w) = 32"
    and "insert_secret label val (w, t) = (Ok i, w1, t')" and "savable h A (wl_data w1)"
    and "\<And>nonce. is_ok (app_encrypt A (wl_data w1) (wl_key w) (wl_salt w) nonce)"
    and "path_file_name (wl_path w) = Some n" and "writable (wl_path w) s" and "get_key (ap_ext A) provider s = Ok (Some (wl_key w))"
  shows "\<exists>s' v. save_with_provider A False (w1, provider, s) = (Ok (), w1, provider, s') \<and>
    load_with_provider A (Some (wl_path w)) (provider, s') = (Ok v, provider, s') \<and>
    wallet_secret v i \<noteq> None \<and> (\<forall>j. j \<noteq> i \<longrightarrow> rel_option same_secret (wallet_secret w j) (wallet_secret v j)) \<and>
    writable (wl_path w) s' \<and> same_caches (ap_ext A) s s'"
proof -
  let ?p = "wl_path w"
  have w1: "wl_path w1 = ?p" "wl_salt w1 = wl_salt w" "wl_key w1 = wl_key w" using insert_secret_Ok [OF assms(4)] by auto
  obtain m bs where wr: "write_wallet A w1 s = (Ok (), (snd (fill_bytes 24 s))
      \<lparr>os_nodes := (os_nodes s)(tmp_key ?p := None, node_key ?p \<mapsto> File m bs)\<rparr>)" (is "_ = (_, ?s)")
    using write_wallet_goes_through [of w1 n s A] assms(6-8) w1 by auto
  have sv: "save_with_provider A False (w1, provider, s) = (Ok (), w1, provider, ?s)" using wr by (simp add: save_with_provider_def)
  have frame: "os_env ?s = os_env s" "os_fault ?s = os_fault s" "os_outside ?s = os_outside s" by (simp_all add: fill_bytes_def)
  have caches: "same_caches (ap_ext A) s ?s" by (rule same_cachesI) (simp_all add: frame)
  have wr': "writable ?p ?s" by (rule still_writable [OF assms(7,8)]) (simp_all add: frame)
  then have rd: "\<not> os_fault ?s (ReadFile (node_key ?p))" by (simp add: writable_def)
  have "get_key (ap_ext A) provider ?s = Ok (Some (wl_key w1))" using caches assms(9) w1(3) by (simp add: same_caches_def)
  from inserted_secret_loads [OF assms(1,2,4,5,7) _ sv rd this] assms(3) sv wr' caches show ?thesis by blast
qed

text \<open>
  C24. Two sessions on one wallet lose a change, because a save writes the whole wallet and nothing tells a session that
  the file is newer than what it loaded. On a disk where nothing fails, with the key of the wallet cached: both sessions load the
  wallet, both put a secret in, the first saves, and a load then finds its secret; the second saves as well, also with \<open>Ok\<close>, and
  from then on a load finds the secret of the second and not that of the first.
\<close>

theorem second_save_loses_the_first:
  assumes "basic_app h A" and "path_file_name p = Some n" and "writable p s"
    and "os_nodes s (node_key p) = Some (File m bs)" and "extract_salt bs (ap_params A) = Ok salt"
    and "get_key (ap_ext A) provider s = Ok (Some key)" and "app_decrypt A bs key = Ok data"
    and "w = from_parts data p key salt"
    and "insert_secret label1 val1 (w, s) = (Ok i, w1, s1)" and "insert_secret label2 val2 (w, s1) = (Ok j, w2, s2)" and "i \<noteq> j"
    and "savable h A (wl_data w1)" and "\<And>nonce. is_ok (app_encrypt A (wl_data w1) key salt nonce)"
    and "savable h A (wl_data w2)" and "\<And>nonce. is_ok (app_encrypt A (wl_data w2) key salt nonce)"
  shows "load_with_provider A (Some p) (provider, s) = (Ok w, provider, s) \<and>
    load_with_provider A (Some p) (provider, s1) = (Ok w, provider, s1) \<and>
    (\<exists>s3 s4 v1 v2.
      save_with_provider A False (w1, provider, s2) = (Ok (), w1, provider, s3) \<and>
      load_with_provider A (Some p) (provider, s3) = (Ok v1, provider, s3) \<and> wallet_secret v1 i \<noteq> None \<and>
      save_with_provider A False (w2, provider, s3) = (Ok (), w2, provider, s4) \<and>
      load_with_provider A (Some p) (provider, s4) = (Ok v2, provider, s4) \<and>
      wallet_secret v2 i = None \<and> wallet_secret v2 j \<noteq> None)"
proof -
  have w: "wl_data w = data" "wl_path w = p" "wl_key w = key" "wl_salt w = salt" using assms(8) by (simp_all add: from_parts_def)
  have inv: "store_inv (wd_secrets (wl_data w))" "length (wl_salt w) = 32"
    using app_decrypt_typed [OF assms(7)] extract_salt_length [OF assms(5)] w by simp_all
  have d1: "same_disk s s1" "os_outside s1 = os_outside s" and d2: "same_disk s s2" "os_outside s2 = os_outside s"
    using insert_secret_world [OF assms(9)] insert_secret_world [OF assms(10)] same_disk_trans by auto
  have loads: "load_with_provider A (Some p) (provider, t) = (Ok w, provider, t)"
    if "same_disk s t" "os_outside t = os_outside s" for t
  proof -
    have "get_key (ap_ext A) provider t = Ok (Some key)" using same_world_caches [OF that] assms(6) by (simp add: same_caches_def)
    moreover have "os_nodes t (node_key p) = Some (File m bs)" "\<not> os_fault t (ReadFile (node_key p))"
      using that(1) assms(3,4) by (simp_all add: same_disk_def writable_def)
    ultimately show ?thesis using load_cached [of t p m bs A salt provider key data] assms(5,7,8) by (simp add: from_parts_def)
  qed
  have "writable p s2" "get_key (ap_ext A) provider s2 = Ok (Some key)"
    using same_disk_writable [OF d2(1)] same_world_caches [OF d2] assms(3,6) by (simp_all add: same_caches_def)
  then obtain s3 v1 where first: "save_with_provider A False (w1, provider, s2) = (Ok (), w1, provider, s3)"
      "load_with_provider A (Some p) (provider, s3) = (Ok v1, provider, s3)" "wallet_secret v1 i \<noteq> None"
      "writable p s3" "get_key (ap_ext A) provider s3 = Ok (Some key)"
    using inserted_secret_saves [OF assms(1) inv assms(9,12), of n s2 provider] assms(2,13) w by (auto simp: same_caches_def)
  then obtain s4 v2 where second: "save_with_provider A False (w2, provider, s3) = (Ok (), w2, provider, s4)"
      "load_with_provider A (Some p) (provider, s4) = (Ok v2, provider, s4)" "wallet_secret v2 j \<noteq> None"
      "rel_option same_secret (wallet_secret w i) (wallet_secret v2 i)"
    using inserted_secret_saves [OF assms(1) inv assms(10,14), of n s3 provider] assms(2,11,15) w by auto
  have "wallet_secret w i = None" using insert_secret_Ok [OF assms(9)] by (auto simp: wallet_secret_def store_get_def)
  with second(4) have "wallet_secret v2 i = None" by simp
  with first second loads [of s] loads [OF d1] show ?thesis by simp
qed

section \<open>Failed saves\<close>

text \<open>
  C23. A save that fails loses nothing. Whichever call failed, a session that has only the password of the wallet
  opens the file as before and gets the same wallet, also when the failed save had asked for a new password
  and cached the new key.
\<close>

theorem failed_save_keeps_the_wallet:
  assumes "save_with_provider A is_new (w, provider, s) = (Err e, w', provider', s')"
    and "path_file_name (wl_path w) = Some n" and "path_exists s (wl_path w)"
    and "env_value s (wp_env_password (ap_params A)) = Some pw"
    and "load_with_provider A (Some (wl_path w)) (memory_new, s) = (Ok v, q, t)"
  shows "\<exists>q' t'. load_with_provider A (Some (wl_path w)) (memory_new, s') = (Ok v, q', t')"
proof -
  let ?p = "wl_path w"
  have keep: "os_env s' = os_env s" "os_fault s' = os_fault s" "os_nodes s' (node_key ?p) = os_nodes s (node_key ?p)"
    using save_effect(1) [OF assms(1,2)] by simp_all
  have none: "cached_wallet A memory_new bs u = None" for bs u by (simp add: cached_wallet_def memory_new_def)
  from load_existing [OF assms(5,3)] none obtain m bs salt ru where f: "os_nodes s (node_key ?p) = Some (File m bs)"
      "extract_salt bs (ap_params A) = Ok salt" "unlock_wallet A bs salt (memory_new, s) = (ru, q, t)"
      "Ok v = bind ru (\<lambda>(data, key). Ok \<lparr>wl_data = data, wl_path = ?p, wl_key = key, wl_salt = salt\<rparr>)"
    by auto
  then obtain data key where v: "ru = Ok (data, key)" "v = \<lparr>wl_data = data, wl_path = ?p, wl_key = key, wl_salt = salt\<rparr>"
    by (cases ru) auto
  have k: "derive_key (ap_crypto A) pw salt = Ok key" "app_decrypt A bs key = Ok data"
    using f(3) v(1) assms(4)
    by (auto simp: unlock_wallet_def get_password_def result_simps then_io_def split: result.splits)
  have rd: "\<not> os_fault s (ReadFile (node_key ?p))"
    using assms(3,5) by (auto simp: load_with_provider_def resolve_path_def fs_read_def)
  have "env_value s' (wp_env_password (ap_params A)) = Some pw" using assms(4) keep(1) by (simp add: env_value_def)
  from load_by_password [of s' ?p m bs A salt memory_new, OF _ _ f(2) none this k] f(1) rd keep(2,3) v(2)
  show ?thesis by (cases "snd (store_key (ap_ext A) memory_new key s')") simp
qed

section \<open>The properties at concrete inputs\<close>

definition token_secret :: "u8 \<Rightarrow> toy_env sealed_secret" where
  "token_secret b = \<lparr>ss_id = hex_id (replicate 16 b), ss_label = ''t'', ss_created_at = 9, ss_salt = replicate 32 b,
    ss_value = [1, 2], ss_unknown = []\<rparr>"

lemma token_wallet_savable: "savable toy_hash (toy_app target) (wallet_data_new\<lparr>wd_secrets := [(ss_id (token_secret b), token_secret b)]\<rparr>)"
proof -
  have "secret_ok (token_secret b)"
    by (simp add: secret_ok_def token_secret_def hex_id_path_safe check_label_def check_value_def MAX_VALUE_LEN_def)
  moreover have "secret_digests_ok toy_gordian (token_secret b)"
    by (simp add: secret_digests_ok_def secret_assertions_def distinct_assertions_def KNOWN_def known_digests_def token_secret_def)
  ultimately have "wallet_ok toy_gordian (basic_ok toy_hash toy_gordian ascii_ext)
      (wallet_data_new\<lparr>wd_secrets := [(ss_id (token_secret b), token_secret b)]\<rparr>)"
    using toy_gordian_ok
    by (simp add: wallet_ok_def wallet_data_new_def sorted_entries_def store_inv_def)
  moreover have "wallet_digests_ok toy_gordian ascii_ext (identity_to_envelope toy_hash toy_gordian ascii_ext)
      (wallet_data_new\<lparr>wd_secrets := [(ss_id (token_secret b), token_secret b)]\<rparr>)"
    by (simp add: wallet_digests_ok_def wallet_data_new_def wallet_entries_def active_entries_def
        identity_entry_def secret_entry_def distinct_assertions_def WALLET_PREDICATES_def known_digests_def Let_def)
  ultimately show ?thesis by (simp add: savable_def toy_gordian_def split: result.split)
qed

theorem stored_secret_survives_witness:
  "\<exists>p s v. load_with_provider (toy_app Linux) (Some ''w'') (p, s) = (Ok v, p, s) \<and>
    (\<exists>x. wallet_secret v (ss_id (token_secret 7)) = Some x \<and> ss_label x = ''t'' \<and> ss_value x = [1, 2])"
proof -
  let ?w = "from_parts wallet_data_new ''w'' (replicate 32 5) (replicate 32 6) :: (toy_env basic_identity, toy_env) wallet"
  let ?s = "toy_os (\<lambda>_. NotPresent) (\<lambda>_. None)" and ?p = "memory_with_key (replicate 32 5)"
  let ?w1 = "?w\<lparr>wl_data := wallet_data_new\<lparr>wd_secrets := [(ss_id (token_secret 7), token_secret 7)]\<rparr>\<rparr>"
  obtain s1 where s1: "insert_secret ''t'' [1, 2] (?w, ?s) = (Ok (ss_id (token_secret 7)), ?w1, s1)" "same_disk ?s s1"
    by (simp add: insert_secret_def from_parts_def toy_os_def fill_bytes_def store_insert_def secret_generate_def insert_sealed_def
        check_label_def check_value_def MAX_VALUE_LEN_def token_secret_def wallet_data_new_def store_new_def map_replicate_const same_disk_def)
  have d: "os_fault s1 = (\<lambda>_. False)" "os_nodes s1 = (\<lambda>_. None)" using s1(2) by (simp_all add: same_disk_def)
  obtain w2 p2 s2 where sv: "save_with_provider (toy_app Linux) False (?w1, ?p, s1) = (Ok (), w2, p2, s2)"
    using plain_save [OF d, of ?w1 Linux False "''x''" ?p] token_wallet_savable by (auto simp: from_parts_def)
  have n: "path_file_name (wl_path ?w1) = Some ''w''" by (simp add: from_parts_def plain_file_name)
  have e: "w2 = ?w1" "p2 = ?p" "os_fault s2 = (\<lambda>_. False)" using save_effect(1,2) [OF sv n] d(1) by simp_all
  have "store_inv (wd_secrets (wl_data ?w))" by (simp add: from_parts_def wallet_data_new_def store_new_inv)
  from stored_secret_survives [OF toy_basic_app this s1(1) _ _ _ sv, of "''w''"] e n token_wallet_savable
  show ?thesis by (auto simp: from_parts_def memory_with_key_def)
qed

lemma plain_write_wallet:
  assumes "os_fault s = (\<lambda>_. False)" and "os_nodes s [Normal ''w''] \<noteq> Some Directory" and "os_nodes s [Normal ''.w.tmp''] = None"
    and "wl_path v = ''w''" and "savable toy_hash (toy_app target) (wl_data v)"
  shows "\<exists>m bs. write_wallet (toy_app target) v s =
    (Ok (), (snd (fill_bytes 24 s))\<lparr>os_nodes := (os_nodes s)([Normal ''.w.tmp''] := None, [Normal ''w''] \<mapsto> File m bs)\<rparr>)"
proof -
  obtain nonce t where f: "fill_bytes 24 s = (nonce, t)" by fastforce
  have t: "os_fault t = (\<lambda>_. False)" "os_nodes t = os_nodes s" using fill_bytes_disk [OF f] assms(1) by (simp_all add: same_disk_def)
  obtain bs where "app_encrypt (toy_app target) (wl_data v) (wl_key v) (wl_salt v) nonce = Ok bs"
    using savable_encrypts [OF assms(5)] by blast
  moreover have "write_secret_file (toy_ext target) ''w'' bs t =
      (Ok (), t\<lparr>os_nodes := (os_nodes s)([Normal ''.w.tmp''] := None, [Normal ''w''] \<mapsto> File (secret_mode (toy_ext target) t) bs)\<rparr>)"
    using t assms(2,3)
    by (simp add: write_secret_file_def plain_file_name plain_tmp_key open_truncate_def is_directory_def write_all_def
        put_contents_def sync_all_def fs_rename_def fun_upd_twist)
  ultimately have "write_wallet (toy_app target) v s =
      (Ok (), t\<lparr>os_nodes := (os_nodes s)([Normal ''.w.tmp''] := None, [Normal ''w''] \<mapsto> File (secret_mode (toy_ext target) t) bs)\<rparr>)"
    using f assms(4) by (simp add: write_wallet_def plain_file_name create_dir_all_def node_key_def path_components_def)
  with f show ?thesis by auto
qed

lemma token_inserted:
  assumes "\<And>i. i < 48 \<Longrightarrow> os_rng s i = b" and "os_clock s = Some 9" and "wl_data w = wallet_data_new"
  shows "insert_secret ''t'' [1, 2] (w, s) =
    (Ok (ss_id (token_secret b)), w\<lparr>wl_data := wallet_data_new\<lparr>wd_secrets := [(ss_id (token_secret b), token_secret b)]\<rparr>\<rparr>,
      s\<lparr>os_rng := \<lambda>i. os_rng s (i + 48)\<rparr>)"
proof -
  have "map (os_rng s) [0..<16] = replicate 16 b" "map (\<lambda>i. os_rng s (i + 16)) [0..<32] = replicate 32 b"
    using assms(1) by (auto intro!: nth_equalityI)
  then show ?thesis
    using assms(2,3)
    by (simp add: insert_secret_def fill_bytes_def store_insert_def secret_generate_def insert_sealed_def
        check_label_def check_value_def MAX_VALUE_LEN_def token_secret_def wallet_data_new_def store_new_def add.assoc)
qed

lemma empty_savable: "savable toy_hash (toy_app target) (wallet_data_new :: (toy_env basic_identity, toy_env) wallet_data)"
proof -
  have "wallet_ok toy_gordian (basic_ok toy_hash toy_gordian ascii_ext) (wallet_data_new :: (toy_env basic_identity, toy_env) wallet_data)"
    using toy_gordian_ok by (simp add: wallet_ok_def wallet_data_new_def sorted_entries_def store_inv_def store_new_def)
  moreover have "wallet_digests_ok toy_gordian ascii_ext (identity_to_envelope toy_hash toy_gordian ascii_ext)
      (wallet_data_new :: (toy_env basic_identity, toy_env) wallet_data)"
    by (simp add: wallet_digests_ok_def wallet_data_new_def wallet_entries_def active_entries_def store_new_def
        identity_entry_def secret_entry_def distinct_assertions_def WALLET_PREDICATES_def known_digests_def Let_def)
  ultimately show ?thesis by (simp add: savable_def toy_gordian_def split: result.split)
qed

text \<open>A disk with the file of an empty wallet, written under a known key.\<close>

lemma empty_wallet_file:
  obtains s :: "toy_service os" and m bs where "writable ''w'' s" "os_nodes s [Normal ''w''] = Some (File m bs)" "os_clock s = Some 9"
    "\<And>i. os_rng s i = (if i < 48 then 7 else 8)" "extract_salt bs IDENTIKEY_PARAMS = Ok (replicate 32 6)"
    "app_decrypt (toy_app Linux) bs (replicate 32 5) = Ok wallet_data_new"
proof -
  let ?w = "from_parts wallet_data_new ''w'' (replicate 32 5) (replicate 32 6) :: (toy_env basic_identity, toy_env) wallet"
  let ?s = "toy_os (\<lambda>_. NotPresent) (\<lambda>_. None)\<lparr>os_rng := \<lambda>i. if i < 72 then 7 else 8\<rparr>"
  have "\<exists>m bs. write_wallet (toy_app Linux) ?w ?s = (Ok (),
      (snd (fill_bytes 24 ?s))\<lparr>os_nodes := (os_nodes ?s)([Normal ''.w.tmp''] := None, [Normal ''w''] \<mapsto> File m bs)\<rparr>)"
    by (rule plain_write_wallet) (simp_all add: from_parts_def empty_savable)
  then obtain m bs where wr: "write_wallet (toy_app Linux) ?w ?s = (Ok (),
      (snd (fill_bytes 24 ?s))\<lparr>os_nodes := (os_nodes ?s)([Normal ''.w.tmp''] := None, [Normal ''w''] \<mapsto> File m bs)\<rparr>)" by blast
  let ?t = "(snd (fill_bytes 24 ?s))\<lparr>os_nodes := (os_nodes ?s)([Normal ''.w.tmp''] := None, [Normal ''w''] \<mapsto> File m bs)\<rparr>"
  have "path_file_name (wl_path ?w) = Some ''w''" by (simp add: from_parts_def plain_file_name)
  from write_wallet_effect [OF wr this] obtain nonce where e: "length nonce = 24"
      "app_encrypt (toy_app Linux) wallet_data_new (replicate 32 5) (replicate 32 6) nonce = Ok bs"
    by (auto simp: from_parts_def plain_file_name)
  obtain v where v: "extract_salt bs IDENTIKEY_PARAMS = Ok (replicate 32 6)" "app_decrypt (toy_app Linux) bs (replicate 32 5) = Ok v"
      "same_wallet same_identity wallet_data_new v"
    using encrypted_opens [OF toy_basic_app empty_savable _ e] by auto
  have "v = wallet_data_new" using v(3) by (cases v) (simp add: same_wallet_def wallet_data_new_def store_new_def)
  with v show thesis
    by (intro that [of ?t m bs]) (simp_all add: fill_bytes_def toy_os_def writable_def plain_file_name is_directory_def)
qed

theorem second_save_loses_the_first_witness:
  "\<exists>(w :: (toy_env basic_identity, toy_env) wallet) p s s4 v. load_with_provider (toy_app Linux) (Some ''w'') (p, s) = (Ok w, p, s) \<and>
    load_with_provider (toy_app Linux) (Some ''w'') (p, s4) = (Ok v, p, s4) \<and>
    wallet_secret v (ss_id (token_secret 7)) = None \<and> wallet_secret v (ss_id (token_secret 8)) \<noteq> None"
proof -
  obtain s :: "toy_service os" and m bs where s: "writable ''w'' s" "os_nodes s [Normal ''w''] = Some (File m bs)" "os_clock s = Some 9"
      "\<And>i. os_rng s i = (if i < 48 then 7 else 8)" "extract_salt bs IDENTIKEY_PARAMS = Ok (replicate 32 6)"
      "app_decrypt (toy_app Linux) bs (replicate 32 5) = Ok wallet_data_new" by (rule empty_wallet_file) (rule that)
  let ?w = "from_parts wallet_data_new ''w'' (replicate 32 5) (replicate 32 6) :: (toy_env basic_identity, toy_env) wallet"
  let ?v = "\<lambda>b. ?w\<lparr>wl_data := wallet_data_new\<lparr>wd_secrets := [(ss_id (token_secret b), token_secret b)]\<rparr>\<rparr>"
  let ?p = "memory_with_key (replicate 32 5)" and ?s1 = "s\<lparr>os_rng := \<lambda>i. os_rng s (i + 48)\<rparr>"
  have w: "wl_data ?w = wallet_data_new" by (simp add: from_parts_def)
  have i1: "insert_secret ''t'' [1, 2] (?w, s) = (Ok (ss_id (token_secret 7)), ?v 7, ?s1)"
    using token_inserted [of s 7 ?w] w s(3,4) by simp
  have i2: "insert_secret ''t'' [1, 2] (?w, ?s1) = (Ok (ss_id (token_secret 8)), ?v 8, ?s1\<lparr>os_rng := \<lambda>i. os_rng ?s1 (i + 48)\<rparr>)"
    using token_inserted [of ?s1 8 ?w] w s(3,4) by simp
  have neq: "ss_id (token_secret 7) \<noteq> ss_id (token_secret 8)"
    using hex_id_inj [of "replicate 16 7" "replicate 16 8"] by (auto simp: token_secret_def)
  have sav: "savable toy_hash (toy_app Linux) (wl_data (?v b))" for b using token_wallet_savable by simp
  have enc: "is_ok (app_encrypt (toy_app Linux) (wl_data (?v b)) (replicate 32 5) (replicate 32 6) nonce)" for b nonce
    using savable_encrypts [OF sav, of b "replicate 32 5" "replicate 32 6" nonce] by (auto simp: is_ok_iff)
  have file_there: "os_nodes s (node_key ''w'') = Some (File m bs)" using s(2) by (simp add: plain_file_name)
  have salt: "extract_salt bs (ap_params (toy_app Linux)) = Ok (replicate 32 6)" using s(5) by simp
  have key: "get_key (ap_ext (toy_app Linux)) ?p s = Ok (Some (replicate 32 5))" by (simp add: memory_with_key_def)
  from second_save_loses_the_first [OF toy_basic_app plain_file_name(2) s(1) file_there salt key s(6) refl i1 i2 neq sav enc sav enc]
  show ?thesis by blast
qed

lemma toy_password_wallet:
  obtains s v q t where "os_env s = (\<lambda>_. EnvValue ''pass'')" "os_fault s = (\<lambda>_. False)" "path_exists s ''w''"
    "\<And>f. f (ReadFile [Normal ''w'']) = False \<Longrightarrow>
      \<exists>q t. load_with_provider (toy_app Linux) (Some ''w'') (memory_new, s\<lparr>os_fault := f\<rparr>) = (Ok v, q, t)"
    "wl_path v = ''w''"
proof -
  let ?w = "from_parts demo_wallet ''w'' (replicate 32 1) (replicate 32 6) :: (toy_env basic_identity, toy_env) wallet"
  let ?s = "toy_os (\<lambda>_. EnvValue ''pass'') (\<lambda>_. None)"
  obtain w' p' s where sv: "save_with_provider (toy_app Linux) False (?w, memory_new, ?s) = (Ok (), w', p', s)"
    using plain_save [of ?s ?w Linux False "''pass''" memory_new] demo_savable by (auto simp: from_parts_def)
  have n: "path_file_name (wl_path ?w) = Some ''w''" by (simp add: from_parts_def plain_file_name)
  note e = save_effect(1) [OF sv n] save_effect(2) [OF sv n]
  obtain m nonce bs where f: "length nonce = 24" "app_encrypt (toy_app Linux) demo_wallet (replicate 32 1) (replicate 32 6) nonce = Ok bs"
      "os_nodes s [Normal ''w''] = Some (File m bs)"
    using e by (auto simp: from_parts_def plain_file_name)
  obtain d where d: "extract_salt bs IDENTIKEY_PARAMS = Ok (replicate 32 6)" "app_decrypt (toy_app Linux) bs (replicate 32 1) = Ok d"
    using encrypted_opens [OF toy_basic_app demo_savable _ f(1,2)] by auto
  let ?v = "\<lparr>wl_data = d, wl_path = ''w'', wl_key = replicate 32 1, wl_salt = replicate 32 6\<rparr>
    :: (toy_env basic_identity, toy_env) wallet"
  have "\<exists>q t. load_with_provider (toy_app Linux) (Some ''w'') (memory_new, s\<lparr>os_fault := g\<rparr>) = (Ok ?v, q, t)"
    if "g (ReadFile [Normal ''w'']) = False" for g
  proof -
    have "load_with_provider (toy_app Linux) (Some ''w'') (memory_new, s\<lparr>os_fault := g\<rparr>) =
        (Ok ?v, snd (store_key (toy_ext Linux) memory_new (replicate 32 1) (s\<lparr>os_fault := g\<rparr>)))"
      using load_by_password [of "s\<lparr>os_fault := g\<rparr>" "''w''" m bs "toy_app Linux" "replicate 32 6" memory_new "''pass''" "replicate 32 1" d]
        f(3) d that e(1)
      by (simp add: plain_file_name cached_wallet_def memory_new_def env_value_def derive_key_def toy_wallet_crypto_def)
    then show ?thesis by (cases "snd (store_key (toy_ext Linux) memory_new (replicate 32 1) (s\<lparr>os_fault := g\<rparr>))") simp
  qed
  from that [OF _ _ _ this] e(1) f(3) path_exists_file [of s "''w''" m bs] show thesis by (simp add: plain_file_name)
qed

theorem failed_save_keeps_the_wallet_witness:
  "\<exists>v e w p s s' q t. save_with_provider (toy_app Linux) False (v, memory_new, s) = (Err e, w, p, s') \<and>
    load_with_provider (toy_app Linux) (Some ''w'') (memory_new, s') = (Ok v, q, t)"
proof -
  let ?f = "\<lambda>c. c = OpenFile [Normal ''.w.tmp'']"
  obtain s v where s: "os_env s = (\<lambda>_. EnvValue ''pass'')" "path_exists s ''w''" "wl_path v = ''w''"
      "\<And>f. f (ReadFile [Normal ''w'']) = False \<Longrightarrow>
        \<exists>q t. load_with_provider (toy_app Linux) (Some ''w'') (memory_new, s\<lparr>os_fault := f\<rparr>) = (Ok v, q, t)"
    using toy_password_wallet by metis
  let ?s = "s\<lparr>os_fault := ?f\<rparr>"
  obtain q t where ld: "load_with_provider (toy_app Linux) (Some ''w'') (memory_new, ?s) = (Ok v, q, t)"
    using s(4) [of ?f] by auto
  have blocked: "fst (write_wallet (toy_app Linux) v ?s) \<noteq> Ok ()"
  proof -
    obtain nonce t1 where f: "fill_bytes 24 ?s = (nonce, t1)" by fastforce
    have "os_fault t1 = ?f" using fill_bytes_disk [OF f] by (simp add: same_disk_def)
    then have "fst (write_secret_file (toy_ext Linux) ''w'' bs t1) = Err (IoFailed (OpenFile [Normal ''.w.tmp'']))" for bs
      by (simp add: write_secret_file_def plain_file_name plain_tmp_key open_truncate_def io_fail_def Let_def)
    then show ?thesis
      using f s(3)
      by (cases "app_encrypt (toy_app Linux) (wl_data v) (wl_key v) (wl_salt v) nonce")
        (simp_all add: write_wallet_def plain_file_name create_dir_all_def node_key_def path_components_def)
  qed
  obtain r s' where wr: "write_wallet (toy_app Linux) v ?s = (r, s')" by fastforce
  with blocked obtain e where "r = Err e" by (cases r) auto
  with wr have sv: "save_with_provider (toy_app Linux) False (v, memory_new, ?s) = (Err e, v, memory_new, s')"
    by (simp add: save_with_provider_def)
  have "path_exists ?s ''w''" using s(2) by (simp add: path_exists_def is_directory_def)
  moreover have "env_value ?s (wp_env_password (ap_params (toy_app Linux))) = Some ''pass''" using s(1) by (simp add: env_value_def)
  ultimately obtain q' t' where "load_with_provider (toy_app Linux) (Some ''w'') (memory_new, s') = (Ok v, q', t')"
    using failed_save_keeps_the_wallet [OF sv _ _ _, of "''w''" "''pass''" v q t] ld s(3) by (auto simp: plain_file_name)
  with sv show ?thesis by blast
qed

end
