(* ===== verification/Spec2Isabelle.thy ===== *)
theory Spec2Isabelle
  imports Auth_Cbor_Laws Attestation State_Chain Grant_Laws Admit Log_Laws Ikey_Laws Capability_Laws Enclave_Laws Writers Wallet_Life
begin

text \<open>
  \<^bold>\<open>IdentiKey protocol: a verification development.\<close>

  \<^bold>\<open>The program.\<close> The repository is a set of Rust crates for self-issued identities.
  \<open>identikey-auth\<close> answers login challenges with a classical and an optional post-quantum signature,
  attests node keys, and keeps the chain of state records by which an identity changes its keys.
  \<open>identikey-share\<close> encrypts a payload once and wraps its key to each recipient, hands a share on,
  and signs grants over it; its wire format is the vendored \<open>dcbor\<close>. \<open>identikey-secret\<close> keeps opaque
  secrets by id, \<open>identikey-wallet\<close> stores identities and those secrets in an encrypted file,
  \<open>identikey-log\<close> orders signed operations by a hybrid logical clock, \<open>identikey-admit\<close> decides whether
  a payload may wake a machine, \<open>identikey-capability\<close> issues tokens, and \<open>ikey\<close> is the command line.
  The crates meet in five places: everything that is signed is first encoded by one of the two CBOR
  codecs; the envelopes of secrets, identities, wallets and ops share one interface; the verifier of a login consumes a nonce of the store that the issuer filled; a grant
  refers to a share by the share's two commitments; and a command of \<open>ikey\<close> is a load, a change and a save of
  the wallet file, with the key in a cache of the operating system.

  \<^bold>\<open>Modelling.\<close> The model is a shallow embedding. Structures are records, enumerations are
  datatypes with the constructors of the source, \<open>u8\<close>, \<open>u32\<close> and \<open>u64\<close> are words of that width, text
  is a string of UTF-8 bytes, and a fallible function returns \<open>('e, 'a) result\<close> with the error of
  the source, in the order in which the source checks. Mutable state is passed and returned. An
  addition whose overflow depends on the build is an \<open>outcome\<close>, so that a panic is a value. Code of
  other crates (Blake3, Ed25519, P-256, ML-DSA, X25519, the AEAD, Unicode normalisation, floating
  point, JSON, Gordian envelopes, the Recrypt back end, the Biscuit library, keychains, hardware keys) is a record of functions; drawn random bytes and the clock
  are arguments, or fields of the record of the operating system that the wallet, the command line and the
  hardware signers pass through their calls. What is needed of such a function is a named hypothesis that holds of a concrete
  instance, and each theorem that has one has a witness on such an instance. Statements about
  hashes never assume that there is no collision: they say that otherwise two given strings collide.

  \<^bold>\<open>Theories.\<close>
  \<^item> \<open>Prelude\<close>: results, outcomes, 64-bit arithmetic, big-endian bytes, UTF-8, and the interfaces
    \<open>wire_codec\<close> and \<open>canonical_codec\<close> that the serialisable types are shown to satisfy.
  \<^item> \<open>Auth_Cbor\<close>, \<open>Auth_Cbor_Laws\<close>: \<open>auth/cbor.rs\<close> and \<open>error.rs\<close>. The decoder accepts exactly the
    canonical encodings.
  \<^item> \<open>Keys\<close>, \<open>Challenge\<close>, \<open>Signer\<close>: \<open>algorithm.rs\<close>, \<open>key.rs\<close>, \<open>challenge.rs\<close>, \<open>signer.rs\<close>: tagged keys and
    signatures, the signed payload, the software signer. All are canonical codecs.
  \<^item> \<open>Nonce\<close>, \<open>Verify\<close>: \<open>nonce.rs\<close> and \<open>verify.rs\<close>. The store as a state machine with its bound on
    uses, and the verifier: what an accepted response implies, that it cannot be replayed, that an
    honest login succeeds, and the overflow of the window check.
  \<^item> \<open>Attestation\<close>: \<open>attestation.rs\<close>.
  \<^item> \<open>Sha256\<close>: the digest in \<open>state.rs\<close>, equal to a transcription of FIPS 180-4 with its constants.
  \<^item> \<open>State\<close>, \<open>State_Laws\<close>, \<open>State_Chain\<close>: the rest of \<open>state.rs\<close>. The records with their strict
    decoder, and the machine that \<open>observe\<close> drives, with its reachable trusts and their invariant.
  \<^item> \<open>Dcbor\<close>, \<open>Dcbor_Laws\<close>: the part of \<open>vendor/dcbor\<close> that the shares use, with its round trip.
  \<^item> \<open>Wrap\<close>, \<open>Wrap_Laws\<close>: \<open>share/wrap.rs\<close> and \<open>error.rs\<close>: sealing a key to a recipient.
  \<^item> \<open>Share\<close>, \<open>Share_Laws\<close>, \<open>Share_Wire\<close>: \<open>share.rs\<close> and \<open>recrypt.rs\<close>: shares and the operations that
    derive one from another, with the back end's contract as the locale \<open>recrypt_backend\<close>.
  \<^item> \<open>Grant\<close>, \<open>Grant_Laws\<close>: \<open>grant.rs\<close>.
  \<^item> \<open>Secret\<close>: \<open>secret/record.rs\<close> and \<open>store.rs\<close>. The store refines a finite map, by the interface
    \<open>step_refinement\<close>.
  \<^item> \<open>Gordian\<close>: the interface to the envelopes of \<open>bc_envelope\<close>: a record of operations, their documented
    behaviour \<open>gordian_ok\<close>, what follows for envelopes built by additions, and an instance.
  \<^item> \<open>Secret_Codec\<close>, \<open>Identity\<close>: the envelopes of a secret (\<open>record.rs\<close>) and of an identity
    (\<open>wallet/basic.rs\<close>) with their round trips; the trait \<open>WalletIdentity\<close> is the locale \<open>wallet_identity\<close>.
  \<^item> \<open>Wallet\<close>, \<open>Wallet_Laws\<close>: \<open>wallet/envelope.rs\<close> and \<open>format.rs\<close>. The container is read back whatever
    the order of its assertions, and the file is opened by its password.
  \<^item> \<open>Base58\<close>: the base58 printer of \<open>wallet/basic.rs\<close>, with a reference decoder.
  \<^item> \<open>Os\<close>: paths, environment variables, files that can fail at every call, random bytes and the clock, as far
    as the program uses them.
  \<^item> \<open>Credential\<close>, \<open>Credential_Laws\<close>: \<open>wallet/credential.rs\<close>. The key caches and the choice between them; a cache
    is a single cell, by the interface \<open>key_cache\<close>, and two wallets do not share one.
  \<^item> \<open>Storage\<close>, \<open>Storage_Laws\<close>: \<open>wallet/storage.rs\<close>. Loading and saving wallets, the atomic replacement of the
    file, the keys that a load finds, derives and caches, when a save goes through, and what a session keeps well typed.
  \<^item> \<open>Writers\<close>: \<open>write_secret_file\<close> as a step relation, one call of the file system after the other, for any number of
    processes side by side. The function is one of its runs; processes that write different wallets leave each wallet
    whole at every moment, and two that write the same wallet can break it.
  \<^item> \<open>Wallet_Life\<close>: several calls in sequence: a stored secret is there in the next session, a failed save loses
    nothing, and of two sessions on one wallet the later save discards the change of the other.
  \<^item> \<open>Ikey\<close>, \<open>Identity_Book\<close>, \<open>Ikey_Laws\<close>: \<open>ikey/src/main.rs\<close>. \<open>Identity_Book\<close> is an abstract specification of the
    identity commands on a map of names, which uses none of the program's edits; each command carries out one of its steps.
  \<^item> \<open>Capability\<close>, \<open>Capability_Laws\<close>: the crate \<open>identikey-capability\<close>: fingerprints, commitments, tokens and
    the bearer header.
  \<^item> \<open>Enclave\<close>, \<open>Enclave_Laws\<close>: \<open>auth/enclave/linux.rs\<close>, \<open>windows.rs\<close> and \<open>macos.rs\<close>. The three hardware signers keep
    the contract \<open>signer\<close> of \<open>Signer\<close>; a login with a TPM succeeds, and the wrapped Ed25519 identity is loaded as it was created.
  \<^item> \<open>Hlc\<close>: \<open>log/hlc.rs\<close>, \<open>op.rs\<close> and \<open>error.rs\<close>.
  \<^item> \<open>Log_Codec\<close>, \<open>Log_Sign\<close>, \<open>Log_Laws\<close>: \<open>log/codec.rs\<close>, \<open>sign.rs\<close> and \<open>wasm.rs\<close>. A signed op verifies after a trip
    over the wire, with the content hash of its author.
  \<^item> \<open>Admit\<close>: the crate \<open>identikey-admit\<close>.
  \<^item> this theory: the separation of the messages that different protocols sign.

  \<^bold>\<open>Bounds and termination.\<close> No definition takes fuel. The recursive decoders are functions with a
  termination proof whose measure is the remaining input and, for the list readers, the number of
  items still to read; the carry loop of base58 and the trimming of text end because the carry and the text get
  smaller; for the former, running the loop round by round is shown to end with the model's digits. Every definition is total,
  so a statement that an operation succeeds says that it returns \<open>Ok\<close>.

  \<^bold>\<open>Envelopes.\<close> An envelope keeps its assertions in the order of their digests, so a decoder sees them
  in another order than the encoder wrote them. The round trips therefore speak of any order, and of
  the assertions the program does not know up to that order. They assume that no two digests of one
  envelope clash, since an assertion with a digest that is present is dropped, and that the envelope
  survives its own byte encoding, which belongs to the other crate.

  \<^bold>\<open>The operating system.\<close> A file is named by the components of its path; links, hard or symbolic, and the
  prefixes of Windows paths are left out, so two names are two files. Any call may fail, and a failed write leaves
  any prefix of the contents behind. What is written stays: a synchronisation can fail, but
  power loss and contents that never reach the disk are left out. Each call of the program runs alone, except in \<open>Writers\<close>, where the calls of several
  processes that write wallets are interleaved; other programs that change files during a call are left out.
  Messages of foreign errors inside an error are kept where the foreign call is a parameter, and dropped for the file system.

  \<^bold>\<open>Not modelled.\<close> The buffer that the WebAssembly host shares with the log is raw memory, and the re-exports and tests in the \<open>lib.rs\<close>
  files have no logic of their own. The Datalog engine of Biscuit, the parsing of command-line arguments and the generation of ML-DSA-87
  keys belong to other crates and are parameters. The vendored \<open>bc-shamir\<close> is called by none of the modelled crates; of
  \<open>dcbor\<close> only what the shares use is modelled. Warnings that are printed when a key cannot be cached,
  erasing memory, redacted printing and handles that leak on an error path have no counterpart in the model.
\<close>

text \<open>Each message begins with its own byte: an array of three, an array of two, or a letter.\<close>

lemma message_heads:
  "hd (signing_payload a) = 0x83" "hd (node_signing_payload b) = 0x83" "hd (state_signing_payload c) = 0x82"
  "hd (grant_message E g) = 0x69"
  by (simp_all add: signing_payload_def node_signing_payload_def state_signing_payload_def to_bytes_def
      encode_head_def grant_message_def GRANT_DOMAIN_def str_bytes_def byte_of_char_def)

lemma purposes_differ: "signing_payload a \<noteq> node_signing_payload b"
proof
  assume "signing_payload a = node_signing_payload b"
  then have "encode (Text PURPOSE_CHALLENGE) @ encode (Bytes a) = encode (Text PURPOSE_NODE) @ encode (Bytes b)"
    by (simp add: signing_payload_def node_signing_payload_def to_bytes_def)
  from encode_Text_inj [OF this] show False by (simp add: PURPOSE_CHALLENGE_def PURPOSE_NODE_def)
qed

text \<open>
  C39. What is signed for one purpose is never what is signed for another: the payloads of a login
  response, of a node attestation, of a state record and the message of a grant are pairwise
  different, whatever their contents.
\<close>

theorem signed_messages_disjoint:
  "signing_payload a \<noteq> node_signing_payload b \<and> signing_payload a \<noteq> state_signing_payload c \<and>
   node_signing_payload b \<noteq> state_signing_payload c \<and>
   grant_message E g \<notin> {signing_payload a, node_signing_payload b, state_signing_payload c}"
proof -
  have "signing_payload a \<noteq> state_signing_payload c" "node_signing_payload b \<noteq> state_signing_payload c"
    "grant_message E g \<noteq> signing_payload a" "grant_message E g \<noteq> node_signing_payload b"
    "grant_message E g \<noteq> state_signing_payload c"
    by (rule notI, drule arg_cong [where f = hd], simp add: message_heads)+
  then show ?thesis by (simp add: purposes_differ)
qed

end
